(* ===== verification/Prelude.thy ===== *)
theory Prelude imports Main "HOL-Library.Char_ord" "HOL-Library.List_Lexorder" begin

text \<open>
  What every component shares: results with errors as values, sequencing of effectful
  steps with Go's \<open>if err != nil\<close> returns, tables as lists of rows with partial unique
  indexes, and a rule for invariants of step systems.

  An effectful step takes a state and returns a result (\<open>Inl\<close> the error, \<open>Inr\<close> the
  value) with the new state. The lemmas in \<open>step_iffs\<close> turn an equation about the
  result of a composed step into equations about its parts, so that a proof about a
  handler is a case analysis over its early returns done by the simplifier.
\<close>

named_theorems step_iffs \<open>inversion of composed steps\<close>
named_theorems table_simps \<open>tables as lists of rows\<close>

section \<open>Steps with errors\<close>

type_synonym ('s, 'e, 'a) step = "'s \<Rightarrow> ('e + 'a) \<times> 's"

definition returnE :: "'a \<Rightarrow> ('s, 'e, 'a) step" where
  "returnE a s = (Inr a, s)"

definition throwE :: "'e \<Rightarrow> ('s, 'e, 'a) step" where
  "throwE e s = (Inl e, s)"

text \<open>\<open>x, err := m; if err != nil { return h(err) }; k(x)\<close>.\<close>

definition handleE :: "('s, 'e, 'a) step \<Rightarrow> ('e \<Rightarrow> ('s, 'f, 'b) step)
    \<Rightarrow> ('a \<Rightarrow> ('s, 'f, 'b) step) \<Rightarrow> ('s, 'f, 'b) step" where
  "handleE m h k s = (case m s of (Inl e, s1) \<Rightarrow> h e s1 | (Inr a, s1) \<Rightarrow> k a s1)"

text \<open>\<open>x, err := m; if err != nil { return err }; k(x)\<close>.\<close>

definition bindE :: "('s, 'e, 'a) step \<Rightarrow> ('a \<Rightarrow> ('s, 'e, 'b) step) \<Rightarrow> ('s, 'e, 'b) step" where
  "bindE m k s = (case m s of (Inl e, s1) \<Rightarrow> (Inl e, s1) | (Inr a, s1) \<Rightarrow> k a s1)"

text \<open>A guard: \<open>if b { return err }\<close>.\<close>

definition guardE :: "bool \<Rightarrow> 'e \<Rightarrow> ('s, 'e, unit) step" where
  "guardE b e s = (if b then (Inl e, s) else (Inr (), s))"

text \<open>A computation without effects.\<close>

definition liftE :: "'e + 'a \<Rightarrow> ('s, 'e, 'a) step" where
  "liftE r s = (r, s)"

text \<open>An error that is only logged.\<close>

definition ignoreE :: "('s, 'e, 'a) step \<Rightarrow> ('s, 'f, unit) step" where
  "ignoreE m s = (Inr (), snd (m s))"

text \<open>A step of one part of a state.\<close>

definition onFst :: "('s, 'e, 'a) step \<Rightarrow> ('s \<times> 't, 'e, 'a) step" where
  "onFst m s = (case m (fst s) of (r, s1) \<Rightarrow> (r, (s1, snd s)))"

definition onSnd :: "('s \<Rightarrow> 't \<Rightarrow> 'a \<times> 't) \<Rightarrow> ('s \<times> 't, 'e, 'a) step" where
  "onSnd f s = (case f (fst s) (snd s) of (a, t1) \<Rightarrow> (Inr a, (fst s, t1)))"

lemma onFst_iff [step_iffs]: "onFst m s = (r, s') \<longleftrightarrow> (\<exists>s1. m (fst s) = (r, s1) \<and> s' = (s1, snd s))"
  by (auto simp: onFst_def split: prod.splits)

lemma onSnd_iff [step_iffs]:
  "onSnd f s = (r, s') \<longleftrightarrow> (\<exists>a t1. f (fst s) (snd s) = (a, t1) \<and> r = Inr a \<and> s' = (fst s, t1))"
  by (auto simp: onSnd_def split: prod.splits)

lemma returnE_iff [step_iffs]: "returnE a s = (r, s') \<longleftrightarrow> r = Inr a \<and> s' = s"
  by (auto simp: returnE_def)

lemma throwE_iff [step_iffs]: "throwE e s = (r, s') \<longleftrightarrow> r = Inl e \<and> s' = s"
  by (auto simp: throwE_def)

lemma liftE_iff [step_iffs]: "liftE r s = (q, s') \<longleftrightarrow> q = r \<and> s' = s"
  by (auto simp: liftE_def)

lemma guardE_iff [step_iffs]:
  "guardE b e s = (Inr u, s') \<longleftrightarrow> \<not> b \<and> s' = s"
  "guardE b e s = (Inl x, s') \<longleftrightarrow> b \<and> x = e \<and> s' = s"
  by (auto simp: guardE_def)

lemma ignoreE_iff [step_iffs]:
  "ignoreE m s = (r, s') \<longleftrightarrow> r = Inr () \<and> (\<exists>q. m s = (q, s'))"
  by (cases "m s") (auto simp: ignoreE_def)

lemma handleE_iff [step_iffs]:
  "handleE m h k s = (r, s') \<longleftrightarrow>
     (\<exists>e s1. m s = (Inl e, s1) \<and> h e s1 = (r, s')) \<or>
     (\<exists>a s1. m s = (Inr a, s1) \<and> k a s1 = (r, s'))"
  by (auto simp: handleE_def split: prod.splits sum.splits)

lemma bindE_Inr_iff [step_iffs]:
  "bindE m k s = (Inr b, s') \<longleftrightarrow> (\<exists>a s1. m s = (Inr a, s1) \<and> k a s1 = (Inr b, s'))"
  by (auto simp: bindE_def split: prod.splits sum.splits)

lemma bindE_Inl_iff [step_iffs]:
  "bindE m k s = (Inl e, s') \<longleftrightarrow>
     m s = (Inl e, s') \<or> (\<exists>a s1. m s = (Inr a, s1) \<and> k a s1 = (Inl e, s'))"
  by (auto simp: bindE_def split: prod.splits sum.splits)

text \<open>A step keeps \<open>P\<close> when every outcome, an error too, is related to the start by \<open>P\<close>.\<close>

definition keeps :: "('s \<Rightarrow> 's \<Rightarrow> bool) \<Rightarrow> ('s, 'e, 'a) step \<Rightarrow> bool" where
  "keeps P m \<longleftrightarrow> (\<forall>s. P s (snd (m s)))"

lemma keepsD: "keeps P m \<Longrightarrow> m s = (r, s') \<Longrightarrow> P s s'"
  by (metis keeps_def snd_conv)

lemma keepsI: "(\<And>s r s'. m s = (r, s') \<Longrightarrow> P s s') \<Longrightarrow> keeps P m"
  by (metis keeps_def prod.collapse)

lemma keeps_basic:
  "reflp P \<Longrightarrow> keeps P (returnE a)" "reflp P \<Longrightarrow> keeps P (throwE e)"
  "reflp P \<Longrightarrow> keeps P (guardE b e)" "reflp P \<Longrightarrow> keeps P (liftE r)"
  by (auto simp: keeps_def returnE_def throwE_def guardE_def liftE_def reflp_def)

lemma keeps_handleE:
  assumes "transp P" "keeps P m" "\<And>e. keeps P (h e)" "\<And>a. keeps P (k a)"
  shows "keeps P (handleE m h k)"
  using assms by (fastforce intro!: keepsI dest: keepsD transpD simp: handleE_iff)

lemma keeps_bindE:
  assumes "transp P" "keeps P m" "\<And>a. keeps P (k a)"
  shows "keeps P (bindE m k)"
proof (rule keepsI)
  fix s r s' assume "bindE m k s = (r, s')"
  then show "P s s'"
    using assms by (cases r) (auto simp: step_iffs dest: keepsD transpD)
qed

lemma keeps_ignoreE: "keeps P m \<Longrightarrow> keeps P (ignoreE m)"
  by (simp add: keeps_def ignoreE_def)

section \<open>Tables as lists of rows\<close>

text \<open>
  A table is the list of its rows in insertion order. \<open>upd_where\<close> is UPDATE ... WHERE,
  \<open>del_where\<close> DELETE ... WHERE, \<open>count_where\<close> the number of rows affected, and
  \<open>uniq_on P k\<close> a unique index on \<open>k\<close> over the rows satisfying \<open>P\<close> (a partial index).
\<close>

definition upd_where :: "('r \<Rightarrow> bool) \<Rightarrow> ('r \<Rightarrow> 'r) \<Rightarrow> 'r list \<Rightarrow> 'r list" where
  "upd_where P f rs = map (\<lambda>r. if P r then f r else r) rs"

definition del_where :: "('r \<Rightarrow> bool) \<Rightarrow> 'r list \<Rightarrow> 'r list" where
  "del_where P rs = filter (\<lambda>r. \<not> P r) rs"

definition count_where :: "('r \<Rightarrow> bool) \<Rightarrow> 'r list \<Rightarrow> nat" where
  "count_where P rs = length (filter P rs)"

definition uniq_on :: "('r \<Rightarrow> bool) \<Rightarrow> ('r \<Rightarrow> 'k) \<Rightarrow> 'r list \<Rightarrow> bool" where
  "uniq_on P k rs \<longleftrightarrow> distinct (map k (filter P rs))"

text \<open>Would inserting \<open>r\<close> violate the index?\<close>

definition clashes :: "('r \<Rightarrow> bool) \<Rightarrow> ('r \<Rightarrow> 'k) \<Rightarrow> 'r \<Rightarrow> 'r list \<Rightarrow> bool" where
  "clashes P k r rs \<longleftrightarrow> P r \<and> (\<exists>x\<in>set rs. P x \<and> k x = k r)"

lemma set_upd_where [table_simps]:
  "set (upd_where P f rs) = f ` {r \<in> set rs. P r} \<union> {r \<in> set rs. \<not> P r}"
  by (auto simp: upd_where_def)

lemma set_del_where [table_simps]: "set (del_where P rs) = {r \<in> set rs. \<not> P r}"
  by (auto simp: del_where_def)

lemma length_upd_where [table_simps]: "length (upd_where P f rs) = length rs"
  by (simp add: upd_where_def)

lemma upd_where_Nil [table_simps]: "upd_where P f [] = []"
  by (simp add: upd_where_def)

lemma upd_where_append [table_simps]:
  "upd_where P f (rs @ qs) = upd_where P f rs @ upd_where P f qs"
  by (simp add: upd_where_def)

lemma count_where_0 [table_simps]: "count_where P rs = 0 \<longleftrightarrow> (\<forall>r\<in>set rs. \<not> P r)"
  by (auto simp: count_where_def filter_empty_conv)

lemma count_where_pos [table_simps]: "0 < count_where P rs \<longleftrightarrow> (\<exists>r\<in>set rs. P r)"
  by (auto simp: count_where_def filter_empty_conv)

lemma upd_where_none: "(\<And>r. r \<in> set rs \<Longrightarrow> \<not> P r) \<Longrightarrow> upd_where P f rs = rs"
  by (auto simp: upd_where_def intro: map_idI)

lemma map_upd_where: "(\<And>r. P r \<Longrightarrow> k (f r) = k r) \<Longrightarrow> map k (upd_where P f rs) = map k rs"
  by (simp add: upd_where_def)

lemma in_upd_where: "r \<in> set rs \<Longrightarrow> (if P r then f r else r) \<in> set (upd_where P f rs)"
  by (simp add: upd_where_def)

lemma key_upd_where: "(\<And>r. k (f r) = k r) \<Longrightarrow> k ` set (upd_where P f rs) = k ` set rs"
  by (simp add: map_upd_where flip: set_map)

lemma uniq_on_Nil [table_simps]: "uniq_on P k []"
  by (simp add: uniq_on_def)

lemma uniq_on_snoc [table_simps]:
  "uniq_on P k (rs @ [r]) \<longleftrightarrow> uniq_on P k rs \<and> \<not> clashes P k r rs"
  by (auto simp: uniq_on_def clashes_def image_iff)

lemma uniq_on_append:
  "uniq_on P k (rs @ qs) \<longleftrightarrow>
     uniq_on P k rs \<and> uniq_on P k qs \<and> k ` {r \<in> set rs. P r} \<inter> k ` {r \<in> set qs. P r} = {}"
  by (simp add: uniq_on_def)

lemma uniq_on_del_where: "uniq_on P k rs \<Longrightarrow> uniq_on P k (del_where Q rs)"
proof -
  have *: "filter P (del_where Q rs) = filter (\<lambda>r. \<not> Q r) (filter P rs)"
    by (simp add: del_where_def filter_filter conj_commute)
  assume "uniq_on P k rs"
  then show ?thesis
    unfolding uniq_on_def * by (rule distinct_map_filter)
qed

lemma uniq_onD: "uniq_on P k rs \<Longrightarrow> r \<in> set rs \<Longrightarrow> q \<in> set rs \<Longrightarrow> P r \<Longrightarrow> P q \<Longrightarrow> k r = k q \<Longrightarrow> r = q"
  by (auto simp: uniq_on_def distinct_map inj_on_def)

text \<open>An update that keeps the key, and never brings a row under the index.\<close>

lemma uniq_on_upd_where:
  assumes "uniq_on P k rs" "\<And>r. r \<in> set rs \<Longrightarrow> Q r \<Longrightarrow> P (f r) \<Longrightarrow> P r \<and> k (f r) = k r"
  shows "uniq_on P k (upd_where Q f rs)"
  using assms
proof (induction rs)
  case Nil
  then show ?case by (simp add: table_simps)
next
  case (Cons r rs)
  have key: "k ` {x \<in> set (upd_where Q f rs). P x} \<subseteq> k ` {x \<in> set rs. P x}"
    using Cons.prems(2) by (fastforce simp: table_simps image_iff)
  from Cons.prems(1) have u: "uniq_on P k rs" and "P r \<Longrightarrow> k r \<notin> k ` {x \<in> set rs. P x}"
    by (auto simp: uniq_on_def split: if_splits)
  moreover have "P (if Q r then f r else r) \<Longrightarrow> P r \<and> k (if Q r then f r else r) = k r"
    using Cons.prems(2)[of r] by (cases "Q r") simp_all
  ultimately have "P (if Q r then f r else r) \<Longrightarrow>
      k (if Q r then f r else r) \<notin> k ` {x \<in> set (upd_where Q f rs). P x}"
    using key by (metis subsetD)
  moreover have "uniq_on P k (upd_where Q f rs)"
    using Cons.IH u Cons.prems(2) by simp
  ultimately show ?case
    by (auto simp: uniq_on_def upd_where_def)
qed

lemma uniq_on_distinct: "uniq_on (\<lambda>_. True) k rs \<Longrightarrow> distinct rs"
  by (auto simp: uniq_on_def distinct_map)

lemma uniq_on_iff: "distinct rs \<Longrightarrow> uniq_on P k rs \<longleftrightarrow> inj_on k {r \<in> set rs. P r}"
  by (simp add: uniq_on_def distinct_map)

text \<open>Bringing one row under an index no other row of its key is under.\<close>

lemma uniq_on_promote:
  assumes "uniq_on (\<lambda>_. True) i rs" "uniq_on P k rs"
    "\<And>r. i (f r) = i r" "\<And>r. k (f r) = k r"
    "\<And>r q. r \<in> set rs \<Longrightarrow> q \<in> set rs \<Longrightarrow> i r = j \<Longrightarrow> i q \<noteq> j \<Longrightarrow> P q \<Longrightarrow> k q \<noteq> k r"
  shows "uniq_on P k (upd_where (\<lambda>r. i r = j) f rs)"
proof -
  have "uniq_on (\<lambda>_. True) i (upd_where (\<lambda>r. i r = j) f rs)"
    using assms(1,3) by (simp add: uniq_on_def map_upd_where)
  note iff = uniq_on_iff[OF uniq_on_distinct[OF this]]
  let ?g = "\<lambda>r. if i r = j then f r else r"
  have eq: "r = q" if "r \<in> set rs" "q \<in> set rs" "P (?g r)" "P (?g q)" "k r = k q" for r q
    using that assms(5)[of r q] assms(5)[of q r] uniq_onD[OF assms(1), of r q] uniq_onD[OF assms(2), of r q]
    by (cases "i r = j"; cases "i q = j") auto
  have kg: "k (?g r) = k r" for r using assms(4) by simp
  show ?thesis
    unfolding iff
  proof (rule inj_onI)
    fix x y assume xy: "x \<in> {r \<in> set (upd_where (\<lambda>r. i r = j) f rs). P r}"
      "y \<in> {r \<in> set (upd_where (\<lambda>r. i r = j) f rs). P r}" "k x = k y"
    then obtain r q where rq: "r \<in> set rs" "q \<in> set rs" "x = ?g r" "y = ?g q"
      unfolding upd_where_def set_map by blast
    show "x = y"
      unfolding rq(3,4) by (rule arg_cong[OF eq]) (use rq xy kg in auto)
  qed
qed

lemma find_None_iff2: "List.find P rs = None \<longleftrightarrow> (\<forall>r\<in>set rs. \<not> P r)"
  by (auto simp: find_None_iff)

lemma find_SomeD: "List.find P rs = Some r \<Longrightarrow> r \<in> set rs \<and> P r"
  by (auto simp: find_Some_iff)

lemma find_unique:
  "r \<in> set rs \<Longrightarrow> P r \<Longrightarrow> (\<And>q. q \<in> set rs \<Longrightarrow> P q \<Longrightarrow> q = r) \<Longrightarrow> List.find P rs = Some r"
  by (metis (full_types) find_None_iff2 find_SomeD not_None_eq)

section \<open>Systems of steps that keep an invariant\<close>

text \<open>
  The interface a component's operations share when they keep an invariant: whatever
  sequence of steps is run, in whatever order, the invariant holds at the end.
\<close>

locale step_system =
  fixes stp :: "'s \<Rightarrow> 's \<Rightarrow> bool"
    and inv :: "'s \<Rightarrow> bool"
  assumes stp_inv: "inv s \<Longrightarrow> stp s t \<Longrightarrow> inv t"
begin

lemma run_inv: "stp\<^sup>*\<^sup>* s t \<Longrightarrow> inv s \<Longrightarrow> inv t"
  by (induction rule: rtranclp_induct) (auto intro: stp_inv)

end

text \<open>The same for a relation between the state at two moments that never gets undone.\<close>

locale monotone_system = step_system +
  fixes later :: "'s \<Rightarrow> 's \<Rightarrow> bool"
  assumes later_refl: "later s s"
    and later_trans: "later s t \<Longrightarrow> later t u \<Longrightarrow> later s u"
    and stp_later: "inv s \<Longrightarrow> stp s t \<Longrightarrow> later s t"
begin

lemma run_later: "stp\<^sup>*\<^sup>* s t \<Longrightarrow> inv s \<Longrightarrow> later s t"
proof (induction rule: rtranclp_induct)
  case base
  show ?case by (rule later_refl)
next
  case (step t u)
  then have "inv t" by (blast intro: run_inv)
  with step show ?case by (blast intro: later_trans stp_later)
qed

end

end
