(* ===== verification/GoStrings.thy ===== *)
theory GoStrings imports Prelude begin

text \<open>
  Go strings are byte strings; a HOL \<open>char\<close> is a byte, so a Go string is a HOL \<open>string\<close>
  and \<open>length\<close> is Go's \<open>len\<close>. This theory holds what the program uses of the packages
  strings, unicode/utf8, strconv, encoding/hex and encoding/base64. \<open>to_lower\<close>,
  \<open>trim_space\<close> and \<open>equal_fold\<close> are exact on ASCII input, which is what addresses, domain
  names, slugs and header names are; bytes from 128 on are left alone, where Go would decode a
  rune and consult its Unicode tables.
\<close>

section \<open>Case and white space\<close>

definition lower_char :: "char \<Rightarrow> char" where
  "lower_char c = (if CHR ''A'' \<le> c \<and> c \<le> CHR ''Z'' then char_of (of_char c + 32 :: nat) else c)"

definition to_lower :: "string \<Rightarrow> string" where
  "to_lower s = map lower_char s"

definition equal_fold :: "string \<Rightarrow> string \<Rightarrow> bool" where
  "equal_fold s t \<longleftrightarrow> to_lower s = to_lower t"

definition is_space :: "char \<Rightarrow> bool" where
  "is_space c \<longleftrightarrow> of_char c \<in> {9, 10, 11, 12, 13, 32 :: nat}"

definition trim_left_by :: "(char \<Rightarrow> bool) \<Rightarrow> string \<Rightarrow> string" where
  "trim_left_by P s = dropWhile P s"

definition trim_by :: "(char \<Rightarrow> bool) \<Rightarrow> string \<Rightarrow> string" where
  "trim_by P s = rev (dropWhile P (rev (dropWhile P s)))"

definition trim_space :: "string \<Rightarrow> string" where
  "trim_space s = trim_by is_space s"

text \<open>\<open>strings.Trim(s, cutset)\<close>.\<close>

definition trim_chars :: "string \<Rightarrow> string \<Rightarrow> string" where
  "trim_chars s cs = trim_by (\<lambda>c. c \<in> set cs) s"

lemma lower_char_idem [simp]: "lower_char (lower_char c) = lower_char c"
  by (auto simp: lower_char_def less_eq_char_def)

lemma to_lower_idem [simp]: "to_lower (to_lower s) = to_lower s"
  by (simp add: to_lower_def comp_def)

lemma length_to_lower [simp]: "length (to_lower s) = length s"
  by (simp add: to_lower_def)

lemma to_lower_Nil_iff [simp]: "to_lower s = [] \<longleftrightarrow> s = []"
  by (simp add: to_lower_def)

lemma to_lower_append [simp]: "to_lower (s @ t) = to_lower s @ to_lower t"
  by (simp add: to_lower_def)

lemma equal_fold_refl [simp]: "equal_fold s s"
  by (simp add: equal_fold_def)

lemma is_space_lower [simp]: "is_space (lower_char c) = is_space c"
  by (auto simp: is_space_def lower_char_def less_eq_char_def)

lemma dropWhile_to_lower: "dropWhile is_space (to_lower s) = to_lower (dropWhile is_space s)"
  by (simp add: to_lower_def dropWhile_map comp_def)

lemma dropWhile_idem: "dropWhile P (dropWhile P s) = dropWhile P s"
  by (induction s) auto

lemma dropWhile_rev_fix:
  "dropWhile P s = s \<Longrightarrow> dropWhile P (rev (dropWhile P (rev s))) = rev (dropWhile P (rev s))"
proof -
  assume fixed: "dropWhile P s = s"
  let ?t = "rev (dropWhile P (rev s))"
  have "\<exists>u. s = ?t @ u"
    by (metis rev_append rev_rev_ident takeWhile_dropWhile_id)
  then obtain u where u: "s = ?t @ u" ..
  show ?thesis
  proof (cases ?t)
    case (Cons c cs)
    with u fixed have "\<not> P c"
      by (metis append_Cons dropWhile_eq_Cons_conv)
    with Cons show ?thesis by simp
  next
    case Nil
    then show ?thesis by (simp only: dropWhile.simps)
  qed
qed

lemma trim_by_idem [simp]: "trim_by P (trim_by P s) = trim_by P s"
  unfolding trim_by_def by (simp add: dropWhile_rev_fix dropWhile_idem)

lemma trim_space_idem [simp]: "trim_space (trim_space s) = trim_space s"
  by (simp add: trim_space_def)

lemma trim_space_lower: "trim_space (to_lower s) = to_lower (trim_space s)"
  unfolding trim_space_def trim_by_def
  by (metis dropWhile_to_lower rev_map to_lower_def)

section \<open>Searching and cutting\<close>

definition has_prefix :: "string \<Rightarrow> string \<Rightarrow> bool" where
  "has_prefix s p \<longleftrightarrow> take (length p) s = p"

definition trim_suffix :: "string \<Rightarrow> string \<Rightarrow> string" where
  "trim_suffix s t = (if length t \<le> length s \<and> drop (length s - length t) s = t
     then take (length s - length t) s else s)"

definition trim_prefix :: "string \<Rightarrow> string \<Rightarrow> string" where
  "trim_prefix s p = (if has_prefix s p then drop (length p) s else s)"

definition contains_any :: "string \<Rightarrow> string \<Rightarrow> bool" where
  "contains_any s cs \<longleftrightarrow> (\<exists>c\<in>set s. c \<in> set cs)"

fun contains :: "string \<Rightarrow> string \<Rightarrow> bool" where
  "contains [] t = (t = [])"
| "contains (c # s) t = (has_prefix (c # s) t \<or> contains s t)"

text \<open>\<open>strings.Cut(s, sep)\<close> for a one-byte separator: \<open>None\<close> is \<open>found = false\<close>.\<close>

fun str_cut :: "string \<Rightarrow> char \<Rightarrow> (string \<times> string) option" where
  "str_cut [] c = None"
| "str_cut (x # s) c = (if x = c then Some ([], s)
     else (case str_cut s c of None \<Rightarrow> None | Some (a, b) \<Rightarrow> Some (x # a, b)))"

text \<open>\<open>strings.LastIndex(s, c)\<close>; \<open>None\<close> is -1.\<close>

fun last_index :: "string \<Rightarrow> char \<Rightarrow> nat option" where
  "last_index [] c = None"
| "last_index (x # s) c = (case last_index s c of
     Some i \<Rightarrow> Some (Suc i) | None \<Rightarrow> (if x = c then Some 0 else None))"

lemma str_cut_SomeD: "str_cut s c = Some (a, b) \<Longrightarrow> s = a @ c # b \<and> c \<notin> set a"
  by (induction s arbitrary: a b) (auto split: option.splits if_splits)

lemma str_cut_at [simp]: "c \<notin> set a \<Longrightarrow> str_cut (a @ c # b) c = Some (a, b)"
  by (induction a) auto

lemma str_cut_None: "str_cut s c = None \<longleftrightarrow> c \<notin> set s"
  by (induction s) (auto split: option.splits)

lemma last_index_None: "last_index s c = None \<longleftrightarrow> c \<notin> set s"
  by (induction s) (auto split: option.splits)

lemma last_index_Some:
  "last_index s c = Some i \<longleftrightarrow> i < length s \<and> s ! i = c \<and> c \<notin> set (drop (Suc i) s)"
proof (induction s arbitrary: i)
  case (Cons x s)
  show ?case
  proof (cases "last_index s c")
    case None
    with last_index_None[of s c] have "c \<notin> set s" by simp
    with None show ?thesis by (cases i) (auto dest: nth_mem in_set_dropD)
  next
    case (Some j)
    then have "c \<in> set s" using last_index_None[of s c] by auto
    with Some show ?thesis
      using Cons.IH[of "i - 1"] by (cases i) auto
  qed
qed simp

lemma last_index_split:
  "last_index s c = Some i \<Longrightarrow> s = take i s @ c # drop (Suc i) s"
  by (metis id_take_nth_drop last_index_Some)

section \<open>Numbers\<close>

definition digit :: "nat \<Rightarrow> char" where
  "digit n = char_of (48 + n)"

fun dec :: "nat \<Rightarrow> string" where
  "dec n = (if n < 10 then [digit n] else dec (n div 10) @ [digit (n mod 10)])"

declare dec.simps [simp del]

definition is_digit :: "char \<Rightarrow> bool" where
  "is_digit c \<longleftrightarrow> CHR ''0'' \<le> c \<and> c \<le> CHR ''9''"

definition undigit :: "char \<Rightarrow> nat" where
  "undigit c = of_char c - 48"

definition undec :: "string \<Rightarrow> nat" where
  "undec s = foldl (\<lambda>n c. 10 * n + undigit c) 0 s"

text \<open>\<open>fmt.Sprintf("%0*d", w, n)\<close> for a natural number.\<close>

definition pad_dec :: "nat \<Rightarrow> nat \<Rightarrow> string" where
  "pad_dec w n = replicate (w - length (dec n)) (CHR ''0'') @ dec n"

lemma undigit_digit: "n < 10 \<Longrightarrow> undigit (digit n) = n"
  by (simp add: undigit_def digit_def)

lemma is_digit_digit: "n < 10 \<Longrightarrow> is_digit (digit n)"
  by (simp add: is_digit_def digit_def less_eq_char_def)

lemma undec_snoc: "undec (s @ [c]) = 10 * undec s + undigit c"
  by (simp add: undec_def)

lemma undec_dec [simp]: "undec (dec n) = n"
proof (induction n rule: dec.induct)
  case (1 n)
  show ?case
  proof (cases "n < 10")
    case True
    then show ?thesis by (simp add: dec.simps[of n] undec_def undigit_digit)
  next
    case False
    with 1 show ?thesis by (simp add: dec.simps[of n] undec_snoc undigit_digit)
  qed
qed

lemma dec_inj: "dec m = dec n \<longleftrightarrow> m = n"
  by (metis undec_dec)

lemma dec_digits: "\<forall>c\<in>set (dec n). is_digit c"
proof (induction n rule: dec.induct)
  case (1 n)
  then show ?case
    by (cases "n < 10") (auto simp: dec.simps[of n] is_digit_digit)
qed

lemma dec_not_Nil [simp]: "dec n \<noteq> []"
  by (simp add: dec.simps[of n])

lemma length_dec_le: "0 < k \<Longrightarrow> n < 10 ^ k \<Longrightarrow> length (dec n) \<le> k"
proof (induction k arbitrary: n)
  case (Suc k)
  show ?case
  proof (cases "n < 10")
    case False
    with Suc.prems have "0 < k" by (cases k) auto
    moreover from Suc.prems have "n div 10 < 10 ^ k" by (simp add: less_mult_imp_div_less)
    ultimately show ?thesis using Suc.IH[of "n div 10"] False by (simp add: dec.simps[of n])
  qed (simp add: dec.simps[of n])
qed simp

lemma undec_zeros: "undec (replicate k (CHR ''0'') @ s) = undec s"
  by (induction k) (simp_all add: undec_def undigit_def)

lemma undec_pad_dec [simp]: "undec (pad_dec w n) = n"
  by (simp add: pad_dec_def undec_zeros)

lemma length_pad_dec: "0 < w \<Longrightarrow> n < 10 ^ w \<Longrightarrow> length (pad_dec w n) = w"
  using length_dec_le[of w n] by (simp add: pad_dec_def)

lemma pad_dec_digits: "c \<in> set (pad_dec w n) \<Longrightarrow> is_digit c"
  using dec_digits[of n] by (auto simp: pad_dec_def is_digit_def less_eq_char_def split: if_splits)

text \<open>Go's \<open>/\<close> on int64 truncates towards zero (the divisors here are positive constants).\<close>

definition quot :: "int \<Rightarrow> int \<Rightarrow> int" where
  "quot a b = (if a < 0 then - ((- a) div b) else a div b)"

lemma quot_nonneg: "0 \<le> a \<Longrightarrow> quot a b = a div b"
  by (simp add: quot_def)

definition dec_int :: "int \<Rightarrow> string" where
  "dec_int i = (if i < 0 then CHR ''-'' # dec (nat (- i)) else dec (nat i))"

lemma dec_no_char: "\<not> is_digit c \<Longrightarrow> c \<notin> set (dec n)"
  using dec_digits by blast

lemma dec_int_no_colon: "CHR '':'' \<notin> set (dec_int i)"
  by (simp add: dec_int_def dec_no_char is_digit_def)

lemma dec_int_inj: "dec_int i = dec_int j \<longleftrightarrow> i = j"
proof -
  have dash: "\<not> is_digit (CHR ''-'')"
    by code_simp
  have "hd (dec n) \<noteq> CHR ''-''" for n
    using dec_digits[of n] hd_in_set[OF dec_not_Nil, of n] dash by metis
  then have "dec n \<noteq> CHR ''-'' # s" for n s
    by (metis list.sel(1))
  then show ?thesis
    by (auto simp: dec_int_def dec_inj) (metis)+
qed

section \<open>Hexadecimal and base64\<close>

definition hex_digit :: "nat \<Rightarrow> char" where
  "hex_digit n = (if n < 10 then char_of (48 + n) else char_of (87 + n))"

definition hex :: "string \<Rightarrow> string" where
  "hex s = concat (map (\<lambda>c. [hex_digit (of_char c div 16), hex_digit (of_char c mod 16)]) s)"

lemma length_hex [simp]: "length (hex s) = 2 * length s"
  by (induction s) (simp_all add: hex_def)

text \<open>\<open>base64.RawURLEncoding\<close>: six bits to a character, no padding.\<close>

definition b64url_char :: "nat \<Rightarrow> char" where
  "b64url_char n = (if n < 26 then char_of (65 + n) else if n < 52 then char_of (71 + n)
     else if n < 62 then char_of (n - 4) else if n = 62 then CHR ''-'' else CHR ''_'')"

fun b64 :: "(nat \<Rightarrow> char) \<Rightarrow> string \<Rightarrow> string" where
  "b64 f [] = []"
| "b64 f [a] = [f (of_char a div 4), f (of_char a mod 4 * 16)]"
| "b64 f [a, b] = [f (of_char a div 4), f (of_char a mod 4 * 16 + of_char b div 16),
     f (of_char b mod 16 * 4)]"
| "b64 f (a # b # c # s) = f (of_char a div 4) # f (of_char a mod 4 * 16 + of_char b div 16)
     # f (of_char b mod 16 * 4 + of_char c div 64) # f (of_char c mod 64) # b64 f s"

definition b64_raw_url :: "string \<Rightarrow> string" where
  "b64_raw_url s = b64 b64url_char s"

section \<open>Runes\<close>

text \<open>
  \<open>utf8.RuneCountInString\<close>: \<open>rune_len\<close> is the length of the first rune of a nonempty
  string, by Go's table of first bytes and of the second byte's range; a byte that starts no
  well-formed sequence counts as one rune.
\<close>

definition byte :: "char \<Rightarrow> nat" where
  "byte c = of_char c"

definition cont :: "char \<Rightarrow> bool" where
  "cont c \<longleftrightarrow> 128 \<le> byte c \<and> byte c \<le> 191"

definition second_ok :: "nat \<Rightarrow> char \<Rightarrow> bool" where
  "second_ok b c \<longleftrightarrow>
     (if b = 224 then 160 else if b = 240 then 144 else 128) \<le> byte c \<and>
     byte c \<le> (if b = 237 then 159 else if b = 244 then 143 else 191)"

fun rune_len :: "string \<Rightarrow> nat" where
  "rune_len (a # b # c # d # s) = (let x = byte a in
     if 194 \<le> x \<and> x \<le> 223 then (if second_ok x b then 2 else 1)
     else if 224 \<le> x \<and> x \<le> 239 then (if second_ok x b \<and> cont c then 3 else 1)
     else if 240 \<le> x \<and> x \<le> 244 then (if second_ok x b \<and> cont c \<and> cont d then 4 else 1)
     else 1)"
| "rune_len [a, b, c] = (let x = byte a in
     if 194 \<le> x \<and> x \<le> 223 then (if second_ok x b then 2 else 1)
     else if 224 \<le> x \<and> x \<le> 239 then (if second_ok x b \<and> cont c then 3 else 1)
     else 1)"
| "rune_len [a, b] = (let x = byte a in
     if 194 \<le> x \<and> x \<le> 223 then (if second_ok x b then 2 else 1) else 1)"
| "rune_len _ = 1"

lemma rune_len_bounds: "1 \<le> rune_len s" "rune_len s \<le> 4"
  by (cases s rule: rune_len.cases; simp add: Let_def)+

lemma rune_len_le: "s \<noteq> [] \<Longrightarrow> rune_len s \<le> length s"
  by (cases s rule: rune_len.cases) (simp_all add: Let_def)

function rune_count :: "string \<Rightarrow> nat" where
  "rune_count s = (if s = [] then 0 else Suc (rune_count (drop (rune_len s) s)))"
  by pat_completeness auto
termination
  by (relation "measure length") (use rune_len_bounds in \<open>auto simp: neq_Nil_conv Suc_le_eq\<close>)

declare rune_count.simps [simp del]

lemma rune_count_bounds: "rune_count s \<le> length s \<and> length s \<le> 4 * rune_count s"
proof (induction s rule: rune_count.induct)
  case (1 s)
  show ?case
  proof (cases "s = []")
    case False
    then show ?thesis
      using 1 rune_len_bounds[of s] rune_len_le[of s] by (auto simp: rune_count.simps[of s])
  qed (simp add: rune_count.simps)
qed

lemma rune_len_ascii: "byte a < 128 \<Longrightarrow> rune_len (a # s) = 1"
  by (cases "a # s" rule: rune_len.cases) (auto simp: Let_def)

lemma rune_count_ascii: "\<forall>c\<in>set s. byte c < 128 \<Longrightarrow> rune_count s = length s"
  by (induction s) (simp_all add: rune_count.simps rune_len_ascii)

section \<open>Text outside ASCII\<close>

text \<open>The UTF-8 bytes of a text given by its code points.\<close>

definition utf8_char :: "nat \<Rightarrow> string" where
  "utf8_char n =
     (if n < 128 then [char_of n]
      else if n < 2048 then [char_of (192 + n div 64), char_of (128 + n mod 64)]
      else if n < 65536 then
        [char_of (224 + n div 4096), char_of (128 + n div 64 mod 64), char_of (128 + n mod 64)]
      else [char_of (240 + n div 262144), char_of (128 + n div 4096 mod 64),
        char_of (128 + n div 64 mod 64), char_of (128 + n mod 64)])"

definition utf8 :: "nat list \<Rightarrow> string" where
  "utf8 ns = concat (map utf8_char ns)"

text \<open>\<open>url.QueryEscape\<close>: unreserved characters stay, a space becomes \<open>+\<close>, the rest is \<open>%XX\<close>.\<close>

definition unreserved :: "char \<Rightarrow> bool" where
  "unreserved c \<longleftrightarrow> is_digit c \<or> (CHR ''a'' \<le> c \<and> c \<le> CHR ''z'') \<or> (CHR ''A'' \<le> c \<and> c \<le> CHR ''Z'') \<or>
     c \<in> {CHR ''-'', CHR ''_'', CHR ''.'', CHR ''~''}"

definition upper_hex :: "nat \<Rightarrow> char" where
  "upper_hex n = (if n < 10 then char_of (48 + n) else char_of (55 + n))"

definition query_escape :: "string \<Rightarrow> string" where
  "query_escape s = concat (map (\<lambda>c. if unreserved c then [c]
     else if c = CHR '' '' then ''+''
     else [CHR ''%'', upper_hex (byte c div 16), upper_hex (byte c mod 16)]) s)"

end
