(* ===== verification/Schema.thy ===== *)
theory Schema imports GoStrings begin

text \<open>
  The database the processes share (migrations/*.sql): one record per table row, the tables as
  lists of rows in insertion order, INSERT with the constraints the migrations declare, and the
  world a handler runs in: the database, the two clocks, the sources of randomness, the task
  queue, the object store and the mail transport.

  Columns no code of the repository reads back (created_at, updated_at, the raw metadata of an
  identity) are left out; ORDER BY created_at is the list order. A row id is a string; the ids
  the database generates (gen_random_uuid) are drawn from \<open>uuids\<close>. Every statement may fail
  (a connection error): \<open>db_faults\<close> says, statement by statement, which do, and the empty
  list means that no more will.
\<close>

type_synonym time = int

definition second :: time where "second = 1000000000"
definition minute :: time where "minute = 60 * second"
definition hour :: time where "hour = 60 * minute"

section \<open>Enumerated columns\<close>

text \<open>\<open>workspace_role\<close>: a Go string type; only the three values are ever stored.\<close>

datatype role = RoleOwner | RoleAdmin | RoleMember | RoleOther string

datatype provider = ProviderPassword | ProviderGoogle | ProviderMicrosoft | ProviderOIDC
  | ProviderSAML | ProviderLDAP

datatype purpose = PurposeEmailVerification | PurposePasswordReset

datatype status = StatusQueued | StatusProcessing | StatusSent | StatusFailed | StatusDead

datatype event_type = EventQueued | EventProcessing | EventSent | EventFailed | EventBounced
  | EventComplained | EventDelivered

section \<open>Errors\<close>

text \<open>
  The error values of the packages (two packages' ErrNotFound are different values), the driver's
  no-rows error and unique violation (SQLSTATE 23505), any other failure of the database
  (\<open>ErrDB\<close>), and a failed read of randomness. Wrapped texts are left out, apart from the
  counts and times a caller is told.
\<close>

datatype gerror = ErrDB | ErrUnique | ErrNoRows | ErrRand | ErrBlob | ErrQueue | ErrSMTP
  | Acc_ErrValidation | Acc_ErrWeakPassword | Acc_ErrCredentials | Acc_ErrInvalidToken "nat option"
  | Acc_ErrCodeLocked time | Acc_ErrPasswordAlreadyChanged | Acc_ErrNotFound | Acc_ErrEmailTaken
  | Acc_ErrSubjectLinked
  | Email_ErrValidation | Email_ErrNotFound | Email_ErrDuplicateIdempotencyKey
  | Email_ErrEnqueueFailed | Email_ErrStorageNotConfigured | Email_ErrAttachmentTooLarge
  | Email_ErrAttachmentsTooLarge | Email_ErrFromNotAllowed | Email_ErrAttachmentNotFound
  | Storage_ErrNotConfigured | Queue_ErrTaskIDConflict | Provider_ErrInvalidMessage | Sign_Err
  | Dom_ErrNotFound | Dom_ErrTaken | Dom_ErrValidation | Dom_ErrNotVerified | Dom_ErrNoActiveKey
  | Ws_ErrNotFound | Ws_ErrSlugTaken | Ws_ErrValidation
  | Inb_ErrNoMailbox | Inb_ErrDuplicate | Inb_ErrAddressExists | Inb_ErrNotMember
  | Sec_ErrNoKey | Sec_ErrKey | Sec_ErrCiphertext
  | Imap_ErrInvalidCredentials | Imap_ErrNoSuchMailbox | Imap_ErrMailboxAlreadyExists | Imap_Err | Imap_ErrConn
  | Sub_ErrAuthRequired | Sub_ErrAuthFailed | Sub_ErrAuthUnknownMechanism | Sub_ErrDenied | Sub_SMTPError nat

section \<open>Rows\<close>

record user_row =
  u_id :: string
  u_email :: string
  u_name :: string
  u_verified_at :: "time option"
  u_must_change :: bool

record identity_row =
  i_user :: string
  i_provider :: provider
  i_subject :: string
  i_hash :: "string option"
  i_last_login :: "time option"

record token_row =
  t_id :: string
  t_user :: string
  t_purpose :: purpose
  t_hash :: string
  t_expires :: time
  t_consumed :: "time option"
  t_attempts :: int
  t_locked :: "time option"

record session_row =
  s_id :: string
  s_user :: string
  s_hash :: string
  s_agent :: "string option"
  s_ip :: "string option"
  s_expires :: time
  s_revoked :: "time option"
  s_seen :: "time option"

record workspace_row =
  w_id :: string
  w_slug :: string
  w_name :: string
  w_personal :: "string option"

record member_row =
  m_ws :: string
  m_user :: string
  m_role :: role

record domain_row =
  d_id :: string
  d_ws :: string
  d_name :: string
  d_primary :: bool
  d_token :: string
  d_verified :: "time option"
  d_checked :: "time option"
  d_error :: "string option"

record dkim_row =
  k_id :: string
  k_domain :: string
  k_selector :: string
  k_public :: string
  k_private :: string
  k_active :: bool
  k_retired :: "time option"

record apikey_row =
  ak_id :: string
  ak_ws :: string
  ak_name :: string
  ak_hash :: string
  ak_prefix :: string
  ak_used :: "time option"
  ak_revoked :: "time option"

record email_row =
  e_id :: string
  e_ws :: string
  e_from :: string
  e_to :: "string list"
  e_cc :: "string list"
  e_bcc :: "string list"
  e_subject :: string
  e_html :: "string option"
  e_text :: "string option"
  e_in_reply_to :: string
  e_refs :: string
  e_status :: status
  e_provider_id :: "string option"
  e_idem :: "string option"
  e_attempts :: nat
  e_error :: "string option"
  e_retained :: "string option"

record event_row =
  ev_email :: string
  ev_type :: event_type
  ev_detail :: "(string \<times> string) list option"

record attachment_row =
  a_id :: string
  a_ws :: string
  a_email :: "string option"
  a_filename :: string
  a_ctype :: string
  a_size :: int
  a_sha :: string
  a_key :: string

record mailbox_row =
  b_id :: string
  b_domain :: string
  b_local :: string
  b_name :: "string option"
  b_personal :: "string option"
  b_owner :: "string option"

record folder_row =
  f_box :: string
  f_name :: string
  f_validity :: nat
  f_subscribed :: bool

record message_row =
  g_id :: string
  g_box :: string
  g_env_from :: string
  g_env_to :: string
  g_msgid :: "string option"
  g_from :: "string option"
  g_from_name :: "string option"
  g_subject :: string
  g_sent :: "time option"
  g_text :: "string option"
  g_html :: "string option"
  g_raw :: string
  g_size :: nat
  g_read :: "time option"
  g_received :: time
  g_uid :: nat
  g_folder :: string
  g_flags :: "string list"
  g_smtp :: bool

record smtp_cred_row =
  c_box :: string
  c_hash :: string
  c_issuer :: string

record db =
  users :: "user_row list"
  identities :: "identity_row list"
  tokens :: "token_row list"
  sessions :: "session_row list"
  workspaces :: "workspace_row list"
  members :: "member_row list"
  domains :: "domain_row list"
  dkim_keys :: "dkim_row list"
  api_keys :: "apikey_row list"
  emails :: "email_row list"
  events :: "event_row list"
  attachments :: "attachment_row list"
  mailboxes :: "mailbox_row list"
  folders :: "folder_row list"
  messages :: "message_row list"
  smtp_creds :: "smtp_cred_row list"

definition empty_db :: db where
  "empty_db = \<lparr>users = [], identities = [], tokens = [], sessions = [], workspaces = [],
     members = [], domains = [], dkim_keys = [], api_keys = [], emails = [], events = [],
     attachments = [], mailboxes = [], folders = [], messages = [], smtp_creds = []\<rparr>"

section \<open>Messages and the world\<close>

text \<open>\<open>provider.DKIM\<close>, \<open>provider.Attachment\<close> and \<open>provider.Message\<close>.\<close>

record dkim_sig =
  dk_domain :: string
  dk_selector :: string
  dk_key :: string

record attfile =
  fl_name :: string
  fl_ctype :: string
  fl_content :: string

record mail =
  ml_from :: string
  ml_to :: "string list"
  ml_cc :: "string list"
  ml_bcc :: "string list"
  ml_subject :: string
  ml_html :: string
  ml_text :: string
  ml_headers :: "(string \<times> string) list"
  ml_files :: "attfile list"
  ml_dkim :: "dkim_sig option"

text \<open>What the mail transport was handed: the message as internal/provider/smtp builds it.\<close>

record wire =
  wr_id :: string
  wr_from :: string
  wr_to :: "string list"
  wr_cc :: "string list"
  wr_bcc :: "string list"
  wr_subject :: string
  wr_headers :: "(string \<times> string) list"
  wr_parts :: "(string \<times> string) list"
  wr_files :: "attfile list"
  wr_dkim :: "dkim_sig option"

text \<open>
  The pure functions of libraries the code calls and this repository does not hold: crypto/sha256,
  bcrypt (salt and password to hash; hash and password to match), the \<open>email\<close> and \<open>uuid\<close>
  rules of go-playground/validator, go-mail's address parser, net/mail's ParseAddress (the address and
  the name), whether a PKCS#8 block holds an RSA
  key, whether a text is an address of PostgreSQL's inet type, and the text of an error.
\<close>

record lib =
  l_sha256 :: "string \<Rightarrow> string"
  l_bcrypt :: "string \<Rightarrow> string \<Rightarrow> string"
  l_bcrypt_ok :: "string \<Rightarrow> string \<Rightarrow> bool"
  l_email :: "string \<Rightarrow> bool"
  l_uuid :: "string \<Rightarrow> bool"
  l_address :: "string \<Rightarrow> bool"
  l_parse_address :: "string \<Rightarrow> (string \<times> string) option"
  l_rsa :: "string \<Rightarrow> bool"
  l_inet :: "string \<Rightarrow> bool"
  l_error :: "gerror \<Rightarrow> string"

text \<open>
  The process clock is the database clock plus \<open>skew\<close>. \<open>uid_seq\<close> and \<open>validity_seq\<close> are the last
  values of the two sequences: no rollback takes a number back. \<open>entropy\<close> holds the results of
  the coming reads of crypto/rand (a read past its end fails) and \<open>draws\<close> the coming raw draws
  of rand.Int. \<open>queue\<close> holds the ids of the tasks enqueued and not finished; \<open>outbox\<close> what the mail transport accepted.
\<close>

record world =
  tabs :: db
  db_faults :: "bool list"
  db_now :: time
  skew :: time
  uuids :: "string list"
  uid_seq :: nat
  validity_seq :: nat
  entropy :: "string list"
  draws :: "nat list"
  queue :: "string list"
  queue_faults :: "bool list"
  blobs :: "string \<Rightarrow> string option"
  blob_faults :: "bool list"
  outbox :: "wire list"
  smtp_faults :: "bool list"

definition empty_world :: world where
  "empty_world = \<lparr>tabs = empty_db, db_faults = [], db_now = 0, skew = 0, uuids = [], uid_seq = 0,
     validity_seq = 0, entropy = [],
     draws = [], queue = [], queue_faults = [],
     blobs = (\<lambda>_. None), blob_faults = [], outbox = [], smtp_faults = []\<rparr>"

definition app_now :: "world \<Rightarrow> time" where
  "app_now w = db_now w + skew w"

type_synonym 'a op = "(world, gerror, 'a) step"
type_synonym 'a stmt = "time \<Rightarrow> db \<Rightarrow> (gerror + 'a) \<times> db"

section \<open>Statements and transactions\<close>

definition db_down :: "world \<Rightarrow> bool" where
  "db_down w \<longleftrightarrow> (case db_faults w of [] \<Rightarrow> False | b # _ \<Rightarrow> b)"

definition spend :: "world \<Rightarrow> world" where
  "spend w = w\<lparr>db_faults := tl (db_faults w)\<rparr>"

text \<open>One statement: it fails as a whole or takes effect as a whole.\<close>

definition sql :: "'a stmt \<Rightarrow> 'a op" where
  "sql q w = (if db_down w then (Inl ErrDB, spend w) else
     (case q (db_now w) (tabs w) of
        (Inl e, _) \<Rightarrow> (Inl e, spend w)
      | (Inr a, t) \<Rightarrow> (Inr a, (spend w)\<lparr>tabs := t\<rparr>)))"

definition query :: "(time \<Rightarrow> db \<Rightarrow> gerror + 'a) \<Rightarrow> 'a op" where
  "query f = sql (\<lambda>now t. (f now t, t))"

text \<open>
  \<open>pool.Begin\<close>, the body, and \<open>tx.Commit\<close> when the body ends with \<open>True\<close>; every other way
  out is the deferred Rollback. A commit that fails leaves nothing behind.
\<close>

definition withTx :: "('a \<times> bool) op \<Rightarrow> 'a op" where
  "withTx body w = (if db_down w then (Inl ErrDB, spend w) else
     (case body (spend w) of
        (Inl e, w1) \<Rightarrow> (Inl e, w1\<lparr>tabs := tabs w\<rparr>)
      | (Inr (a, False), w1) \<Rightarrow> (Inr a, w1\<lparr>tabs := tabs w\<rparr>)
      | (Inr (a, True), w1) \<Rightarrow> (if db_down w1 then (Inl ErrDB, (spend w1)\<lparr>tabs := tabs w\<rparr>)
          else (Inr a, spend w1))))"

text \<open>\<open>gen_random_uuid()\<close>, \<open>rand.Read\<close> and \<open>rand.Int\<close> (which draws until below the bound).\<close>

definition withUUID :: "(string \<Rightarrow> 'a op) \<Rightarrow> 'a op" where
  "withUUID f w = (case uuids w of [] \<Rightarrow> (Inl ErrDB, w) | u # us \<Rightarrow> f u (w\<lparr>uuids := us\<rparr>))"

text \<open>\<open>nextval\<close> of the sequences, which end at \<open>MAXVALUE\<close>.\<close>

definition seqMax :: nat where "seqMax = 4294967294"

definition nextUID :: "nat op" where
  "nextUID w = (if uid_seq w < seqMax then (Inr (Suc (uid_seq w)), w\<lparr>uid_seq := Suc (uid_seq w)\<rparr>) else (Inl ErrDB, w))"

definition nextValidity :: "nat op" where
  "nextValidity w = (if validity_seq w < seqMax
     then (Inr (Suc (validity_seq w)), w\<lparr>validity_seq := Suc (validity_seq w)\<rparr>) else (Inl ErrDB, w))"

definition randRead :: "string op" where
  "randRead w = (case entropy w of [] \<Rightarrow> (Inl ErrRand, w) | r # rs \<Rightarrow> (Inr r, w\<lparr>entropy := rs\<rparr>))"

fun draw_below :: "nat \<Rightarrow> nat list \<Rightarrow> (nat \<times> nat list) option" where
  "draw_below m [] = None"
| "draw_below m (n # ns) = (if n < m then Some (n, ns) else draw_below m ns)"

definition randInt :: "nat \<Rightarrow> nat op" where
  "randInt m w = (case draw_below m (draws w) of None \<Rightarrow> (Inl ErrRand, w\<lparr>draws := []\<rparr>)
     | Some (n, ns) \<Rightarrow> (Inr n, w\<lparr>draws := ns\<rparr>))"

definition asks :: "(world \<Rightarrow> 'a) \<Rightarrow> 'a op" where
  "asks f w = (Inr (f w), w)"

lemma spend_sel [simp]:
  "tabs (spend w) = tabs w" "db_now (spend w) = db_now w" "skew (spend w) = skew w"
  "uuids (spend w) = uuids w" "uid_seq (spend w) = uid_seq w" "validity_seq (spend w) = validity_seq w" "entropy (spend w) = entropy w" "draws (spend w) = draws w"
  "queue (spend w) = queue w" "queue_faults (spend w) = queue_faults w"
  "blobs (spend w) = blobs w" "blob_faults (spend w) = blob_faults w"
  "outbox (spend w) = outbox w" "smtp_faults (spend w) = smtp_faults w"
  "db_faults (spend w) = tl (db_faults w)"
  by (simp_all add: spend_def)

lemma db_down_upd [simp]:
  "db_down (w\<lparr>tabs := t\<rparr>) = db_down w" "db_down (w\<lparr>uuids := us\<rparr>) = db_down w"
  "db_down (w\<lparr>uid_seq := n\<rparr>) = db_down w" "db_down (w\<lparr>validity_seq := n\<rparr>) = db_down w"
  "db_down (w\<lparr>entropy := es\<rparr>) = db_down w" "db_down (w\<lparr>draws := ds\<rparr>) = db_down w"
  by (simp_all add: db_down_def)

lemma spend_tabs: "spend (w\<lparr>tabs := t\<rparr>) = (spend w)\<lparr>tabs := t\<rparr>"
  by (simp add: spend_def)

lemma app_now_sel [simp]:
  "app_now (spend w) = app_now w" "app_now (w\<lparr>tabs := t\<rparr>) = app_now w"
  by (simp_all add: app_now_def)

lemma sql_Inr_iff [step_iffs]:
  "sql q w = (Inr a, w') \<longleftrightarrow> \<not> db_down w \<and>
     (\<exists>t. q (db_now w) (tabs w) = (Inr a, t) \<and> w' = (spend w)\<lparr>tabs := t\<rparr>)"
  by (auto simp: sql_def split: prod.splits sum.splits)

lemma sql_Inl_iff [step_iffs]:
  "sql q w = (Inl e, w') \<longleftrightarrow> w' = spend w \<and>
     (if db_down w then e = ErrDB else fst (q (db_now w) (tabs w)) = Inl e)"
  by (auto simp: sql_def split: prod.splits sum.splits)

lemma query_Inr_iff [step_iffs]:
  "query f w = (Inr a, w') \<longleftrightarrow> \<not> db_down w \<and> f (db_now w) (tabs w) = Inr a \<and> w' = spend w"
  by (auto simp: query_def sql_Inr_iff spend_def)

lemma query_Inl_iff [step_iffs]:
  "query f w = (Inl e, w') \<longleftrightarrow> w' = spend w \<and>
     (if db_down w then e = ErrDB else f (db_now w) (tabs w) = Inl e)"
  by (simp add: query_def sql_Inl_iff)

lemma withTx_Inr_iff [step_iffs]:
  "withTx body w = (Inr a, w') \<longleftrightarrow> \<not> db_down w \<and>
     ((\<exists>w1. body (spend w) = (Inr (a, False), w1) \<and> w' = w1\<lparr>tabs := tabs w\<rparr>) \<or>
      (\<exists>w1. body (spend w) = (Inr (a, True), w1) \<and> \<not> db_down w1 \<and> w' = spend w1))"
  by (auto simp: withTx_def split: prod.splits sum.splits bool.splits)

lemma withTx_Inl_iff [step_iffs]:
  "withTx body w = (Inl e, w') \<longleftrightarrow>
     (db_down w \<and> e = ErrDB \<and> w' = spend w) \<or>
     (\<not> db_down w \<and> ((\<exists>w1. body (spend w) = (Inl e, w1) \<and> w' = w1\<lparr>tabs := tabs w\<rparr>) \<or>
        (\<exists>a w1. body (spend w) = (Inr (a, True), w1) \<and> db_down w1 \<and> e = ErrDB \<and>
           w' = (spend w1)\<lparr>tabs := tabs w\<rparr>)))"
  by (auto simp: withTx_def split: prod.splits sum.splits bool.splits if_splits)

text \<open>A transaction that ends in an error leaves the tables as they were.\<close>

lemma withTx_Inl_tabs: "withTx body w = (Inl e, w') \<Longrightarrow> tabs w' = tabs w"
  by (auto simp: withTx_Inl_iff)

lemma withUUID_Inr_iff [step_iffs]:
  "withUUID f w = (Inr a, w') \<longleftrightarrow>
     (\<exists>u us. uuids w = u # us \<and> f u (w\<lparr>uuids := us\<rparr>) = (Inr a, w'))"
  by (auto simp: withUUID_def split: list.splits)

lemma withUUID_Inl_iff [step_iffs]:
  "withUUID f w = (Inl e, w') \<longleftrightarrow> uuids w = [] \<and> e = ErrDB \<and> w' = w \<or>
     (\<exists>u us. uuids w = u # us \<and> f u (w\<lparr>uuids := us\<rparr>) = (Inl e, w'))"
  by (auto simp: withUUID_def split: list.splits)

lemma nextUID_iff [step_iffs]:
  "nextUID w = (Inr n, w') \<longleftrightarrow> uid_seq w < seqMax \<and> n = Suc (uid_seq w) \<and> w' = w\<lparr>uid_seq := n\<rparr>"
  "nextUID w = (Inl e, w') \<longleftrightarrow> seqMax \<le> uid_seq w \<and> e = ErrDB \<and> w' = w"
  by (auto simp: nextUID_def)

lemma nextValidity_iff [step_iffs]:
  "nextValidity w = (Inr n, w') \<longleftrightarrow> validity_seq w < seqMax \<and> n = Suc (validity_seq w) \<and> w' = w\<lparr>validity_seq := n\<rparr>"
  "nextValidity w = (Inl e, w') \<longleftrightarrow> seqMax \<le> validity_seq w \<and> e = ErrDB \<and> w' = w"
  by (auto simp: nextValidity_def)

lemma randRead_Inr_iff [step_iffs]:
  "randRead w = (Inr r, w') \<longleftrightarrow> (\<exists>rs. entropy w = r # rs \<and> w' = w\<lparr>entropy := rs\<rparr>)"
  by (auto simp: randRead_def split: list.splits)

lemma randRead_Inl_iff [step_iffs]:
  "randRead w = (Inl e, w') \<longleftrightarrow> entropy w = [] \<and> e = ErrRand \<and> w' = w"
  by (auto simp: randRead_def split: list.splits)

lemma draw_below_Some: "draw_below m ns = Some (n, ns') \<Longrightarrow> n < m"
  by (induction m ns rule: draw_below.induct) (auto split: if_splits)

lemma randInt_Inr_iff [step_iffs]:
  "randInt m w = (Inr n, w') \<longleftrightarrow>
     (\<exists>ns. draw_below m (draws w) = Some (n, ns) \<and> w' = w\<lparr>draws := ns\<rparr>)"
  by (auto simp: randInt_def split: option.splits)

lemma randInt_Inl_iff [step_iffs]:
  "randInt m w = (Inl e, w') \<longleftrightarrow>
     draw_below m (draws w) = None \<and> e = ErrRand \<and> w' = w\<lparr>draws := []\<rparr>"
  by (auto simp: randInt_def split: option.splits)

lemma asks_iff [step_iffs]: "asks f w = (r, w') \<longleftrightarrow> r = Inr (f w) \<and> w' = w"
  by (auto simp: asks_def)

text \<open>A query and the sources of randomness leave the tables alone.\<close>

definition same_tabs :: "world \<Rightarrow> world \<Rightarrow> bool" where
  "same_tabs w w' \<longleftrightarrow> tabs w' = tabs w"

lemma same_tabs_refl: "reflp same_tabs"
  by (simp add: reflp_def same_tabs_def)

lemma same_tabs_trans: "transp same_tabs"
  by (simp add: transp_def same_tabs_def)

lemma keeps_tabs_query: "keeps same_tabs (query f)"
  by (auto simp: keeps_def same_tabs_def query_def sql_def split: sum.splits)

lemma keeps_tabs_rand: "keeps same_tabs randRead" "keeps same_tabs (randInt m)"
  by (auto simp: keeps_def same_tabs_def randRead_def randInt_def split: list.splits option.splits)

section \<open>What an operation may do to the tables\<close>

text \<open>
  A reflexive and transitive relation between the tables before and after, kept by every statement of an
  operation, is kept by the operation, whatever fails in it and whatever is rolled back. The rules of
  \<open>keeps_rules\<close> follow the structure of the code.
\<close>

definition on_tabs :: "(db \<Rightarrow> db \<Rightarrow> bool) \<Rightarrow> world \<Rightarrow> world \<Rightarrow> bool" where
  "on_tabs R w w' \<longleftrightarrow> R (tabs w) (tabs w')"

lemma keeps_if: "(b \<Longrightarrow> keeps P m) \<Longrightarrow> (\<not> b \<Longrightarrow> keeps P n) \<Longrightarrow> keeps P (if b then m else n)"
  by simp

lemma keeps_case_option:
  "(x = None \<Longrightarrow> keeps P m) \<Longrightarrow> (\<And>a. x = Some a \<Longrightarrow> keeps P (f a)) \<Longrightarrow> keeps P (case x of None \<Rightarrow> m | Some a \<Rightarrow> f a)"
  by (cases x) auto

lemma keeps_case_prod: "(\<And>a b. x = (a, b) \<Longrightarrow> keeps P (f a b)) \<Longrightarrow> keeps P (case x of (a, b) \<Rightarrow> f a b)"
  by (cases x) auto

lemma keeps_case_sum:
  "(\<And>a. x = Inl a \<Longrightarrow> keeps P (f a)) \<Longrightarrow> (\<And>b. x = Inr b \<Longrightarrow> keeps P (g b)) \<Longrightarrow>
     keeps P (case x of Inl a \<Rightarrow> f a | Inr b \<Rightarrow> g b)"
  by (cases x) auto

lemma keeps_Let: "(\<And>y. y = x \<Longrightarrow> keeps P (f y)) \<Longrightarrow> keeps P (let y = x in f y)"
  by simp

locale table_relation =
  fixes R :: "db \<Rightarrow> db \<Rightarrow> bool"
  assumes rel_refl: "R t t"
    and rel_trans: "R t u \<Longrightarrow> R u v \<Longrightarrow> R t v"
begin

lemma on_refl: "reflp (on_tabs R)"
  by (simp add: reflp_def on_tabs_def rel_refl)

lemma on_trans: "transp (on_tabs R)"
  unfolding transp_def on_tabs_def using rel_trans by blast

lemma on_sql: "(\<And>now t a t'. q now t = (Inr a, t') \<Longrightarrow> R t t') \<Longrightarrow> keeps (on_tabs R) (sql q)"
  by (auto simp: keeps_def on_tabs_def sql_def rel_refl split: prod.splits sum.splits)

lemma on_query: "keeps (on_tabs R) (query f)"
  unfolding query_def by (rule on_sql) (auto simp: rel_refl)

lemma on_tx: "keeps (on_tabs R) body \<Longrightarrow> keeps (on_tabs R) (withTx body)"
proof (rule keepsI)
  fix w r w' assume body: "keeps (on_tabs R) body" and run: "withTx body w = (r, w')"
  show "on_tabs R w w'"
    using run keepsD[OF body, of "spend w"]
    by (cases r) (fastforce simp: step_iffs on_tabs_def rel_refl)+
qed

lemma on_uuid: "(\<And>u. keeps (on_tabs R) (f u)) \<Longrightarrow> keeps (on_tabs R) (withUUID f)"
proof (rule keepsI)
  fix w r w' assume f: "\<And>u. keeps (on_tabs R) (f u)" and run: "withUUID f w = (r, w')"
  show "on_tabs R w w'"
  proof (cases "uuids w")
    case (Cons u us)
    then show ?thesis using keepsD[OF f, of u "w\<lparr>uuids := us\<rparr>"] run by (simp add: withUUID_def on_tabs_def)
  qed (use run in \<open>simp add: withUUID_def on_tabs_def rel_refl\<close>)
qed

lemma on_rand: "keeps (on_tabs R) randRead" "keeps (on_tabs R) (randInt m)" "keeps (on_tabs R) (asks g)"
  "keeps (on_tabs R) nextUID" "keeps (on_tabs R) nextValidity"
  by (auto simp: keeps_def on_tabs_def nextUID_def nextValidity_def randRead_def randInt_def asks_def rel_refl split: list.splits option.splits)

lemmas keeps_rules = keeps_basic[OF on_refl] keeps_handleE[OF on_trans] keeps_bindE[OF on_trans]
  keeps_ignoreE on_query on_tx on_uuid on_rand keeps_if keeps_case_option keeps_case_prod keeps_case_sum keeps_Let

lemma relD: "keeps (on_tabs R) m \<Longrightarrow> m w = (r, w') \<Longrightarrow> R (tabs w) (tabs w')"
  using keepsD[of "on_tabs R" m w r w'] by (simp add: on_tabs_def)

end

end
