(* ===== verification/Provider.thy ===== *)
theory Provider imports Schema begin

text \<open>
  internal/provider (Message.Validate), internal/provider/smtp (the sender), internal/storage (the
  object store) and the enqueuer of internal/email/queue.go: the three services a handler calls
  besides the database. The third-party client behind each is the world's: \<open>smtp_faults\<close>,
  \<open>blob_faults\<close> and \<open>queue_faults\<close> say, call by call, which calls fail, and the locales state
  what the callers rely on when they do not.
\<close>

section \<open>The mail transport\<close>

text \<open>\<open>Message.Validate\<close>: the first complaint, if any.\<close>

definition Validate :: "mail \<Rightarrow> gerror option" where
  "Validate m =
     (if trim_space (ml_from m) = [] then Some Provider_ErrInvalidMessage
      else if ml_to m = [] then Some Provider_ErrInvalidMessage
      else if \<exists>t\<in>set (ml_to m). trim_space t = [] then Some Provider_ErrInvalidMessage
      else if trim_space (ml_html m) = [] \<and> trim_space (ml_text m) = []
        then Some Provider_ErrInvalidMessage
      else None)"

definition after_at :: "string \<Rightarrow> string option" where
  "after_at s = (case last_index s (CHR ''@'') of None \<Rightarrow> None
     | Some i \<Rightarrow> if i + 1 < length s then Some (drop (i + 1) s) else None)"

definition newMessageID :: "string \<Rightarrow> string op" where
  "newMessageID from = bindE randRead (\<lambda>raw.
     returnE (hex raw @ ''@'' @
       (case after_at from of None \<Rightarrow> ''heromail.local'' | Some d \<Rightarrow> trim_chars d ''<> '')))"

definition reserved_header :: "string \<Rightarrow> bool" where
  "reserved_header k \<longleftrightarrow> to_lower k \<in> {''message-id'', ''content-type'', ''mime-version'', ''from'',
     ''to'', ''cc'', ''bcc'', ''subject''}"

definition body_parts :: "mail \<Rightarrow> (string \<times> string) list" where
  "body_parts m =
     (if ml_text m \<noteq> [] \<and> ml_html m \<noteq> [] then [(''text/plain'', ml_text m), (''text/html'', ml_html m)]
      else if ml_html m \<noteq> [] then [(''text/html'', ml_html m)]
      else [(''text/plain'', ml_text m)])"

text \<open>\<open>DialAndSendWithContext\<close>: the server takes the message or an error comes back.\<close>

definition dial_and_send :: "wire \<Rightarrow> unit op" where
  "dial_and_send m w = (case smtp_faults w of
       True # fs \<Rightarrow> (Inl ErrSMTP, w\<lparr>smtp_faults := fs\<rparr>)
     | fs \<Rightarrow> (Inr (), w\<lparr>smtp_faults := tl fs, outbox := outbox w @ [m]\<rparr>))"

definition smtp_Send :: "lib \<Rightarrow> mail \<Rightarrow> string op" where
  "smtp_Send L m =
     (case Validate m of Some e \<Rightarrow> throwE e | None \<Rightarrow>
      bindE (newMessageID (ml_from m)) (\<lambda>mid.
      bindE (guardE (\<not> l_address L (ml_from m)) Provider_ErrInvalidMessage) (\<lambda>_.
      bindE (guardE (\<exists>a\<in>set (ml_to m). \<not> l_address L a) Provider_ErrInvalidMessage) (\<lambda>_.
      bindE (guardE (\<exists>a\<in>set (ml_cc m). \<not> l_address L a) Provider_ErrInvalidMessage) (\<lambda>_.
      bindE (guardE (\<exists>a\<in>set (ml_bcc m). \<not> l_address L a) Provider_ErrInvalidMessage) (\<lambda>_.
      bindE (guardE (\<exists>h\<in>set (ml_headers m). reserved_header (fst h)) Provider_ErrInvalidMessage) (\<lambda>_.
      bindE (guardE (case ml_dkim m of None \<Rightarrow> False | Some d \<Rightarrow> \<not> l_rsa L (dk_key d)) Sign_Err) (\<lambda>_.
      bindE (dial_and_send \<lparr>wr_id = mid, wr_from = ml_from m, wr_to = ml_to m, wr_cc = ml_cc m,
          wr_bcc = ml_bcc m, wr_subject = ml_subject m, wr_headers = ml_headers m,
          wr_parts = body_parts m, wr_files = ml_files m, wr_dkim = ml_dkim m\<rparr>) (\<lambda>_.
      returnE mid)))))))))"

section \<open>The object store\<close>

text \<open>The bucket as its client shows it: PutObject, GetObject and DeleteObject.\<close>

definition blob_call :: "(world \<Rightarrow> (gerror + 'a) \<times> world) \<Rightarrow> 'a op" where
  "blob_call f w = (case blob_faults w of
       True # fs \<Rightarrow> (Inl ErrBlob, w\<lparr>blob_faults := fs\<rparr>)
     | fs \<Rightarrow> f (w\<lparr>blob_faults := tl fs\<rparr>))"

definition put_object :: "string \<Rightarrow> string \<Rightarrow> unit op" where
  "put_object k d = blob_call (\<lambda>w. (Inr (), w\<lparr>blobs := (blobs w)(k \<mapsto> d)\<rparr>))"

definition get_object :: "string \<Rightarrow> string op" where
  "get_object k = blob_call (\<lambda>w. (case blobs w k of None \<Rightarrow> Inl ErrBlob | Some d \<Rightarrow> Inr d, w))"

definition delete_object :: "string \<Rightarrow> unit op" where
  "delete_object k = blob_call (\<lambda>w. (Inr (), w\<lparr>blobs := (blobs w)(k := None)\<rparr>))"

text \<open>\<open>NewFromEnv\<close>'s choice of the prefix, and the prefixed calls.\<close>

definition env_prefix :: "string \<Rightarrow> string" where
  "env_prefix p = (if p \<noteq> [] then trim_suffix p ''/'' @ ''/'' else p)"

definition path :: "string \<Rightarrow> string \<Rightarrow> string" where
  "path prefix key = prefix @ key"

definition Put :: "string \<Rightarrow> string \<Rightarrow> string \<Rightarrow> unit op" where
  "Put prefix key d = put_object (path prefix key) d"

definition Get :: "string \<Rightarrow> string \<Rightarrow> string op" where
  "Get prefix key = get_object (path prefix key)"

definition Delete :: "string \<Rightarrow> string \<Rightarrow> unit op" where
  "Delete prefix key = delete_object (path prefix key)"

text \<open>\<open>storage.Store\<close>.\<close>

record blob_store =
  bs_Put :: "string \<Rightarrow> string \<Rightarrow> unit op"
  bs_Get :: "string \<Rightarrow> string op"
  bs_Delete :: "string \<Rightarrow> unit op"

definition S3Store :: "string \<Rightarrow> blob_store" where
  "S3Store prefix = \<lparr>bs_Put = Put prefix, bs_Get = Get prefix, bs_Delete = Delete prefix\<rparr>"

section \<open>The task queue\<close>

text \<open>\<open>EnqueueContext\<close> with a TaskID: a conflict while a task of that id is in the queue.\<close>

definition enqueue_task :: "string \<Rightarrow> unit op" where
  "enqueue_task i w = (case queue_faults w of
       True # fs \<Rightarrow> (Inl ErrQueue, w\<lparr>queue_faults := fs\<rparr>)
     | fs \<Rightarrow> let w = w\<lparr>queue_faults := tl fs\<rparr> in
         if i \<in> set (queue w) then (Inl Queue_ErrTaskIDConflict, w)
         else (Inr (), w\<lparr>queue := queue w @ [i]\<rparr>))"

definition EnqueueSend :: "string \<Rightarrow> unit op" where
  "EnqueueSend emailID = handleE (enqueue_task emailID)
     (\<lambda>e. if e = Queue_ErrTaskIDConflict then returnE () else throwE e)
     (\<lambda>_. returnE ())"

section \<open>What the callers rely on\<close>

lemma dial_and_send_iff [step_iffs]:
  "dial_and_send m w = (Inr u, w') \<longleftrightarrow> \<not> (smtp_faults w \<noteq> [] \<and> hd (smtp_faults w)) \<and>
     w' = w\<lparr>smtp_faults := tl (smtp_faults w), outbox := outbox w @ [m]\<rparr>"
  "dial_and_send m w = (Inl e, w') \<longleftrightarrow> smtp_faults w \<noteq> [] \<and> hd (smtp_faults w) \<and> e = ErrSMTP \<and>
     w' = w\<lparr>smtp_faults := tl (smtp_faults w)\<rparr>"
  by (auto simp: dial_and_send_def split: list.splits bool.splits)

text \<open>\<open>provider.Sender\<close>: an accepted message has left exactly once, under the id returned.\<close>

locale sender =
  fixes send :: "mail \<Rightarrow> string op"
  assumes send_tabs: "send m w = (r, w') \<Longrightarrow> tabs w' = tabs w"
    and send_ok: "send m w = (Inr mid, w') \<Longrightarrow> \<exists>x. outbox w' = outbox w @ [x] \<and> wr_id x = mid \<and>
      wr_from x = ml_from m \<and> wr_to x = ml_to m \<and> wr_cc x = ml_cc m \<and> wr_bcc x = ml_bcc m \<and>
      wr_subject x = ml_subject m \<and> wr_headers x = ml_headers m \<and>
      wr_parts x = body_parts m \<and> wr_files x = ml_files m \<and>
      wr_dkim x = ml_dkim m"
    and send_err: "send m w = (Inl e, w') \<Longrightarrow> outbox w' = outbox w"
begin

lemma send_outbox: "send m w = (r, w') \<Longrightarrow> \<exists>xs. outbox w' = outbox w @ xs \<and> length xs \<le> 1"
  by (cases r) (use send_ok send_err in fastforce)+

end

interpretation smtp: sender "smtp_Send L" for L
proof
  show "tabs w' = tabs w" if "smtp_Send L m w = (r, w')" for m w r w'
    using that by (cases r) (auto simp: smtp_Send_def newMessageID_def step_iffs split: option.splits)
qed (auto simp: smtp_Send_def newMessageID_def step_iffs split: option.splits if_splits)

text \<open>\<open>Enqueuer\<close>: a nil error means that a task for the id is in the queue.\<close>

locale enqueuer =
  fixes enq :: "string \<Rightarrow> unit op"
  assumes enq_tabs: "enq i w = (r, w') \<Longrightarrow> tabs w' = tabs w"
    and enq_outbox: "enq i w = (r, w') \<Longrightarrow> outbox w' = outbox w"
    and enq_queued: "enq i w = (Inr (), w') \<Longrightarrow> i \<in> set (queue w')"
    and enq_keeps: "enq i w = (r, w') \<Longrightarrow> set (queue w) \<subseteq> set (queue w')"

lemma enqueue_task_cases:
  "enqueue_task i w = (r, w') \<Longrightarrow> tabs w' = tabs w \<and> outbox w' = outbox w \<and>
     (queue w' = queue w \<or> i \<notin> set (queue w) \<and> queue w' = queue w @ [i]) \<and>
     (r = Inr () \<or> r = Inl Queue_ErrTaskIDConflict \<longrightarrow> i \<in> set (queue w')) \<and>
     (distinct (queue w) \<longrightarrow> distinct (queue w'))"
  by (auto simp: enqueue_task_def Let_def split: list.splits bool.splits if_splits)

lemma EnqueueSend_cases:
  "EnqueueSend i w = (r, w') \<Longrightarrow> tabs w' = tabs w \<and> outbox w' = outbox w \<and>
     (queue w' = queue w \<or> i \<notin> set (queue w) \<and> queue w' = queue w @ [i]) \<and>
     (r = Inr () \<longrightarrow> i \<in> set (queue w')) \<and> (distinct (queue w) \<longrightarrow> distinct (queue w'))"
  by (auto simp: EnqueueSend_def step_iffs split: if_splits dest: enqueue_task_cases)

interpretation asynq: enqueuer EnqueueSend
  by unfold_locales (auto dest: EnqueueSend_cases)

text \<open>\<open>storage.Store\<close>: what was put is read back, until it is put again or deleted.\<close>

locale object_store =
  fixes S :: blob_store and at :: "world \<Rightarrow> string \<Rightarrow> string option"
  assumes put_ok: "bs_Put S k d w = (Inr (), w') \<Longrightarrow> at w' = (at w)(k \<mapsto> d)"
    and put_err: "bs_Put S k d w = (Inl e, w') \<Longrightarrow> at w' = at w"
    and get_ok: "bs_Get S k w = (Inr d, w') \<Longrightarrow> at w k = Some d"
    and get_same: "bs_Get S k w = (r, w') \<Longrightarrow> at w' = at w"
    and delete_ok: "bs_Delete S k w = (Inr (), w') \<Longrightarrow> at w' = (at w)(k := None)"
    and blob_tabs: "bs_Put S k d w = (u, w') \<or> bs_Get S k w = (r, w') \<or> bs_Delete S k w = (u, w')
      \<Longrightarrow> tabs w' = tabs w \<and> outbox w' = outbox w"

lemma blob_call_iff:
  "blob_call f w = (r, w') \<longleftrightarrow>
     (if blob_faults w \<noteq> [] \<and> hd (blob_faults w)
      then r = Inl ErrBlob \<and> w' = w\<lparr>blob_faults := tl (blob_faults w)\<rparr>
      else f (w\<lparr>blob_faults := tl (blob_faults w)\<rparr>) = (r, w'))"
  by (auto simp: blob_call_def split: list.splits bool.splits)

lemmas blob_defs = S3Store_def Put_def Get_def Delete_def put_object_def get_object_def
  delete_object_def blob_call_iff

definition s3_at :: "string \<Rightarrow> world \<Rightarrow> string \<Rightarrow> string option" where
  "s3_at prefix w k = blobs w (path prefix k)"

interpretation s3: object_store "S3Store p" "s3_at p" for p
  by unfold_locales
    (auto simp: blob_defs s3_at_def path_def fun_eq_iff split: if_splits option.splits)

lemma s3_tabs:
  "Put p k d w = (u, w') \<Longrightarrow> tabs w' = tabs w" "Get p k w = (r, w') \<Longrightarrow> tabs w' = tabs w"
  "Delete p k w = (u, w') \<Longrightarrow> tabs w' = tabs w"
  by (auto simp: blob_defs split: if_splits option.splits)

end
