(* ===== verification/EmailStore.thy ===== *)
theory EmailStore imports Provider begin

text \<open>
  internal/email/email.go and store.go: outbound messages, their event trail and their
  attachments, as the statements the store issues, and the invariant those statements keep:
  the status of a message and its trail never disagree.
\<close>

definition Terminal :: "status \<Rightarrow> bool" where
  "Terminal s \<longleftrightarrow> s = StatusSent \<or> s = StatusDead"

record create_params =
  p_ws :: string
  p_from :: string
  p_to :: "string list"
  p_cc :: "string list"
  p_bcc :: "string list"
  p_subject :: string
  p_html :: string
  p_text :: string
  p_idem :: string
  p_in_reply_to :: string
  p_refs :: string

section \<open>Statements\<close>

definition nullif :: "string \<Rightarrow> string option" where
  "nullif s = (if s = [] then None else Some s)"

definition deref :: "string option \<Rightarrow> string" where
  "deref s = (case s of None \<Rightarrow> [] | Some s \<Rightarrow> s)"

text \<open>\<open>btrim\<close> strips spaces only; \<open>LIKE '%_@_%'\<close>: an @ with a character on either side.\<close>

definition btrim :: "string \<Rightarrow> string" where
  "btrim s = trim_chars s '' ''"

definition like_address :: "string \<Rightarrow> bool" where
  "like_address s \<longleftrightarrow> CHR ''@'' \<in> set (butlast (tl s))"

text \<open>INSERT INTO emails: the row, then its CHECKs, its unique indexes and its foreign key.\<close>

definition new_email :: "create_params \<Rightarrow> string \<Rightarrow> email_row" where
  "new_email p i = \<lparr>e_id = i, e_ws = p_ws p, e_from = p_from p, e_to = p_to p, e_cc = p_cc p,
     e_bcc = p_bcc p, e_subject = p_subject p, e_html = nullif (p_html p),
     e_text = nullif (p_text p), e_in_reply_to = p_in_reply_to p, e_refs = p_refs p,
     e_status = StatusQueued, e_provider_id = None, e_idem = nullif (p_idem p), e_attempts = 0,
     e_error = None, e_retained = None\<rparr>"

definition emails_check :: "email_row \<Rightarrow> bool" where
  "emails_check e \<longleftrightarrow> like_address (e_from e) \<and> e_to e \<noteq> [] \<and> [] \<notin> set (e_to e) \<and>
     (btrim (deref (e_html e)) \<noteq> [] \<or> btrim (deref (e_text e)) \<noteq> [])"

definition insert_email :: "create_params \<Rightarrow> string \<Rightarrow> email_row stmt" where
  "insert_email p i now t =
     (let e = new_email p i in
      if \<not> emails_check e then (Inl ErrDB, t)
      else if clashes (\<lambda>_. True) e_id e (emails t) then (Inl ErrUnique, t)
      else if clashes (\<lambda>e. e_idem e \<noteq> None) (\<lambda>e. (e_ws e, e_idem e)) e (emails t)
        then (Inl ErrUnique, t)
      else if e_ws e \<notin> w_id ` set (workspaces t) then (Inl ErrDB, t)
      else (Inr e, t\<lparr>emails := emails t @ [e]\<rparr>))"

definition insert_event :: "string \<Rightarrow> event_type \<Rightarrow> (string \<times> string) list option \<Rightarrow> unit stmt" where
  "insert_event i ty detail now t =
     (if i \<notin> e_id ` set (emails t) then (Inl ErrDB, t)
      else (Inr (), t\<lparr>events := events t @ [\<lparr>ev_email = i, ev_type = ty, ev_detail = detail\<rparr>]\<rparr>))"

text \<open>UPDATE emails SET ... WHERE ... RETURNING, scanned as one row.\<close>

definition update_email :: "(email_row \<Rightarrow> bool) \<Rightarrow> (email_row \<Rightarrow> email_row) \<Rightarrow> email_row stmt" where
  "update_email P f now t =
     (case List.find P (emails t) of None \<Rightarrow> (Inl Email_ErrNotFound, t)
      | Some e \<Rightarrow> (Inr (f e), t\<lparr>emails := upd_where P f (emails t)\<rparr>))"

definition email_where :: "(email_row \<Rightarrow> bool) \<Rightarrow> email_row op" where
  "email_where P = query (\<lambda>now t.
     case List.find P (emails t) of None \<Rightarrow> Inl Email_ErrNotFound | Some e \<Rightarrow> Inr e)"

section \<open>The store\<close>

definition insertEvent :: "string \<Rightarrow> event_type \<Rightarrow> (string \<times> string) list option \<Rightarrow> unit op" where
  "insertEvent emailID ty detail = sql (insert_event emailID ty detail)"

definition Create :: "create_params \<Rightarrow> email_row op" where
  "Create p = withTx (withUUID (\<lambda>i.
     handleE (sql (insert_email p i))
       (\<lambda>e. throwE (if e = ErrUnique then Email_ErrDuplicateIdempotencyKey else e)) (\<lambda>email.
     bindE (insertEvent (e_id email) EventQueued None) (\<lambda>_.
     returnE (email, True)))))"

definition finish :: "event_type \<Rightarrow> (email_row \<Rightarrow> bool) \<Rightarrow> (email_row \<Rightarrow> email_row)
    \<Rightarrow> (string \<times> string) list option \<Rightarrow> email_row op" where
  "finish ty P f detail = withTx (
     bindE (sql (update_email P f)) (\<lambda>email.
     bindE (insertEvent (e_id email) ty detail) (\<lambda>_.
     returnE (email, True))))"

definition MarkProcessing :: "string \<Rightarrow> email_row op" where
  "MarkProcessing i = finish EventProcessing
     (\<lambda>e. e_id e = i \<and> e_status e \<in> {StatusQueued, StatusFailed})
     (\<lambda>e. e\<lparr>e_status := StatusProcessing\<rparr>) None"

definition MarkDead :: "string \<Rightarrow> string \<Rightarrow> email_row op" where
  "MarkDead i reason = finish EventFailed (\<lambda>e. e_id e = i)
     (\<lambda>e. e\<lparr>e_status := StatusDead, e_attempts := e_attempts e + 1, e_error := Some reason\<rparr>)
     (Some [(''error'', reason), (''final'', ''true'')])"

definition MarkSent :: "string \<Rightarrow> string \<Rightarrow> email_row op" where
  "MarkSent i mid = finish EventSent (\<lambda>e. e_id e = i)
     (\<lambda>e. e\<lparr>e_status := StatusSent, e_provider_id := Some mid, e_attempts := e_attempts e + 1,
        e_error := None\<rparr>)
     (Some [(''provider_message_id'', mid)])"

definition MarkFailed :: "string \<Rightarrow> string \<Rightarrow> email_row op" where
  "MarkFailed i reason = finish EventFailed (\<lambda>e. e_id e = i)
     (\<lambda>e. e\<lparr>e_status := StatusFailed, e_attempts := e_attempts e + 1, e_error := Some reason\<rparr>)
     (Some [(''error'', reason)])"

definition ByID :: "string \<Rightarrow> string \<Rightarrow> email_row op" where
  "ByID ws i = email_where (\<lambda>e. e_id e = i \<and> e_ws e = ws)"

definition ByIDUnscoped :: "string \<Rightarrow> email_row op" where
  "ByIDUnscoped i = email_where (\<lambda>e. e_id e = i)"

definition ByIdempotencyKey :: "string \<Rightarrow> string \<Rightarrow> email_row op" where
  "ByIdempotencyKey ws key = email_where (\<lambda>e. e_ws e = ws \<and> e_idem e = Some key)"

text \<open>
  The text strpos searches: concat_ws skips NULLs, array_to_string joins with a space. Newest
  first is the reverse of insertion order.
\<close>

fun join :: "string \<Rightarrow> string list \<Rightarrow> string" where
  "join sep [] = []"
| "join sep [s] = s"
| "join sep (s # t # ss) = s @ sep @ join sep (t # ss)"

definition search_text :: "email_row \<Rightarrow> string" where
  "search_text e = join '' '' ([e_from e, join '' '' (e_to e), e_subject e]
     @ (case e_text e of None \<Rightarrow> [] | Some s \<Rightarrow> [s]) @ (case e_html e of None \<Rightarrow> [] | Some s \<Rightarrow> [s]))"

definition address_of :: "db \<Rightarrow> mailbox_row \<Rightarrow> string option" where
  "address_of t b = map_option (\<lambda>d. to_lower (b_local b @ ''@'' @ d_name d))
     (List.find (\<lambda>d. d_id d = b_domain b) (domains t))"

definition visible_to :: "db \<Rightarrow> string \<Rightarrow> email_row \<Rightarrow> bool" where
  "visible_to t u e \<longleftrightarrow>
     (\<exists>m\<in>set (members t). m_ws m = e_ws e \<and> m_user m = u) \<and>
     (e_retained e = None \<or> e_retained e = Some u) \<and>
     \<not> (\<exists>b\<in>set (mailboxes t). address_of t b = Some (to_lower (e_from e)) \<and>
          b_owner b \<noteq> None \<and> b_owner b \<noteq> Some u)"

definition SearchForUser :: "string \<Rightarrow> string \<Rightarrow> nat \<Rightarrow> email_row list op" where
  "SearchForUser u q limit = query (\<lambda>now t. Inr (take limit (rev (filter
     (\<lambda>e. visible_to t u e \<and> contains (to_lower (search_text e)) (to_lower q)) (emails t)))))"

section \<open>Attachments\<close>

definition insert_attachment :: "attachment_row \<Rightarrow> attachment_row stmt" where
  "insert_attachment a now t =
     (if btrim (a_filename a) = [] \<or> a_size a \<le> 0 \<or> length (a_sha a) \<noteq> 32 \<or> btrim (a_key a) = []
        then (Inl ErrDB, t)
      else if clashes (\<lambda>_. True) a_id a (attachments t) \<or> clashes (\<lambda>_. True) a_key a (attachments t)
        then (Inl ErrUnique, t)
      else if a_ws a \<notin> w_id ` set (workspaces t) then (Inl ErrDB, t)
      else (Inr a, t\<lparr>attachments := attachments t @ [a]\<rparr>))"

definition InsertAttachment :: "string \<Rightarrow> string \<Rightarrow> string \<Rightarrow> int \<Rightarrow> string \<Rightarrow> string
    \<Rightarrow> attachment_row op" where
  "InsertAttachment ws filename ctype sz sha key = withUUID (\<lambda>i. sql (insert_attachment
     \<lparr>a_id = i, a_ws = ws, a_email = None, a_filename = filename, a_ctype = ctype, a_size = sz,
      a_sha = sha, a_key = key\<rparr>))"

definition DeleteAttachment :: "string \<Rightarrow> string \<Rightarrow> unit op" where
  "DeleteAttachment ws i = sql (\<lambda>now t. (Inr (),
     t\<lparr>attachments := del_where (\<lambda>a. a_id a = i \<and> a_ws a = ws) (attachments t)\<rparr>))"

definition AttachmentsByIDs :: "string \<Rightarrow> string list \<Rightarrow> attachment_row list op" where
  "AttachmentsByIDs ws ids = query (\<lambda>now t. Inr (filter
     (\<lambda>a. a_ws a = ws \<and> a_id a \<in> set ids \<and> a_email a = None) (attachments t)))"

definition AttachToEmail :: "string \<Rightarrow> string \<Rightarrow> string list \<Rightarrow> nat op" where
  "AttachToEmail ws i ids = sql (\<lambda>now t.
     let P = (\<lambda>a. a_ws a = ws \<and> a_id a \<in> set ids \<and> a_email a = None) in
     if count_where P (attachments t) \<noteq> 0 \<and> i \<notin> e_id ` set (emails t) then (Inl ErrDB, t)
     else (Inr (count_where P (attachments t)),
       t\<lparr>attachments := upd_where P (\<lambda>a. a\<lparr>a_email := Some i\<rparr>) (attachments t)\<rparr>))"

definition AttachmentsByEmailID :: "string \<Rightarrow> attachment_row list op" where
  "AttachmentsByEmailID i = query (\<lambda>now t. Inr (filter (\<lambda>a. a_email a = Some i) (attachments t)))"

definition Events :: "string \<Rightarrow> event_row list op" where
  "Events i = query (\<lambda>now t. Inr (filter (\<lambda>v. ev_email v = i) (events t)))"

section \<open>Status and trail agree\<close>

definition trail :: "db \<Rightarrow> string \<Rightarrow> event_row list" where
  "trail t i = filter (\<lambda>v. ev_email v = i) (events t)"

text \<open>The status the last event of a trail stands for.\<close>

definition status_of :: "event_row list \<Rightarrow> status option" where
  "status_of vs = (if vs = [] then None else
     case ev_type (last vs) of
       EventQueued \<Rightarrow> Some StatusQueued | EventProcessing \<Rightarrow> Some StatusProcessing
     | EventSent \<Rightarrow> Some StatusSent
     | EventFailed \<Rightarrow> (case ev_detail (last vs) of
           Some d \<Rightarrow> Some (if (''final'', ''true'') \<in> set d then StatusDead else StatusFailed)
         | None \<Rightarrow> Some StatusFailed)
     | _ \<Rightarrow> None)"

definition tries :: "event_row list \<Rightarrow> nat" where
  "tries vs = length (filter (\<lambda>v. ev_type v \<in> {EventSent, EventFailed}) vs)"

definition log_ok :: "db \<Rightarrow> bool" where
  "log_ok t \<longleftrightarrow> uniq_on (\<lambda>_. True) e_id (emails t) \<and>
     (\<forall>v\<in>set (events t). ev_email v \<in> e_id ` set (emails t)) \<and>
     (\<forall>e\<in>set (emails t). status_of (trail t (e_id e)) = Some (e_status e) \<and>
        tries (trail t (e_id e)) = e_attempts e \<and>
        ev_type (hd (trail t (e_id e))) = EventQueued)"

lemma trail_snoc [simp]:
  "trail (t\<lparr>emails := es, events := events t @ [v]\<rparr>) i = trail t i @ (if ev_email v = i then [v] else [])"
  by (simp add: trail_def)

lemma status_of_snoc [simp]: "status_of (vs @ [v]) = status_of [v]"
  by (cases "ev_type v") (simp_all add: status_of_def)

lemma tries_snoc [simp]:
  "tries (vs @ [v]) = tries vs + (if ev_type v \<in> {EventSent, EventFailed} then 1 else 0)"
  by (simp add: tries_def)

lemma status_of_one [simp]:
  "ev_type v = EventQueued \<Longrightarrow> status_of [v] = Some StatusQueued"
  "ev_type v = EventProcessing \<Longrightarrow> status_of [v] = Some StatusProcessing"
  "ev_type v = EventSent \<Longrightarrow> status_of [v] = Some StatusSent"
  "ev_type v = EventFailed \<Longrightarrow> ev_detail v = Some d \<Longrightarrow>
     status_of [v] = Some (if (''final'', ''true'') \<in> set d then StatusDead else StatusFailed)"
  by (simp_all add: status_of_def)

lemma tries_Nil [simp]: "tries [] = 0"
  by (simp add: tries_def)

lemma trail_not_Nil: "log_ok t \<Longrightarrow> e \<in> set (emails t) \<Longrightarrow> trail t (e_id e) \<noteq> []"
  by (auto simp: log_ok_def status_of_def split: if_splits)

lemma log_ok_unique: "log_ok t \<Longrightarrow> e \<in> set (emails t) \<Longrightarrow> e' \<in> set (emails t) \<Longrightarrow> e_id e = e_id e' \<Longrightarrow> e = e'"
  by (auto simp: log_ok_def dest: uniq_onD)

lemma log_ok_tabs: "emails t' = emails t \<Longrightarrow> events t' = events t \<Longrightarrow> log_ok t' = log_ok t"
  by (simp add: log_ok_def trail_def)

text \<open>A new row with its first event.\<close>

lemma log_ok_insert:
  assumes "log_ok t" "e_id e \<notin> e_id ` set (emails t)" "e_status e = StatusQueued" "e_attempts e = 0"
  shows "log_ok (t\<lparr>emails := emails t @ [e],
    events := events t @ [\<lparr>ev_email = e_id e, ev_type = EventQueued, ev_detail = d\<rparr>]\<rparr>)"
proof -
  have "ev_email v \<noteq> e_id e" if "v \<in> set (events t)" for v
    using assms(1,2) that unfolding log_ok_def by metis
  then have empty: "trail t (e_id e) = []"
    by (auto simp: trail_def filter_empty_conv)
  show ?thesis
    using assms empty unfolding log_ok_def
    using tries_snoc[of "[]"] by (auto simp: table_simps clashes_def image_iff)
qed

text \<open>An update of one row with an event that says the same.\<close>

lemma log_ok_update:
  assumes "log_ok t" "e \<in> set (emails t)" "P e" "\<And>x. P x \<Longrightarrow> e_id x = e_id e"
    and "e_id (f e) = e_id e" "status_of [v] = Some (e_status (f e))" "ev_email v = e_id e"
    and "e_attempts (f e) = e_attempts e + (if ev_type v \<in> {EventSent, EventFailed} then 1 else 0)"
  shows "log_ok (t\<lparr>emails := upd_where P f (emails t), events := events t @ [v]\<rparr>)" (is "log_ok ?t")
proof -
  have only: "x = e" if "x \<in> set (emails t)" "P x" for x
    using log_ok_unique[OF assms(1) that(1) assms(2)] assms(4)[OF that(2)] by simp
  have same: "x = e" if "x \<in> set (emails t)" "e_id x = e_id e" for x
    using log_ok_unique[OF assms(1) that(1) assms(2)] that(2) by simp
  have "uniq_on (\<lambda>_. True) e_id (upd_where P f (emails t))"
  proof (rule uniq_on_upd_where)
    show "uniq_on (\<lambda>_. True) e_id (emails t)"
      using assms(1) by (simp add: log_ok_def)
    show "True \<and> e_id (f r) = e_id r" if "r \<in> set (emails t)" "P r" for r
      using only[OF that] assms(5) by simp
  qed
  moreover have rows: "set (upd_where P f (emails t)) = insert (f e) (set (emails t) - {e})"
    using assms(2,3) by (auto simp: table_simps dest: only)
  moreover have "e_id ` set (upd_where P f (emails t)) = e_id ` set (emails t)"
    unfolding rows using assms(2,5) by (force simp: image_iff)
  moreover have "ev_email v \<in> e_id ` set (emails t)"
    using assms(2,7) by simp
  moreover have "status_of (trail ?t (e_id x)) = Some (e_status x) \<and>
      tries (trail ?t (e_id x)) = e_attempts x \<and> ev_type (hd (trail ?t (e_id x))) = EventQueued"
    if x: "x \<in> set (upd_where P f (emails t))" for x
  proof (cases "x = f e")
    case True
    then show ?thesis
      using assms(1,2,5-8) trail_not_Nil[OF assms(1,2)] by (simp add: log_ok_def)
  next
    case False
    then have "x \<in> set (emails t)" "e_id x \<noteq> e_id e"
      using x same[of x] unfolding rows by auto
    then show ?thesis
      using assms(1,7) by (simp add: log_ok_def)
  qed
  ultimately show ?thesis
    using assms(1) by (auto simp: log_ok_def)
qed

section \<open>Inverting the statements\<close>

lemma insert_email_iff [step_iffs]:
  "insert_email p i now t = (Inr e, t') \<longleftrightarrow>
     e = new_email p i \<and> t' = t\<lparr>emails := emails t @ [e]\<rparr> \<and> emails_check e \<and>
     (\<forall>x\<in>set (emails t). e_id x \<noteq> i) \<and>
     (p_idem p \<noteq> [] \<longrightarrow> (\<forall>x\<in>set (emails t). \<not> (e_ws x = p_ws p \<and> e_idem x = Some (p_idem p)))) \<and>
     p_ws p \<in> w_id ` set (workspaces t)"
  by (auto simp: insert_email_def Let_def clashes_def new_email_def nullif_def)

lemma insert_email_unique:
  "insert_email p i now t = (Inl ErrUnique, t') \<Longrightarrow>
     (\<exists>x\<in>set (emails t). e_id x = i) \<or>
     p_idem p \<noteq> [] \<and> (\<exists>x\<in>set (emails t). e_ws x = p_ws p \<and> e_idem x = Some (p_idem p))"
  by (auto simp: insert_email_def Let_def clashes_def new_email_def nullif_def split: if_splits)

lemma insert_event_iff [step_iffs]:
  "insert_event i ty d now t = (Inr u, t') \<longleftrightarrow> i \<in> e_id ` set (emails t) \<and>
     t' = t\<lparr>events := events t @ [\<lparr>ev_email = i, ev_type = ty, ev_detail = d\<rparr>]\<rparr>"
  by (auto simp: insert_event_def)

lemma update_email_iff [step_iffs]:
  "update_email P f now t = (Inr e, t') \<longleftrightarrow>
     (\<exists>x. List.find P (emails t) = Some x \<and> e = f x \<and> t' = t\<lparr>emails := upd_where P f (emails t)\<rparr>)"
  by (auto simp: update_email_def split: option.splits)

lemma email_where_Inr [step_iffs]:
  "email_where P w = (Inr e, w') \<longleftrightarrow>
     \<not> db_down w \<and> List.find P (emails (tabs w)) = Some e \<and> w' = spend w"
  by (auto simp: email_where_def step_iffs split: option.splits)

lemma email_where_Inl [step_iffs]:
  "email_where P w = (Inl e, w') \<longleftrightarrow> w' = spend w \<and>
     (if db_down w then e = ErrDB
      else List.find P (emails (tabs w)) = None \<and> e = Email_ErrNotFound)"
  by (auto simp: email_where_def step_iffs split: option.splits)

section \<open>What each store operation does\<close>

lemma Create_Inr:
  "Create p w = (Inr e, w') \<Longrightarrow>
     e_id e \<notin> e_id ` set (emails (tabs w)) \<and> e = new_email p (e_id e) \<and> emails_check e \<and>
     (p_idem p \<noteq> [] \<longrightarrow> \<not> (\<exists>x\<in>set (emails (tabs w)). e_ws x = p_ws p \<and> e_idem x = Some (p_idem p))) \<and>
     tabs w' = (tabs w)\<lparr>emails := emails (tabs w) @ [e], events := events (tabs w) @
       [\<lparr>ev_email = e_id e, ev_type = EventQueued, ev_detail = None\<rparr>]\<rparr> \<and> 
     outbox w' = outbox w \<and> queue w' = queue w"
  by (auto simp: Create_def insertEvent_def step_iffs new_email_def image_iff)

lemma Create_Inl:
  "Create p w = (Inl e, w') \<Longrightarrow> tabs w' = tabs w \<and> outbox w' = outbox w"
  by (auto simp: Create_def insertEvent_def step_iffs)

lemma finish_Inr:
  "finish ty P f d w = (Inr e', w') \<Longrightarrow> \<exists>e. List.find P (emails (tabs w)) = Some e \<and> e' = f e \<and>
     tabs w' = (tabs w)\<lparr>emails := upd_where P f (emails (tabs w)), events := events (tabs w) @
       [\<lparr>ev_email = e_id (f e), ev_type = ty, ev_detail = d\<rparr>]\<rparr> \<and> outbox w' = outbox w \<and> queue w' = queue w"
  by (auto simp: finish_def insertEvent_def step_iffs)

lemma finish_Inl: "finish ty P f d w = (Inl e, w') \<Longrightarrow> tabs w' = tabs w \<and> outbox w' = outbox w \<and> queue w' = queue w"
  by (auto simp: finish_def insertEvent_def step_iffs)

lemma finish_outbox: "finish ty P f d w = (r, w') \<Longrightarrow> outbox w' = outbox w"
  using finish_Inr[of ty P f d w _ w'] finish_Inl[of ty P f d w _ w'] by (cases r) auto

lemmas Mark_defs = MarkProcessing_def MarkSent_def MarkFailed_def MarkDead_def

lemma finish_log_ok:
  assumes "finish ty P f d w = (r, w')" "log_ok (tabs w)"
    and "\<And>x. P x \<Longrightarrow> e_id x = i" "\<And>e. e_id (f e) = e_id e"
    and "\<And>e. status_of [\<lparr>ev_email = i, ev_type = ty, ev_detail = d\<rparr>] = Some (e_status (f e))"
    and "\<And>e. e_attempts (f e) = e_attempts e + (if ty \<in> {EventSent, EventFailed} then 1 else 0)"
  shows "log_ok (tabs w')"
proof (cases r)
  case (Inr e')
  obtain e where e: "List.find P (emails (tabs w)) = Some e" 
    "tabs w' = (tabs w)\<lparr>emails := upd_where P f (emails (tabs w)), events := events (tabs w) @
       [\<lparr>ev_email = e_id (f e), ev_type = ty, ev_detail = d\<rparr>]\<rparr>"
    using finish_Inr assms(1) Inr by blast
  have m: "e \<in> set (emails (tabs w))" "P e"
    using find_SomeD[OF e(1)] by auto
  have "e_id e = i" using assms(3)[OF m(2)] .
  with assms(2-6) m show ?thesis
    unfolding e(2) by (intro log_ok_update[where e = e]) auto
next
  case (Inl e)
  with finish_Inl assms(1,2) show ?thesis by metis
qed

lemma Mark_log_ok:
  "MarkProcessing i w = (r, w') \<Longrightarrow> log_ok (tabs w) \<Longrightarrow> log_ok (tabs w')"
  "MarkSent i m w = (r, w') \<Longrightarrow> log_ok (tabs w) \<Longrightarrow> log_ok (tabs w')"
  "MarkFailed i m w = (r, w') \<Longrightarrow> log_ok (tabs w) \<Longrightarrow> log_ok (tabs w')"
  "MarkDead i m w = (r, w') \<Longrightarrow> log_ok (tabs w) \<Longrightarrow> log_ok (tabs w')"
  unfolding Mark_defs by (erule finish_log_ok[where i = i], simp_all)+

lemma Create_log_ok: "Create p w = (r, w') \<Longrightarrow> log_ok (tabs w) \<Longrightarrow> log_ok (tabs w')"
proof (cases r)
  case (Inr e)
  assume "Create p w = (r, w')" "log_ok (tabs w)"
  with Create_Inr[of p w e w'] Inr show ?thesis
    using log_ok_insert[of "tabs w" e None] by (metis email_row.select_convs(12,15) new_email_def)
next
  case (Inl e)
  then show "Create p w = (r, w') \<Longrightarrow> log_ok (tabs w) \<Longrightarrow> ?thesis" using Create_Inl by metis
qed

end
