(* ===== verification/Cascades.thy ===== *)
theory Cascades imports EmailStore begin

text \<open>
  What the database does on its own (migrations 0007, 0009, 0010, 0012, 0013, 0015, 0017): the rows a
  deletion takes with it, the trigger that refuses to delete a domain with personal mailboxes, the
  trigger that keeps sent mail of an owned mailbox private after the mailbox is gone, and the two folders
  every mailbox is born with. Names of mailboxes are citext, so they compare without case.
\<close>

definition domain_of_box :: "db \<Rightarrow> mailbox_row \<Rightarrow> domain_row option" where
  "domain_of_box t b = List.find (\<lambda>d. d_id d = b_domain b) (domains t)"

definition box_address :: "db \<Rightarrow> mailbox_row \<Rightarrow> string option" where
  "box_address t b = map_option (\<lambda>d. b_local b @ ''@'' @ d_name d) (domain_of_box t b)"

text \<open>The workspace a mailbox serves: its personal one, or that of its domain.\<close>

definition box_workspace :: "db \<Rightarrow> mailbox_row \<Rightarrow> string option" where
  "box_workspace t b = (case b_personal b of Some w \<Rightarrow> Some w | None \<Rightarrow> map_option d_ws (domain_of_box t b))"

definition mail_of_box :: "db \<Rightarrow> mailbox_row \<Rightarrow> email_row \<Rightarrow> bool" where
  "mail_of_box t b e \<longleftrightarrow> box_workspace t b = Some (e_ws e) \<and>
     (case box_address t b of None \<Rightarrow> False | Some a \<Rightarrow> to_lower (e_from e) = to_lower a)"

text \<open>\<open>retain_mailbox_privacy\<close> and \<open>retain_domain_mail_privacy\<close>, before the rows go.\<close>

fun retain :: "mailbox_row list \<Rightarrow> db \<Rightarrow> db" where
  "retain [] t = t"
| "retain (b # bs) t = retain bs (case b_owner b of None \<Rightarrow> t
     | Some u \<Rightarrow> t\<lparr>emails := upd_where (mail_of_box t b) (\<lambda>e. e\<lparr>e_retained := Some u\<rparr>) (emails t)\<rparr>)"

definition drop_boxes :: "(mailbox_row \<Rightarrow> bool) \<Rightarrow> db \<Rightarrow> db" where
  "drop_boxes P t =
     (let gone = filter P (mailboxes t); ids = b_id ` set gone; t1 = retain gone t in
      t1\<lparr>mailboxes := del_where P (mailboxes t1),
         folders := del_where (\<lambda>f. f_box f \<in> ids) (folders t1),
         messages := del_where (\<lambda>g. g_box g \<in> ids) (messages t1),
         smtp_creds := del_where (\<lambda>c. c_box c \<in> ids) (smtp_creds t1)\<rparr>)"

text \<open>\<open>DELETE FROM domains\<close>: refused while one of them hosts a personal mailbox.\<close>

definition hosts_personal :: "db \<Rightarrow> (domain_row \<Rightarrow> bool) \<Rightarrow> bool" where
  "hosts_personal t P \<longleftrightarrow> (\<exists>d\<in>set (domains t). P d \<and> (\<exists>b\<in>set (mailboxes t). b_domain b = d_id d \<and> b_personal b \<noteq> None))"

definition drop_domains :: "(domain_row \<Rightarrow> bool) \<Rightarrow> db \<Rightarrow> gerror + db" where
  "drop_domains P t =
     (let ids = d_id ` set (filter P (domains t)) in
      if hosts_personal t P then Inl ErrDB else
      let t1 = drop_boxes (\<lambda>b. b_domain b \<in> ids) t in
      Inr (t1\<lparr>domains := del_where P (domains t1), dkim_keys := del_where (\<lambda>k. k_domain k \<in> ids) (dkim_keys t1)\<rparr>))"

text \<open>\<open>DELETE FROM workspaces\<close>: everything that belongs to the tenant.\<close>

definition drop_workspaces :: "(workspace_row \<Rightarrow> bool) \<Rightarrow> db \<Rightarrow> gerror + db" where
  "drop_workspaces P t =
     (let ids = w_id ` set (filter P (workspaces t)) in
      case drop_domains (\<lambda>d. d_ws d \<in> ids) t of Inl e \<Rightarrow> Inl e
      | Inr t1 \<Rightarrow>
        let t2 = drop_boxes (\<lambda>b. case b_personal b of None \<Rightarrow> False | Some w \<Rightarrow> w \<in> ids) t1;
            mails = e_id ` {e \<in> set (emails t2). e_ws e \<in> ids} in
        Inr (t2\<lparr>workspaces := del_where P (workspaces t2),
          members := del_where (\<lambda>m. m_ws m \<in> ids) (members t2),
          api_keys := del_where (\<lambda>k. ak_ws k \<in> ids) (api_keys t2),
          emails := del_where (\<lambda>e. e_ws e \<in> ids) (emails t2),
          events := del_where (\<lambda>v. ev_email v \<in> mails) (events t2),
          attachments := del_where (\<lambda>a. a_ws a \<in> ids \<or> (case a_email a of None \<Rightarrow> False | Some e \<Rightarrow> e \<in> mails)) (attachments t2)\<rparr>))"

text \<open>\<open>create_imap_inbox\<close>: INBOX and Junk with the validity numbers drawn for them.\<close>

definition insert_mailbox :: "nat \<Rightarrow> nat \<Rightarrow> mailbox_row \<Rightarrow> mailbox_row stmt" where
  "insert_mailbox v v' b now t =
     (if btrim (b_local b) = [] \<or> b_domain b \<notin> d_id ` set (domains t) \<or>
        (case b_owner b of None \<Rightarrow> False | Some u \<Rightarrow> u \<notin> u_id ` set (users t)) then (Inl ErrDB, t)
      else if clashes (\<lambda>_. True) b_id b (mailboxes t) \<or>
        clashes (\<lambda>_. True) (\<lambda>b. (b_domain b, to_lower (b_local b))) b (mailboxes t) \<or>
        clashes (\<lambda>b. b_personal b \<noteq> None) b_personal b (mailboxes t) then (Inl ErrUnique, t)
      else (Inr b, t\<lparr>mailboxes := mailboxes t @ [b],
        folders := folders t @ [\<lparr>f_box = b_id b, f_name = ''INBOX'', f_validity = v, f_subscribed = True\<rparr>,
          \<lparr>f_box = b_id b, f_name = ''Junk'', f_validity = v', f_subscribed = True\<rparr>]\<rparr>))"

text \<open>\<open>protect_personal_membership\<close> and the membership's keys.\<close>

definition insert_member :: "member_row \<Rightarrow> unit stmt" where
  "insert_member m now t =
     (if (\<exists>w\<in>set (workspaces t). w_id w = m_ws m \<and> w_personal w \<noteq> None \<and> w_personal w \<noteq> Some (m_user m)) \<or>
        (case m_role m of RoleOther _ \<Rightarrow> True | _ \<Rightarrow> False) then (Inl ErrDB, t)
      else if clashes (\<lambda>_. True) (\<lambda>m. (m_ws m, m_user m)) m (members t) \<or>
        clashes (\<lambda>m. m_role m = RoleOwner) m_ws m (members t) then (Inl ErrUnique, t)
      else if m_ws m \<notin> w_id ` set (workspaces t) \<or> m_user m \<notin> u_id ` set (users t) then (Inl ErrDB, t)
      else (Inr (), t\<lparr>members := members t @ [m]\<rparr>))"

text \<open>\<open>revoke_mailbox_smtp_on_membership\<close>: the sending passwords a member issued in the workspace.\<close>

definition issued_in :: "db \<Rightarrow> string \<Rightarrow> string \<Rightarrow> smtp_cred_row \<Rightarrow> bool" where
  "issued_in t ws u c \<longleftrightarrow> c_issuer c = u \<and> (\<exists>b\<in>set (mailboxes t). b_id b = c_box c \<and>
     domain_of_box t b \<noteq> None \<and> box_workspace t b = Some ws)"

definition revoke_issued :: "string \<Rightarrow> string \<Rightarrow> db \<Rightarrow> db" where
  "revoke_issued ws u t = t\<lparr>smtp_creds := del_where (issued_in t ws u) (smtp_creds t)\<rparr>"

section \<open>What they leave alone\<close>

lemma retain_tabs [simp]:
  "mailboxes (retain bs t) = mailboxes t" "domains (retain bs t) = domains t" "folders (retain bs t) = folders t"
  "messages (retain bs t) = messages t" "smtp_creds (retain bs t) = smtp_creds t" "members (retain bs t) = members t"
  "workspaces (retain bs t) = workspaces t" "users (retain bs t) = users t" "dkim_keys (retain bs t) = dkim_keys t"
  "api_keys (retain bs t) = api_keys t" "events (retain bs t) = events t" "attachments (retain bs t) = attachments t"
  "sessions (retain bs t) = sessions t" "tokens (retain bs t) = tokens t" "identities (retain bs t) = identities t"
  by (induction bs arbitrary: t) (auto split: option.splits)

text \<open>A trigger that changes the mail changes nothing but who it is kept for.\<close>

definition same_mail :: "email_row \<Rightarrow> email_row \<Rightarrow> bool" where
  "same_mail e e' \<longleftrightarrow> e'\<lparr>e_retained := e_retained e\<rparr> = e"

lemma same_mail_simps [simp]: "same_mail e e" "same_mail e (e'\<lparr>e_retained := r\<rparr>) = same_mail e e'"
  by (simp_all add: same_mail_def)

lemma same_mail_trans: "same_mail a b \<Longrightarrow> same_mail b c \<Longrightarrow> same_mail a c"
  unfolding same_mail_def
  by (metis (no_types, lifting) email_row.select_convs(17) email_row.surjective email_row.update_convs(17))

lemma retain_emails: "list_all2 same_mail (emails t) (emails (retain bs t))"
proof (induction bs arbitrary: t)
  case Nil
  show ?case by (simp add: list.rel_refl)
next
  case (Cons b bs)
  show ?case
  proof (cases "b_owner b")
    case None
    then show ?thesis using Cons by simp
  next
    case (Some u)
    let ?t = "t\<lparr>emails := upd_where (mail_of_box t b) (\<lambda>e. e\<lparr>e_retained := Some u\<rparr>) (emails t)\<rparr>"
    have "list_all2 same_mail (emails t) (emails ?t)"
      by (simp add: upd_where_def list_all2_conv_all_nth)
    from list_all2_trans[OF same_mail_trans this Cons[of ?t]] show ?thesis
      using Some by simp
  qed
qed

lemma drop_boxes_tabs [simp]:
  "domains (drop_boxes P t) = domains t" "members (drop_boxes P t) = members t" "workspaces (drop_boxes P t) = workspaces t"
  "users (drop_boxes P t) = users t" "dkim_keys (drop_boxes P t) = dkim_keys t" "api_keys (drop_boxes P t) = api_keys t"
  "mailboxes (drop_boxes P t) = del_where P (mailboxes t)" "sessions (drop_boxes P t) = sessions t"
  by (simp_all add: drop_boxes_def Let_def)

end
