(* ===== verification/Samples.thy ===== *)
theory Samples imports Provider begin

text \<open>
  Concrete libraries and worlds at which the hypotheses of the properties hold: a digest of the
  right length, a password hash that keeps the password behind a mark, and a database with one
  user, one workspace and one verified domain.
\<close>

definition sample_lib :: lib where
  "sample_lib = \<lparr>l_sha256 = (\<lambda>s. take 32 (s @ replicate 32 (CHR ''0''))),
     l_bcrypt = (\<lambda>salt p. CHR ''$'' # p), l_bcrypt_ok = (\<lambda>h p. h = CHR ''$'' # p),
     l_email = (\<lambda>s. CHR ''@'' \<in> set s), l_uuid = (\<lambda>s. s \<noteq> []), l_address = (\<lambda>s. CHR ''@'' \<in> set s),
     l_parse_address = (\<lambda>s. if CHR ''@'' \<in> set s then Some (s, []) else None),
     l_rsa = (\<lambda>s. s \<noteq> []), l_inet = (\<lambda>s. True), l_error = (\<lambda>e. ''error'')\<rparr>"

definition sample_db :: db where
  "sample_db = empty_db\<lparr>
     users := [\<lparr>u_id = ''bob'', u_email = ''bob@acme.kz'', u_name = ''Bob'', u_verified_at = None,
       u_must_change = False\<rparr>],
     identities := [\<lparr>i_user = ''bob'', i_provider = ProviderPassword, i_subject = ''bob@acme.kz'',
       i_hash = Some ''$old password'', i_last_login = None\<rparr>],
     workspaces := [\<lparr>w_id = ''ws'', w_slug = ''acme'', w_name = ''Acme'', w_personal = None\<rparr>],
     members := [\<lparr>m_ws = ''ws'', m_user = ''bob'', m_role = RoleOwner\<rparr>],
     domains := [\<lparr>d_id = ''dom'', d_ws = ''ws'', d_name = ''acme.kz'', d_primary = False,
       d_token = ''tok'', d_verified = Some 0, d_checked = None, d_error = None\<rparr>]\<rparr>"

definition sample_random :: string where
  "sample_random = replicate 32 (CHR ''r'')"

definition sample_world :: world where
  "sample_world = empty_world\<lparr>tabs := sample_db, uuids := [''u1'', ''u2'', ''u3'', ''u4''],
     entropy := [sample_random, sample_random, sample_random, sample_random], draws := [123456, 7]\<rparr>"

text \<open>Running a composed step on a concrete world.\<close>

lemmas exec_defs = withTx_def withUUID_def handleE_def bindE_def guardE_def throwE_def returnE_def
  ignoreE_def sql_def query_def db_down_def spend_def Let_def clashes_def

lemmas sample_defs = sample_lib_def sample_db_def sample_world_def empty_db_def empty_world_def

end
