(* ===== verification/Secrets.thy ===== *)
theory Secrets imports Samples begin

text \<open>
  internal/secrets/secrets.go: authenticated encryption of the private DKIM keys, with the standard
  base64 alphabet the database column holds; and the base64 decoder of the Go library, which skips line
  breaks, wants the padding complete and reads nothing after it.

  AES-GCM itself is crypto/cipher's: an \<open>aead\<close> is what cipher.NewGCM returns, a sealing and an opening
  function, and \<open>aead_ok\<close> its documented contract (Open undoes Seal under the same nonce).
\<close>

section \<open>Standard base64\<close>

definition b64std_char :: "nat \<Rightarrow> char" where
  "b64std_char n = (if n < 26 then char_of (65 + n) else if n < 52 then char_of (71 + n)
     else if n < 62 then char_of (n - 4) else if n = 62 then CHR ''+'' else CHR ''/'')"

definition b64_std :: "string \<Rightarrow> string" where
  "b64_std s = b64 b64std_char s @ replicate ((3 - length s mod 3) mod 3) (CHR ''='')"

definition b64std_val :: "char \<Rightarrow> nat option" where
  "b64std_val c = (let n = of_char c in
     if 65 \<le> n \<and> n < 91 then Some (n - 65) else if 97 \<le> n \<and> n < 123 then Some (n - 71)
     else if 48 \<le> n \<and> n < 58 then Some (n + 4) else if n = 43 then Some 62
     else if n = 47 then Some 63 else None)"

fun unb64 :: "string \<Rightarrow> string option" where
  "unb64 [] = Some []"
| "unb64 (a # b # c # d # s) =
     (if c = CHR ''='' \<and> d = CHR ''='' \<and> s = [] then
        (case (b64std_val a, b64std_val b) of
           (Some i, Some j) \<Rightarrow> Some [char_of (i * 4 + j div 16)] | _ \<Rightarrow> None)
      else if d = CHR ''='' \<and> s = [] then
        (case (b64std_val a, b64std_val b, b64std_val c) of
           (Some i, Some j, Some k) \<Rightarrow> Some [char_of (i * 4 + j div 16), char_of (j mod 16 * 16 + k div 4)]
         | _ \<Rightarrow> None)
      else
        (case (b64std_val a, b64std_val b, b64std_val c, b64std_val d) of
           (Some i, Some j, Some k, Some l) \<Rightarrow>
             map_option (\<lambda>r. char_of (i * 4 + j div 16) # char_of (j mod 16 * 16 + k div 4) #
               char_of (k mod 4 * 64 + l) # r) (unb64 s)
         | _ \<Rightarrow> None))"
| "unb64 s = None"

definition DecodeString :: "string \<Rightarrow> string option" where
  "DecodeString s = unb64 (filter (\<lambda>c. of_char c \<noteq> (10 :: nat) \<and> of_char c \<noteq> (13 :: nat)) s)"

lemma b64std_val_char [simp]: "n < 64 \<Longrightarrow> b64std_val (b64std_char n) = Some n"
  by (auto simp: b64std_val_def b64std_char_def Let_def)

lemma b64std_char_plain:
  assumes "n < 64"
  shows "b64std_char n \<noteq> CHR ''=''" "of_char (b64std_char n) \<noteq> (10 :: nat)" "of_char (b64std_char n) \<noteq> (13 :: nat)"
proof -
  have "b64std_val (b64std_char n) = Some n" using assms by simp
  then show "b64std_char n \<noteq> CHR ''=''" "of_char (b64std_char n) \<noteq> (10 :: nat)" "of_char (b64std_char n) \<noteq> (13 :: nat)"
    by (auto simp: b64std_val_def Let_def split: if_splits)
qed

lemma sixbits:
  fixes x y z :: nat
  assumes "x < 256" "y < 256" "z < 256"
  shows "x div 4 < 64" "x mod 4 * 16 < 64" "x mod 4 * 16 + y div 16 < 64" "y mod 16 * 4 < 64"
    "y mod 16 * 4 + z div 64 < 64" "z mod 64 < 64"
    "x div 4 * 4 + (x mod 4 * 16) div 16 = x" "x div 4 * 4 + (x mod 4 * 16 + y div 16) div 16 = x"
    "(x mod 4 * 16 + y div 16) mod 16 * 16 + (y mod 16 * 4) div 4 = y"
    "(x mod 4 * 16 + y div 16) mod 16 * 16 + (y mod 16 * 4 + z div 64) div 4 = y"
    "(y mod 16 * 4 + z div 64) mod 4 * 64 + z mod 64 = z"
proof -
  have b: "x mod 4 < 4" "y mod 16 < 16" "y div 16 < 16" "z div 64 < 4" using assms by auto
  then show "x div 4 < 64" "x mod 4 * 16 < 64" "x mod 4 * 16 + y div 16 < 64" "y mod 16 * 4 < 64"
    "y mod 16 * 4 + z div 64 < 64" "z mod 64 < 64" using assms by linarith+
  have "(x mod 4 * 16 + y div 16) div 16 = x mod 4" "(x mod 4 * 16 + y div 16) mod 16 = y div 16"
    "(y mod 16 * 4 + z div 64) div 4 = y mod 16" "(y mod 16 * 4 + z div 64) mod 4 = z div 64"
    using b by simp_all
  then show "x div 4 * 4 + (x mod 4 * 16) div 16 = x" "x div 4 * 4 + (x mod 4 * 16 + y div 16) div 16 = x"
    "(x mod 4 * 16 + y div 16) mod 16 * 16 + (y mod 16 * 4) div 4 = y"
    "(x mod 4 * 16 + y div 16) mod 16 * 16 + (y mod 16 * 4 + z div 64) div 4 = y"
    "(y mod 16 * 4 + z div 64) mod 4 * 64 + z mod 64 = z"
    by (simp_all add: div_mult_mod_eq)
qed

lemma byte_bound: "of_char (c :: char) < (256 :: nat)"
  by (metis of_char_mod_256 mod_less_divisor zero_less_numeral)

lemma unb64_b64: "unb64 (b64_std s) = Some s"
proof (induction "b64std_char" s rule: b64.induct)
  case 1
  then show ?case by (simp add: b64_std_def)
next
  case (2 a)
  note B = sixbits[OF byte_bound[of a] byte_bound[of a] byte_bound[of a]]
  show ?case by (simp add: b64_std_def numeral_2_eq_2 B(1,2,7) del: mult_Suc_right)
next
  case (3 a b)
  note B = sixbits[OF byte_bound[of a] byte_bound[of b] byte_bound[of b]]
  have "of_char b div 16 < (16 :: nat)" using byte_bound[of b] by linarith
  then show ?case
    by (simp add: b64_std_def B(1,3,4,8,9) b64std_char_plain(1)[OF B(4)])
next
  case (4 a b c s)
  note B = sixbits[OF byte_bound[of a] byte_bound[of b] byte_bound[of c]]
  have m: "length (a # b # c # s) mod 3 = length s mod 3"
    unfolding list.size(4) by presburger
  have "b64_std (a # b # c # s) = b64std_char (of_char a div 4) #
      b64std_char (of_char a mod 4 * 16 + of_char b div 16) #
      b64std_char (of_char b mod 16 * 4 + of_char c div 64) # b64std_char (of_char c mod 64) # b64_std s"
    by (simp only: b64_std_def m b64.simps append_Cons)
  moreover have "of_char b div 16 < (16 :: nat)" "of_char c div 64 < (4 :: nat)"
    using byte_bound[of b] byte_bound[of c] by linarith+
  ultimately show ?case
    by (simp add: 4 B(1,3,5,6,8,10,11) b64std_char_plain(1)[OF B(5)] b64std_char_plain(1)[OF B(6)])
qed

lemma b64_chars: "set (b64 f s) \<subseteq> f ` {..<64}"
proof (induction f s rule: b64.induct)
  case (2 f a)
  note B = sixbits[OF byte_bound[of a] byte_bound[of a] byte_bound[of a]]
  show ?case unfolding b64.simps list.set using B(1,2) by blast
next
  case (3 f a b)
  note B = sixbits[OF byte_bound[of a] byte_bound[of b] byte_bound[of b]]
  show ?case unfolding b64.simps list.set using B(1,3,4) by blast
next
  case (4 f a b c s)
  note B = sixbits[OF byte_bound[of a] byte_bound[of b] byte_bound[of c]]
  show ?case unfolding b64.simps list.set using 4 B(1,3,5,6) by blast
qed simp

lemma DecodeString_b64: "DecodeString (b64_std s) = Some s"
proof -
  have "of_char c \<noteq> (10 :: nat) \<and> of_char c \<noteq> (13 :: nat)" if "c \<in> set (b64_std s)" for c
    using that b64_chars[of b64std_char s] b64std_char_plain(2,3) by (auto simp: b64_std_def split: if_splits)
  then have "filter (\<lambda>c. of_char c \<noteq> (10 :: nat) \<and> of_char c \<noteq> (13 :: nat)) (b64_std s) = b64_std s"
    by (simp add: filter_id_conv)
  then show ?thesis by (simp add: DecodeString_def unb64_b64)
qed

section \<open>The sealer\<close>

record aead =
  ae_seal :: "string \<Rightarrow> string \<Rightarrow> string"
  ae_open :: "string \<Rightarrow> string \<Rightarrow> string option"

definition nonceSize :: nat where "nonceSize = 12"

definition aead_ok :: "aead \<Rightarrow> bool" where
  "aead_ok A \<longleftrightarrow> (\<forall>n p. length n = nonceSize \<longrightarrow> ae_open A n (ae_seal A n p) = Some p)"

text \<open>\<open>rand.Read\<close> into a buffer of \<open>n\<close> bytes.\<close>

definition randBytes :: "nat \<Rightarrow> string op" where
  "randBytes n = bindE randRead (\<lambda>r. returnE (take n (r @ replicate n (char_of (0 :: nat)))))"

lemma randBytes_iff [step_iffs]:
  "randBytes n w = (Inr b, w') \<longleftrightarrow> (\<exists>r rs. entropy w = r # rs \<and> w' = w\<lparr>entropy := rs\<rparr> \<and>
     b = take n (r @ replicate n (char_of (0 :: nat))))"
  "randBytes n w = (Inl e, w') \<longleftrightarrow> entropy w = [] \<and> e = ErrRand \<and> w' = w"
  by (auto simp: randBytes_def step_iffs)

lemma randBytes_length: "randBytes n w = (Inr b, w') \<Longrightarrow> length b = n"
  by (auto simp: step_iffs)

definition NewSealer :: "(string \<Rightarrow> aead) \<Rightarrow> string \<Rightarrow> gerror + aead" where
  "NewSealer gcm key = (if length key \<noteq> 32 then Inl Sec_ErrKey else Inr (gcm key))"

definition NewSealerFromEnv :: "(string \<Rightarrow> aead) \<Rightarrow> string \<Rightarrow> gerror + aead" where
  "NewSealerFromEnv gcm raw = (if raw = [] then Inl Sec_ErrNoKey else
     case DecodeString raw of None \<Rightarrow> Inl Sec_ErrKey | Some key \<Rightarrow> NewSealer gcm key)"

definition Seal :: "aead \<Rightarrow> string \<Rightarrow> string op" where
  "Seal A plaintext = bindE (randBytes nonceSize) (\<lambda>nonce.
     returnE (b64_std (nonce @ ae_seal A nonce plaintext)))"

definition Open :: "aead \<Rightarrow> string \<Rightarrow> gerror + string" where
  "Open A encoded = (case DecodeString encoded of None \<Rightarrow> Inl Sec_ErrCiphertext | Some raw \<Rightarrow>
     if length raw < nonceSize then Inl Sec_ErrCiphertext else
     (case ae_open A (take nonceSize raw) (drop nonceSize raw) of
        None \<Rightarrow> Inl Sec_ErrCiphertext | Some p \<Rightarrow> Inr p))"

lemma Seal_Inr: "Seal A p w = (Inr c, w') \<Longrightarrow> tabs w' = tabs w \<and> db_now w' = db_now w \<and> db_faults w' = db_faults w"
  by (auto simp: Seal_def step_iffs)

lemma Seal_Inl: "Seal A p w = (Inl e, w') \<Longrightarrow> w' = w"
  by (auto simp: Seal_def step_iffs)

lemma Open_Seal: "aead_ok A \<Longrightarrow> Seal A p w = (Inr c, w') \<Longrightarrow> Open A c = Inr p"
  by (auto simp: Seal_def bindE_Inr_iff returnE_iff Open_def DecodeString_b64 aead_ok_def dest!: randBytes_length)

text \<open>C39: What the sealer seals it opens: for every cipher that keeps its contract, under the nonce drawn for
  the call and stored with the text, Open gives back exactly the bytes sealed.\<close>

theorem seal_roundtrip:
  assumes "aead_ok A" "Seal A p w = (Inr c, w')"
  shows "Open A c = Inr p \<and> tabs w' = tabs w \<and>
    (\<forall>raw. DecodeString c = Some raw \<longrightarrow> nonceSize \<le> length raw)"
  using Open_Seal[OF assms] Seal_Inr[OF assms(2)]
  by (auto simp: Open_def split: option.splits if_splits)

text \<open>A cipher to run it with: the identity, which keeps the contract.\<close>

definition sample_aead :: aead where
  "sample_aead = \<lparr>ae_seal = (\<lambda>n p. n @ p), ae_open = (\<lambda>n b. if take (length n) b = n then Some (drop (length n) b) else None)\<rparr>"

lemma sample_aead_ok: "aead_ok sample_aead"
  by (simp add: aead_ok_def sample_aead_def)

theorem seal_roundtrip_witness:
  "\<exists>c w. Seal sample_aead ''key'' sample_world = (Inr c, w) \<and> Open sample_aead c = Inr ''key''"
proof -
  obtain c w where s: "Seal sample_aead ''key'' sample_world = (Inr c, w)"
    by (auto simp: Seal_def step_iffs sample_world_def)
  from seal_roundtrip[OF sample_aead_ok s] s show ?thesis by blast
qed

end
