(* ===== verification/MailDomain.thy ===== *)
theory MailDomain imports Cascades Secrets begin

text \<open>
  internal/maildomain: the mail domains a workspace claims, the DNS records that prove it owns them, and
  the DKIM keys it signs with (maildomain.go, records.go, dkim.go). DNS is a function from a name to the
  texts found there (\<open>None\<close> when the lookup fails); RSA key generation a function from randomness
  to the two encodings of a key pair.
\<close>

section \<open>Domains and names\<close>

definition challengeHost :: string where "challengeHost = ''_heromail-challenge''"
definition tokenPrefix :: string where "tokenPrefix = ''heromail-verify=''"

definition Verified :: "domain_row \<Rightarrow> bool" where
  "Verified d \<longleftrightarrow> d_verified d \<noteq> None"

definition ChallengeRecord :: "domain_row \<Rightarrow> string \<times> string" where
  "ChallengeRecord d = (challengeHost @ ''.'' @ d_name d, d_token d)"

definition Normalise :: "string \<Rightarrow> string" where
  "Normalise name = trim_suffix (to_lower (trim_space name)) ''.''"

text \<open>\<open>namePattern\<close>: at least two labels of lower-case letters, digits and inner hyphens.\<close>

definition alnum :: "char \<Rightarrow> bool" where
  "alnum c \<longleftrightarrow> is_digit c \<or> CHR ''a'' \<le> c \<and> c \<le> CHR ''z''"

definition label_ok :: "string \<Rightarrow> bool" where
  "label_ok l \<longleftrightarrow> l \<noteq> [] \<and> alnum (hd l) \<and> alnum (last l) \<and> (\<forall>c\<in>set l. alnum c \<or> c = CHR ''-'')"

fun labels :: "string \<Rightarrow> string list" where
  "labels [] = [[]]"
| "labels (c # s) = (if c = CHR ''.'' then [] # labels s else
     (case labels s of [] \<Rightarrow> [[c]] | l # ls \<Rightarrow> (c # l) # ls))"

definition namePattern :: "string \<Rightarrow> bool" where
  "namePattern s \<longleftrightarrow> 2 \<le> length (labels s) \<and> (\<forall>l\<in>set (labels s). label_ok l)"

definition newDomainToken :: "string op" where
  "newDomainToken = bindE (randBytes 16) (\<lambda>raw. returnE (tokenPrefix @ hex raw))"

section \<open>The store\<close>

definition insert_domain :: "domain_row \<Rightarrow> domain_row stmt" where
  "insert_domain d now t =
     (if \<not> namePattern (d_name d) \<or> (d_primary d \<and> d_verified d = None) then (Inl ErrDB, t)
      else if clashes (\<lambda>_. True) d_id d (domains t) \<or> clashes (\<lambda>_. True) d_name d (domains t) \<or>
        clashes d_primary d_ws d (domains t) then (Inl ErrUnique, t)
      else if d_ws d \<notin> w_id ` set (workspaces t) then (Inl ErrDB, t)
      else (Inr d, t\<lparr>domains := domains t @ [d]\<rparr>))"

definition Dom_Create :: "string \<Rightarrow> string \<Rightarrow> string \<Rightarrow> domain_row op" where
  "Dom_Create ws name token = withUUID (\<lambda>i. handleE
     (sql (insert_domain \<lparr>d_id = i, d_ws = ws, d_name = name, d_primary = False, d_token = token,
        d_verified = None, d_checked = None, d_error = None\<rparr>))
     (\<lambda>e. throwE (if e = ErrUnique then Dom_ErrTaken else e)) returnE)"

definition domain_where :: "(domain_row \<Rightarrow> bool) \<Rightarrow> domain_row op" where
  "domain_where P = query (\<lambda>now t.
     case List.find P (domains t) of None \<Rightarrow> Inl Dom_ErrNotFound | Some d \<Rightarrow> Inr d)"

definition ListForWorkspace :: "string \<Rightarrow> domain_row list op" where
  "ListForWorkspace ws = query (\<lambda>now t. Inr (filter (\<lambda>d. d_ws d = ws) (domains t)))"

definition ByName :: "string \<Rightarrow> string \<Rightarrow> domain_row op" where
  "ByName ws name = domain_where (\<lambda>d. d_ws d = ws \<and> d_name d = name)"

definition ByNameUnscoped :: "string \<Rightarrow> domain_row op" where
  "ByNameUnscoped name = domain_where (\<lambda>d. d_name d = name)"

text \<open>UPDATE ... WHERE id RETURNING: the row as it is afterwards.\<close>

definition update_domain :: "string \<Rightarrow> (time \<Rightarrow> domain_row \<Rightarrow> domain_row) \<Rightarrow> domain_row op" where
  "update_domain i f = sql (\<lambda>now t.
     case List.find (\<lambda>d. d_id d = i) (domains t) of None \<Rightarrow> (Inl Dom_ErrNotFound, t)
     | Some d \<Rightarrow> (Inr (f now d), t\<lparr>domains := upd_where (\<lambda>d. d_id d = i) (f now) (domains t)\<rparr>))"

definition checked_row :: "bool \<Rightarrow> string \<Rightarrow> time \<Rightarrow> domain_row \<Rightarrow> domain_row" where
  "checked_row ok reason now d = (if ok
     then d\<lparr>d_verified := (case d_verified d of None \<Rightarrow> Some now | Some v \<Rightarrow> Some v), d_checked := Some now, d_error := None\<rparr>
     else d\<lparr>d_checked := Some now, d_error := Some reason\<rparr>)"

definition RecordCheck :: "string \<Rightarrow> bool \<Rightarrow> string \<Rightarrow> domain_row op" where
  "RecordCheck i ok reason = update_domain i (checked_row ok reason)"

text \<open>The promotion: the row check (an unverified domain is never primary) and the partial unique index.\<close>

definition promote :: "string \<Rightarrow> domain_row op" where
  "promote i = sql (\<lambda>now t.
     case List.find (\<lambda>d. d_id d = i) (domains t) of None \<Rightarrow> (Inl Dom_ErrNotFound, t)
     | Some d \<Rightarrow>
         if d_verified d = None then (Inl ErrDB, t)
         else if \<exists>x\<in>set (domains t). d_id x \<noteq> i \<and> d_primary x \<and> d_ws x = d_ws d then (Inl ErrUnique, t)
         else (Inr (d\<lparr>d_primary := True\<rparr>),
           t\<lparr>domains := upd_where (\<lambda>d. d_id d = i) (\<lambda>d. d\<lparr>d_primary := True\<rparr>) (domains t)\<rparr>))"

definition Store_SetPrimary :: "string \<Rightarrow> string \<Rightarrow> domain_row op" where
  "Store_SetPrimary ws i = withTx (
     bindE (sql (\<lambda>now t. (Inr (), t\<lparr>domains := upd_where (\<lambda>d. d_ws d = ws \<and> d_primary d)
       (\<lambda>d. d\<lparr>d_primary := False\<rparr>) (domains t)\<rparr>))) (\<lambda>_.
     bindE (promote i) (\<lambda>d. returnE (d, True))))"

definition Store_Delete :: "string \<Rightarrow> string \<Rightarrow> unit op" where
  "Store_Delete ws name = bindE (sql (\<lambda>now t.
     let P = (\<lambda>d. d_ws d = ws \<and> d_name d = name) in
     case drop_domains P t of Inl e \<Rightarrow> (Inl e, t) | Inr t' \<Rightarrow> (Inr (count_where P (domains t)), t'))) (\<lambda>n.
     if n = 0 then throwE Dom_ErrNotFound else returnE ())"

section \<open>DKIM keys\<close>

definition key_RecordName :: "dkim_row \<Rightarrow> string \<Rightarrow> string" where
  "key_RecordName k domain = k_selector k @ ''._domainkey.'' @ domain"

definition key_RecordValue :: "dkim_row \<Rightarrow> string" where
  "key_RecordValue k = ''v=DKIM1; k=rsa; p='' @ k_public k"

text \<open>\<open>now.UTC().Format("200601")\<close>: year and month of the proleptic Gregorian calendar, from days since 1970.\<close>

definition civil_month :: "int \<Rightarrow> int \<times> int" where
  "civil_month days =
     (let z = days + 719468; era = z div 146097; doe = z mod 146097;
          yoe = (doe - doe div 1460 + doe div 36524 - doe div 146096) div 365;
          doy = doe - (365 * yoe + yoe div 4 - yoe div 100);
          mp = (5 * doy + 2) div 153;
          m = (if mp < 10 then mp + 3 else mp - 9) in
      (yoe + era * 400 + (if m \<le> 2 then 1 else 0), m))"

definition year_month :: "time \<Rightarrow> string" where
  "year_month t = (let (y, m) = civil_month (t div (24 * hour)) in pad_dec 4 (nat y) @ pad_dec 2 (nat m))"

record domain_service =
  ds_cipher :: aead
  ds_lookup :: "string \<Rightarrow> string list option"
  ds_keypair :: "string \<Rightarrow> string \<times> string"
  ds_spf :: string
  ds_report :: string

definition withDefaults :: "domain_service \<Rightarrow> domain_service" where
  "withDefaults D = D\<lparr>ds_spf := (if ds_spf D = [] then ''include:spf.heromail.kz'' else ds_spf D),
     ds_report := (if ds_report D = [] then ''dmarc@heromail.local'' else ds_report D)\<rparr>"

definition generateDKIM :: "domain_service \<Rightarrow> (string \<times> string \<times> string) op" where
  "generateDKIM D = bindE (asks app_now) (\<lambda>now.
     bindE randRead (\<lambda>seed.
     let key = ds_keypair D seed; publicDER = fst key; privateDER = snd key in
     bindE (randBytes 3) (\<lambda>suffix.
     returnE (''hm'' @ year_month now @ hex suffix, b64_std publicDER, privateDER))))"

definition selector_ok :: "string \<Rightarrow> bool" where
  "selector_ok s \<longleftrightarrow> s \<noteq> [] \<and> alnum (hd s) \<and> (\<forall>c\<in>set s. alnum c \<or> c = CHR ''-'') \<and> length s \<le> 63"

definition insert_key :: "dkim_row \<Rightarrow> dkim_row stmt" where
  "insert_key k now t =
     (if \<not> selector_ok (k_selector k) \<or> (k_active k \<and> k_retired k \<noteq> None) then (Inl ErrDB, t)
      else if clashes (\<lambda>_. True) k_id k (dkim_keys t) \<or>
        clashes (\<lambda>_. True) (\<lambda>k. (k_domain k, k_selector k)) k (dkim_keys t) \<or>
        clashes k_active k_domain k (dkim_keys t) then (Inl ErrUnique, t)
      else if k_domain k \<notin> d_id ` set (domains t) then (Inl ErrDB, t)
      else (Inr k, t\<lparr>dkim_keys := dkim_keys t @ [k]\<rparr>))"

definition CreateDKIMKey :: "string \<Rightarrow> string \<Rightarrow> string \<Rightarrow> string \<Rightarrow> bool \<Rightarrow> dkim_row op" where
  "CreateDKIMKey domainID selector pub sealed active = withUUID (\<lambda>i.
     sql (insert_key \<lparr>k_id = i, k_domain = domainID, k_selector = selector, k_public = pub,
       k_private = sealed, k_active = active, k_retired = None\<rparr>))"

text \<open>\<open>ORDER BY is_active DESC, created_at DESC\<close>.\<close>

definition DKIMKeys :: "string \<Rightarrow> dkim_row list op" where
  "DKIMKeys domainID = query (\<lambda>now t. let ks = rev (filter (\<lambda>k. k_domain k = domainID) (dkim_keys t)) in
     Inr (filter k_active ks @ filter (\<lambda>k. \<not> k_active k) ks))"

definition retire_others :: "string \<Rightarrow> string \<Rightarrow> unit op" where
  "retire_others domainID keyID = sql (\<lambda>now t. (Inr (), t\<lparr>dkim_keys :=
     upd_where (\<lambda>k. k_domain k = domainID \<and> k_active k \<and> k_id k \<noteq> keyID)
       (\<lambda>k. k\<lparr>k_active := False, k_retired := Some now\<rparr>) (dkim_keys t)\<rparr>))"

definition activate_key :: "string \<Rightarrow> unit op" where
  "activate_key keyID = sql (\<lambda>now t.
     let ks = upd_where (\<lambda>k. k_id k = keyID) (\<lambda>k. k\<lparr>k_active := True, k_retired := None\<rparr>) (dkim_keys t) in
     if uniq_on k_active k_domain ks then (Inr (), t\<lparr>dkim_keys := ks\<rparr>) else (Inl ErrUnique, t))"

definition ActivateDKIMKey :: "string \<Rightarrow> string \<Rightarrow> unit op" where
  "ActivateDKIMKey domainID keyID = withTx (
     bindE (retire_others domainID keyID) (\<lambda>_.
     bindE (activate_key keyID) (\<lambda>_. returnE ((), True))))"

definition ActivePrivateKey :: "string \<Rightarrow> (string \<times> string) op" where
  "ActivePrivateKey domainID = query (\<lambda>now t.
     case List.find (\<lambda>k. k_domain k = domainID \<and> k_active k) (dkim_keys t) of
       None \<Rightarrow> Inl Dom_ErrNoActiveKey | Some k \<Rightarrow> Inr (k_selector k, k_private k))"

section \<open>Records\<close>

datatype record_purpose = PurposeOwnership | PurposeSPF | PurposeDKIM | PurposeDMARC
datatype record_status = StatusOK | StatusMissing | StatusMismatch

record dns_record =
  dr_name :: string
  dr_value :: string
  dr_purpose :: record_purpose
  dr_required :: bool
  dr_status :: "record_status option"
  dr_found :: "string list"

definition spfValue :: "domain_service \<Rightarrow> string" where
  "spfValue D = ''v=spf1 '' @ ds_spf D @ '' ~all''"

definition dmarcValue :: "domain_service \<Rightarrow> string" where
  "dmarcValue D = ''v=DMARC1; p=none; rua=mailto:'' @ ds_report D"

definition txt_record :: "string \<Rightarrow> string \<Rightarrow> record_purpose \<Rightarrow> bool \<Rightarrow> dns_record" where
  "txt_record name value p req = \<lparr>dr_name = name, dr_value = value, dr_purpose = p, dr_required = req,
     dr_status = None, dr_found = []\<rparr>"

definition Records :: "domain_service \<Rightarrow> domain_row \<Rightarrow> dns_record list op" where
  "Records D d = bindE (DKIMKeys (d_id d)) (\<lambda>keys.
     returnE ([txt_record (fst (ChallengeRecord d)) (snd (ChallengeRecord d)) PurposeOwnership True,
               txt_record (d_name d) (spfValue D) PurposeSPF True] @
       map (\<lambda>k. txt_record (key_RecordName k (d_name d)) (key_RecordValue k) PurposeDKIM (k_retired k = None)) keys @
       [txt_record (''_dmarc.'' @ d_name d) (dmarcValue D) PurposeDMARC False]))"

text \<open>Does one text found at the name satisfy the record?\<close>

definition satisfies :: "domain_service \<Rightarrow> dns_record \<Rightarrow> string \<Rightarrow> bool" where
  "satisfies D r raw = (let v = trim_space (trim_chars raw [CHR 0x22]) in
     case dr_purpose r of
       PurposeSPF \<Rightarrow> has_prefix (to_lower v) ''v=spf1'' \<and> contains v (ds_spf D)
     | PurposeDMARC \<Rightarrow> has_prefix (to_lower v) ''v=dmarc1''
     | _ \<Rightarrow> v = dr_value r)"

definition checkRecord :: "domain_service \<Rightarrow> dns_record \<Rightarrow> dns_record" where
  "checkRecord D r = (case ds_lookup D (dr_name r) of
     None \<Rightarrow> r\<lparr>dr_status := Some StatusMissing\<rparr>
   | Some values \<Rightarrow> if values = [] then r\<lparr>dr_status := Some StatusMissing\<rparr> else
       r\<lparr>dr_found := values,
         dr_status := Some (if \<exists>v\<in>set values. satisfies D r v then StatusOK else StatusMismatch)\<rparr>)"

definition describeFailure :: "dns_record \<Rightarrow> string" where
  "describeFailure r = (if dr_status r = Some StatusMissing then ''no TXT record at '' @ dr_name r
     else ''TXT '' @ dr_name r @ '' does not contain the expected value (found '' @
       dec (length (dr_found r)) @ '' record(s))'')"

section \<open>The service\<close>

definition generateKey :: "domain_service \<Rightarrow> string \<Rightarrow> bool \<Rightarrow> dkim_row op" where
  "generateKey D domainID active =
     bindE (generateDKIM D) (\<lambda>(selector, pub, privateDER).
     bindE (Seal (ds_cipher D) privateDER) (\<lambda>sealed.
     CreateDKIMKey domainID selector pub sealed active))"

definition Add :: "domain_service \<Rightarrow> string \<Rightarrow> string \<Rightarrow> domain_row op" where
  "Add D ws name = (let name = Normalise name in
     bindE (guardE (\<not> namePattern name \<or> 253 < length name) Dom_ErrValidation) (\<lambda>_.
     bindE newDomainToken (\<lambda>token.
     bindE (Dom_Create ws name token) (\<lambda>d.
     bindE (generateKey D (d_id d) True) (\<lambda>_. returnE d)))))"

definition RotateDKIM :: "domain_service \<Rightarrow> string \<Rightarrow> string \<Rightarrow> domain_row op" where
  "RotateDKIM D ws name = bindE (ByName ws (Normalise name)) (\<lambda>d.
     bindE (generateKey D (d_id d) False) (\<lambda>_. returnE d))"

definition Dom_List :: "string \<Rightarrow> domain_row list op" where
  "Dom_List ws = ListForWorkspace ws"

definition Dom_Get :: "string \<Rightarrow> string \<Rightarrow> domain_row op" where
  "Dom_Get ws name = ByName ws (Normalise name)"

definition Dom_Delete :: "string \<Rightarrow> string \<Rightarrow> unit op" where
  "Dom_Delete ws name = Store_Delete ws (Normalise name)"

text \<open>The loop of Verify over the checked records: the ownership outcome is what the row keeps.\<close>

fun record_ownership :: "dns_record list \<Rightarrow> domain_row \<Rightarrow> domain_row op" where
  "record_ownership [] d = returnE d"
| "record_ownership (r # rs) d =
     (if dr_purpose r \<noteq> PurposeOwnership then record_ownership rs d else
      bindE (if dr_status r = Some StatusOK then RecordCheck (d_id d) True []
             else RecordCheck (d_id d) False (describeFailure r)) (record_ownership rs))"

definition published :: "dns_record list \<Rightarrow> string set" where
  "published checked = dr_name ` {r \<in> set checked. dr_purpose r = PurposeDKIM \<and> dr_status r = Some StatusOK}"

definition promotePendingKey :: "domain_row \<Rightarrow> dns_record list \<Rightarrow> unit op" where
  "promotePendingKey d checked = bindE (DKIMKeys (d_id d)) (\<lambda>keys.
     case List.find (\<lambda>k. \<not> k_active k \<and> k_retired k = None \<and> key_RecordName k (d_name d) \<in> published checked) keys of
       None \<Rightarrow> returnE () | Some k \<Rightarrow> ActivateDKIMKey (d_id d) (k_id k))"

definition Verify :: "domain_service \<Rightarrow> string \<Rightarrow> string \<Rightarrow> (domain_row \<times> dns_record list) op" where
  "Verify D ws name = bindE (ByName ws (Normalise name)) (\<lambda>d.
     bindE (Records D d) (\<lambda>expected.
     let checked = map (checkRecord D) expected in
     bindE (record_ownership checked d) (\<lambda>d.
     bindE (promotePendingKey d checked) (\<lambda>_. returnE (d, checked)))))"

definition SigningKey :: "domain_service \<Rightarrow> string \<Rightarrow> (string \<times> string) op" where
  "SigningKey D domainID = bindE (ActivePrivateKey domainID) (\<lambda>(selector, sealed).
     bindE (liftE (Open (ds_cipher D) sealed)) (\<lambda>der. returnE (selector, der)))"

definition hosts_personal_of :: "string \<Rightarrow> string \<Rightarrow> bool op" where
  "hosts_personal_of ws name = query (\<lambda>now t. Inr (\<exists>b\<in>set (mailboxes t). b_personal b = Some ws \<and>
     (\<exists>d\<in>set (domains t). d_id d = b_domain b \<and> d_name d = name)))"

definition sign_with :: "domain_service \<Rightarrow> domain_row \<Rightarrow> (string \<times> string) op" where
  "sign_with D d = bindE (guardE (\<not> Verified d) Dom_ErrNotVerified) (\<lambda>_. SigningKey D (d_id d))"

definition SigningKeyForDomain :: "domain_service \<Rightarrow> string \<Rightarrow> string \<Rightarrow> (string \<times> string) op" where
  "SigningKeyForDomain D ws name = handleE (ByName ws (Normalise name))
     (\<lambda>e. if e = Dom_ErrNotFound then
        bindE (hosts_personal_of ws (Normalise name)) (\<lambda>allowed.
        if allowed then bindE (ByNameUnscoped (Normalise name)) (sign_with D) else throwE e)
      else throwE e)
     (sign_with D)"

definition AllowsSender :: "string \<Rightarrow> string \<Rightarrow> unit op" where
  "AllowsSender ws name = bindE (ByName ws (Normalise name)) (\<lambda>d.
     bindE (guardE (\<not> Verified d) Dom_ErrNotVerified) (\<lambda>_. returnE ()))"

definition SystemSigningKey :: "domain_service \<Rightarrow> string \<Rightarrow> (string \<times> string) op" where
  "SystemSigningKey D name = bindE (ByNameUnscoped (Normalise name)) (sign_with D)"

definition Dom_SetPrimary :: "string \<Rightarrow> string \<Rightarrow> domain_row op" where
  "Dom_SetPrimary ws name = bindE (ByName ws (Normalise name)) (\<lambda>d.
     bindE (guardE (\<not> Verified d) Dom_ErrNotVerified) (\<lambda>_. Store_SetPrimary ws (d_id d)))"

definition box_at :: "db \<Rightarrow> string \<Rightarrow> string \<Rightarrow> mailbox_row \<Rightarrow> bool" where
  "box_at t local name b \<longleftrightarrow> to_lower (b_local b) = to_lower local \<and>
     (\<exists>d\<in>set (domains t). d_id d = b_domain b \<and> d_name d = name)"

text \<open>The owner of the mailbox with that address (\<open>None\<close> when there is none or it is shared).\<close>

definition owner_of :: "string \<Rightarrow> string \<Rightarrow> string option op" where
  "owner_of local name = query (\<lambda>now t. Inr (case List.find (box_at t local name) (mailboxes t) of
     None \<Rightarrow> None | Some b \<Rightarrow> b_owner b))"

definition personal_of :: "string \<Rightarrow> string \<Rightarrow> string option op" where
  "personal_of local name = query (\<lambda>now t. Inr (case List.find (\<lambda>b. box_at t local name b \<and> b_personal b \<noteq> None \<and>
       (\<exists>d\<in>set (domains t). d_id d = b_domain b \<and> d_name d = name \<and> Verified d)) (mailboxes t) of
     None \<Rightarrow> None | Some b \<Rightarrow> b_personal b))"

definition AllowsAddress :: "string option \<Rightarrow> string \<Rightarrow> string \<Rightarrow> unit op" where
  "AllowsAddress user ws address = (let address = to_lower (trim_space address) in
     case last_index address (CHR ''@'') of None \<Rightarrow> throwE Dom_ErrNotFound | Some at \<Rightarrow>
     if at < 1 then throwE Dom_ErrNotFound else
     let local = take at address; name = drop (Suc at) address in
     bindE (owner_of local name) (\<lambda>owner.
     bindE (guardE (owner \<noteq> None \<and> user \<noteq> owner) Dom_ErrNotFound) (\<lambda>_.
     bindE (personal_of local name) (\<lambda>personal.
     case personal of
       Some w \<Rightarrow> if w = ws then returnE () else throwE Dom_ErrNotFound
     | None \<Rightarrow> AllowsSender ws name))))"

end
