(* ===== verification/Workspaces.thy ===== *)
theory Workspaces imports MailDomain begin

text \<open>
  internal/workspace/workspace.go with models.go's copy of the roles, and the handlers that act on
  tenants and their members: internal/httpapi/domains.go (scope), members.go, workspace_delete.go and the
  workspace operations of server.go.

  A handler answers \<open>Reply\<close> with its status and the value rendered, or \<open>Problem\<close> with the status and
  the code of the error envelope; \<open>Inl\<close> is a returned error, which the router turns into a 500. The
  caller is what account.CurrentUser reads from the context.
\<close>

section \<open>Roles\<close>

fun rank :: "role \<Rightarrow> int" where
  "rank RoleOwner = 3"
| "rank RoleAdmin = 2"
| "rank RoleMember = 1"
| "rank (RoleOther _) = 0"

definition AtLeast :: "role \<Rightarrow> role \<Rightarrow> bool" where
  "AtLeast r least \<longleftrightarrow> rank least \<le> rank r"

definition Valid :: "role \<Rightarrow> bool" where
  "Valid r \<longleftrightarrow> 0 < rank r"

text \<open>Roles are compared by privilege: a preorder in which all unknown roles are equal.\<close>

instantiation role :: preorder
begin

definition less_eq_role :: "role \<Rightarrow> role \<Rightarrow> bool" where
  "less_eq_role r s \<longleftrightarrow> AtLeast s r"

definition less_role :: "role \<Rightarrow> role \<Rightarrow> bool" where
  "less_role r s \<longleftrightarrow> AtLeast s r \<and> \<not> AtLeast r s"

instance
  by standard (auto simp: less_eq_role_def less_role_def AtLeast_def)

end

lemma AtLeast_le: "AtLeast r s \<longleftrightarrow> s \<le> r"
  by (simp add: less_eq_role_def)

section \<open>Invites of models.go\<close>

datatype invite_status = InvitePending | InviteAccepted | InviteRevoked | InviteExpired

record invite =
  iv_expires :: time
  iv_accepted :: "time option"
  iv_revoked :: "time option"

definition Invite_Status :: "invite \<Rightarrow> time \<Rightarrow> invite_status" where
  "Invite_Status i now =
     (if iv_accepted i \<noteq> None then InviteAccepted
      else if iv_revoked i \<noteq> None then InviteRevoked
      else if iv_expires i < now then InviteExpired
      else InvitePending)"

section \<open>The store and the service\<close>

text \<open>\<open>slugPattern\<close>: 3 to 63 lower-case letters, digits and hyphens, no hyphen at an end.\<close>

definition slugPattern :: "string \<Rightarrow> bool" where
  "slugPattern s \<longleftrightarrow> 3 \<le> length s \<and> length s \<le> 63 \<and> alnum (hd s) \<and> alnum (last s) \<and>
     (\<forall>c\<in>set s. alnum c \<or> c = CHR ''-'')"

definition insert_workspace :: "workspace_row \<Rightarrow> workspace_row stmt" where
  "insert_workspace x now t =
     (if \<not> slugPattern (w_slug x) \<or> btrim (w_name x) = [] then (Inl ErrDB, t)
      else if clashes (\<lambda>_. True) w_id x (workspaces t) \<or> clashes (\<lambda>_. True) w_slug x (workspaces t) \<or>
        clashes (\<lambda>x. w_personal x \<noteq> None) w_personal x (workspaces t) then (Inl ErrUnique, t)
      else (Inr x, t\<lparr>workspaces := workspaces t @ [x]\<rparr>))"

definition Ws_Store_Create :: "string \<Rightarrow> string \<Rightarrow> string \<Rightarrow> workspace_row op" where
  "Ws_Store_Create ownerID slug name = withTx (withUUID (\<lambda>i.
     handleE (sql (insert_workspace \<lparr>w_id = i, w_slug = slug, w_name = name, w_personal = None\<rparr>))
       (\<lambda>e. throwE (if e = ErrUnique then Ws_ErrSlugTaken else e)) (\<lambda>ws.
     bindE (sql (insert_member \<lparr>m_ws = w_id ws, m_user = ownerID, m_role = RoleOwner\<rparr>)) (\<lambda>_.
     returnE (ws, True)))))"

definition member_of :: "db \<Rightarrow> string \<Rightarrow> string \<Rightarrow> bool" where
  "member_of t ws u \<longleftrightarrow> (\<exists>m\<in>set (members t). m_ws m = ws \<and> m_user m = u)"

definition Ws_ListForUser :: "string \<Rightarrow> (workspace_row \<times> role) list op" where
  "Ws_ListForUser u = query (\<lambda>now t. Inr (concat (map (\<lambda>x. map (\<lambda>m. (x, m_role m))
     (filter (\<lambda>m. m_ws m = w_id x \<and> m_user m = u) (members t))) (workspaces t))))"

definition workspace_where :: "(db \<Rightarrow> workspace_row \<Rightarrow> bool) \<Rightarrow> workspace_row op" where
  "workspace_where P = query (\<lambda>now t.
     case List.find (P t) (workspaces t) of None \<Rightarrow> Inl Ws_ErrNotFound | Some x \<Rightarrow> Inr x)"

definition BySlugForUser :: "string \<Rightarrow> string \<Rightarrow> workspace_row op" where
  "BySlugForUser u slug = workspace_where (\<lambda>t x. w_slug x = slug \<and> member_of t (w_id x) u)"

definition MembershipRole :: "string \<Rightarrow> string \<Rightarrow> role op" where
  "MembershipRole ws u = query (\<lambda>now t.
     case List.find (\<lambda>m. m_ws m = ws \<and> m_user m = u) (members t) of
       None \<Rightarrow> Inl Ws_ErrNotFound | Some m \<Rightarrow> Inr (m_role m))"

definition Ws_ByID :: "string \<Rightarrow> workspace_row op" where
  "Ws_ByID i = workspace_where (\<lambda>t x. w_id x = i)"

definition Ws_Create :: "string \<Rightarrow> string \<Rightarrow> string \<Rightarrow> workspace_row op" where
  "Ws_Create ownerID slug name =
     (let slug = to_lower (trim_space slug); name = trim_space name in
      bindE (guardE (\<not> slugPattern slug) Ws_ErrValidation) (\<lambda>_.
      bindE (guardE (name = []) Ws_ErrValidation) (\<lambda>_.
      Ws_Store_Create ownerID slug name)))"

definition owned_by :: "db \<Rightarrow> string \<Rightarrow> string \<Rightarrow> workspace_row \<Rightarrow> bool" where
  "owned_by t u slug x \<longleftrightarrow> w_slug x = slug \<and>
     (\<exists>m\<in>set (members t). m_ws m = w_id x \<and> m_user m = u \<and> m_role m = RoleOwner)"

definition DeleteOwned :: "string \<Rightarrow> string \<Rightarrow> unit op" where
  "DeleteOwned u slug = bindE (sql (\<lambda>now t.
     case drop_workspaces (owned_by t u slug) t of Inl e \<Rightarrow> (Inl e, t)
     | Inr t' \<Rightarrow> (Inr (count_where (owned_by t u slug) (workspaces t)), t'))) (\<lambda>n.
     if n = 0 then throwE Ws_ErrNotFound else returnE ())"

section \<open>Answers and scope\<close>

datatype 'a reply = Reply nat 'a | Problem nat string

type_synonym 'a handler = "(world, gerror, 'a reply) step"

text \<open>\<open>if err != nil \<dots> errors.Is(err, target) \<rightarrow> problem\<close>, any other error is returned.\<close>

definition orElse :: "'a op \<Rightarrow> (gerror \<Rightarrow> 'b reply option) \<Rightarrow> ('a \<Rightarrow> 'b handler) \<Rightarrow> 'b handler" where
  "orElse m f k = handleE m (\<lambda>e. case f e of Some p \<Rightarrow> returnE p | None \<Rightarrow> throwE e) k"

definition onError :: "gerror \<Rightarrow> nat \<Rightarrow> string \<Rightarrow> gerror \<Rightarrow> 'b reply option" where
  "onError x status code e = (if e = x then Some (Problem status code) else None)"

definition always :: "nat \<Rightarrow> string \<Rightarrow> gerror \<Rightarrow> 'b reply option" where
  "always status code e = Some (Problem status code)"

definition scope :: "user_row option \<Rightarrow> string \<Rightarrow> role \<Rightarrow> (string \<times> bool) op" where
  "scope cu slug minRole = (case cu of None \<Rightarrow> throwE Ws_ErrNotFound | Some user \<Rightarrow>
     bindE (BySlugForUser (u_id user) slug) (\<lambda>ws.
     bindE (MembershipRole (w_id ws) (u_id user)) (\<lambda>role.
     returnE (w_id ws, \<not> AtLeast role minRole))))"

section \<open>Members\<close>

definition memberScope :: "user_row option \<Rightarrow> string \<Rightarrow> (string \<Rightarrow> 'a handler) \<Rightarrow> 'a handler" where
  "memberScope cu slug k =
     orElse (scope cu slug RoleOwner) (onError Ws_ErrNotFound 404 ''not_found'') (\<lambda>(i, forbidden).
     if forbidden then returnE (Problem 403 ''forbidden'') else
     bindE (query (\<lambda>now t. case List.find (\<lambda>x. w_id x = i) (workspaces t) of
         None \<Rightarrow> Inl ErrNoRows | Some x \<Rightarrow> Inr (w_personal x \<noteq> None))) (\<lambda>personal.
     if personal then returnE (Problem 403 ''personal_workspace'') else k i))"

definition members_of :: "string \<Rightarrow> (user_row \<times> role) list op" where
  "members_of i = query (\<lambda>now t. Inr (concat (map (\<lambda>m. map (\<lambda>u. (u, m_role m))
     (filter (\<lambda>u. u_id u = m_user m) (users t))) (filter (\<lambda>m. m_ws m = i) (members t)))))"

definition ListMembers :: "user_row option \<Rightarrow> string \<Rightarrow> (user_row \<times> role) list handler" where
  "ListMembers cu slug = memberScope cu slug (\<lambda>i. bindE (members_of i) (\<lambda>out. returnE (Reply 200 out)))"

text \<open>\<open>INSERT ... ON CONFLICT DO NOTHING\<close>: the number of rows added.\<close>

definition add_member :: "member_row \<Rightarrow> nat op" where
  "add_member m = handleE (sql (insert_member m))
     (\<lambda>e. if e = ErrUnique then returnE 0 else throwE e) (\<lambda>_. returnE 1)"

definition role_of_name :: "string \<Rightarrow> role" where
  "role_of_name s = (if s = ''owner'' then RoleOwner else if s = ''admin'' then RoleAdmin
     else if s = ''member'' then RoleMember else RoleOther s)"

definition AddMember :: "lib \<Rightarrow> user_row option \<Rightarrow> string \<Rightarrow> (string \<times> string) option
    \<Rightarrow> (user_row \<times> role) list handler" where
  "AddMember L cu slug body = memberScope cu slug (\<lambda>i.
     case body of None \<Rightarrow> returnE (Problem 400 ''member_error'') | Some (addr, role) \<Rightarrow>
     let email = trim_space addr in
     if map_option fst (l_parse_address L email) \<noteq> Some email \<or> (role \<noteq> ''admin'' \<and> role \<noteq> ''member'')
     then returnE (Problem 400 ''member_error'') else
     orElse (query (\<lambda>now t. case List.find (\<lambda>u. to_lower (u_email u) = to_lower email) (users t) of
         None \<Rightarrow> Inl ErrNoRows | Some u \<Rightarrow> Inr u)) (onError ErrNoRows 404 ''member_error'') (\<lambda>u.
     bindE (add_member \<lparr>m_ws = i, m_user = u_id u, m_role = role_of_name role\<rparr>) (\<lambda>n.
     if n = 0 then returnE (Problem 409 ''member_error'') else
     bindE (members_of i) (\<lambda>out. returnE (Reply 201 out)))))"

text \<open>The rows a member update or removal touches, and the trigger on them.\<close>

definition employee :: "string \<Rightarrow> string \<Rightarrow> member_row \<Rightarrow> bool" where
  "employee i u m \<longleftrightarrow> m_ws m = i \<and> m_user m = u \<and> m_role m \<noteq> RoleOwner"

definition change_members :: "string \<Rightarrow> string \<Rightarrow> (member_row list \<Rightarrow> member_row list) \<Rightarrow> nat op" where
  "change_members i u f = sql (\<lambda>now t. let n = count_where (employee i u) (members t) in
     (Inr n, if n = 0 then t else revoke_issued i u (t\<lparr>members := f (members t)\<rparr>)))"

definition UpdateMember :: "user_row option \<Rightarrow> string \<Rightarrow> string \<Rightarrow> string option \<Rightarrow> unit handler" where
  "UpdateMember cu slug userId body = memberScope cu slug (\<lambda>i.
     case body of None \<Rightarrow> returnE (Problem 400 ''validation_failed'') | Some role \<Rightarrow>
     if role \<noteq> ''admin'' \<and> role \<noteq> ''member'' then returnE (Problem 400 ''validation_failed'') else
     bindE (change_members i userId (upd_where (employee i userId) (\<lambda>m. m\<lparr>m_role := role_of_name role\<rparr>))) (\<lambda>n.
     if n = 0 then returnE (Problem 409 ''member_conflict'') else returnE (Reply 204 ())))"

definition RemoveMember :: "user_row option \<Rightarrow> string \<Rightarrow> string \<Rightarrow> unit handler" where
  "RemoveMember cu slug userId = memberScope cu slug (\<lambda>i.
     bindE (change_members i userId (del_where (employee i userId))) (\<lambda>n.
     if n = 0 then returnE (Problem 409 ''member_conflict'') else returnE (Reply 204 ())))"

section \<open>Workspaces\<close>

definition ListWorkspaces :: "user_row option \<Rightarrow> (workspace_row \<times> role) list handler" where
  "ListWorkspaces cu = (case cu of None \<Rightarrow> returnE (Problem 401 ''unauthenticated'') | Some user \<Rightarrow>
     bindE (Ws_ListForUser (u_id user)) (\<lambda>out. returnE (Reply 200 out)))"

definition CreateWorkspace :: "user_row option \<Rightarrow> (string \<times> string) option \<Rightarrow> workspace_row handler" where
  "CreateWorkspace cu body = (case cu of None \<Rightarrow> returnE (Problem 401 ''unauthenticated'') | Some user \<Rightarrow>
     case body of None \<Rightarrow> returnE (Problem 400 ''invalid_json'') | Some (slug, name) \<Rightarrow>
     orElse (Ws_Create (u_id user) slug name)
       (\<lambda>e. if e = Ws_ErrValidation then Some (Problem 400 ''validation_failed'')
            else if e = Ws_ErrSlugTaken then Some (Problem 409 ''slug_taken'') else None)
       (\<lambda>ws. returnE (Reply 201 ws)))"

definition GetWorkspace :: "user_row option \<Rightarrow> string \<Rightarrow> workspace_row handler" where
  "GetWorkspace cu slug = (case cu of None \<Rightarrow> returnE (Problem 401 ''unauthenticated'') | Some user \<Rightarrow>
     orElse (BySlugForUser (u_id user) slug) (onError Ws_ErrNotFound 404 ''not_found'') (\<lambda>ws. returnE (Reply 200 ws)))"

definition DeleteWorkspace :: "user_row option \<Rightarrow> string \<Rightarrow> unit handler" where
  "DeleteWorkspace cu slug =
     orElse (scope cu slug RoleOwner) (onError Ws_ErrNotFound 404 ''not_found'') (\<lambda>(i, forbidden).
     if forbidden then returnE (Problem 403 ''forbidden'') else
     orElse (DeleteOwned (case cu of None \<Rightarrow> [] | Some user \<Rightarrow> u_id user) slug) (onError Ws_ErrNotFound 404 ''not_found'')
       (\<lambda>_. returnE (Reply 204 ())))"

end
