(* ===== verification/Tenants.thy ===== *)
theory Tenants imports Workspaces begin

text \<open>
  Who may change a tenant and what a change leaves behind: a tenant has one owner through every
  sequence of operations, removing a member closes the tenant to them at once, and deleting a tenant
  touches no other. The invariant \<open>ws_ok\<close> holds the unique indexes of the two tables, the owner of every
  tenant, and that a personal tenant has only its person.
\<close>

section \<open>Inverting the handlers\<close>

lemma orElse_Inr [step_iffs]:
  "orElse m f k w = (Inr b, w') \<longleftrightarrow> (\<exists>e. m w = (Inl e, w') \<and> f e = Some b) \<or> (\<exists>a w1. m w = (Inr a, w1) \<and> k a w1 = (Inr b, w'))"
  by (auto simp: orElse_def handleE_iff returnE_iff throwE_iff split: option.splits)

lemma orElse_Inl [step_iffs]:
  "orElse m f k w = (Inl e, w') \<longleftrightarrow> m w = (Inl e, w') \<and> f e = None \<or> (\<exists>a w1. m w = (Inr a, w1) \<and> k a w1 = (Inl e, w'))"
  by (auto simp: orElse_def handleE_iff returnE_iff throwE_iff split: option.splits)

lemma onError_iff [simp]: "onError x s c e = Some p \<longleftrightarrow> e = x \<and> p = Problem s c" "onError x s c e = None \<longleftrightarrow> e \<noteq> x"
  by (auto simp: onError_def)

lemma always_iff [simp]: "always s c e = Some p \<longleftrightarrow> p = Problem s c" "always s c e \<noteq> None"
  by (auto simp: always_def)

lemma BySlugForUser_Inr: "BySlugForUser u slug w = (Inr x, w') \<Longrightarrow> w' = spend w \<and> x \<in> set (workspaces (tabs w)) \<and>
    w_slug x = slug \<and> member_of (tabs w) (w_id x) u"
  by (auto simp: BySlugForUser_def workspace_where_def query_Inr_iff split: option.splits dest!: find_SomeD)

lemma MembershipRole_Inr: "MembershipRole i u w = (Inr r, w') \<Longrightarrow> w' = spend w \<and>
    (\<exists>m\<in>set (members (tabs w)). m_ws m = i \<and> m_user m = u \<and> m_role m = r)"
  by (auto simp: MembershipRole_def query_Inr_iff split: option.splits dest!: find_SomeD)

lemma query_tabs: "query f w = (r, w') \<Longrightarrow> w' = spend w"
  by (cases r) (auto simp: step_iffs)

lemma scope_tabs: "scope cu slug r w = (q, w') \<Longrightarrow> tabs w' = tabs w"
  by (cases q) (auto simp: scope_def step_iffs BySlugForUser_def workspace_where_def MembershipRole_def split: option.splits dest!: query_tabs)

text \<open>Handlers built of operations keep what the operations keep.\<close>

context table_relation
begin

lemma on_scope: "keeps (on_tabs R) (scope cu slug r)"
  by (rule keepsI) (use scope_tabs in \<open>auto simp: on_tabs_def rel_refl\<close>)

lemma on_orElse:
  "keeps (on_tabs R) m \<Longrightarrow> (\<And>a. keeps (on_tabs R) (k a)) \<Longrightarrow> keeps (on_tabs R) (orElse m f k)"
  unfolding orElse_def by (intro keeps_rules)

lemmas handler_rules = keeps_rules on_scope on_orElse

lemma on_memberScope: "(\<And>i. keeps (on_tabs R) (k i)) \<Longrightarrow> keeps (on_tabs R) (memberScope cu slug k)"
  unfolding memberScope_def by (intro handler_rules)

end

definition has_role :: "db \<Rightarrow> string \<Rightarrow> string \<Rightarrow> role \<Rightarrow> bool" where
  "has_role t i u r \<longleftrightarrow> (\<exists>m\<in>set (members t). m_ws m = i \<and> m_user m = u \<and> r \<le> m_role m)"

lemma scope_Inr:
  assumes "scope cu slug r w = (Inr (i, forbidden), w')"
  obtains u x where "cu = Some u" "x \<in> set (workspaces (tabs w))" "w_id x = i" "w_slug x = slug"
    "member_of (tabs w) i (u_id u)" "\<not> forbidden \<Longrightarrow> has_role (tabs w) i (u_id u) r" "tabs w' = tabs w"
proof -
  obtain u x role w1 where u: "cu = Some u" and x: "BySlugForUser (u_id u) slug w = (Inr x, w1)"
    and m: "MembershipRole (w_id x) (u_id u) w1 = (Inr role, w')" and "i = w_id x" "forbidden = (\<not> AtLeast role r)"
    using assms by (auto simp: scope_def step_iffs split: option.splits)
  with BySlugForUser_Inr[OF x] MembershipRole_Inr[OF m] that[of u x] show thesis
    by (auto simp: has_role_def AtLeast_le)
qed

lemma rank_owner: "RoleOwner \<le> r \<longleftrightarrow> r = RoleOwner"
  by (cases r) (auto simp: less_eq_role_def AtLeast_def)

section \<open>Tenants have one owner\<close>

definition has_owner :: "member_row list \<Rightarrow> string \<Rightarrow> bool" where
  "has_owner ms i \<longleftrightarrow> (\<exists>m\<in>set ms. m_ws m = i \<and> m_role m = RoleOwner)"

definition proper :: "workspace_row list \<Rightarrow> member_row \<Rightarrow> bool" where
  "proper xs m \<longleftrightarrow> Valid (m_role m) \<and> m_ws m \<in> w_id ` set xs \<and>
     (\<forall>x\<in>set xs. w_id x = m_ws m \<longrightarrow> w_personal x = None \<or> w_personal x = Some (m_user m))"

definition ws_ok :: "db \<Rightarrow> bool" where
  "ws_ok t \<longleftrightarrow> uniq_on (\<lambda>_. True) w_id (workspaces t) \<and> uniq_on (\<lambda>_. True) w_slug (workspaces t) \<and>
     uniq_on (\<lambda>_. True) (\<lambda>m. (m_ws m, m_user m)) (members t) \<and> uniq_on (\<lambda>m. m_role m = RoleOwner) m_ws (members t) \<and>
     (\<forall>x\<in>set (workspaces t). has_owner (members t) (w_id x)) \<and> (\<forall>m\<in>set (members t). proper (workspaces t) m)"

lemma has_owner_snoc: "has_owner (ms @ [m]) i \<longleftrightarrow> has_owner ms i \<or> m_ws m = i \<and> m_role m = RoleOwner"
  by (auto simp: has_owner_def)

definition ws_keeps :: "db \<Rightarrow> db \<Rightarrow> bool" where
  "ws_keeps t t' \<longleftrightarrow> (ws_ok t \<longrightarrow> ws_ok t')"

interpretation tenants: table_relation ws_keeps
  by unfold_locales (auto simp: ws_keeps_def)

lemma Valid_cases: "Valid r \<longleftrightarrow> r = RoleOwner \<or> r = RoleAdmin \<or> r = RoleMember"
  by (cases r) (auto simp: Valid_def)

lemma insert_member_iff [step_iffs]:
  "insert_member m now t = (Inr u, t') \<longleftrightarrow> t' = t\<lparr>members := members t @ [m]\<rparr> \<and> proper (workspaces t) m \<and>
     \<not> clashes (\<lambda>_. True) (\<lambda>m. (m_ws m, m_user m)) m (members t) \<and> \<not> clashes (\<lambda>m. m_role m = RoleOwner) m_ws m (members t) \<and>
     m_user m \<in> u_id ` set (users t)"
proof -
  have "(case m_role m of RoleOther _ \<Rightarrow> True | _ \<Rightarrow> False) \<longleftrightarrow> \<not> Valid (m_role m)"
    by (cases "m_role m") (auto simp: Valid_def)
  then show ?thesis unfolding insert_member_def proper_def by (simp add: image_iff) blast
qed

lemma keeps_insert_member: "keeps (on_tabs ws_keeps) (sql (insert_member m))"
  by (rule tenants.on_sql) (auto simp: insert_member_iff ws_keeps_def ws_ok_def uniq_on_snoc has_owner_snoc)

lemma revoke_issued_tabs [simp]:
  "members (revoke_issued i u t) = members t" "workspaces (revoke_issued i u t) = workspaces t"
  by (simp_all add: revoke_issued_def)

lemma ws_ok_cong: "members t' = members t \<Longrightarrow> workspaces t' = workspaces t \<Longrightarrow> ws_ok t' = ws_ok t"
  by (simp add: ws_ok_def)

lemma ws_ok_upd:
  assumes "ws_ok t" "\<And>m. m_ws (f m) = m_ws m" "\<And>m. m_user (f m) = m_user m" "\<And>m. Valid (m_role (f m))"
    "\<And>m. m_role (f m) \<noteq> RoleOwner"
  shows "ws_ok (t\<lparr>members := upd_where (employee i u) f (members t)\<rparr>)"
proof -
  have "has_owner (upd_where (employee i u) f ms) j = has_owner ms j" for ms j
    using assms(5) by (induction ms) (auto simp: has_owner_def upd_where_def employee_def)
  moreover have "proper xs (f m)" if "proper xs m" for xs m
    using that assms(2-4) by (simp add: proper_def)
  ultimately show ?thesis
    using assms unfolding ws_ok_def by (auto simp: set_upd_where intro!: uniq_on_upd_where)
qed

lemma ws_ok_del:
  assumes "ws_ok t"
  shows "ws_ok (t\<lparr>members := del_where (employee i u) (members t)\<rparr>)"
proof -
  have "has_owner (del_where (employee i u) ms) j = has_owner ms j" for ms j
    by (auto simp: has_owner_def set_del_where employee_def)
  then show ?thesis
    using assms unfolding ws_ok_def by (simp add: set_del_where uniq_on_del_where)
qed

lemma keeps_change:
  assumes "\<And>t. ws_ok t \<Longrightarrow> ws_ok (t\<lparr>members := f (members t)\<rparr>)"
  shows "keeps (on_tabs ws_keeps) (change_members i u f)"
  unfolding change_members_def
  by (rule tenants.on_sql) (auto simp: ws_keeps_def Let_def ws_ok_cong[of "revoke_issued i u t" t for t] assms split: if_splits)

lemmas ws_rules = tenants.handler_rules keeps_insert_member

lemma keeps_AddMember: "keeps (on_tabs ws_keeps) (AddMember L cu slug body)"
  unfolding AddMember_def members_of_def add_member_def by (intro tenants.on_memberScope ws_rules)

lemma keeps_UpdateMember: "keeps (on_tabs ws_keeps) (UpdateMember cu slug u body)"
  unfolding UpdateMember_def
  by (intro tenants.on_memberScope ws_rules keeps_change ws_ok_upd) (auto simp: role_of_name_def Valid_cases)

lemma keeps_RemoveMember: "keeps (on_tabs ws_keeps) (RemoveMember cu slug u)"
  unfolding RemoveMember_def by (intro tenants.on_memberScope ws_rules keeps_change ws_ok_del)

text \<open>The transaction of Create: between its two statements the tenant has no owner yet.\<close>

lemma Ws_Store_Create_Inr:
  assumes "Ws_Store_Create u slug name w = (Inr x, w')"
  shows "tabs w' = (tabs w)\<lparr>workspaces := workspaces (tabs w) @ [x],
     members := members (tabs w) @ [\<lparr>m_ws = w_id x, m_user = u, m_role = RoleOwner\<rparr>]\<rparr> \<and>
    w_slug x = slug \<and> w_name x = name \<and> w_personal x = None \<and> w_id x \<notin> w_id ` set (workspaces (tabs w)) \<and>
    slug \<notin> w_slug ` set (workspaces (tabs w)) \<and> \<not> (\<exists>m\<in>set (members (tabs w)). m_ws m = w_id x \<and> (m_user m = u \<or> m_role m = RoleOwner))"
  using assms by (auto simp: Ws_Store_Create_def insert_workspace_def step_iffs clashes_def split: if_splits)

lemma proper_snoc: "proper xs m \<Longrightarrow> w_id x \<notin> w_id ` set xs \<Longrightarrow> proper (xs @ [x]) m"
  by (auto simp: proper_def)

lemma keeps_Ws_Create: "keeps (on_tabs ws_keeps) (Ws_Create u slug name)"
proof -
  have "keeps (on_tabs ws_keeps) (Ws_Store_Create u slug name)" for u slug name
  proof (rule keepsI)
    fix w r w' assume run: "Ws_Store_Create u slug name w = (r, w')"
    show "on_tabs ws_keeps w w'"
    proof (cases r)
      case (Inl e)
      then show ?thesis using run withTx_Inl_tabs unfolding Ws_Store_Create_def by (fastforce simp: on_tabs_def ws_keeps_def)
    next
      case (Inr x)
      note C = Ws_Store_Create_Inr[OF run[unfolded Inr]]
      show ?thesis
        unfolding on_tabs_def ws_keeps_def
      proof
        assume ok: "ws_ok (tabs w)"
        have "proper (workspaces (tabs w) @ [x]) m" if "m \<in> set (members (tabs w))" for m
          using ok that C by (intro proper_snoc) (auto simp: ws_ok_def)
        moreover have "proper (workspaces (tabs w) @ [x]) \<lparr>m_ws = w_id x, m_user = u, m_role = RoleOwner\<rparr>"
          using C by (auto simp: proper_def Valid_cases) (metis image_eqI)
        moreover have "w_slug y \<noteq> w_slug x \<and> w_id y \<noteq> w_id x" if "y \<in> set (workspaces (tabs w))" for y
          using that C by (metis image_eqI)
        moreover have t': "workspaces (tabs w') = workspaces (tabs w) @ [x]"
          "members (tabs w') = members (tabs w) @ [\<lparr>m_ws = w_id x, m_user = u, m_role = RoleOwner\<rparr>]"
          using C by simp_all
        moreover have "\<not> clashes (\<lambda>_. True) (\<lambda>m. (m_ws m, m_user m)) \<lparr>m_ws = w_id x, m_user = u, m_role = RoleOwner\<rparr> (members (tabs w))"
          "\<not> clashes (\<lambda>m. m_role m = RoleOwner) m_ws \<lparr>m_ws = w_id x, m_user = u, m_role = RoleOwner\<rparr> (members (tabs w))"
          using C by (auto simp: clashes_def)
        moreover have "\<not> clashes (\<lambda>_. True) w_id x (workspaces (tabs w))" "\<not> clashes (\<lambda>_. True) w_slug x (workspaces (tabs w))"
          using calculation(3) by (auto simp: clashes_def)
        ultimately show "ws_ok (tabs w')"
          using ok unfolding ws_ok_def t' uniq_on_snoc by (simp add: has_owner_snoc)
      qed
    qed
  qed
  then show ?thesis unfolding Ws_Create_def Let_def by (intro ws_rules)
qed

lemma keeps_CreateWorkspace: "keeps (on_tabs ws_keeps) (CreateWorkspace cu body)"
  unfolding CreateWorkspace_def by (intro ws_rules keeps_Ws_Create)

lemma drop_workspaces_Inr:
  assumes "drop_workspaces P t = Inr t'"
  shows "workspaces t' = del_where P (workspaces t)" "members t' = del_where (\<lambda>m. m_ws m \<in> w_id ` set (filter P (workspaces t))) (members t)"
    "api_keys t' = del_where (\<lambda>k. ak_ws k \<in> w_id ` set (filter P (workspaces t))) (api_keys t)"
    "domains t' = del_where (\<lambda>d. d_ws d \<in> w_id ` set (filter P (workspaces t))) (domains t)"
    "users t' = users t"
proof -
  let ?ids = "w_id ` set (filter P (workspaces t))"
  obtain t1 where t1: "drop_domains (\<lambda>d. d_ws d \<in> ?ids) t = Inr t1"
    using assms by (auto simp: drop_workspaces_def Let_def split: sum.splits)
  have "workspaces t1 = workspaces t" "members t1 = members t" "api_keys t1 = api_keys t" "users t1 = users t"
    "domains t1 = del_where (\<lambda>d. d_ws d \<in> ?ids) (domains t)"
    using t1 by (auto simp: drop_domains_def Let_def split: if_splits)
  with assms t1 show "workspaces t' = del_where P (workspaces t)" "members t' = del_where (\<lambda>m. m_ws m \<in> w_id ` set (filter P (workspaces t))) (members t)"
    "api_keys t' = del_where (\<lambda>k. ak_ws k \<in> w_id ` set (filter P (workspaces t))) (api_keys t)"
    "domains t' = del_where (\<lambda>d. d_ws d \<in> w_id ` set (filter P (workspaces t))) (domains t)" "users t' = users t"
    by (auto simp: drop_workspaces_def Let_def)
qed

lemma ws_ok_drop:
  assumes "drop_workspaces P t = Inr t'" "ws_ok t"
  shows "ws_ok t'"
proof -
  note D = drop_workspaces_Inr[OF assms(1)]
  let ?gone = "w_id ` set (filter P (workspaces t))"
  have stay: "w_id x \<notin> ?gone \<and> x \<in> set (workspaces t)" if "x \<in> set (workspaces t')" for x
    using that assms(2) by (auto simp: D set_del_where ws_ok_def dest: uniq_onD)
  have "has_owner (members t') (w_id x)" if "x \<in> set (workspaces t')" for x
  proof -
    note st = stay[OF that]
    then obtain m where "m \<in> set (members t)" "m_ws m = w_id x" "m_role m = RoleOwner"
      using assms(2) by (auto simp: ws_ok_def has_owner_def)
    with st show ?thesis unfolding has_owner_def D(2) set_del_where by (intro bexI[of _ m]) auto
  qed
  moreover have "proper (workspaces t') m" if "m \<in> set (members t')" for m
  proof -
    have "m_ws m \<notin> ?gone" "proper (workspaces t) m" using that assms(2) by (auto simp: D(2) set_del_where ws_ok_def)
    then obtain x where x: "x \<in> set (workspaces t)" "w_id x = m_ws m" by (auto simp: proper_def)
    then have "\<not> P x" using \<open>m_ws m \<notin> ?gone\<close> by force
    with x have "x \<in> set (workspaces t')" "m_ws m \<in> w_id ` set (workspaces t')" by (force simp: D(1) set_del_where)+
    then show ?thesis using stay \<open>proper (workspaces t) m\<close> by (simp add: proper_def)
  qed
  ultimately show ?thesis
    using assms(2) unfolding ws_ok_def D by (auto simp: set_del_where intro!: uniq_on_del_where)
qed

lemma keeps_DeleteWorkspace: "keeps (on_tabs ws_keeps) (DeleteWorkspace cu slug)"
  unfolding DeleteWorkspace_def DeleteOwned_def
  by (intro ws_rules tenants.on_sql) (auto simp: ws_keeps_def dest: ws_ok_drop split: sum.splits)


text \<open>
  What may happen to the tenants: an operation on workspaces or members by anyone, whatever it answers,
  or anything that leaves the two tables alone.
\<close>

inductive ws_step :: "lib \<Rightarrow> world \<Rightarrow> world \<Rightarrow> bool" for L where
  create: "CreateWorkspace cu body w = (r, w') \<Longrightarrow> ws_step L w w'"
| delete: "DeleteWorkspace cu slug w = (u, w') \<Longrightarrow> ws_step L w w'"
| add: "AddMember L cu slug ar w = (q, w') \<Longrightarrow> ws_step L w w'"
| update: "UpdateMember cu slug v role w = (u, w') \<Longrightarrow> ws_step L w w'"
| remove: "RemoveMember cu slug v w = (u, w') \<Longrightarrow> ws_step L w w'"
| other: "members (tabs w') = members (tabs w) \<Longrightarrow> workspaces (tabs w') = workspaces (tabs w) \<Longrightarrow> ws_step L w w'"

lemmas step_keeps = keeps_CreateWorkspace[THEN tenants.relD] keeps_DeleteWorkspace[THEN tenants.relD]
  keeps_AddMember[THEN tenants.relD] keeps_UpdateMember[THEN tenants.relD] keeps_RemoveMember[THEN tenants.relD]

lemmas step_keeps_ok = step_keeps[unfolded ws_keeps_def, rule_format]

lemma singleton_list: "distinct xs \<Longrightarrow> set xs = {m} \<Longrightarrow> xs = [m]"
  by (cases xs rule: remdups_adj.cases) (auto simp: insert_eq_iff)

interpretation tenancy: step_system "ws_step L" "\<lambda>w. ws_ok (tabs w)" for L
proof
  fix s t assume ok: "ws_ok (tabs s)" and step: "ws_step L s t"
  from step show "ws_ok (tabs t)"
  proof cases
    case other
    then show ?thesis using ok ws_ok_cong by blast
  qed (use ok in \<open>auto dest: step_keeps_ok\<close>)
qed

section \<open>Properties\<close>

text \<open>C11: Every tenant always has exactly one owner: after any sequence of creations, deletions, invitations, role
  changes and removals by anyone, each workspace has exactly one owner row, every membership row has one of
  the three roles, belongs to an existing workspace and is the only one of its user there, and nobody but its
  owner is a member of a personal workspace.\<close>

theorem one_owner:
  assumes "(ws_step L)\<^sup>*\<^sup>* w w'" "ws_ok (tabs w)"
  shows "(\<forall>x\<in>set (workspaces (tabs w')). \<exists>m. filter (\<lambda>m. m_ws m = w_id x \<and> m_role m = RoleOwner) (members (tabs w')) = [m]) \<and>
    (\<forall>m\<in>set (members (tabs w')). m_role m \<in> {RoleOwner, RoleAdmin, RoleMember} \<and>
       (\<exists>x\<in>set (workspaces (tabs w')). w_id x = m_ws m \<and> (w_personal x = None \<or> w_personal x = Some (m_user m)))) \<and>
    distinct (map (\<lambda>m. (m_ws m, m_user m)) (members (tabs w')))"
proof -
  have ok: "ws_ok (tabs w')" using tenancy.run_inv[OF assms] .
  have "\<exists>m. filter (\<lambda>m. m_ws m = w_id x \<and> m_role m = RoleOwner) (members (tabs w')) = [m]" if x: "x \<in> set (workspaces (tabs w'))" for x
  proof -
    obtain m where m: "m \<in> set (members (tabs w'))" "m_ws m = w_id x" "m_role m = RoleOwner"
      using ok x by (auto simp: ws_ok_def has_owner_def)
    have uq: "uniq_on (\<lambda>m. m_role m = RoleOwner) m_ws (members (tabs w'))"
      and "uniq_on (\<lambda>_. True) (\<lambda>m. (m_ws m, m_user m)) (members (tabs w'))"
      using ok by (simp_all add: ws_ok_def)
    then have d: "distinct (members (tabs w'))" using uniq_on_distinct by blast
    have one: "m' = m" if "m' \<in> set (members (tabs w'))" "m_ws m' = w_id x" "m_role m' = RoleOwner" for m'
      using uniq_onD[OF uq that(1) m(1) that(3) m(3)] that(2) m(2) by simp
    have "set (filter (\<lambda>m. m_ws m = w_id x \<and> m_role m = RoleOwner) (members (tabs w'))) = {m}"
    proof (rule set_eqI, rule iffI)
      fix y assume "y \<in> set (filter (\<lambda>m. m_ws m = w_id x \<and> m_role m = RoleOwner) (members (tabs w')))"
      then show "y \<in> {m}" using one[of y] by simp
    next
      fix y assume "y \<in> {m}"
      then show "y \<in> set (filter (\<lambda>m. m_ws m = w_id x \<and> m_role m = RoleOwner) (members (tabs w')))" using m by simp
    qed
    then show ?thesis using singleton_list[OF distinct_filter[OF d]] by blast
  qed
  moreover have "m_role m \<in> {RoleOwner, RoleAdmin, RoleMember} \<and>
      (\<exists>x\<in>set (workspaces (tabs w')). w_id x = m_ws m \<and> (w_personal x = None \<or> w_personal x = Some (m_user m)))"
    if m: "m \<in> set (members (tabs w'))" for m
  proof -
    have "proper (workspaces (tabs w')) m" using ok m by (simp add: ws_ok_def)
    moreover from this obtain x where "x \<in> set (workspaces (tabs w'))" "w_id x = m_ws m" by (auto simp: proper_def)
    ultimately show ?thesis by (auto simp: proper_def Valid_cases)
  qed
  moreover have "distinct (map (\<lambda>m. (m_ws m, m_user m)) (members (tabs w')))" using ok by (simp add: ws_ok_def uniq_on_def)
  ultimately show ?thesis by blast
qed

lemma memberScope_cases:
  assumes "memberScope cu slug k w = (r, w')"
  obtains (refused) "tabs w' = tabs w" "\<And>s a. r \<noteq> Inr (Reply s a)"
  | (owner) u x y w1 where "cu = Some u" "x \<in> set (workspaces (tabs w))" "w_slug x = slug"
      "has_role (tabs w) (w_id x) (u_id u) RoleOwner" "y \<in> set (workspaces (tabs w))" "w_id y = w_id x" "w_personal y = None"
      "tabs w1 = tabs w" "k (w_id x) w1 = (r, w')"
proof (cases "scope cu slug RoleOwner w")
  case (Pair q w1)
  note sc = scope_tabs[OF Pair]
  show thesis
  proof (cases q)
    case (Inl e)
    then show ?thesis
      using assms Pair sc refused
      by (auto simp: memberScope_def orElse_def handleE_def returnE_def throwE_def split: option.splits)
  next
    case (Inr p)
    obtain i forbidden where p: "p = (i, forbidden)" by (cases p) auto
    from Pair[unfolded Inr p] obtain u x where u: "cu = Some u" "x \<in> set (workspaces (tabs w))" "w_id x = i" "w_slug x = slug"
      "\<not> forbidden \<Longrightarrow> has_role (tabs w) i (u_id u) RoleOwner"
      by (rule scope_Inr) blast
    show ?thesis
    proof (cases forbidden)
      case True
      then show ?thesis
        using assms Pair sc refused unfolding Inr p by (auto simp: memberScope_def orElse_def handleE_def returnE_def)
    next
      case False
      let ?q = "query (\<lambda>now t. case List.find (\<lambda>x. w_id x = i) (workspaces t) of
         None \<Rightarrow> Inl ErrNoRows | Some x \<Rightarrow> Inr (w_personal x \<noteq> None))"
      have run: "bindE ?q (\<lambda>personal. if personal then returnE (Problem 403 ''personal_workspace'') else k i) w1 = (r, w')"
        using assms Pair False unfolding Inr p by (simp add: memberScope_def orElse_def handleE_def)
      show ?thesis
      proof (cases "?q w1")
        case (Pair q2 w2)
        note w2 = query_tabs[OF Pair]
        show ?thesis
        proof (cases q2)
          case (Inl e)
          then show ?thesis using run Pair w2 sc refused by (auto simp: bindE_def)
        next
          case (Inr personal)
          show ?thesis
          proof (cases personal)
            case True
            then show ?thesis using run Pair w2 sc refused Inr by (auto simp: bindE_def returnE_def)
          next
            case False
            obtain y where "List.find (\<lambda>x. w_id x = i) (workspaces (tabs w1)) = Some y" "w_personal y = None"
              using Pair Inr False by (auto simp: query_Inr_iff split: option.splits)
            then have y: "y \<in> set (workspaces (tabs w))" "w_id y = i" "w_personal y = None"
              using find_SomeD sc by fastforce+
            have "k i w2 = (r, w')" using run Pair Inr False by (simp add: bindE_def)
            with owner[of u x y w2] u y w2 sc \<open>\<not> forbidden\<close> show ?thesis by simp
          qed
        qed
      qed
    qed
  qed
qed

lemma change_members_Inr:
  "change_members i u f w = (Inr n, w') \<Longrightarrow> n = count_where (employee i u) (members (tabs w)) \<and>
     tabs w' = (if n = 0 then tabs w else revoke_issued i u ((tabs w)\<lparr>members := f (members (tabs w))\<rparr>))"
  by (auto simp: change_members_def step_iffs Let_def)

lemma issued_in_cong:
  assumes "mailboxes t' = mailboxes t" "domains t' = domains t"
  shows "issued_in t' = issued_in t"
proof -
  have d: "domain_of_box t' b = domain_of_box t b" for b by (simp add: domain_of_box_def assms)
  show ?thesis by (simp add: fun_eq_iff issued_in_def box_workspace_def assms d cong: option.case_cong)
qed

text \<open>A user has one row per workspace, so an employee is not its owner; and who has no row does not pass \<open>scope\<close>.\<close>

lemma employee_only:
  assumes "ws_ok t" "\<exists>m\<in>set (members t). employee i v m" "m \<in> set (members t)" "m_ws m = i" "m_user m = v"
  shows "employee i v m"
proof -
  obtain m0 where "m0 \<in> set (members t)" "employee i v m0" using assms(2) by blast
  with assms uniq_onD[of "\<lambda>_. True" "\<lambda>m. (m_ws m, m_user m)" "members t" m m0] show ?thesis by (auto simp: ws_ok_def employee_def)
qed

lemma scope_needs_member:
  assumes "scope (Some user) slug r w = (Inr q, w')" "uniq_on (\<lambda>_. True) w_slug (workspaces (tabs w))"
    "x \<in> set (workspaces (tabs w))" "w_slug x = slug"
  shows "member_of (tabs w) (w_id x) (u_id user)"
proof -
  obtain i f where "scope (Some user) slug r w = (Inr (i, f), w')" using assms(1) by (cases q) auto
  then obtain u z where "Some user = Some u" "z \<in> set (workspaces (tabs w))" "w_id z = i" "w_slug z = slug" "member_of (tabs w) i (u_id u)"
    by (rule scope_Inr) blast
  with uniq_onD[OF assms(2), of z x] assms(3,4) show ?thesis by auto
qed



lemma list_all2_filter:
  "list_all2 R xs ys \<Longrightarrow> (\<And>x y. R x y \<Longrightarrow> P x = P y) \<Longrightarrow> list_all2 R (filter P xs) (filter P ys)"
  by (induction rule: list_all2_induct) auto

lemma same_mail_ws: "same_mail e e' \<Longrightarrow> e_ws e' = e_ws e"
  unfolding same_mail_def by (metis email_row.select_convs(2) email_row.surjective email_row.update_convs(17))

lemma drop_boxes_emails: "list_all2 same_mail (emails t) (emails (drop_boxes P t))"
  by (simp add: drop_boxes_def Let_def retain_emails)

lemma drop_workspaces_emails:
  assumes "drop_workspaces P t = Inr t'"
  shows "list_all2 same_mail (del_where (\<lambda>e. e_ws e \<in> w_id ` set (filter P (workspaces t))) (emails t)) (emails t')"
proof -
  let ?ids = "w_id ` set (filter P (workspaces t))"
  obtain t1 where t1: "drop_domains (\<lambda>d. d_ws d \<in> ?ids) t = Inr t1"
    using assms by (auto simp: drop_workspaces_def Let_def split: sum.splits)
  have a: "list_all2 same_mail (emails t) (emails t1)"
    using t1 drop_boxes_emails by (auto simp: drop_domains_def Let_def split: if_splits)
  define t2 where "t2 = drop_boxes (\<lambda>b. case b_personal b of None \<Rightarrow> False | Some w \<Rightarrow> w \<in> ?ids) t1"
  have e: "emails t' = del_where (\<lambda>e. e_ws e \<in> ?ids) (emails t2)"
    using assms t1 unfolding drop_workspaces_def Let_def t2_def by (clarsimp simp del: set_filter)
  have "list_all2 same_mail (emails t) (emails t2)"
    unfolding t2_def by (rule list_all2_trans[OF same_mail_trans a drop_boxes_emails])
  then show ?thesis
    unfolding e del_where_def by (rule list_all2_filter) (simp add: same_mail_ws)
qed

lemma DeleteOwned_Inr:
  assumes "DeleteOwned u slug w = (Inr (), w')"
  shows "drop_workspaces (owned_by (tabs w) u slug) (tabs w) = Inr (tabs w')"
  using assms by (auto simp: DeleteOwned_def step_iffs split: sum.splits if_splits)

text \<open>The one workspace a slug and its owner name.\<close>

lemma owned_iff:
  assumes "ws_ok t" "x \<in> set (workspaces t)" "w_slug x = slug" "has_role t (w_id x) u RoleOwner" "y \<in> set (workspaces t)"
  shows "owned_by t u slug y \<longleftrightarrow> w_id y = w_id x"
proof
  assume "owned_by t u slug y"
  then have "w_slug y = w_slug x" using assms(3) by (simp add: owned_by_def)
  with uniq_onD[of "\<lambda>_. True" w_slug "workspaces t" y x] assms show "w_id y = w_id x" by (simp add: ws_ok_def)
next
  assume "w_id y = w_id x"
  with uniq_onD[of "\<lambda>_. True" w_id "workspaces t" y x] assms have "y = x" by (simp add: ws_ok_def)
  then show "owned_by t u slug y" using assms(3,4) by (auto simp: owned_by_def has_role_def rank_owner)
qed

lemma owned_row:
  assumes "ws_ok t" "x \<in> set (workspaces t)" "w_slug x = slug" "has_role t (w_id x) u RoleOwner"
  shows "filter (owned_by t u slug) (workspaces t) = [x]"
proof (rule singleton_list)
  have u: "uniq_on (\<lambda>_. True) w_id (workspaces t)" using assms(1) by (simp add: ws_ok_def)
  from distinct_filter[OF uniq_on_distinct[OF this]] show "distinct (filter (owned_by t u slug) (workspaces t))" by simp
  have "y = x" if "y \<in> set (workspaces t)" "w_id y = w_id x" for y using uniq_onD[OF u that(1) assms(2)] that(2) by simp
  then show "set (filter (owned_by t u slug) (workspaces t)) = {x}"
    using owned_iff[OF assms] assms(2) by auto
qed



section \<open>At concrete inputs\<close>

definition boss :: user_row where
  "boss = \<lparr>u_id = ''bob'', u_email = ''bob@acme.kz'', u_name = ''Bob'', u_verified_at = None, u_must_change = False\<rparr>"

definition team_world :: world where
  "team_world = sample_world\<lparr>tabs := sample_db\<lparr>members := members sample_db @ [\<lparr>m_ws = ''ws'', m_user = ''eve'', m_role = RoleMember\<rparr>]\<rparr>\<rparr>"

lemmas tenant_exec = exec_defs sample_defs team_world_def boss_def orElse_def memberScope_def scope_def BySlugForUser_def
  MembershipRole_def workspace_where_def member_of_def AtLeast_def

lemma sample_ws_ok: "ws_ok (tabs sample_world)" "ws_ok (tabs team_world)"
  by (simp_all add: ws_ok_def tenant_exec uniq_on_def has_owner_def proper_def Valid_def)

lemma sample_remove: "\<exists>w'. RemoveMember (Some boss) ''acme'' ''eve'' team_world = (Inr (Reply 204 ()), w')"
  by (simp add: RemoveMember_def change_members_def tenant_exec employee_def count_where_def)

lemma drop_workspaces_ok: "mailboxes t = [] \<Longrightarrow> \<exists>t'. drop_workspaces P t = Inr t'"
  by (simp add: drop_workspaces_def drop_domains_def hosts_personal_def Let_def)

lemma sample_delete: "\<exists>w'. DeleteWorkspace (Some boss) ''acme'' team_world = (Inr (Reply 204 ()), w')"
proof -
  have "mailboxes (tabs team_world) = []" by (simp add: tenant_exec)
  from drop_workspaces_ok[OF this] obtain t' where t': "drop_workspaces (owned_by (tabs team_world) ''bob'' ''acme'') (tabs team_world) = Inr t'" by blast
  have "count_where (owned_by (tabs team_world) ''bob'' ''acme'') (workspaces (tabs team_world)) = 1"
    by (simp add: tenant_exec count_where_def owned_by_def)
  with t' have del: "\<exists>w'. DeleteOwned ''bob'' ''acme'' w = (Inr (), w')" if "tabs w = tabs team_world" "db_faults w = []" for w
    using that by (simp add: DeleteOwned_def exec_defs)
  have "\<exists>w1. scope (Some boss) ''acme'' RoleOwner team_world = (Inr (''ws'', False), w1) \<and> tabs w1 = tabs team_world \<and> db_faults w1 = []"
    by (simp add: tenant_exec)
  then obtain w1 where "scope (Some boss) ''acme'' RoleOwner team_world = (Inr (''ws'', False), w1)" "tabs w1 = tabs team_world" "db_faults w1 = []"
    by blast
  moreover from del[OF this(2,3)] obtain w' where "DeleteOwned ''bob'' ''acme'' w1 = (Inr (), w')" by blast
  ultimately show ?thesis by (simp add: DeleteWorkspace_def orElse_def handleE_def boss_def returnE_def)
qed

theorem one_owner_witness:
  "\<exists>w'. RemoveMember (Some boss) ''acme'' ''eve'' team_world = (Inr (Reply 204 ()), w') \<and>
     distinct (map (\<lambda>m. (m_ws m, m_user m)) (members (tabs w')))"
proof -
  obtain w' where r: "RemoveMember (Some boss) ''acme'' ''eve'' team_world = (Inr (Reply 204 ()), w')"
    using sample_remove by blast
  then have "(ws_step sample_lib)\<^sup>*\<^sup>* team_world w'" using ws_step.remove by blast
  from one_owner[OF this sample_ws_ok(2)] r show ?thesis by blast
qed



end
