(* ===== verification/MailParse.thy ===== *)
theory MailParse imports Schema begin

text \<open>
  internal/inbound/parse.go and the folder choice of folders.go: what a received message yields for the
  columns of its row. The parsers of go-message, net/mail and mime are parameters (\<open>mime_lib\<close>); the
  message go-message reads is a tree of parts: a part that is not a multipart with its decoded body and whether
  reading it failed at the end, or a multipart with what its reader yields, each child with whether an error came with it (an unknown
  charset), and whether the reader ended in an error instead of the end of the parts.
\<close>

record part_head =
  ph_get :: "string \<Rightarrow> string"
  ph_type :: string
  ph_type_ok :: bool
  ph_disp :: string

datatype part = Leaf part_head string bool | Multi part_head "(bool \<times> part) list" bool

fun part_header :: "part \<Rightarrow> part_head" where
  "part_header (Leaf h b bad) = h"
| "part_header (Multi h ps bad) = h"

record mime_lib =
  mm_read :: "string \<Rightarrow> part option"
  mm_head :: "string \<Rightarrow> (string \<Rightarrow> string list) option"
  mm_word :: "string \<Rightarrow> string option"
  mm_address :: "string \<Rightarrow> (string \<times> string) option"
  mm_date :: "string \<Rightarrow> time option"

record parsed =
  pa_msgid :: string
  pa_from :: string
  pa_from_name :: string
  pa_subject :: string
  pa_sent :: "time option"
  pa_text :: string
  pa_html :: string

definition maxBodyBytes :: nat where "maxBodyBytes = 1048576"

definition readLimited :: "string \<Rightarrow> string" where
  "readLimited r = take maxBodyBytes r"

definition decodeHeader :: "mime_lib \<Rightarrow> string \<Rightarrow> string" where
  "decodeHeader M v = (if v = [] then [] else case mm_word M v of Some out \<Rightarrow> out | None \<Rightarrow> v)"

definition splitAddress :: "mime_lib \<Rightarrow> string \<Rightarrow> string \<times> string" where
  "splitAddress M v = (if v = [] then ([], []) else
     case mm_address M (decodeHeader M v) of Some (addr, name) \<Rightarrow> (to_lower addr, name) | None \<Rightarrow> (trim_space v, []))"

definition parseDate :: "mime_lib \<Rightarrow> string \<Rightarrow> time option" where
  "parseDate M v = (if v = [] then None else mm_date M v)"

text \<open>The first text and the first HTML part that is not an attachment.\<close>

definition take_body :: "part_head \<Rightarrow> string \<Rightarrow> parsed \<Rightarrow> parsed" where
  "take_body h body out = (let mediaType = (if ph_type_ok h then ph_type h else ''text/plain'') in
     if ph_disp h = ''attachment'' then out
     else if mediaType = ''text/plain'' \<and> pa_text out = [] then out\<lparr>pa_text := readLimited body\<rparr>
     else if mediaType = ''text/html'' \<and> pa_html out = [] then out\<lparr>pa_html := readLimited body\<rparr> else out)"

fun collectBodies :: "part \<Rightarrow> parsed \<Rightarrow> parsed" and collect_parts :: "(bool \<times> part) list \<Rightarrow> parsed \<Rightarrow> parsed" where
  "collectBodies (Leaf h body bad) out = take_body h body out"
| "collectBodies (Multi h ps bad) out = collect_parts ps out"
| "collect_parts [] out = out"
| "collect_parts ((err, p) # ps) out = (if err then out else let out = collectBodies p out in
     if pa_text out \<noteq> [] \<and> pa_html out \<noteq> [] then out else collect_parts ps out)"

definition parsed_headers :: "mime_lib \<Rightarrow> (string \<Rightarrow> string) \<Rightarrow> parsed" where
  "parsed_headers M get = \<lparr>pa_msgid = trim_chars (get ''Message-ID'') ''<> '',
     pa_from = fst (splitAddress M (get ''From'')), pa_from_name = snd (splitAddress M (get ''From'')),
     pa_subject = decodeHeader M (get ''Subject''), pa_sent = parseDate M (get ''Date''), pa_text = [], pa_html = []\<rparr>"

definition empty_parsed :: parsed where
  "empty_parsed = \<lparr>pa_msgid = [], pa_from = [], pa_from_name = [], pa_subject = [], pa_sent = None, pa_text = [], pa_html = []\<rparr>"

text \<open>\<open>Header.Get\<close> of net/mail: the first value, under the canonical key.\<close>

definition head_get :: "(string \<Rightarrow> string list) \<Rightarrow> string \<Rightarrow> string" where
  "head_get h k = (case h k of [] \<Rightarrow> [] | v # _ \<Rightarrow> v)"

definition parse_mail :: "mime_lib \<Rightarrow> string \<Rightarrow> parsed" where
  "parse_mail M raw = (case mm_read M raw of
     None \<Rightarrow> (case mm_head M raw of None \<Rightarrow> empty_parsed | Some h \<Rightarrow> parsed_headers M
       (\<lambda>k. head_get h (if k = ''Message-ID'' then ''Message-Id'' else k)))
   | Some e \<Rightarrow> collectBodies e (parsed_headers M (ph_get (part_header e))))"

text \<open>Only the one verdict header Postfix lets through files a message as spam.\<close>

definition deliveryFolder :: "mime_lib \<Rightarrow> string \<Rightarrow> string" where
  "deliveryFolder M raw = (case mm_head M raw of None \<Rightarrow> ''INBOX'' | Some h \<Rightarrow>
     (case h ''X-Heromail-Spam'' of
        [v] \<Rightarrow> if equal_fold (trim_space (case str_cut v (CHR '','') of None \<Rightarrow> v | Some (a, _) \<Rightarrow> a)) ''Yes''
               then ''Junk'' else ''INBOX''
      | _ \<Rightarrow> ''INBOX''))"

lemma deliveryFolder_cases: "deliveryFolder M raw = ''INBOX'' \<or> deliveryFolder M raw = ''Junk''"
  by (auto simp: deliveryFolder_def split: option.splits list.splits)

text \<open>A message is never stored with more of a body than the cap.\<close>

lemma take_body_bound:
  "length (pa_text out) \<le> maxBodyBytes \<and> length (pa_html out) \<le> maxBodyBytes \<Longrightarrow>
   length (pa_text (take_body h b out)) \<le> maxBodyBytes \<and> length (pa_html (take_body h b out)) \<le> maxBodyBytes"
  by (auto simp: take_body_def readLimited_def Let_def)

lemma collectBodies_bound:
  "length (pa_text out) \<le> maxBodyBytes \<and> length (pa_html out) \<le> maxBodyBytes \<Longrightarrow>
   length (pa_text (collectBodies p out)) \<le> maxBodyBytes \<and> length (pa_html (collectBodies p out)) \<le> maxBodyBytes"
  "length (pa_text out) \<le> maxBodyBytes \<and> length (pa_html out) \<le> maxBodyBytes \<Longrightarrow>
   length (pa_text (collect_parts ps out)) \<le> maxBodyBytes \<and> length (pa_html (collect_parts ps out)) \<le> maxBodyBytes"
  by (induction p out and ps out rule: collectBodies_collect_parts.induct) (auto simp: take_body_bound Let_def)

end
