(* ===== verification/Mailboxes.thy ===== *)
theory Mailboxes imports MailDomain MailParse begin

text \<open>
  internal/inbound: the addresses mail is received at and what is kept of it (store.go, access.go,
  folders.go, imap.go, smtp_password.go), and the LMTP session in front of it (lmtp.go).
\<close>

section \<open>Mailboxes\<close>

record mailbox =
  mb_id :: string
  mb_domain :: string
  mb_ws :: string
  mb_address :: string
  mb_name :: "string option"
  mb_owner :: "string option"
  mb_smtp :: bool

definition mailbox_of :: "db \<Rightarrow> mailbox_row \<Rightarrow> domain_row \<Rightarrow> mailbox" where
  "mailbox_of t b d = \<lparr>mb_id = b_id b, mb_domain = b_domain b,
     mb_ws = (case b_personal b of Some w \<Rightarrow> w | None \<Rightarrow> d_ws d), mb_address = b_local b @ ''@'' @ d_name d,
     mb_name = b_name b, mb_owner = b_owner b, mb_smtp = (\<exists>c\<in>set (smtp_creds t). c_box c = b_id b)\<rparr>"

text \<open>\<open>FROM mailboxes m JOIN domains d ON d.id = m.domain_id WHERE ...\<close>\<close>

definition mailboxes_where :: "(mailbox_row \<Rightarrow> domain_row \<Rightarrow> bool) \<Rightarrow> db \<Rightarrow> mailbox list" where
  "mailboxes_where P t = concat (map (\<lambda>b. map (mailbox_of t b)
     (filter (\<lambda>d. d_id d = b_domain b \<and> P b d) (domains t))) (mailboxes t))"

definition mailbox_where :: "(mailbox_row \<Rightarrow> domain_row \<Rightarrow> bool) \<Rightarrow> mailbox op" where
  "mailbox_where P = query (\<lambda>now t. case mailboxes_where P t of [] \<Rightarrow> Inl Inb_ErrNoMailbox | m # _ \<Rightarrow> Inr m)"

definition splitAddr :: "string \<Rightarrow> (string \<times> string) option" where
  "splitAddr address = (let address = to_lower (trim_space address) in
     case last_index address (CHR ''@'') of None \<Rightarrow> None
     | Some at \<Rightarrow> if at \<le> 0 \<or> length address \<le> at + 1 then None else Some (take at address, drop (at + 1) address))"

definition MailboxByAddress :: "string \<Rightarrow> mailbox op" where
  "MailboxByAddress address = (case splitAddr address of None \<Rightarrow> throwE Inb_ErrNoMailbox | Some (local, domain) \<Rightarrow>
     mailbox_where (\<lambda>b d. to_lower (b_local b) = to_lower local \<and> d_name d = domain \<and> Verified d))"

definition MailboxByID :: "string \<Rightarrow> mailbox op" where
  "MailboxByID i = mailbox_where (\<lambda>b d. b_id b = i)"

definition nullif :: "string \<Rightarrow> string option" where
  "nullif s = (if s = [] then None else Some s)"

definition Inb_CreateMailbox :: "string \<Rightarrow> string \<Rightarrow> string \<Rightarrow> string option \<Rightarrow> mailbox op" where
  "Inb_CreateMailbox domainID localPart name owner =
     bindE nextValidity (\<lambda>v. bindE nextValidity (\<lambda>v'. withUUID (\<lambda>i.
     handleE (sql (insert_mailbox v v' \<lparr>b_id = i, b_domain = domainID, b_local = to_lower (trim_space localPart),
         b_name = nullif (trim_space name), b_personal = None, b_owner = owner\<rparr>))
       (\<lambda>e. throwE (if e = ErrUnique then Inb_ErrAddressExists else e)) (\<lambda>b.
     MailboxByID (b_id b)))))"

text \<open>In the order of the addresses.\<close>

definition MailboxesForWorkspace :: "string \<Rightarrow> mailbox list op" where
  "MailboxesForWorkspace ws = query (\<lambda>now t. Inr (sort_key mb_address
     (mailboxes_where (\<lambda>b d. (case b_personal b of Some w \<Rightarrow> w | None \<Rightarrow> d_ws d) = ws) t)))"

section \<open>Access\<close>

text \<open>Who alone may read the mailbox: its owner, or the person of its personal workspace.\<close>

definition reader_of :: "db \<Rightarrow> mailbox_row \<Rightarrow> workspace_row \<Rightarrow> string option" where
  "reader_of t b x = (case b_owner b of Some u \<Rightarrow> Some u | None \<Rightarrow> w_personal x)"

definition can_access :: "db \<Rightarrow> string \<Rightarrow> string \<Rightarrow> bool" where
  "can_access t u i \<longleftrightarrow> (\<exists>b\<in>set (mailboxes t). b_id b = i \<and> (\<exists>d\<in>set (domains t). d_id d = b_domain b \<and>
     (\<exists>x\<in>set (workspaces t). w_id x = (case b_personal b of Some w \<Rightarrow> w | None \<Rightarrow> d_ws d) \<and>
       (\<exists>m\<in>set (members t). m_ws m = w_id x \<and> m_user m = u) \<and>
       (reader_of t b x = None \<or> reader_of t b x = Some u))))"

definition CanAccess :: "string \<Rightarrow> string \<Rightarrow> bool op" where
  "CanAccess u i = query (\<lambda>now t. Inr (can_access t u i))"

text \<open>\<open>revoke_mailbox_smtp_on_assignment\<close>: a mailbox that changes hands loses its sending password.\<close>

definition assignable :: "db \<Rightarrow> string \<Rightarrow> string \<Rightarrow> string option \<Rightarrow> mailbox_row \<Rightarrow> bool" where
  "assignable t ws i owner b \<longleftrightarrow> b_id b = i \<and> (\<exists>d\<in>set (domains t). d_id d = b_domain b \<and>
     (\<exists>x\<in>set (workspaces t). w_id x = (case b_personal b of Some w \<Rightarrow> w | None \<Rightarrow> d_ws d) \<and> w_id x = ws \<and>
       (case owner of None \<Rightarrow> True | Some u \<Rightarrow> \<exists>m\<in>set (members t). m_ws m = w_id x \<and> m_user m = u) \<and>
       (w_personal x = None \<or> owner \<noteq> None \<and> owner = w_personal x)))"

definition AssignOwner :: "string \<Rightarrow> string \<Rightarrow> string option \<Rightarrow> unit op" where
  "AssignOwner ws i owner = bindE (sql (\<lambda>now t. let P = assignable t ws i owner in
     (Inr (count_where P (mailboxes t)),
      t\<lparr>smtp_creds := del_where (\<lambda>c. \<exists>b\<in>set (mailboxes t). P b \<and> b_owner b \<noteq> owner \<and> c_box c = b_id b) (smtp_creds t),
        mailboxes := upd_where P (\<lambda>b. b\<lparr>b_owner := owner\<rparr>) (mailboxes t)\<rparr>))) (\<lambda>n.
     if n = 0 then throwE Inb_ErrNotMember else returnE ())"

definition hidden_from :: "db \<Rightarrow> string \<Rightarrow> email_row \<Rightarrow> bool" where
  "hidden_from t u e \<longleftrightarrow> (e_retained e \<noteq> None \<and> e_retained e \<noteq> Some u) \<or>
     (\<exists>b\<in>set (mailboxes t). \<exists>d\<in>set (domains t). d_id d = b_domain b \<and>
       (case b_personal b of Some w \<Rightarrow> w | None \<Rightarrow> d_ws d) = e_ws e \<and>
       to_lower (b_local b @ ''@'' @ d_name d) = to_lower (e_from e) \<and> b_owner b \<noteq> None \<and> b_owner b \<noteq> Some u)"

definition CanReadOutbound :: "string \<Rightarrow> string \<Rightarrow> bool op" where
  "CanReadOutbound u emailID = query (\<lambda>now t. case List.find (\<lambda>e. e_id e = emailID) (emails t) of
     None \<Rightarrow> Inl ErrNoRows | Some e \<Rightarrow> Inr (\<not> hidden_from t u e))"

definition administers :: "db \<Rightarrow> string \<Rightarrow> string \<Rightarrow> string \<Rightarrow> bool" where
  "administers t ws u i \<longleftrightarrow> (\<exists>b\<in>set (mailboxes t). b_id b = i \<and> (\<exists>d\<in>set (domains t). d_id d = b_domain b \<and>
     (case b_personal b of Some w \<Rightarrow> w | None \<Rightarrow> d_ws d) = ws \<and>
     (\<exists>m\<in>set (members t). m_ws m = ws \<and> m_user m = u \<and> m_role m \<in> {RoleOwner, RoleAdmin})))"

definition SetSMTPPassword :: "string \<Rightarrow> string \<Rightarrow> string \<Rightarrow> string \<Rightarrow> unit op" where
  "SetSMTPPassword ws i u hash = bindE (sql (\<lambda>now t. if \<not> administers t ws u i then (Inr 0, t) else
     (Inr (1 :: nat), t\<lparr>smtp_creds := del_where (\<lambda>c. c_box c = i) (smtp_creds t) @
        [\<lparr>c_box = i, c_hash = hash, c_issuer = u\<rparr>]\<rparr>))) (\<lambda>n.
     if n \<noteq> 1 then throwE Inb_ErrNoMailbox else returnE ())"

definition DeleteSMTPPassword :: "string \<Rightarrow> string \<Rightarrow> unit op" where
  "DeleteSMTPPassword ws i = sql (\<lambda>now t. (Inr (), t\<lparr>smtp_creds := del_where (\<lambda>c. c_box c = i \<and>
     (\<exists>b\<in>set (mailboxes t). b_id b = i \<and> (\<exists>d\<in>set (domains t). d_id d = b_domain b \<and>
       (case b_personal b of Some w \<Rightarrow> w | None \<Rightarrow> d_ws d) = ws))) (smtp_creds t)\<rparr>))"

section \<open>Messages\<close>

text \<open>\<open>INSERT INTO imap_folders ... ON CONFLICT DO NOTHING\<close>: the number of rows added.\<close>

definition insert_folder :: "nat \<Rightarrow> string \<Rightarrow> string \<Rightarrow> nat stmt" where
  "insert_folder v box name now t =
     (if name = [] \<or> 200 < rune_count name then (Inl ErrDB, t)
      else if \<exists>f\<in>set (folders t). f_box f = box \<and> f_name f = name then (Inr 0, t)
      else if box \<notin> b_id ` set (mailboxes t) then (Inl ErrDB, t)
      else (Inr 1, t\<lparr>folders := folders t @ [\<lparr>f_box = box, f_name = name, f_validity = v, f_subscribed = True\<rparr>]\<rparr>))"

definition add_folder :: "string \<Rightarrow> string \<Rightarrow> nat op" where
  "add_folder box name = bindE nextValidity (\<lambda>v. sql (insert_folder v box name))"

definition has_folder :: "db \<Rightarrow> string \<Rightarrow> string \<Rightarrow> bool" where
  "has_folder t box name \<longleftrightarrow> (\<exists>f\<in>set (folders t). f_box f = box \<and> f_name f = name)"

definition insert_message :: "message_row \<Rightarrow> message_row stmt" where
  "insert_message g now t =
     (if g_size g = 0 then (Inl ErrDB, t)
      else if clashes (\<lambda>_. True) g_id g (messages t) \<or> clashes (\<lambda>_. True) g_uid g (messages t) \<or>
        clashes (\<lambda>g. g_msgid g \<noteq> None \<and> g_smtp g) (\<lambda>g. (g_box g, g_msgid g)) g (messages t) then (Inl ErrUnique, t)
      else if \<not> has_folder t (g_box g) (g_folder g) \<or> g_box g \<notin> b_id ` set (mailboxes t) then (Inl ErrDB, t)
      else (Inr g, t\<lparr>messages := messages t @ [g]\<rparr>))"

record deliver_params =
  dp_box :: string
  dp_from :: string
  dp_to :: string
  dp_raw :: string

text \<open>The row of a delivered message, and of one a client appends.\<close>

definition delivered_row :: "mime_lib \<Rightarrow> deliver_params \<Rightarrow> string \<Rightarrow> nat \<Rightarrow> time \<Rightarrow> message_row" where
  "delivered_row M p i uid now = (let f = parse_mail M (dp_raw p) in
     \<lparr>g_id = i, g_box = dp_box p, g_env_from = dp_from p, g_env_to = dp_to p, g_msgid = nullif (pa_msgid f),
      g_from = nullif (pa_from f), g_from_name = nullif (pa_from_name f), g_subject = pa_subject f, g_sent = pa_sent f,
      g_text = nullif (pa_text f), g_html = nullif (pa_html f), g_raw = dp_raw p, g_size = length (dp_raw p),
      g_read = None, g_received = now, g_uid = uid, g_folder = deliveryFolder M (dp_raw p), g_flags = [], g_smtp = True\<rparr>)"

definition Inb_Deliver :: "mime_lib \<Rightarrow> deliver_params \<Rightarrow> message_row op" where
  "Inb_Deliver M p =
     bindE (add_folder (dp_box p) (deliveryFolder M (dp_raw p))) (\<lambda>_.
     bindE nextUID (\<lambda>uid. withUUID (\<lambda>i.
     handleE (sql (\<lambda>now. insert_message (delivered_row M p i uid now) now))
       (\<lambda>e. throwE (if e = ErrUnique then Inb_ErrDuplicate else e)) returnE)))"

text \<open>Newest first, then by descending id; the database refuses a negative limit or offset.\<close>

definition page :: "int \<Rightarrow> int \<Rightarrow> message_row list \<Rightarrow> gerror + message_row list" where
  "page limit skip gs = (if limit < 0 \<or> skip < 0 then Inl ErrDB else
     Inr (take (nat limit) (drop (nat skip) (rev (sort_key g_received (sort_key g_id gs))))))"

definition in_folder :: "string \<Rightarrow> string \<Rightarrow> message_row \<Rightarrow> bool" where
  "in_folder box folder g \<longleftrightarrow> g_box g = box \<and> g_folder g = folder"

text \<open>\<open>concat_ws(' ', ...)\<close>, which leaves out NULLs.\<close>

fun join_sp :: "string list \<Rightarrow> string" where
  "join_sp [] = []"
| "join_sp [s] = s"
| "join_sp (s # ss) = s @ '' '' @ join_sp ss"

definition search_text :: "message_row \<Rightarrow> string" where
  "search_text g = join_sp ([g_subject g] @ concat (map (\<lambda>x. case x of None \<Rightarrow> [] | Some s \<Rightarrow> [s]) [g_from g, g_from_name g, g_text g]))"

definition SearchFolderMessages :: "string \<Rightarrow> string \<Rightarrow> string \<Rightarrow> int \<Rightarrow> int \<Rightarrow> message_row list op" where
  "SearchFolderMessages box folder q limit skip = query (\<lambda>now t. page limit skip
     (filter (\<lambda>g. in_folder box folder g \<and> contains (to_lower (search_text g)) (to_lower q)) (messages t)))"

definition ListFolderMessages :: "string \<Rightarrow> string \<Rightarrow> int \<Rightarrow> int \<Rightarrow> message_row list op" where
  "ListFolderMessages box folder limit skip = query (\<lambda>now t. page limit skip (filter (in_folder box folder) (messages t)))"

definition Inb_ListMessages :: "string \<Rightarrow> int \<Rightarrow> int \<Rightarrow> message_row list op" where
  "Inb_ListMessages box limit skip = ListFolderMessages box ''INBOX'' limit skip"

text \<open>The message lies in a mailbox of the workspace.\<close>

definition of_workspace :: "db \<Rightarrow> string \<Rightarrow> message_row \<Rightarrow> bool" where
  "of_workspace t ws g \<longleftrightarrow> (\<exists>b\<in>set (mailboxes t). b_id b = g_box g \<and> (\<exists>d\<in>set (domains t). d_id d = b_domain b \<and>
     (case b_personal b of Some w \<Rightarrow> w | None \<Rightarrow> d_ws d) = ws))"

definition MessageByID :: "string \<Rightarrow> string \<Rightarrow> message_row op" where
  "MessageByID ws i = query (\<lambda>now t. case List.find (\<lambda>g. g_id g = i \<and> of_workspace t ws g) (messages t) of
     None \<Rightarrow> Inl Inb_ErrNoMailbox | Some g \<Rightarrow> Inr g)"

text \<open>\<open>UPDATE messages SET ... WHERE ... RETURNING\<close>, scanned into one row.\<close>

definition update_message :: "(db \<Rightarrow> message_row \<Rightarrow> bool) \<Rightarrow> (time \<Rightarrow> message_row \<Rightarrow> message_row) \<Rightarrow> message_row op" where
  "update_message P f = sql (\<lambda>now t. case List.find (P t) (messages t) of None \<Rightarrow> (Inl Inb_ErrNoMailbox, t)
     | Some g \<Rightarrow> (Inr (f now g), t\<lparr>messages := upd_where (P t) (f now) (messages t)\<rparr>))"

definition MarkRead :: "string \<Rightarrow> string \<Rightarrow> message_row op" where
  "MarkRead ws i = update_message (\<lambda>t g. g_id g = i \<and> of_workspace t ws g)
     (\<lambda>now g. g\<lparr>g_read := Some (case g_read g of None \<Rightarrow> now | Some r \<Rightarrow> r)\<rparr>)"

text \<open>The lock serialises the moves of one mailbox; a new UID is drawn when the folder changes.\<close>

definition MoveMessage :: "string \<Rightarrow> string \<Rightarrow> string \<Rightarrow> message_row op" where
  "MoveMessage box i folder =
     bindE (guardE (folder \<noteq> ''INBOX'' \<and> folder \<noteq> ''Junk'') Inb_ErrNoMailbox) (\<lambda>_. withTx (
     bindE (query (\<lambda>now t. Inr ())) (\<lambda>_.
     bindE (add_folder box folder) (\<lambda>_.
     bindE (asks (\<lambda>w. \<exists>g\<in>set (messages (tabs w)). g_box g = box \<and> g_id g = i \<and> g_folder g \<noteq> folder)) (\<lambda>fresh.
     bindE (if fresh then nextUID else returnE 0) (\<lambda>uid.
     bindE (update_message (\<lambda>t g. g_box g = box \<and> g_id g = i)
       (\<lambda>now g. g\<lparr>g_uid := (if g_folder g \<noteq> folder then uid else g_uid g), g_folder := folder\<rparr>)) (\<lambda>g.
     returnE (g, True))))))))"

definition SeenFlag :: string where "SeenFlag = [CHR 0x5C] @ ''Seen''"
definition RecentFlag :: string where "RecentFlag = [CHR 0x5C] @ ''Recent''"

text \<open>\<open>None\<close> is Go's zero time.\<close>

definition appended_row :: "mime_lib \<Rightarrow> string \<Rightarrow> string \<Rightarrow> string \<Rightarrow> string list \<Rightarrow> time option \<Rightarrow> time \<Rightarrow> string \<Rightarrow> nat \<Rightarrow> message_row" where
  "appended_row M box folder raw flags date clock i uid = (let f = parse_mail M raw in
     \<lparr>g_id = i, g_box = box, g_env_from = pa_from f, g_env_to = [], g_msgid = nullif (pa_msgid f),
      g_from = nullif (pa_from f), g_from_name = nullif (pa_from_name f), g_subject = pa_subject f, g_sent = pa_sent f,
      g_text = nullif (pa_text f), g_html = nullif (pa_html f), g_raw = raw, g_size = length raw,
      g_read = (if SeenFlag \<in> set flags then Some clock else None),
      g_received = (case date of None \<Rightarrow> clock | Some d \<Rightarrow> d), g_uid = uid, g_folder = folder,
      g_flags = filter (\<lambda>x. x \<noteq> SeenFlag \<and> x \<noteq> RecentFlag) flags, g_smtp = False\<rparr>)"

definition AppendIMAP :: "mime_lib \<Rightarrow> string \<Rightarrow> string \<Rightarrow> string \<Rightarrow> string list \<Rightarrow> time option \<Rightarrow> unit op" where
  "AppendIMAP M box folder raw flags date = bindE (asks app_now) (\<lambda>clock.
     bindE nextUID (\<lambda>uid. withUUID (\<lambda>i.
     bindE (sql (insert_message (appended_row M box folder raw flags date clock i uid))) (\<lambda>_. returnE ()))))"

section \<open>The LMTP session\<close>

definition MaxMessageBytes :: nat where "MaxMessageBytes = 26214400"

record lmtp_session =
  ls_from :: string
  ls_rcpts :: "mailbox list"

datatype smtp_reply = Accepted | Rejected nat

definition lmtp_Mail :: "string \<Rightarrow> lmtp_session \<Rightarrow> lmtp_session" where
  "lmtp_Mail from s = s\<lparr>ls_from := from\<rparr>"

definition lmtp_Rcpt :: "string \<Rightarrow> lmtp_session \<Rightarrow> (world, gerror, smtp_reply \<times> lmtp_session) step" where
  "lmtp_Rcpt to s = handleE (MailboxByAddress to)
     (\<lambda>e. returnE (if e = Inb_ErrNoMailbox then (Rejected 550, s) else (Rejected 451, s)))
     (\<lambda>m. returnE (Accepted, s\<lparr>ls_rcpts := ls_rcpts s @ [m]\<rparr>))"

text \<open>The loop of Data: the first recipient that cannot be stored ends it.\<close>

fun deliver_all :: "mime_lib \<Rightarrow> string \<Rightarrow> string \<Rightarrow> mailbox list \<Rightarrow> (world, gerror, smtp_reply) step" where
  "deliver_all M from raw [] = returnE Accepted"
| "deliver_all M from raw (m # ms) =
     handleE (Inb_Deliver M \<lparr>dp_box = mb_id m, dp_from = from, dp_to = mb_address m, dp_raw = raw\<rparr>)
       (\<lambda>e. if e = Inb_ErrDuplicate then deliver_all M from raw ms else returnE (Rejected 451))
       (\<lambda>_. deliver_all M from raw ms)"

text \<open>\<open>None\<close> is a read that failed.\<close>

definition lmtp_Data :: "mime_lib \<Rightarrow> string option \<Rightarrow> lmtp_session \<Rightarrow> (world, gerror, smtp_reply) step" where
  "lmtp_Data M r s = (case r of None \<Rightarrow> returnE (Rejected 451) | Some body \<Rightarrow>
     let raw = take (MaxMessageBytes + 1) body in
     if MaxMessageBytes < length raw then returnE (Rejected 552) else deliver_all M (ls_from s) raw (ls_rcpts s))"

definition lmtp_Reset :: "lmtp_session \<Rightarrow> lmtp_session" where
  "lmtp_Reset s = s\<lparr>ls_from := [], ls_rcpts := []\<rparr>"

end
