(* ===== verification/Presentation.thy ===== *)
theory Presentation imports MailParse Secrets begin

text \<open>
  internal/inbound/attachments.go and presentation.go: what the detail view of a received message shows
  and which files can be downloaded from it. The multipart reader, the media-type parser, the transfer
  decoders and the content sniffer of Go's library are in \<open>scan_lib\<close>; a decoder yields the bytes it
  decoded and whether it ended in an error.
\<close>

section \<open>Attachments\<close>

record att_head =
  ah_disp :: string
  ah_filename :: string
  ah_type :: string
  ah_name :: string
  ah_encoding :: string

text \<open>A body, or the parts of a multipart and whether its reader ended in an error.\<close>

datatype mime_part = MBody att_head string | MParts att_head "mime_part list" bool

record scan_lib =
  sl_tree :: "string \<Rightarrow> mime_part option"
  sl_base64 :: "string \<Rightarrow> string \<times> bool"
  sl_quoted :: "string \<Rightarrow> string \<times> bool"
  sl_list :: "string \<Rightarrow> string list option"
  sl_detect :: "string \<Rightarrow> string"

record received_attachment =
  ra_id :: string
  ra_name :: string
  ra_size :: nat

record scan =
  sc_parts :: nat
  sc_items :: "received_attachment list"
  sc_data :: string
  sc_incomplete :: bool

definition maxParts :: nat where "maxParts = 256"
definition maxDepth :: nat where "maxDepth = 32"
definition maxFile :: nat where "maxFile = 26214400"

text \<open>
  \<open>strings.Map\<close> over the runes: a control character (of ASCII or Latin-1), a slash or a backslash
  becomes an underscore, a byte that is no UTF-8 the replacement character.
\<close>

definition clean_rune :: "string \<Rightarrow> string" where
  "clean_rune r = (case r of
     [c] \<Rightarrow> if 128 \<le> byte c then utf8_char 65533
            else if byte c < 32 \<or> byte c = 127 \<or> c = CHR ''/'' \<or> byte c = 92 then ''_'' else [c]
   | [a, b] \<Rightarrow> if byte a = 194 \<and> byte b < 160 then ''_'' else [a, b]
   | _ \<Rightarrow> r)"

function runes :: "string \<Rightarrow> string list" where
  "runes s = (if s = [] then [] else take (rune_len s) s # runes (drop (rune_len s) s))"
  by pat_completeness auto
termination
  by (relation "measure length") (use rune_len_bounds in \<open>auto simp: neq_Nil_conv Suc_le_eq\<close>)

declare runes.simps [simp del]

definition clean_name :: "mime_lib \<Rightarrow> string \<Rightarrow> string \<Rightarrow> string" where
  "clean_name M raw i = (let name = concat (map clean_rune (runes (decodeHeader M raw)));
     name = (if name = [] \<or> name = ''.'' \<or> name = ''..'' then ''attachment-'' @ i else name) in
     if 200 < length (runes name) then concat (take 200 (runes name)) else name)"

definition decoder :: "scan_lib \<Rightarrow> string \<Rightarrow> (string \<Rightarrow> string \<times> bool) option" where
  "decoder S enc = (let e = to_lower (trim_space enc) in
     if e = ''base64'' then Some (sl_base64 S) else if e = ''quoted-printable'' then Some (sl_quoted S)
     else if e = [] \<or> e = ''7bit'' \<or> e = ''8bit'' \<or> e = ''binary'' then Some (\<lambda>b. (b, False)) else None)"

definition incomplete :: "scan \<Rightarrow> scan" where
  "incomplete s = s\<lparr>sc_incomplete := True\<rparr>"

text \<open>One part that is no multipart, the \<open>i\<close>-th of the walk.\<close>

definition scan_body :: "mime_lib \<Rightarrow> scan_lib \<Rightarrow> string \<Rightarrow> att_head \<Rightarrow> string \<Rightarrow> scan \<Rightarrow> scan" where
  "scan_body M S sel h body s = (let i = dec (sc_parts s); raw = (if ah_filename h = [] then ah_name h else ah_filename h) in
     if ah_disp h \<noteq> ''attachment'' \<and> raw = [] then s else
     (case decoder S (ah_encoding h) of None \<Rightarrow> incomplete s | Some d \<Rightarrow>
       let data = take (maxFile + 1) (fst (d body)); failed = snd (d body) \<and> length (fst (d body)) \<le> maxFile;
           s = (if i = sel then s\<lparr>sc_data := data\<rparr> else s) in
       if failed \<or> maxFile < length data then incomplete s else
       s\<lparr>sc_items := sc_items s @ [\<lparr>ra_id = i, ra_name = clean_name M raw i, ra_size = length data\<rparr>]\<rparr>))"

fun walk :: "mime_lib \<Rightarrow> scan_lib \<Rightarrow> string \<Rightarrow> nat \<Rightarrow> mime_part \<Rightarrow> scan \<Rightarrow> scan"
  and walk_parts :: "mime_lib \<Rightarrow> scan_lib \<Rightarrow> string \<Rightarrow> nat \<Rightarrow> mime_part list \<Rightarrow> bool \<Rightarrow> scan \<Rightarrow> scan" where
  "walk M S sel depth (MBody h body) s = (let s = s\<lparr>sc_parts := sc_parts s + 1\<rparr> in
     if maxParts < sc_parts s \<or> maxDepth < depth then incomplete s else scan_body M S sel h body s)"
| "walk M S sel depth (MParts h ps bad) s = (let s = s\<lparr>sc_parts := sc_parts s + 1\<rparr> in
     if maxParts < sc_parts s \<or> maxDepth < depth then incomplete s else walk_parts M S sel (depth + 1) ps bad s)"
| "walk_parts M S sel depth [] bad s = (if sc_parts s \<le> maxParts \<and> bad then incomplete s else s)"
| "walk_parts M S sel depth (p # ps) bad s = (if sc_parts s \<le> maxParts
     then walk_parts M S sel depth ps bad (walk M S sel depth p s) else s)"

definition ScanAttachments :: "mime_lib \<Rightarrow> scan_lib \<Rightarrow> string \<Rightarrow> string \<Rightarrow> scan" where
  "ScanAttachments M S raw sel = (let start = \<lparr>sc_parts = 0, sc_items = [], sc_data = [], sc_incomplete = False\<rparr> in
     case sl_tree S raw of None \<Rightarrow> incomplete start | Some root \<Rightarrow> walk M S sel 0 root start)"

section \<open>The detail view\<close>

record presentation =
  pr_attachments :: "received_attachment list"
  pr_att_omitted :: bool
  pr_reply_to :: "string list"
  pr_media :: "(string \<times> string) list"
  pr_omitted :: bool
  pr_in_reply_to :: string
  pr_references :: string

text \<open>\<open>messageIDPattern\<close>: an angle bracket, up to 898 runes without brackets, spaces and controls, and the
  closing bracket. \<open>FindAllString\<close> takes the matches from left to right.\<close>

definition id_char :: "char \<Rightarrow> bool" where
  "id_char c \<longleftrightarrow> c \<noteq> CHR ''<'' \<and> c \<noteq> CHR ''>'' \<and> \<not> is_space c \<and> 32 \<le> byte c \<and> byte c \<noteq> 127"

fun find_ids :: "nat \<Rightarrow> string \<Rightarrow> string list" where
  "find_ids (Suc n) (c # s) = (if c = CHR ''<'' then
       let w = takeWhile id_char s; r = dropWhile id_char s in
       if 1 \<le> rune_count w \<and> rune_count w \<le> 898 \<and> r \<noteq> [] \<and> hd r = CHR ''>''
       then (''<'' @ w @ ''>'') # find_ids n (tl r) else find_ids n s
     else find_ids n s)"
| "find_ids _ _ = []"

definition message_ids :: "string \<Rightarrow> string list" where
  "message_ids s = find_ids (length s) s"

fun join_space :: "string list \<Rightarrow> string" where
  "join_space [] = []"
| "join_space [s] = s"
| "join_space (s # ss) = s @ '' '' @ join_space ss"

fun recent_refs :: "string list \<Rightarrow> string list" where
  "recent_refs [] = []"
| "recent_refs (r # rs) = (if 900 < length (join_space (r # rs)) then recent_refs rs else r # rs)"

text \<open>The senders of the first of the headers that has any.\<close>

fun reply_to :: "mime_lib \<Rightarrow> scan_lib \<Rightarrow> (string \<Rightarrow> string) \<Rightarrow> string list \<Rightarrow> string list" where
  "reply_to M S get [] = []"
| "reply_to M S get (h # hs) = (let as = (case sl_list S (decodeHeader M (get h)) of None \<Rightarrow> []
       | Some l \<Rightarrow> filter (\<lambda>a. \<not> contains_any a [CHR 0x0D, CHR 0x0A]) l) in
     if as \<noteq> [] then as else reply_to M S get hs)"

record media =
  md_parts :: nat
  md_remaining :: nat
  md_found :: "(string \<times> string) list"
  md_omitted :: bool

definition inline_types :: "string set" where
  "inline_types = {''image/png'', ''image/jpeg'', ''image/gif'', ''image/webp'', ''audio/mpeg'', ''audio/ogg'',
     ''audio/wave'', ''audio/wav'', ''video/mp4'', ''video/webm''}"

definition inline_part :: "scan_lib \<Rightarrow> part_head \<Rightarrow> string \<Rightarrow> bool \<Rightarrow> media \<Rightarrow> media" where
  "inline_part S h content bad m = (let cid = trim_chars (ph_get h ''Content-ID'') ([CHR ''<'', CHR ''>'', CHR '' '', CHR 0x09]);
       t = ph_type h; limit = min 8388608 (md_remaining m); body = take (limit + 1) content in
     if cid = [] then m
     else if t \<notin> inline_types \<or> bad \<and> length content \<le> limit \<or> limit < length body \<or> has_prefix t ''image/'' \<and> sl_detect S body \<noteq> t
       then m\<lparr>md_omitted := True\<rparr>
     else if cid \<in> fst ` set (md_found m) then m
     else m\<lparr>md_remaining := md_remaining m - length body,
        md_found := md_found m @ [(cid, ''data:'' @ t @ '';base64,'' @ b64_std body)]\<rparr>)"

fun media_walk :: "scan_lib \<Rightarrow> nat \<Rightarrow> part \<Rightarrow> media \<Rightarrow> media"
  and media_parts :: "scan_lib \<Rightarrow> nat \<Rightarrow> (bool \<times> part) list \<Rightarrow> bool \<Rightarrow> media \<Rightarrow> media" where
  "media_walk S depth (Leaf h body bad) m = (let m = m\<lparr>md_parts := md_parts m + 1\<rparr> in
     if maxDepth < depth \<or> maxParts < md_parts m then m\<lparr>md_omitted := True\<rparr> else inline_part S h body bad m)"
| "media_walk S depth (Multi h ps bad) m = (let m = m\<lparr>md_parts := md_parts m + 1\<rparr> in
     if maxDepth < depth \<or> maxParts < md_parts m then m\<lparr>md_omitted := True\<rparr> else media_parts S (depth + 1) ps bad m)"
| "media_parts S depth [] bad m = (if bad then m\<lparr>md_omitted := True\<rparr> else m)"
| "media_parts S depth ((err, p) # ps) bad m = (let m = media_walk S depth p m in
     if maxParts < md_parts m then m else media_parts S depth ps bad m)"

definition Present :: "mime_lib \<Rightarrow> scan_lib \<Rightarrow> string \<Rightarrow> presentation" where
  "Present M S raw = (let a = ScanAttachments M S raw [];
       out = \<lparr>pr_attachments = sc_items a, pr_att_omitted = sc_incomplete a, pr_reply_to = [], pr_media = [],
         pr_omitted = False, pr_in_reply_to = [], pr_references = []\<rparr> in
     case mm_read M raw of None \<Rightarrow> out | Some e \<Rightarrow>
     let get = ph_get (part_header e); ids = message_ids (get ''Message-ID'');
         parent = (if length ids = 1 then hd ids else []);
         refs = message_ids (get ''References'');
         refs = (if refs = [] then message_ids (get ''In-Reply-To'') else refs);
         refs = (if parent \<noteq> [] then refs @ [parent] else refs);
         m = media_walk S 0 e \<lparr>md_parts = 0, md_remaining = 20971520, md_found = [], md_omitted = False\<rparr> in
     out\<lparr>pr_reply_to := reply_to M S get [''Reply-To'', ''From''], pr_in_reply_to := parent,
       pr_references := join_space (recent_refs refs), pr_media := md_found m, pr_omitted := md_omitted m\<rparr>)"


section \<open>What a listing promises\<close>

lemma concat_runes: "concat (runes s) = s"
  by (induction s rule: runes.induct) (subst runes.simps, simp)

lemma length_runes: "length (runes s) = rune_count s"
  by (induction s rule: runes.induct) (subst runes.simps, subst rune_count.simps, simp)

lemma second_high: "second_ok x b \<Longrightarrow> 128 \<le> byte b"
  by (auto simp: second_ok_def split: if_splits)

lemma rune_len_shape:
  "rune_len s = 1 \<or> (\<exists>a b s'. s = a # b # s' \<and> rune_len s = 2 \<and> 128 \<le> byte a \<and> 128 \<le> byte b) \<or>
   (\<exists>a b c s'. s = a # b # c # s' \<and> rune_len s = 3 \<and> 128 \<le> byte a \<and> 128 \<le> byte b \<and> 128 \<le> byte c) \<or>
   (\<exists>a b c d s'. s = a # b # c # d # s' \<and> rune_len s = 4 \<and> 128 \<le> byte a \<and> 128 \<le> byte b \<and> 128 \<le> byte c \<and> 128 \<le> byte d)"
proof (cases s rule: rune_len.cases)
  case (1 a b c d s')
  then show ?thesis using second_high[of "byte a" b] by (simp add: Let_def cont_def split: if_splits)
qed (use second_high in \<open>simp_all add: Let_def cont_def\<close>)

lemma rune_tail: "2 \<le> rune_len s \<Longrightarrow> c \<in> set (take (rune_len s) s) \<Longrightarrow> 128 \<le> byte c"
  using rune_len_shape[of s] by (elim disjE exE conjE) (auto simp: take_Cons')

definition plain_char :: "char \<Rightarrow> bool" where
  "plain_char c \<longleftrightarrow> 32 \<le> byte c \<and> byte c \<noteq> 127 \<and> byte c \<noteq> 92 \<and> c \<noteq> CHR ''/''"

lemma runes_elem: "r \<in> set (runes s) \<Longrightarrow> r \<noteq> [] \<and> length r \<le> 4 \<and> (length r = 1 \<or> (\<forall>c\<in>set r. 128 \<le> byte c))"
proof (induction s rule: runes.induct)
  case (1 s)
  show ?case
  proof (cases "s = []")
    case False
    then have len: "length (take (rune_len s) s) = rune_len s" using rune_len_le[of s] by simp
    have "r = take (rune_len s) s \<or> r \<in> set (runes (drop (rune_len s) s))"
      using 1(2) False by (subst (asm) runes.simps) auto
    then show ?thesis
    proof
      assume r: "r = take (rune_len s) s"
      show ?thesis
        using rune_len_bounds[of s] len rune_tail[of s] False unfolding r by (cases "rune_len s = 1") auto
    qed (use 1(1)[OF False] in blast)
  qed (use 1(2) in \<open>simp add: runes.simps\<close>)
qed


lemma high_plain: "128 \<le> byte c \<Longrightarrow> plain_char c"
  by (auto simp: plain_char_def byte_def)

lemma digit_plain: "\<forall>c\<in>set (dec n). plain_char c"
proof
  fix c assume "c \<in> set (dec n)"
  then have "CHR ''0'' \<le> c \<and> c \<le> CHR ''9''" using dec_digits[of n] by (simp add: is_digit_def)
  then have b: "48 \<le> byte c \<and> byte c \<le> 57" unfolding less_eq_char_def byte_def by simp
  then have "c \<noteq> CHR ''/''" by (auto simp: byte_def)
  with b show "plain_char c" by (simp add: plain_char_def)
qed

lemma clean_rune_plain:
  assumes "r \<noteq> []" "length r \<le> 4" "length r = 1 \<or> (\<forall>c\<in>set r. 128 \<le> byte c)"
  shows "clean_rune r \<noteq> [] \<and> (\<forall>c\<in>set (clean_rune r). plain_char c)"
proof (cases r)
  case (Cons a r')
  have u: "utf8_char 65533 = [CHR 0xEF, CHR 0xBF, CHR 0xBD]" by (simp add: utf8_char_def char_of_def bit_iff_odd)
  have under: "plain_char (CHR ''_'')" by (simp add: plain_char_def byte_def)
  show ?thesis
  proof (cases r')
    case Nil
    then show ?thesis using Cons under by (auto simp: clean_rune_def u plain_char_def byte_def)
  next
    case (Cons b r'')
    then have "\<forall>c\<in>set r. 128 \<le> byte c" using assms(3) \<open>r = a # r'\<close> by auto
    then show ?thesis using \<open>r = a # r'\<close> Cons under by (auto simp: clean_rune_def high_plain split: list.splits)
  qed
qed (use assms in simp)

definition safe_name :: "string \<Rightarrow> bool" where
  "safe_name n \<longleftrightarrow> n \<noteq> [] \<and> n \<noteq> ''.'' \<and> n \<noteq> ''..'' \<and> (\<forall>c\<in>set n. plain_char c) \<and> length n \<le> 800"

lemma length_concat_runes: "length (concat (take k (runes s))) \<le> 4 * k"
proof -
  have "length (concat rs) \<le> 4 * length rs" if "\<forall>r\<in>set rs. length r \<le> 4" for rs :: "string list"
    using that by (induction rs) auto
  from this[of "take k (runes s)"] have "length (concat (take k (runes s))) \<le> 4 * length (take k (runes s))"
    using runes_elem[of _ s] by (meson in_set_takeD)
  then show ?thesis by simp
qed

lemma length_concat_ge: "\<forall>r\<in>set rs. r \<noteq> [] \<Longrightarrow> length rs \<le> length (concat rs)"
  by (induction rs) (auto simp: Suc_le_eq neq_Nil_conv)

lemma long_safe: "2 < length n \<Longrightarrow> \<forall>c\<in>set n. plain_char c \<Longrightarrow> length n \<le> 800 \<Longrightarrow> safe_name n"
  by (auto simp: safe_name_def)

lemma clean_name_safe:
  assumes "\<forall>c\<in>set i. plain_char c"
  shows "safe_name (clean_name M raw i)"
proof -
  define n0 where "n0 = concat (map clean_rune (runes (decodeHeader M raw)))"
  define n where "n = (if n0 = [] \<or> n0 = ''.'' \<or> n0 = ''..'' then ''attachment-'' @ i else n0)"
  have "\<forall>c\<in>set n0. plain_char c"
  proof
    fix c assume "c \<in> set n0"
    then obtain r where "r \<in> set (runes (decodeHeader M raw))" "c \<in> set (clean_rune r)" unfolding n0_def by auto
    with runes_elem[OF this(1)] clean_rune_plain[of r] show "plain_char c" by blast
  qed
  moreover have "\<forall>c\<in>set ''attachment-''. plain_char c" by (simp add: plain_char_def byte_def)
  ultimately have plain: "\<forall>c\<in>set n. plain_char c" and ne: "n \<noteq> [] \<and> n \<noteq> ''.'' \<and> n \<noteq> ''..''"
    using assms by (auto simp: n_def)
  have c: "clean_name M raw i = (if 200 < length (runes n) then concat (take 200 (runes n)) else n)"
    by (simp add: clean_name_def n_def n0_def Let_def)
  show ?thesis
  proof (cases "200 < length (runes n)")
    case True
    have "200 \<le> length (concat (take 200 (runes n)))"
      using length_concat_ge[of "take 200 (runes n)"] runes_elem[of _ n] True by (auto dest: in_set_takeD)
    moreover have "set (concat (take 200 (runes n))) \<subseteq> set n"
      using concat_runes[of n] by (metis append_take_drop_id concat_append set_append sup_ge1)
    moreover have "length (concat (take 200 (runes n))) \<le> 800" using length_concat_runes[of 200 n] by simp
    ultimately have "safe_name (concat (take 200 (runes n)))" using plain by (intro long_safe) auto
    then show ?thesis using True by (simp add: c)
  next
    case False
    then have "length n \<le> 800" using rune_count_bounds[of n] by (simp add: length_runes)
    then show ?thesis using plain ne False by (simp add: safe_name_def c)
  qed
qed

text \<open>Items are numbered by the part they are, and every part once.\<close>

definition scan_ok :: "string \<Rightarrow> nat \<Rightarrow> scan \<Rightarrow> bool" where
  "scan_ok sel n s \<longleftrightarrow> distinct (map ra_id (sc_items s)) \<and> (\<forall>it\<in>set (sc_items s). safe_name (ra_name it) \<and> ra_size it \<le> maxFile \<and>
     (\<exists>k. ra_id it = dec k \<and> 1 \<le> k \<and> k < n \<and> k \<le> maxParts) \<and> (ra_id it = sel \<longrightarrow> ra_size it = length (sc_data s)))"

lemma scan_ok_mono: "scan_ok sel n s \<Longrightarrow> n \<le> m \<Longrightarrow> scan_ok sel m s"
  unfolding scan_ok_def by (meson order_less_le_trans)

lemma scan_ok_incomplete [simp]: "scan_ok sel n (incomplete s) = scan_ok sel n s" "sc_parts (incomplete s) = sc_parts s"
  by (simp_all add: scan_ok_def incomplete_def)

lemma scan_body_ok:
  assumes "scan_ok sel (sc_parts s) s" "sc_parts s \<le> maxParts" "1 \<le> sc_parts s"
  shows "scan_ok sel (Suc (sc_parts s)) (scan_body M S sel h body s) \<and> sc_parts (scan_body M S sel h body s) = sc_parts s"
proof -
  have new: "ra_id it \<noteq> dec (sc_parts s)" if "it \<in> set (sc_items s)" for it
    using assms(1) that by (auto simp: scan_ok_def dec_inj)
  have plain: "scan_ok sel (Suc (sc_parts s)) s" using assms(1) by (rule scan_ok_mono) simp
  have with_data: "scan_ok sel (Suc (sc_parts s)) (s\<lparr>sc_data := d\<rparr>)" if "dec (sc_parts s) = sel" for d
    using plain new that unfolding scan_ok_def by simp
  have add: "scan_ok sel (Suc (sc_parts s)) (s'\<lparr>sc_items := sc_items s' @ [\<lparr>ra_id = dec (sc_parts s), ra_name = n, ra_size = z\<rparr>]\<rparr>)"
    if "scan_ok sel (Suc (sc_parts s)) s'" "sc_items s' = sc_items s" "safe_name n" "z \<le> maxFile"
      "dec (sc_parts s) = sel \<longrightarrow> z = length (sc_data s')" for s' n z
    unfolding scan_ok_def
  proof (intro conjI ballI)
    have "dec (sc_parts s) \<notin> ra_id ` set (sc_items s)"
      by (rule notI, erule imageE) (use new in \<open>metis\<close>)
    then show "distinct (map ra_id (sc_items (s'\<lparr>sc_items := sc_items s' @ [\<lparr>ra_id = dec (sc_parts s), ra_name = n, ra_size = z\<rparr>]\<rparr>)))"
      using that(1,2) by (simp add: scan_ok_def)
    fix it assume it: "it \<in> set (sc_items (s'\<lparr>sc_items := sc_items s' @ [\<lparr>ra_id = dec (sc_parts s), ra_name = n, ra_size = z\<rparr>]\<rparr>))"
    have "safe_name (ra_name it) \<and> ra_size it \<le> maxFile \<and> (\<exists>k. ra_id it = dec k \<and> 1 \<le> k \<and> k < Suc (sc_parts s) \<and> k \<le> maxParts) \<and>
        (ra_id it = sel \<longrightarrow> ra_size it = length (sc_data s'))"
    proof (cases "it \<in> set (sc_items s')")
      case True
      with that(1) show ?thesis unfolding scan_ok_def by blast
    next
      case False
      with it have "it = \<lparr>ra_id = dec (sc_parts s), ra_name = n, ra_size = z\<rparr>" by simp
      with that(3-5) assms(2,3) show ?thesis by (simp add: exI[of _ "sc_parts s"])
    qed
    then show "safe_name (ra_name it)" "ra_size it \<le> maxFile" "\<exists>k. ra_id it = dec k \<and> 1 \<le> k \<and> k < Suc (sc_parts s) \<and> k \<le> maxParts"
      "ra_id it = sel \<longrightarrow> ra_size it = length (sc_data (s'\<lparr>sc_items := sc_items s' @ [\<lparr>ra_id = dec (sc_parts s), ra_name = n, ra_size = z\<rparr>]\<rparr>))"
      by simp_all
  qed
  have add_data: "scan_ok sel (Suc (sc_parts s)) (s\<lparr>sc_data := d, sc_items := sc_items s @ [\<lparr>ra_id = dec (sc_parts s), ra_name = n, ra_size = length d\<rparr>]\<rparr>)"
    if "dec (sc_parts s) = sel" "safe_name n" "length d \<le> maxFile" for d n
    using add[OF with_data[OF that(1), of d] _ that(2,3)] by simp
  show ?thesis
    unfolding scan_body_def Let_def
    using with_data plain clean_name_safe[OF digit_plain] add[OF plain] add_data
    by (auto split: option.splits)
qed

lemma walk_ok:
  "scan_ok sel (Suc (sc_parts s)) s \<Longrightarrow> scan_ok sel (Suc (sc_parts (walk M S sel depth p s))) (walk M S sel depth p s)"
  "scan_ok sel (Suc (sc_parts s)) s \<Longrightarrow> scan_ok sel (Suc (sc_parts (walk_parts M S sel depth ps bad s))) (walk_parts M S sel depth ps bad s)"
proof (induction M S sel depth p s and M S sel depth ps bad s rule: walk_walk_parts.induct)
  case (1 M S sel depth h body s)
  let ?s = "s\<lparr>sc_parts := sc_parts s + 1\<rparr>"
  have "scan_ok sel (sc_parts ?s) ?s" using 1 by (simp add: scan_ok_def)
  then show ?case
    using scan_body_ok[of sel ?s M S h body] scan_ok_mono[of sel "sc_parts ?s" ?s "Suc (sc_parts ?s)"] by (simp add: Let_def)
next
  case (2 M S sel depth h ps bad s)
  let ?s = "s\<lparr>sc_parts := sc_parts s + 1\<rparr>"
  have "scan_ok sel (Suc (sc_parts ?s)) ?s" using 2(2) by (auto simp: scan_ok_def intro: less_SucI)
  then show ?case using 2(1)[of ?s] by (auto simp: Let_def)
qed (auto simp: Let_def)

definition strip :: "scan \<Rightarrow> scan" where
  "strip s = s\<lparr>sc_data := []\<rparr>"

lemma strip_simps [simp]: "sc_parts (strip s) = sc_parts s" "strip (incomplete s) = incomplete (strip s)"
  "strip (s\<lparr>sc_parts := n\<rparr>) = (strip s)\<lparr>sc_parts := n\<rparr>" "strip (s\<lparr>sc_data := d\<rparr>) = strip s" "sc_items (strip s) = sc_items s"
  by (simp_all add: strip_def incomplete_def)

lemma scan_body_strip: "strip (scan_body M S sel h body s) = scan_body M S [] h body (strip s)"
  by (auto simp: scan_body_def Let_def strip_def incomplete_def split: option.splits)

lemma walk_strip:
  "strip (walk M S sel depth p s) = walk M S [] depth p (strip s)"
  "strip (walk_parts M S sel depth ps bad s) = walk_parts M S [] depth ps bad (strip s)"
  by (induction M S sel depth p s and M S sel depth ps bad s rule: walk_walk_parts.induct)
    (simp_all add: Let_def scan_body_strip del: One_nat_def)

lemma ScanAttachments_ok:
  "scan_ok sel (Suc (sc_parts (ScanAttachments M S raw sel))) (ScanAttachments M S raw sel)"
  "strip (ScanAttachments M S raw sel) = strip (ScanAttachments M S raw [])"
proof -
  let ?s = "\<lparr>sc_parts = 0, sc_items = [], sc_data = [], sc_incomplete = False\<rparr>"
  have ok: "scan_ok sel (Suc (sc_parts ?s)) ?s" by (simp add: scan_ok_def)
  show "scan_ok sel (Suc (sc_parts (ScanAttachments M S raw sel))) (ScanAttachments M S raw sel)"
    unfolding ScanAttachments_def Let_def using walk_ok(1)[OF ok] ok by (simp split: option.splits)
  show "strip (ScanAttachments M S raw sel) = strip (ScanAttachments M S raw [])"
    unfolding ScanAttachments_def Let_def by (simp add: walk_strip split: option.splits)
qed


section \<open>What a reply quotes\<close>

lemma find_ids_chars: "r \<in> set (find_ids n s) \<Longrightarrow> c \<in> set r \<Longrightarrow> 32 < byte c \<and> byte c \<noteq> 127"
proof (induction n s rule: find_ids.induct)
  case (1 n x s)
  have id: "32 < byte c" "byte c \<noteq> 127" if "id_char c"
    using that by (auto simp: id_char_def is_space_def byte_def order_less_le)
  have "32 < byte (CHR ''<'')" "32 < byte (CHR ''>'')" "byte (CHR ''<'') \<noteq> 127" "byte (CHR ''>'') \<noteq> 127" by (simp_all add: byte_def)
  note br = this
  have word: "32 < byte c \<and> byte c \<noteq> 127" if "r = ''<'' @ takeWhile id_char s @ ''>''"
    using that 1(5) br id set_takeWhileD[of c id_char s] by auto
  show ?case using 1 word by (auto simp: Let_def split: if_splits)
qed auto

lemma join_space_chars: "c \<in> set (join_space rs) \<Longrightarrow> c = CHR '' '' \<or> (\<exists>r\<in>set rs. c \<in> set r)"
  by (induction rs rule: join_space.induct) auto

lemma recent_refs_sub: "set (recent_refs rs) \<subseteq> set rs"
  by (induction rs) auto

lemma recent_refs_bound: "length (join_space (recent_refs rs)) \<le> 900"
  by (induction rs) auto

lemma reply_to_clean: "a \<in> set (reply_to M S get hs) \<Longrightarrow> \<not> contains_any a [CHR 0x0D, CHR 0x0A]"
  by (induction hs) (auto simp: Let_def split: if_splits option.splits)

text \<open>The headers a reply is built from cannot be injected: the thread references of any received message
  are at most 900 bytes of printable characters, the parent's id too is free of line breaks and
  controls, and so are the addresses a reply goes to of line breaks.\<close>

theorem reply_headers_clean:
  "length (pr_references (Present M S raw)) \<le> 900 \<and>
   (\<forall>c\<in>set (pr_references (Present M S raw)) \<union> set (pr_in_reply_to (Present M S raw)). 32 \<le> byte c \<and> byte c \<noteq> 127) \<and>
   (\<forall>a\<in>set (pr_reply_to (Present M S raw)). \<not> contains_any a [CHR 0x0D, CHR 0x0A])"
proof (cases "mm_read M raw")
  case None
  then show ?thesis by (simp add: Present_def Let_def)
next
  case (Some e)
  define get where "get = ph_get (part_header e)"
  define ids where "ids = message_ids (get ''Message-ID'')"
  define parent where "parent = (if length ids = 1 then hd ids else [])"
  define refs0 where "refs0 = (if message_ids (get ''References'') = [] then message_ids (get ''In-Reply-To'') else message_ids (get ''References''))"
  define refs where "refs = (if parent \<noteq> [] then refs0 @ [parent] else refs0)"
  have P: "pr_references (Present M S raw) = join_space (recent_refs refs)" "pr_in_reply_to (Present M S raw) = parent"
    "pr_reply_to (Present M S raw) = reply_to M S get [''Reply-To'', ''From'']"
    by (simp_all add: Present_def Some Let_def refs_def refs0_def parent_def ids_def get_def)
  have parent: "32 < byte c \<and> byte c \<noteq> 127" if "c \<in> set parent" for c
  proof -
    have "length ids = 1" "c \<in> set (hd ids)" using that by (auto simp: parent_def split: if_splits)
    then have "hd ids \<in> set (find_ids (length (get ''Message-ID'')) (get ''Message-ID''))" by (cases ids) (auto simp: ids_def message_ids_def)
    from find_ids_chars[OF this \<open>c \<in> set (hd ids)\<close>] show ?thesis .
  qed
  have refs: "32 < byte c \<and> byte c \<noteq> 127" if "r \<in> set refs" "c \<in> set r" for r c
    using that parent find_ids_chars[of r] by (auto simp: refs_def refs0_def message_ids_def split: if_splits)
  have sp: "32 \<le> byte (CHR '' '') \<and> byte (CHR '' '') \<noteq> 127" by (simp add: byte_def)
  have "32 \<le> byte c \<and> byte c \<noteq> 127" if "c \<in> set (join_space (recent_refs refs))" for c
    using join_space_chars[OF that] sp refs recent_refs_sub[of refs] by (meson less_imp_le subsetD)
  then show ?thesis
    unfolding P using recent_refs_bound[of refs] parent reply_to_clean by (auto simp: less_imp_le simp del: reply_to.simps)
qed

section \<open>At a concrete message\<close>

definition sample_mime :: mime_lib where
  "sample_mime = \<lparr>mm_read = (\<lambda>raw. Some (Leaf \<lparr>ph_get = (\<lambda>h. if h = ''Message-ID'' then ''<a@b>'' else []), ph_type = ''text/plain'',
       ph_type_ok = True, ph_disp = []\<rparr> raw False)),
     mm_head = (\<lambda>raw. Some (\<lambda>h. if h = ''From'' then [''Bob <bob@acme.kz>''] else [])),
     mm_word = (\<lambda>s. Some s), mm_address = (\<lambda>s. None), mm_date = (\<lambda>s. None)\<rparr>"

definition sample_scan :: scan_lib where
  "sample_scan = \<lparr>sl_tree = (\<lambda>raw. Some (MBody \<lparr>ah_disp = ''attachment'', ah_filename = ''a.txt'', ah_type = ''text/plain'',
       ah_name = [], ah_encoding = ''8bit''\<rparr> raw)),
     sl_base64 = (\<lambda>s. (s, False)), sl_quoted = (\<lambda>s. (s, False)), sl_list = (\<lambda>s. None), sl_detect = (\<lambda>s. [])\<rparr>"


theorem reply_headers_clean_witness: "length (pr_references (Present sample_mime sample_scan ''hello'')) \<le> 900"
  using reply_headers_clean[of sample_mime sample_scan "''hello''"] by blast

end
