(* ===== verification/Inbox.thy ===== *)
theory Inbox imports Tenants Mailboxes Presentation begin

text \<open>
  The endpoints for received mail: internal/httpapi/inbound.go, received_attachments.go and
  mailbox_smtp.go, and who gets to see what through them.
\<close>

section \<open>Handlers\<close>

definition caller :: "user_row option \<Rightarrow> string" where
  "caller cu = (case cu of None \<Rightarrow> [] | Some user \<Rightarrow> u_id user)"

text \<open>A mailbox as listed: whether the caller may read it and send from it.\<close>

fun list_boxes :: "user_row option \<Rightarrow> string \<Rightarrow> role \<Rightarrow> mailbox list \<Rightarrow> (mailbox \<times> bool \<times> bool) list op" where
  "list_boxes cu ws role [] = returnE []"
| "list_boxes cu ws role (b # bs) = bindE (CanAccess (caller cu) (mb_id b)) (\<lambda>canRead.
     if \<not> canRead \<and> \<not> AtLeast role RoleAdmin then list_boxes cu ws role bs else
     bindE (if \<not> canRead then returnE False else
       handleE (AllowsAddress (map_option u_id cu) ws (mb_address b)) (\<lambda>_. returnE False) (\<lambda>_. returnE True)) (\<lambda>allowed.
     bindE (list_boxes cu ws role bs) (\<lambda>out. returnE ((b, canRead, allowed) # out))))"

definition ListMailboxes :: "user_row option \<Rightarrow> string \<Rightarrow> (mailbox \<times> bool \<times> bool) list handler" where
  "ListMailboxes cu slug = orElse (scope cu slug RoleMember) (always 404 ''not_found'') (\<lambda>(ws, _).
     bindE (MailboxesForWorkspace ws) (\<lambda>boxes.
     bindE (MembershipRole ws (caller cu)) (\<lambda>role.
     bindE (list_boxes cu ws role boxes) (\<lambda>out. returnE (Reply 200 out)))))"

record mailbox_request =
  bq_domain :: string
  bq_local :: string
  bq_name :: "string option"
  bq_shared :: "bool option"
  bq_owner :: "string option"

definition requested_owner :: "user_row option \<Rightarrow> mailbox_request \<Rightarrow> string option" where
  "requested_owner cu q = (case bq_owner q of Some u \<Rightarrow> Some u
     | None \<Rightarrow> if bq_shared q = Some True then None else Some (caller cu))"

definition CreateMailbox :: "user_row option \<Rightarrow> string \<Rightarrow> mailbox_request option \<Rightarrow> mailbox handler" where
  "CreateMailbox cu slug body = orElse (scope cu slug RoleAdmin) (always 404 ''not_found'') (\<lambda>(ws, forbidden).
     if forbidden then returnE (Problem 403 ''forbidden'') else
     case body of None \<Rightarrow> returnE (Problem 400 ''invalid_json'') | Some q \<Rightarrow>
     orElse (Dom_Get ws (bq_domain q)) (onError Dom_ErrNotFound 404 ''not_found'') (\<lambda>domain.
     if \<not> Verified domain then returnE (Problem 400 ''domain_not_verified'') else
     let name = (case bq_name q of None \<Rightarrow> [] | Some n \<Rightarrow> n) in
     orElse (case requested_owner cu q of None \<Rightarrow> returnE () | Some u \<Rightarrow> bindE (MembershipRole ws u) (\<lambda>_. returnE ()))
       (always 400 ''invalid_owner'') (\<lambda>_.
     orElse (Inb_CreateMailbox (d_id domain) (bq_local q) name (requested_owner cu q))
       (onError Inb_ErrAddressExists 409 ''address_taken'') (\<lambda>box. returnE (Reply 201 box)))))"

text \<open>The mailbox, if the caller may read it in this workspace; any failure is a 404.\<close>

definition own_mailbox :: "user_row option \<Rightarrow> string \<Rightarrow> string \<Rightarrow> mailbox op" where
  "own_mailbox cu ws i = bindE (MailboxByID i) (\<lambda>box. bindE (CanAccess (caller cu) (mb_id box)) (\<lambda>allowed.
     bindE (guardE (\<not> allowed \<or> mb_ws box \<noteq> ws) Inb_ErrNoMailbox) (\<lambda>_. returnE box)))"

record list_params =
  lp_limit :: "int option"
  lp_offset :: "int option"
  lp_folder :: "string option"
  lp_q :: "string option"

definition ListMessages :: "user_row option \<Rightarrow> string \<Rightarrow> string \<Rightarrow> list_params \<Rightarrow> message_row list handler" where
  "ListMessages cu slug boxId p = orElse (scope cu slug RoleMember) (always 404 ''not_found'') (\<lambda>(ws, _).
     orElse (own_mailbox cu ws boxId) (always 404 ''not_found'') (\<lambda>box.
     let limit = (case lp_limit p of None \<Rightarrow> 50 | Some n \<Rightarrow> n); offset = (case lp_offset p of None \<Rightarrow> 0 | Some n \<Rightarrow> n);
         folder = (case lp_folder p of None \<Rightarrow> ''INBOX'' | Some f \<Rightarrow> f);
         search = (case lp_q p of None \<Rightarrow> [] | Some q \<Rightarrow> trim_space q) in
     if folder \<noteq> ''INBOX'' \<and> folder \<noteq> ''Junk'' then returnE (Problem 404 ''not_found'') else
     bindE (if search \<noteq> [] then SearchFolderMessages (mb_id box) folder search limit offset
            else ListFolderMessages (mb_id box) folder limit offset) (\<lambda>msgs. returnE (Reply 200 msgs))))"

definition readableMessage :: "user_row option \<Rightarrow> string \<Rightarrow> string \<Rightarrow> message_row op" where
  "readableMessage cu ws i = bindE (MessageByID ws i) (\<lambda>msg. case cu of None \<Rightarrow> throwE Inb_ErrNoMailbox | Some user \<Rightarrow>
     bindE (CanAccess (u_id user) (g_box msg)) (\<lambda>allowed.
     if \<not> allowed then throwE Inb_ErrNoMailbox else returnE msg))"

definition raw_of :: "string \<Rightarrow> string \<Rightarrow> string op" where
  "raw_of box i = query (\<lambda>now t. case List.find (\<lambda>g. g_id g = i \<and> g_box g = box) (messages t) of
     None \<Rightarrow> Inl ErrNoRows | Some g \<Rightarrow> Inr (g_raw g))"

definition Inb_Presentation :: "mime_lib \<Rightarrow> scan_lib \<Rightarrow> string \<Rightarrow> string \<Rightarrow> presentation op" where
  "Inb_Presentation M S box i = bindE (raw_of box i) (\<lambda>raw. returnE (Present M S raw))"

definition Inb_Attachment :: "mime_lib \<Rightarrow> scan_lib \<Rightarrow> string \<Rightarrow> string \<Rightarrow> string \<Rightarrow> (received_attachment \<times> string) op" where
  "Inb_Attachment M S box i sel = bindE (raw_of box i) (\<lambda>raw. let s = ScanAttachments M S raw sel in
     case List.find (\<lambda>it. ra_id it = sel) (sc_items s) of None \<Rightarrow> throwE ErrNoRows | Some it \<Rightarrow> returnE (it, sc_data s))"

definition GetMessage :: "mime_lib \<Rightarrow> scan_lib \<Rightarrow> user_row option \<Rightarrow> string \<Rightarrow> string \<Rightarrow> (message_row \<times> presentation) handler" where
  "GetMessage M S cu slug i = orElse (scope cu slug RoleMember) (always 404 ''not_found'') (\<lambda>(ws, _).
     orElse (readableMessage cu ws i) (always 404 ''not_found'') (\<lambda>msg.
     bindE (Inb_Presentation M S (g_box msg) (g_id msg)) (\<lambda>pres. returnE (Reply 200 (msg, pres)))))"

definition MarkMessageRead :: "user_row option \<Rightarrow> string \<Rightarrow> string \<Rightarrow> message_row handler" where
  "MarkMessageRead cu slug i = orElse (scope cu slug RoleMember) (always 404 ''not_found'') (\<lambda>(ws, _).
     orElse (readableMessage cu ws i) (always 404 ''not_found'') (\<lambda>_.
     orElse (MarkRead ws i) (always 404 ''not_found'') (\<lambda>msg. returnE (Reply 200 msg))))"

definition MoveReceivedMessage :: "user_row option \<Rightarrow> string \<Rightarrow> string \<Rightarrow> string option \<Rightarrow> message_row handler" where
  "MoveReceivedMessage cu slug i body = (case body of None \<Rightarrow> returnE (Problem 400 ''move_failed'') | Some folder \<Rightarrow>
     if folder \<noteq> ''INBOX'' \<and> folder \<noteq> ''Junk'' then returnE (Problem 400 ''move_failed'') else
     orElse (scope cu slug RoleMember) (always 404 ''move_failed'') (\<lambda>(ws, _).
     orElse (readableMessage cu ws i) (always 404 ''move_failed'') (\<lambda>msg.
     bindE (MoveMessage (g_box msg) (g_id msg) folder) (\<lambda>moved. returnE (Reply 200 moved)))))"

definition DownloadReceivedAttachment :: "mime_lib \<Rightarrow> scan_lib \<Rightarrow> user_row option \<Rightarrow> string \<Rightarrow> string \<Rightarrow> string \<Rightarrow> (string \<times> string) handler" where
  "DownloadReceivedAttachment M S cu slug i sel = orElse (scope cu slug RoleMember) (always 404 ''not_found'') (\<lambda>(ws, _).
     orElse (readableMessage cu ws i) (always 404 ''not_found'') (\<lambda>msg.
     orElse (Inb_Attachment M S (g_box msg) (g_id msg) sel) (always 404 ''not_found'') (\<lambda>(it, data).
     returnE (Reply 200 (ra_name it, data)))))"

definition AssignMailboxOwner :: "user_row option \<Rightarrow> string \<Rightarrow> string \<Rightarrow> string option option \<Rightarrow> mailbox handler" where
  "AssignMailboxOwner cu slug boxId body = orElse (scope cu slug RoleOwner) (always 404 ''assignment_failed'') (\<lambda>(ws, forbidden).
     if forbidden then returnE (Problem 403 ''assignment_failed'') else
     case body of None \<Rightarrow> returnE (Problem 400 ''assignment_failed'') | Some owner \<Rightarrow>
     orElse (AssignOwner ws boxId owner) (always 400 ''assignment_failed'') (\<lambda>_.
     bindE (MailboxByID boxId) (\<lambda>box. returnE (Reply 200 box))))"

definition box_in :: "string \<Rightarrow> string \<Rightarrow> mailbox op" where
  "box_in ws i = bindE (MailboxByID i) (\<lambda>box. bindE (guardE (mb_ws box \<noteq> ws) Inb_ErrNoMailbox) (\<lambda>_. returnE box))"

definition bad_smtp_password :: "string \<Rightarrow> bool" where
  "bad_smtp_password pass \<longleftrightarrow> rune_count pass < 12 \<or> 72 < length pass \<or> trim_space pass = [] \<or>
     contains_any pass [CHR 0x0D, CHR 0x0A, CHR 0x00]"

definition SetMailboxSMTPPassword :: "lib \<Rightarrow> user_row option \<Rightarrow> string \<Rightarrow> string \<Rightarrow> string option option \<Rightarrow> unit handler" where
  "SetMailboxSMTPPassword L cu slug boxId body = orElse (scope cu slug RoleAdmin) (always 404 ''smtp_password_failed'') (\<lambda>(ws, forbidden).
     if forbidden then returnE (Problem 403 ''smtp_password_failed'') else
     case body of None \<Rightarrow> returnE (Problem 400 ''smtp_password_failed'') | Some password \<Rightarrow>
     let pass = (case password of None \<Rightarrow> [] | Some p \<Rightarrow> p) in
     if bad_smtp_password pass then returnE (Problem 400 ''smtp_password_failed'') else
     orElse (box_in ws boxId) (always 404 ''smtp_password_failed'') (\<lambda>box.
     bindE randRead (\<lambda>salt.
     orElse (SetSMTPPassword ws (mb_id box) (caller cu) (l_bcrypt L salt pass)) (always 404 ''smtp_password_failed'') (\<lambda>_.
     returnE (Reply 204 ())))))"

definition DeleteMailboxSMTPPassword :: "user_row option \<Rightarrow> string \<Rightarrow> string \<Rightarrow> unit handler" where
  "DeleteMailboxSMTPPassword cu slug boxId = orElse (scope cu slug RoleAdmin) (always 404 ''smtp_password_failed'') (\<lambda>(ws, forbidden).
     if forbidden then returnE (Problem 403 ''smtp_password_failed'') else
     orElse (box_in ws boxId) (always 404 ''smtp_password_failed'') (\<lambda>box.
     bindE (DeleteSMTPPassword ws (mb_id box)) (\<lambda>_. returnE (Reply 204 ()))))"

section \<open>Private mail is private\<close>

text \<open>The message lies in a mailbox of the tenant that the user, a member of it, may read.\<close>

definition may_read :: "db \<Rightarrow> string \<Rightarrow> string \<Rightarrow> message_row \<Rightarrow> bool" where
  "may_read t u ws g \<longleftrightarrow> of_workspace t ws g \<and> can_access t u (g_box g)"

lemma MessageByID_Inr: "MessageByID ws i w = (Inr g, w') \<Longrightarrow> g \<in> set (messages (tabs w)) \<and> g_id g = i \<and> of_workspace (tabs w) ws g \<and> w' = spend w"
  by (auto simp: MessageByID_def step_iffs split: option.splits dest!: find_SomeD)

lemma CanAccess_Inr: "CanAccess u i w = (Inr b, w') \<Longrightarrow> b = can_access (tabs w) u i \<and> w' = spend w"
  by (auto simp: CanAccess_def step_iffs)

lemma readableMessage_Inr:
  assumes "readableMessage cu ws i w = (Inr g, w')"
  obtains u where "cu = Some u" "g \<in> set (messages (tabs w))" "g_id g = i" "may_read (tabs w) (u_id u) ws g" "tabs w' = tabs w"
proof -
  obtain w1 u w2 where "MessageByID ws i w = (Inr g, w1)" "cu = Some u" "CanAccess (u_id u) (g_box g) w1 = (Inr True, w2)" "w' = w2"
    using assms by (auto simp: readableMessage_def step_iffs split: option.splits if_splits)
  with MessageByID_Inr CanAccess_Inr that show thesis by (fastforce simp: may_read_def)
qed

lemma mailboxes_where_in: "m \<in> set (mailboxes_where P t) \<longleftrightarrow>
    (\<exists>b\<in>set (mailboxes t). \<exists>d\<in>set (domains t). d_id d = b_domain b \<and> P b d \<and> m = mailbox_of t b d)"
  by (auto simp: mailboxes_where_def)

lemma mailbox_where_Inr: "mailbox_where P w = (Inr m, w') \<Longrightarrow> w' = spend w \<and>
    (\<exists>b\<in>set (mailboxes (tabs w)). \<exists>d\<in>set (domains (tabs w)). d_id d = b_domain b \<and> P b d \<and> m = mailbox_of (tabs w) b d)"
  by (auto simp: mailbox_where_def step_iffs split: list.splits simp flip: mailboxes_where_in)

lemma own_mailbox_Inr:
  assumes "own_mailbox cu ws i w = (Inr m, w')"
  shows "tabs w' = tabs w \<and> mb_id m = i \<and> can_access (tabs w) (caller cu) i \<and>
    (\<exists>b\<in>set (mailboxes (tabs w)). b_id b = i \<and> (\<exists>d\<in>set (domains (tabs w)). d_id d = b_domain b \<and>
       (case b_personal b of Some w \<Rightarrow> w | None \<Rightarrow> d_ws d) = ws))"
proof -
  obtain w1 where m: "MailboxByID i w = (Inr m, w1)" and a: "CanAccess (caller cu) (mb_id m) w1 = (Inr True, w')" and ws: "mb_ws m = ws"
    using assms by (auto simp: own_mailbox_def step_iffs)
  obtain b d where b: "b \<in> set (mailboxes (tabs w))" "d \<in> set (domains (tabs w))" "d_id d = b_domain b" "b_id b = i"
    "m = mailbox_of (tabs w) b d" and w1: "w1 = spend w"
    using mailbox_where_Inr[OF m[unfolded MailboxByID_def]] by blast
  have "mb_id m = i" "(case b_personal b of Some w \<Rightarrow> w | None \<Rightarrow> d_ws d) = ws"
    using b(4,5) ws by (simp_all add: mailbox_of_def)
  with b CanAccess_Inr[OF a] w1 show ?thesis by auto
qed

lemma page_sub: "page limit skip gs = Inr out \<Longrightarrow> set out \<subseteq> set gs"
  by (auto simp: page_def split: if_splits dest!: in_set_takeD in_set_dropD)



text \<open>Only an owner or admin of the tenant gives a mailbox a sending password, only to a mailbox of the
  tenant and never a weak one; it is kept as a hash, in place of an earlier one, under the
  administrator's name.\<close>

theorem SMTPPassword_delegated:
  assumes "SetMailboxSMTPPassword L cu slug boxId body w = (Inr (Reply s ()), w')"
  shows "\<exists>u x pass salt. cu = Some u \<and> x \<in> set (workspaces (tabs w)) \<and> w_slug x = slug \<and> body = Some (Some pass) \<and>
    12 \<le> rune_count pass \<and> length pass \<le> 72 \<and> has_role (tabs w) (w_id x) (u_id u) RoleAdmin \<and>
    administers (tabs w) (w_id x) (u_id u) boxId \<and>
    filter (\<lambda>c. c_box c = boxId) (smtp_creds (tabs w')) = [\<lparr>c_box = boxId, c_hash = l_bcrypt L salt pass, c_issuer = u_id u\<rparr>] \<and>
    filter (\<lambda>c. c_box c \<noteq> boxId) (smtp_creds (tabs w')) = filter (\<lambda>c. c_box c \<noteq> boxId) (smtp_creds (tabs w))"
proof -
  obtain ws w1 password where sc: "scope cu slug RoleAdmin w = (Inr (ws, False), w1)" and body: "body = Some password"
    and k: "(let pass = (case password of None \<Rightarrow> [] | Some p \<Rightarrow> p) in
     if bad_smtp_password pass then returnE (Problem 400 ''smtp_password_failed'') else
     orElse (box_in ws boxId) (always 404 ''smtp_password_failed'') (\<lambda>box.
     bindE randRead (\<lambda>salt.
     orElse (SetSMTPPassword ws (mb_id box) (caller cu) (l_bcrypt L salt pass)) (always 404 ''smtp_password_failed'') (\<lambda>_.
     returnE (Reply 204 ()))))) w1 = (Inr (Reply s ()), w')"
    using assms by (auto simp: SetMailboxSMTPPassword_def orElse_Inr returnE_iff split: if_splits option.splits)
  from sc obtain u x where x: "cu = Some u" "x \<in> set (workspaces (tabs w))" "w_id x = ws" "w_slug x = slug"
    "has_role (tabs w) ws (u_id u) RoleAdmin" "tabs w1 = tabs w" by (rule scope_Inr) blast
  define pass where "pass = (case password of None \<Rightarrow> [] | Some p \<Rightarrow> p)"
  obtain box w2 salt w3 where ok: "\<not> bad_smtp_password pass" and box: "box_in ws boxId w1 = (Inr box, w2)"
    and salt: "randRead w2 = (Inr salt, w3)" and set: "SetSMTPPassword ws (mb_id box) (u_id u) (l_bcrypt L salt pass) w3 = (Inr (), w')"
    using k x(1) unfolding pass_def[symmetric] Let_def caller_def
    by (auto simp: orElse_Inr bindE_Inr_iff returnE_iff split: if_splits)
  have t3: "tabs w3 = tabs w" and mb: "mb_id box = boxId"
    using box salt x(6) mailbox_where_Inr[of "\<lambda>b d. b_id b = boxId" w1 box]
    by (auto simp: box_in_def MailboxByID_def step_iffs mailbox_of_def)
  from set have adm: "administers (tabs w) ws (u_id u) boxId"
    and creds: "smtp_creds (tabs w') = del_where (\<lambda>c. c_box c = boxId) (smtp_creds (tabs w)) @ [\<lparr>c_box = boxId, c_hash = l_bcrypt L salt pass, c_issuer = u_id u\<rparr>]"
    by (auto simp: SetSMTPPassword_def step_iffs t3 mb split: if_splits)
  have "rune_count ([] :: string) < 12" by (simp add: rune_count.simps)
  then have "password = Some pass" using ok by (cases password) (auto simp: pass_def bad_smtp_password_def)
  moreover have "12 \<le> rune_count pass" "length pass \<le> 72" using ok by (auto simp: bad_smtp_password_def)
  moreover have "filter (\<lambda>c. c_box c = boxId) (smtp_creds (tabs w')) = [\<lparr>c_box = boxId, c_hash = l_bcrypt L salt pass, c_issuer = u_id u\<rparr>]"
    "filter (\<lambda>c. c_box c \<noteq> boxId) (smtp_creds (tabs w')) = filter (\<lambda>c. c_box c \<noteq> boxId) (smtp_creds (tabs w))"
    by (simp_all add: creds del_where_def)
  ultimately show ?thesis using x adm body by (intro exI[of _ u] exI[of _ x] exI[of _ pass] exI[of _ salt]) simp
qed

section \<open>A mailbox with one message\<close>

definition mail_db :: db where
  "mail_db = (tabs team_world)\<lparr>
     mailboxes := [\<lparr>b_id = ''b1'', b_domain = ''dom'', b_local = ''bob'', b_name = None, b_personal = None, b_owner = Some ''bob''\<rparr>],
     folders := [\<lparr>f_box = ''b1'', f_name = ''INBOX'', f_validity = 1, f_subscribed = True\<rparr>],
     messages := [\<lparr>g_id = ''g1'', g_box = ''b1'', g_env_from = ''a@b.kz'', g_env_to = ''bob@acme.kz'', g_msgid = None,
       g_from = None, g_from_name = None, g_subject = ''hi'', g_sent = None, g_text = None, g_html = None, g_raw = ''hello'',
       g_size = 5, g_read = None, g_received = 0, g_uid = 1, g_folder = ''INBOX'', g_flags = [], g_smtp = True\<rparr>]\<rparr>"

definition mail_world :: world where
  "mail_world = team_world\<lparr>tabs := mail_db, uid_seq := 1, validity_seq := 1\<rparr>"

lemmas mail_exec = tenant_exec mail_db_def mail_world_def MailboxByID_def mailbox_where_def mailboxes_where_def mailbox_of_def
  CanAccess_def can_access_def reader_of_def of_workspace_def

lemma sample_mark: "\<exists>g w'. MarkMessageRead (Some boss) ''acme'' ''g1'' mail_world = (Inr (Reply 200 g), w')"
  by (simp add: MarkMessageRead_def readableMessage_def MessageByID_def MarkRead_def update_message_def mail_exec)


lemma sample_not_bad: "\<not> bad_smtp_password ''correct horse''"
proof -
  have "rune_count ''correct horse'' = 13" by (subst rune_count_ascii) (simp_all add: byte_def)
  then show ?thesis by (simp add: bad_smtp_password_def trim_space_def trim_by_def is_space_def contains_any_def)
qed

lemma sample_password: "\<exists>w'. SetMailboxSMTPPassword sample_lib (Some boss) ''acme'' ''b1'' (Some (Some ''correct horse'')) mail_world = (Inr (Reply 204 ()), w')"
  by (simp add: SetMailboxSMTPPassword_def sample_not_bad box_in_def SetSMTPPassword_def randRead_def administers_def
      caller_def mail_exec)

theorem SMTPPassword_delegated_witness: "administers (tabs mail_world) ''ws'' ''bob'' ''b1''"
proof -
  obtain w' where r: "SetMailboxSMTPPassword sample_lib (Some boss) ''acme'' ''b1'' (Some (Some ''correct horse'')) mail_world = (Inr (Reply 204 ()), w')"
    using sample_password by blast
  from SMTPPassword_delegated[OF r] show ?thesis by (auto simp: mail_exec)
qed

end
