(* ===== verification/Lmtp.thy ===== *)
theory Lmtp imports Inbox begin

text \<open>
  What LMTP delivery promises Postfix: an accepted message is stored once in the mailbox of every
  recipient, and a retry of a transaction whose answer was lost stores nothing again.
\<close>

lemma insert_folder_tabs:
  "insert_folder v box name now t = (Inr n, t') \<Longrightarrow> messages t' = messages t \<and> mailboxes t' = mailboxes t \<and>
     users t' = users t \<and> set (folders t) \<subseteq> set (folders t') \<and> has_folder t' box name"
  "insert_folder v box name now t = (Inl e, t') \<Longrightarrow> e = ErrDB"
  by (auto simp: insert_folder_def has_folder_def split: if_splits)

lemma add_folder_Inr:
  assumes "add_folder box name w = (Inr n, w')"
  shows "messages (tabs w') = messages (tabs w) \<and> uuids w' = uuids w \<and> uid_seq w' = uid_seq w \<and> db_now w' = db_now w"
  using assms by (auto simp: add_folder_def step_iffs dest: insert_folder_tabs(1))

lemma add_folder_Inl: "add_folder box name w = (Inl e, w') \<Longrightarrow> e = ErrDB \<and> tabs w' = tabs w \<and> uuids w' = uuids w \<and> uid_seq w' = uid_seq w"
  by (auto simp: add_folder_def step_iffs insert_folder_def split: if_splits)

definition same_delivery :: "message_row \<Rightarrow> message_row \<Rightarrow> bool" where
  "same_delivery g h \<longleftrightarrow> g_smtp g \<and> g_smtp h \<and> g_msgid g \<noteq> None \<and> g_msgid h = g_msgid g \<and> g_box h = g_box g"

lemma insert_message_Inr: "insert_message g now t = (Inr r, t') \<Longrightarrow> r = g \<and> t' = t\<lparr>messages := messages t @ [g]\<rparr> \<and>
    \<not> (\<exists>h\<in>set (messages t). same_delivery g h)"
  by (auto simp: insert_message_def clashes_def same_delivery_def split: if_splits)

lemma insert_message_dup:
  assumes "fst (insert_message g now t) = Inl ErrUnique"
  shows "(\<exists>h\<in>set (messages t). g_id h = g_id g) \<or> (\<exists>h\<in>set (messages t). g_uid h = g_uid g) \<or>
    (\<exists>h\<in>set (messages t). same_delivery g h)"
proof -
  have "clashes (\<lambda>_. True) g_id g (messages t) \<or> clashes (\<lambda>_. True) g_uid g (messages t) \<or>
      clashes (\<lambda>g. g_msgid g \<noteq> None \<and> g_smtp g) (\<lambda>g. (g_box g, g_msgid g)) g (messages t)"
    using assms by (simp add: insert_message_def split: if_splits)
  then show ?thesis unfolding clashes_def same_delivery_def by (metis prod.inject)
qed

lemma insert_message_again: "\<exists>h\<in>set (messages t). same_delivery g h \<Longrightarrow> fst (insert_message g now t) = Inr r \<Longrightarrow> False"
  by (auto simp: insert_message_def clashes_def same_delivery_def split: if_splits)

text \<open>Ids still to be drawn are new, and the sequence is ahead of every UID.\<close>

definition fresh_ids :: "world \<Rightarrow> bool" where
  "fresh_ids w \<longleftrightarrow> distinct (uuids w) \<and> set (uuids w) \<inter> g_id ` set (messages (tabs w)) = {} \<and>
     (\<forall>g\<in>set (messages (tabs w)). g_uid g \<le> uid_seq w)"

definition is_delivery :: "mime_lib \<Rightarrow> deliver_params \<Rightarrow> message_row \<Rightarrow> bool" where
  "is_delivery M p g \<longleftrightarrow> (\<exists>i uid now. g = delivered_row M p i uid now)"

lemma is_delivery_row: "is_delivery M p (delivered_row M p i uid now)"
  by (auto simp: is_delivery_def)

lemma Inb_Deliver_Inr:
  assumes "Inb_Deliver M p w = (Inr g, w')"
  shows "is_delivery M p g \<and> messages (tabs w') = messages (tabs w) @ [g] \<and> uuids w = g_id g # uuids w' \<and>
    uid_seq w' = Suc (uid_seq w) \<and> g_uid g = uid_seq w' \<and> \<not> (\<exists>h\<in>set (messages (tabs w)). same_delivery g h)"
proof -
  obtain n w1 i us t w2 where f: "add_folder (dp_box p) (deliveryFolder M (dp_raw p)) w = (Inr n, w1)"
    and u: "uuids w1 = i # us" and ins: "insert_message (delivered_row M p i (Suc (uid_seq w1)) (db_now w1)) (db_now w1) (tabs w1) = (Inr g, t)"
    and w': "messages (tabs w') = messages t" "uuids w' = us" "uid_seq w' = Suc (uid_seq w1)"
    using assms by (auto simp: Inb_Deliver_def step_iffs)
  from insert_message_Inr[OF ins] have g: "g = delivered_row M p i (Suc (uid_seq w1)) (db_now w1)" "messages t = messages (tabs w1) @ [g]"
    "\<not> (\<exists>h\<in>set (messages (tabs w1)). same_delivery g h)" by auto
  then show ?thesis
    using add_folder_Inr[OF f] u w' by (auto simp: is_delivery_def delivered_row_def Let_def)
qed

lemma Inb_Deliver_Inl:
  assumes "Inb_Deliver M p w = (Inl e, w')"
  shows "messages (tabs w') = messages (tabs w) \<and> uid_seq w \<le> uid_seq w' \<and> (\<exists>us. uuids w = us @ uuids w') \<and>
    (e = Inb_ErrDuplicate \<longrightarrow> fresh_ids w \<longrightarrow> (\<exists>h\<in>set (messages (tabs w)). \<exists>g. is_delivery M p g \<and> same_delivery g h))"
proof (cases "add_folder (dp_box p) (deliveryFolder M (dp_raw p)) w")
  case (Pair r w1)
  show ?thesis
  proof (cases r)
    case (Inl e1)
    then show ?thesis
      using assms Pair add_folder_Inl[of "dp_box p" "deliveryFolder M (dp_raw p)" w e1 w1] by (auto simp: Inb_Deliver_def bindE_def)
  next
    case (Inr n)
    note F = add_folder_Inr[OF Pair[unfolded Inr]]
    show ?thesis
    proof (cases "seqMax \<le> uid_seq w1 \<or> uuids w1 = []")
      case True
      then show ?thesis using assms Pair Inr F by (auto simp: Inb_Deliver_def bindE_def nextUID_def withUUID_def split: if_splits)
    next
      case False
      then obtain i us where u: "uuids w1 = i # us" by (cases "uuids w1") auto
      let ?g = "delivered_row M p i (Suc (uid_seq w1)) (db_now w1)"
      let ?w = "w1\<lparr>uid_seq := Suc (uid_seq w1), uuids := us\<rparr>"
      have run: "handleE (sql (\<lambda>now. insert_message (delivered_row M p i (Suc (uid_seq w1)) now) now))
          (\<lambda>e. throwE (if e = ErrUnique then Inb_ErrDuplicate else e)) returnE ?w = (Inl e, w')"
        using assms Pair Inr u False by (simp add: Inb_Deliver_def bindE_def nextUID_def withUUID_def)
      then obtain e1 where e1: "sql (\<lambda>now. insert_message (delivered_row M p i (Suc (uid_seq w1)) now) now) ?w = (Inl e1, w')"
        and e: "e = (if e1 = ErrUnique then Inb_ErrDuplicate else e1)"
        by (auto simp: step_iffs)
      have w': "w' = spend ?w" using e1 by (simp add: sql_Inl_iff)
      have "\<exists>h\<in>set (messages (tabs w)). \<exists>g. is_delivery M p g \<and> same_delivery g h" if "e = Inb_ErrDuplicate" "fresh_ids w"
      proof -
        have "e1 \<noteq> Inb_ErrDuplicate" using e1 by (auto simp: sql_Inl_iff insert_message_def split: if_splits)
        then have "e1 = ErrUnique" using e that(1) by (auto split: if_splits)
        then have "fst (insert_message ?g (db_now w1) (tabs w1)) = Inl ErrUnique"
          using e1 by (auto simp: sql_Inl_iff split: if_splits)
        from insert_message_dup[OF this] show ?thesis
        proof (elim disjE)
          assume "\<exists>h\<in>set (messages (tabs w1)). g_id h = g_id ?g"
          then obtain h where "h \<in> set (messages (tabs w))" "g_id h = i" using F by (auto simp: delivered_row_def Let_def)
          moreover have "i \<in> set (uuids w)" using F u by (metis list.set_intros(1))
          ultimately show ?thesis using that(2) unfolding fresh_ids_def by (metis disjoint_iff image_eqI)
        next
          assume "\<exists>h\<in>set (messages (tabs w1)). g_uid h = g_uid ?g"
          then obtain h where "h \<in> set (messages (tabs w))" "g_uid h = Suc (uid_seq w)" using F by (auto simp: delivered_row_def Let_def)
          then show ?thesis using that(2) unfolding fresh_ids_def by (metis not_less_eq_eq order_refl)
        next
          assume "\<exists>h\<in>set (messages (tabs w1)). same_delivery ?g h"
          then show ?thesis using F is_delivery_row by metis
        qed
      qed
      moreover have "uuids w = [i] @ uuids w'" "messages (tabs w') = messages (tabs w)" "uid_seq w \<le> uid_seq w'"
        using F u w' by simp_all
      ultimately show ?thesis by blast
    qed
  qed
qed

lemma Inb_Deliver_mono:
  assumes "Inb_Deliver M p w = (r, w')"
  shows "(\<exists>gs. messages (tabs w') = messages (tabs w) @ gs) \<and> (fresh_ids w \<longrightarrow> fresh_ids w')"
proof (cases r)
  case (Inl e)
  from Inb_Deliver_Inl[OF assms[unfolded Inl]] obtain us where
    "messages (tabs w') = messages (tabs w)" "uid_seq w \<le> uid_seq w'" "uuids w = us @ uuids w'" by blast
  then show ?thesis by (auto simp: fresh_ids_def intro: le_trans)
next
  case (Inr g)
  note D = Inb_Deliver_Inr[OF assms[unfolded Inr]]
  then show ?thesis by (auto simp: fresh_ids_def image_iff)
qed

definition stored :: "mime_lib \<Rightarrow> string \<Rightarrow> db \<Rightarrow> mailbox \<Rightarrow> bool" where
  "stored M raw t m \<longleftrightarrow> (\<exists>h\<in>set (messages t). g_box h = mb_id m \<and> g_smtp h \<and>
     g_msgid h = Some (pa_msgid (parse_mail M raw)))"

lemma stored_mono: "stored M raw t m \<Longrightarrow> messages t' = messages t @ gs \<Longrightarrow> stored M raw t' m"
  by (auto simp: stored_def)

lemma is_deliveryD:
  "is_delivery M p g \<Longrightarrow> g_box g = dp_box p \<and> g_smtp g \<and> g_msgid g = nullif (pa_msgid (parse_mail M (dp_raw p)))"
  by (auto simp: is_delivery_def delivered_row_def Let_def)

lemma Inb_Deliver_stored:
  assumes "Inb_Deliver M \<lparr>dp_box = mb_id m, dp_from = a, dp_to = b, dp_raw = raw\<rparr> w = (r, w')"
    and "r = Inl Inb_ErrDuplicate \<or> (\<exists>g. r = Inr g)" and "fresh_ids w" and "pa_msgid (parse_mail M raw) \<noteq> []"
  shows "stored M raw (tabs w') m"
  using assms(2)
proof (elim disjE exE)
  assume "r = Inl Inb_ErrDuplicate"
  with Inb_Deliver_Inl[OF assms(1)[unfolded this]] assms(3) obtain h g where
    "h \<in> set (messages (tabs w'))" "is_delivery M \<lparr>dp_box = mb_id m, dp_from = a, dp_to = b, dp_raw = raw\<rparr> g" "same_delivery g h"
    by metis
  with is_deliveryD[OF this(2)] assms(4) show ?thesis by (auto simp: stored_def same_delivery_def nullif_def)
next
  fix g
  assume "r = Inr g"
  with Inb_Deliver_Inr[OF assms(1)[unfolded this]] is_deliveryD[of M _ g] assms(4) show ?thesis
    by (auto simp: stored_def nullif_def)
qed

lemma Inb_Deliver_again:
  assumes "stored M raw (tabs w) m" and "pa_msgid (parse_mail M raw) \<noteq> []"
    and "Inb_Deliver M \<lparr>dp_box = mb_id m, dp_from = a, dp_to = b, dp_raw = raw\<rparr> w = (r, w')"
  shows "\<exists>e. r = Inl e \<and> messages (tabs w') = messages (tabs w)"
proof (cases r)
  case (Inl e)
  then show ?thesis using Inb_Deliver_Inl[OF assms(3)[unfolded Inl]] by simp
next
  case (Inr g)
  note D = Inb_Deliver_Inr[OF assms(3)[unfolded Inr]]
  from assms(1) obtain h where "h \<in> set (messages (tabs w))" "g_box h = mb_id m" "g_smtp h" "g_msgid h = Some (pa_msgid (parse_mail M raw))"
    by (auto simp: stored_def)
  with D is_deliveryD[of M _ g] assms(2) show ?thesis by (auto simp: same_delivery_def nullif_def)
qed

lemma deliver_all_stored:
  assumes "deliver_all M a raw ms w = (Inr Accepted, w')" and "fresh_ids w" and "pa_msgid (parse_mail M raw) \<noteq> []"
  shows "(\<exists>gs. messages (tabs w') = messages (tabs w) @ gs) \<and> (\<forall>m\<in>set ms. stored M raw (tabs w') m)"
  using assms
proof (induction ms arbitrary: w)
  case Nil
  then show ?case by (simp add: returnE_def)
next
  case (Cons m ms)
  obtain r w1 where d: "Inb_Deliver M \<lparr>dp_box = mb_id m, dp_from = a, dp_to = mb_address m, dp_raw = raw\<rparr> w = (r, w1)"
    by (cases "Inb_Deliver M \<lparr>dp_box = mb_id m, dp_from = a, dp_to = mb_address m, dp_raw = raw\<rparr> w") auto
  with Cons.prems(1) have r: "r = Inl Inb_ErrDuplicate \<or> (\<exists>g. r = Inr g)" and rest: "deliver_all M a raw ms w1 = (Inr Accepted, w')"
    by (auto simp: handleE_def returnE_def split: sum.splits if_splits)
  note m = Inb_Deliver_mono[OF d]
  from m Cons.prems(2) have "fresh_ids w1" by blast
  note IH = Cons.IH[OF rest this Cons.prems(3)]
  from Inb_Deliver_stored[OF d r Cons.prems(2,3)] IH have "stored M raw (tabs w') m" by (metis stored_mono)
  moreover from m IH have "\<exists>gs. messages (tabs w') = messages (tabs w) @ gs" by (metis append.assoc)
  ultimately show ?case using IH by simp
qed

lemma deliver_all_again:
  assumes "\<forall>m\<in>set ms. stored M raw (tabs w) m" and "pa_msgid (parse_mail M raw) \<noteq> []"
    and "deliver_all M a raw ms w = (r, w')"
  shows "messages (tabs w') = messages (tabs w)"
  using assms
proof (induction ms arbitrary: w)
  case Nil
  then show ?case by (simp add: returnE_def)
next
  case (Cons m ms)
  obtain r1 w1 where d: "Inb_Deliver M \<lparr>dp_box = mb_id m, dp_from = a, dp_to = mb_address m, dp_raw = raw\<rparr> w = (r1, w1)"
    by (cases "Inb_Deliver M \<lparr>dp_box = mb_id m, dp_from = a, dp_to = mb_address m, dp_raw = raw\<rparr> w") auto
  have "stored M raw (tabs w) m" using Cons.prems(1) by simp
  from Inb_Deliver_again[OF this Cons.prems(2) d] obtain e where e: "r1 = Inl e" and same: "messages (tabs w1) = messages (tabs w)"
    by blast
  have kept: "\<forall>m\<in>set ms. stored M raw (tabs w1) m" using Cons.prems(1) same by (simp add: stored_def)
  show ?case
  proof (cases "e = Inb_ErrDuplicate")
    case True
    then show ?thesis using Cons.IH[OF kept Cons.prems(2)] Cons.prems(3) d e same by (simp add: handleE_def)
  next
    case False
    then show ?thesis using Cons.prems(3) d e same by (simp add: handleE_def returnE_def)
  qed
qed


definition sample_session :: lmtp_session where
  "sample_session = \<lparr>ls_from = ''a@b.kz'', ls_rcpts = [\<lparr>mb_id = ''b1'', mb_domain = ''dom'', mb_ws = ''ws'', mb_address = ''bob@acme.kz'',
     mb_name = None, mb_owner = Some ''bob'', mb_smtp = False\<rparr>]\<rparr>"

lemma sample_parse: "deliveryFolder sample_mime raw = ''INBOX''" "pa_msgid (parse_mail sample_mime ''hello'') = ''a@b''"
  "length (take (MaxMessageBytes + 1) ''hello'') \<le> MaxMessageBytes" "take (MaxMessageBytes + 1) ''hello'' = ''hello''"
  by (simp_all add: deliveryFolder_def sample_mime_def parse_mail_def MaxMessageBytes_def parsed_headers_def take_body_def
      readLimited_def maxBodyBytes_def Let_def trim_chars_def trim_by_def)

lemma inbox_length: "rune_count ''INBOX'' = 5"
  by (subst rune_count_ascii) (simp_all add: byte_def)

lemma sample_lmtp: "\<exists>w'. lmtp_Data sample_mime (Some ''hello'') sample_session mail_world = (Inr Accepted, w')"
proof -
  let ?p = "\<lparr>dp_box = ''b1'', dp_from = ''a@b.kz'', dp_to = ''bob@acme.kz'', dp_raw = ''hello''\<rparr>"
  have "fst (Inb_Deliver sample_mime ?p mail_world) = Inr (delivered_row sample_mime ?p ''u1'' 2 (db_now mail_world))"
    by (simp add: Inb_Deliver_def add_folder_def insert_folder_def nextValidity_def nextUID_def seqMax_def sample_parse(1,2)
        insert_message_def has_folder_def inbox_length delivered_row_def nullif_def mail_exec)
  then obtain w' where "Inb_Deliver sample_mime ?p mail_world = (Inr (delivered_row sample_mime ?p ''u1'' 2 (db_now mail_world)), w')"
    by (metis prod.collapse)
  then show ?thesis
    unfolding lmtp_Data_def option.case Let_def sample_parse(4) using sample_parse(3)
    by (simp add: sample_session_def sample_parse(4) handleE_def returnE_def)
qed


end
