(* ===== verification/RateLimit.thy ===== *)
theory RateLimit imports Schema begin

text \<open>
  internal/ratelimit/ratelimit.go and internal/httpapi/limits.go: the fixed-window counter and
  the rules. The Redis server is a parameter \<open>R\<close> of the definitions: what one MULTI of INCR
  and EXPIRE answers, and what TTL answers. The locale \<open>redis\<close> states what Redis documents of
  them; \<open>val s t k\<close> is the counter a client would find under \<open>k\<close> at time \<open>t\<close>, 0 when the
  key is missing or expired.
\<close>

section \<open>The limiter\<close>

record 's redis_client =
  rc_incr :: "string \<Rightarrow> time \<Rightarrow> time \<Rightarrow> 's \<Rightarrow> nat option \<times> 's"
  rc_ttl :: "string \<Rightarrow> time \<Rightarrow> 's \<Rightarrow> time option"

record rule =
  rl_name :: string
  rl_limit :: int
  rl_window :: time

record result =
  rr_allowed :: bool
  rr_retry :: time
  rr_remaining :: int

text \<open>The counter's key: name, key and the number of the window the call falls in.\<close>

definition redis_key :: "rule \<Rightarrow> string \<Rightarrow> time \<Rightarrow> string" where
  "redis_key r key now = ''ratelimit:'' @ rl_name r @ '':'' @ key @ '':'' @
     dec_int (quot now (rl_window r))"

definition allow_with :: "'s redis_client \<Rightarrow> time \<Rightarrow> rule \<Rightarrow> string \<Rightarrow> bool \<Rightarrow> 's \<Rightarrow> result \<times> 's" where
  "allow_with R now r key failOpen s =
     (let k = redis_key r key now in
      case rc_incr R k (rl_window r) now s of
        (None, s1) \<Rightarrow> (\<lparr>rr_allowed = failOpen, rr_retry = 0, rr_remaining = rl_limit r\<rparr>, s1)
      | (Some count, s1) \<Rightarrow>
          if rl_limit r < int count then
            (\<lparr>rr_allowed = False,
              rr_retry = (case rc_ttl R k now s1 of None \<Rightarrow> rl_window r
                             | Some d \<Rightarrow> if d < 0 then rl_window r else d),
              rr_remaining = 0\<rparr>, s1)
          else (\<lparr>rr_allowed = True, rr_retry = 0, rr_remaining = rl_limit r - int count\<rparr>, s1))"

definition allow :: "'s redis_client \<Rightarrow> time \<Rightarrow> rule \<Rightarrow> string \<Rightarrow> 's \<Rightarrow> result \<times> 's" where
  "allow R now r key = allow_with R now r key True"

definition allow_strict :: "'s redis_client \<Rightarrow> time \<Rightarrow> rule \<Rightarrow> string \<Rightarrow> 's \<Rightarrow> result \<times> 's" where
  "allow_strict R now r key = allow_with R now r key False"

text \<open>The loop of AllowAll, \<open>worst\<close> the variable it threads; the calls are made at \<open>now\<close>.\<close>

fun allow_loop :: "'s redis_client \<Rightarrow> time \<Rightarrow> string \<Rightarrow> rule list \<Rightarrow> result \<Rightarrow> 's \<Rightarrow> result \<times> 's" where
  "allow_loop R now key [] worst s = (worst, s)"
| "allow_loop R now key (r # rs) worst s =
     (case allow R now r key s of (got, s1) \<Rightarrow>
        allow_loop R now key rs
          (if \<not> rr_allowed got \<and> (rr_allowed worst \<or> rr_retry worst < rr_retry got) then got
           else worst) s1)"

definition free_pass :: result where
  "free_pass = \<lparr>rr_allowed = True, rr_retry = 0, rr_remaining = 0\<rparr>"

definition allow_all :: "'s redis_client \<Rightarrow> time \<Rightarrow> string \<Rightarrow> rule list \<Rightarrow> 's \<Rightarrow> result \<times> 's" where
  "allow_all R now key rs = allow_loop R now key rs free_pass"

section \<open>The rules\<close>

definition loginPerEmail :: rule where
  "loginPerEmail = \<lparr>rl_name = ''login:email'', rl_limit = 10, rl_window = 15 * minute\<rparr>"

definition loginPerIP :: rule where
  "loginPerIP = \<lparr>rl_name = ''login:ip'', rl_limit = 50, rl_window = 15 * minute\<rparr>"

definition resetPerEmail :: rule where
  "resetPerEmail = \<lparr>rl_name = ''reset:email'', rl_limit = 3, rl_window = hour\<rparr>"

definition verifyPerEmail :: rule where
  "verifyPerEmail = \<lparr>rl_name = ''verify:email'', rl_limit = 3, rl_window = hour\<rparr>"

definition verifyAttemptPerEmail :: rule where
  "verifyAttemptPerEmail = \<lparr>rl_name = ''verify-attempt:email'', rl_limit = 30, rl_window = hour\<rparr>"

definition registerPerIP :: rule where
  "registerPerIP = \<lparr>rl_name = ''register:ip'', rl_limit = 10, rl_window = hour\<rparr>"

text \<open>strconv.Atoi on a 64-bit platform: an optional sign, then digits, within int64.\<close>

definition atoi :: "string \<Rightarrow> int option" where
  "atoi s =
     (let (neg, ds) = (case s of c # cs \<Rightarrow>
            if c = CHR ''-'' then (True, cs) else if c = CHR ''+'' then (False, cs) else (False, s)
          | [] \<Rightarrow> (False, []));
          n = (if neg then - int (undec ds) else int (undec ds)) in
      if ds \<noteq> [] \<and> (\<forall>c\<in>set ds. is_digit c) \<and> - (2 ^ 63) \<le> n \<and> n < 2 ^ 63 then Some n else None)"

text \<open>\<open>getenv\<close> is os.Getenv: the value of an unset variable is empty.\<close>

definition envInt :: "(string \<Rightarrow> string) \<Rightarrow> string \<Rightarrow> int \<Rightarrow> int" where
  "envInt getenv name fallback =
     (let raw = getenv name in
      if raw \<noteq> [] then
        (case atoi raw of Some n \<Rightarrow> if 0 < n then n else fallback | None \<Rightarrow> fallback)
      else fallback)"

definition sendQuota :: "(string \<Rightarrow> string) \<Rightarrow> rule list" where
  "sendQuota getenv =
     [\<lparr>rl_name = ''send:minute'', rl_limit = envInt getenv ''SEND_LIMIT_PER_MINUTE'' 60,
       rl_window = minute\<rparr>,
      \<lparr>rl_name = ''send:day'', rl_limit = envInt getenv ''SEND_LIMIT_PER_DAY'' 5000,
       rl_window = 24 * hour\<rparr>]"

definition uploadQuota :: "(string \<Rightarrow> string) \<Rightarrow> rule list" where
  "uploadQuota getenv =
     [\<lparr>rl_name = ''upload:minute'',
       rl_limit = envInt getenv ''ATTACHMENT_UPLOAD_LIMIT_PER_MINUTE'' 30, rl_window = minute\<rparr>]"

text \<open>The rules written at their call, in initial_password.go and the two mail servers.\<close>

definition initialPasswordRule :: rule where
  "initialPasswordRule = \<lparr>rl_name = ''initial-password'', rl_limit = 10, rl_window = 15 * minute\<rparr>"

definition imapLogin :: rule where
  "imapLogin = \<lparr>rl_name = ''imap-login'', rl_limit = 30, rl_window = minute\<rparr>"

definition submissionLoginIP :: rule where
  "submissionLoginIP = \<lparr>rl_name = ''submission:login:ip'', rl_limit = 30, rl_window = minute\<rparr>"

definition submissionLoginAddress :: rule where
  "submissionLoginAddress =
     \<lparr>rl_name = ''submission:login:address'', rl_limit = 30, rl_window = 15 * minute\<rparr>"

text \<open>\<open>Server.allow\<close>: a nil limiter allows everything.\<close>

definition server_allow :: "'s redis_client option \<Rightarrow> time \<Rightarrow> string \<Rightarrow> rule list \<Rightarrow> 's \<Rightarrow> result \<times> 's" where
  "server_allow limiter now key rs s =
     (case limiter of None \<Rightarrow> (free_pass, s) | Some R \<Rightarrow> allow_all R now key rs s)"

text \<open>
  The float comparison is exact for the durations of the rules: below 2^53 nanoseconds,
  \<open>d.Seconds()\<close> exceeds its integer part exactly when a nanosecond is left over.
\<close>

definition retryAfterSeconds :: "time \<Rightarrow> int" where
  "retryAfterSeconds d =
     (let secs = quot d second;
          secs = (if secs * second < d then secs + 1 else secs) in
      if secs < 1 then 1 else secs)"

definition normaliseKey :: "string \<Rightarrow> string" where
  "normaliseKey s = to_lower (trim_space s)"


section \<open>What Redis promises\<close>

locale redis =
  fixes R :: "'s redis_client"
    and val :: "'s \<Rightarrow> time \<Rightarrow> string \<Rightarrow> nat"
  assumes incr_reply: "rc_incr R k w now s = (Some n, s') \<Longrightarrow> n = val s now k + 1"
    and incr_store: "rc_incr R k w now s = (Some n, s') \<Longrightarrow> now \<le> t \<Longrightarrow>
      val s' t k = (if t < now + w then n else 0)"
    and incr_other: "rc_incr R k w now s = (x, s') \<Longrightarrow> now \<le> t \<Longrightarrow> j \<noteq> k \<Longrightarrow> val s' t j = val s t j"
    and ttl_range: "rc_incr R k w now s = (Some n, s') \<Longrightarrow> rc_ttl R k now s' = Some d \<Longrightarrow> d \<le> w"

text \<open>A sequence of calls of Allow, by any number of processes: when, which rule, which key.\<close>

fun serve :: "'s redis_client \<Rightarrow> (time \<times> rule \<times> string) list \<Rightarrow> 's \<Rightarrow> result list" where
  "serve R [] s = []"
| "serve R ((now, r, key) # cs) s =
     (case allow R now r key s of (x, s1) \<Rightarrow> x # serve R cs s1)"

fun served :: "'s redis_client \<Rightarrow> (time \<times> rule \<times> string) list \<Rightarrow> 's \<Rightarrow> 's" where
  "served R [] s = s"
| "served R ((now, r, key) # cs) s = served R cs (snd (allow R now r key s))"

definition hits :: "rule \<Rightarrow> string \<Rightarrow> int \<Rightarrow> time \<times> rule \<times> string \<Rightarrow> bool" where
  "hits r key n c = (case c of (now, r', key') \<Rightarrow>
     r' = r \<and> key' = key \<and> quot now (rl_window r) = n)"

text \<open>How many of the calls satisfying \<open>P\<close> were let through.\<close>

definition passed :: "(time \<times> rule \<times> string \<Rightarrow> bool) \<Rightarrow> (time \<times> rule \<times> string) list \<Rightarrow> result list \<Rightarrow> nat" where
  "passed P cs xs = length (filter (\<lambda>(c, x). P c \<and> rr_allowed x) (zip cs xs))"

text \<open>No rule's name is the beginning of another's, the separating colon included.\<close>

definition separated :: "rule list \<Rightarrow> bool" where
  "separated rs \<longleftrightarrow> (\<forall>r\<in>set rs. \<forall>q\<in>set rs. r \<noteq> q \<longrightarrow>
     \<not> has_prefix (rl_name r @ '':'') (rl_name q @ '':''))"

definition program_rules :: "(string \<Rightarrow> string) \<Rightarrow> rule list" where
  "program_rules getenv =
     [loginPerEmail, loginPerIP, resetPerEmail, verifyPerEmail, verifyAttemptPerEmail,
      registerPerIP, initialPasswordRule, imapLogin, submissionLoginIP, submissionLoginAddress]
     @ sendQuota getenv @ uploadQuota getenv"

lemmas rule_defs = loginPerEmail_def loginPerIP_def resetPerEmail_def verifyPerEmail_def
  verifyAttemptPerEmail_def registerPerIP_def initialPasswordRule_def imapLogin_def
  submissionLoginIP_def submissionLoginAddress_def sendQuota_def uploadQuota_def

section \<open>Keys, windows and counts\<close>

lemma passed_Nil [simp]: "passed P [] xs = 0" by (simp add: passed_def)
lemma passed_Cons [simp]: "passed P (c # cs) (x # xs) = (if P c \<and> rr_allowed x then 1 else 0) + passed P cs xs"
  by (simp add: passed_def)

lemma split_last_unique:
  "a @ c # x = b @ c # y \<Longrightarrow> c \<notin> set x \<Longrightarrow> c \<notin> set y \<Longrightarrow> a = b \<and> x = y"
proof (induction a arbitrary: b)
  case Nil then show ?case by (cases b) (auto)
next
  case (Cons z a) then show ?case by (cases b) (auto)
qed

lemma prefix_comparable:
  "a @ x = b @ y \<Longrightarrow> has_prefix a b \<or> has_prefix b a"
  unfolding has_prefix_def
  by (metis append_eq_append_conv_if append_take_drop_id nat_le_linear order_refl take_append take_all append.right_neutral diff_is_0_eq take_0)

lemma redis_key_eq:
  assumes "separated rs" "r \<in> set rs" "q \<in> set rs"
    "redis_key r key now = redis_key q key' now'"
  shows "r = q \<and> key = key' \<and> quot now (rl_window r) = quot now' (rl_window q)"
proof -
  have e: "(rl_name r @ '':'' @ key) @ CHR '':'' # dec_int (quot now (rl_window r))
      = (rl_name q @ '':'' @ key') @ CHR '':'' # dec_int (quot now' (rl_window q))"
    using assms(4) by (simp add: redis_key_def)
  from split_last_unique[OF e] have
    k: "rl_name r @ '':'' @ key = rl_name q @ '':'' @ key'" and
    w: "quot now (rl_window r) = quot now' (rl_window q)"
    by (auto simp: dec_int_no_colon dec_int_inj)
  from k have "(rl_name r @ '':'') @ key = (rl_name q @ '':'') @ key'" by simp
  then have "r = q"
    using prefix_comparable[of "rl_name r @ '':''" key "rl_name q @ '':''" key'] assms(1-3)
    unfolding separated_def by metis
  with k w show ?thesis by simp
qed

fun names_apart :: "string list \<Rightarrow> bool" where
  "names_apart [] = True"
| "names_apart (a # ns) = (list_all (\<lambda>b. \<not> has_prefix (a @ '':'') (b @ '':'') \<and>
     \<not> has_prefix (b @ '':'') (a @ '':'')) ns \<and> names_apart ns)"

lemma names_apartD: "names_apart (map rl_name rs) \<Longrightarrow> separated rs"
  by (induction rs) (auto simp: separated_def list_all_iff)

lemma program_rules_separated: "separated (program_rules getenv)"
  by (rule names_apartD) (simp add: program_rules_def rule_defs has_prefix_def)

context redis begin

lemma serve_exact:
  assumes "\<And>k w now s. fst (rc_incr R k w now s) \<noteq> None"
    and sep: "separated rs" "r \<in> set rs" and W: "0 < rl_window r"
  shows "\<lbrakk> sorted (map fst cs); \<forall>c\<in>set cs. t0 \<le> fst c \<and> fst (snd c) \<in> set rs; 0 \<le> t0;
      \<And>t. t0 \<le> t \<Longrightarrow> quot t (rl_window r) \<le> n \<Longrightarrow> val s t K = c; K = redis_key r key (n * rl_window r); 0 \<le> n \<rbrakk> \<Longrightarrow>
    passed (hits r key n) cs (serve R cs s) =
      min (nat (rl_limit r)) (c + length (filter (hits r key n) cs)) - min (nat (rl_limit r)) c"
proof (induction cs arbitrary: s c t0)
  case Nil
  then show ?case by simp
next
  case (Cons call cs)
  obtain now q key' where call: "call = (now, q, key')" by (cases call) auto
  let ?k = "redis_key q key' now"
  obtain m s1 where inc: "rc_incr R ?k (rl_window q) now s = (Some m, s1)"
    using assms(1)[of ?k "rl_window q" now s] by (cases "rc_incr R ?k (rl_window q) now s") auto
  have now: "t0 \<le> now" "0 \<le> now" "q \<in> set rs" and later: "\<forall>c\<in>set cs. now \<le> fst c \<and> fst (snd c) \<in> set rs"
    using Cons.prems call by auto
  have x: "serve R (call # cs) s = fst (allow R now q key' s) # serve R cs s1"
    by (simp add: call allow_def allow_with_def inc split: prod.splits)
  show ?case
  proof (cases "hits r key n call")
    case True
    then have eq: "q = r" "key' = key" "now div rl_window r = n"
      using now call by (auto simp: hits_def quot_nonneg)
    have k: "?k = K"
      using Cons.prems W eq now by (simp add: redis_key_def quot_nonneg)
    have m: "m = c + 1"
      using incr_reply[OF inc] Cons.prems(4)[of now] now k eq by (simp add: quot_nonneg)
    have "val s1 t K = c + 1" if "now \<le> t" "quot t (rl_window r) \<le> n" for t
    proof -
      have "t div rl_window r = n"
        using that eq now zdiv_mono1[of now t "rl_window r"] W by (simp add: quot_nonneg)
      then have "t < now + rl_window r"
        using eq(3) W now that by (smt (verit) div_less_iff_less_mult mult.commute zdiv_mono1 div_add_self2)
      then show ?thesis
        using incr_store[OF inc that(1)] m k eq by simp
    qed
    then have IH: "passed (hits r key n) cs (serve R cs s1) =
      min (nat (rl_limit r)) ((c + 1) + length (filter (hits r key n) cs)) - min (nat (rl_limit r)) (c + 1)"
      using Cons.IH[of now s1 "c + 1"] Cons.prems later now by simp
    have "rr_allowed (fst (allow R now q key' s)) = (int (c + 1) \<le> rl_limit r)"
      using inc m eq by (auto simp: allow_def allow_with_def)
    with IH True show ?thesis
      unfolding x by (auto simp: min_def)
  next
    case False
    have "?k \<noteq> K"
    proof
      assume "?k = K"
      with redis_key_eq[OF sep(1) now(3) sep(2)] Cons.prems have "q = r \<and> key' = key \<and> quot now (rl_window q) = quot (n * rl_window r) (rl_window r)" by blast
      with False call W Cons.prems show False by (auto simp: hits_def quot_nonneg)
    qed
    then have "val s1 t K = c" if "now \<le> t" "quot t (rl_window r) \<le> n" for t
      using incr_other[OF inc that(1), of K] Cons.prems(4)[of t] that now by auto
    then have "passed (hits r key n) cs (serve R cs s1) =
      min (nat (rl_limit r)) (c + length (filter (hits r key n) cs)) - min (nat (rl_limit r)) c"
      using Cons.IH[of now s1 c] Cons.prems later now by simp
    with False show ?thesis unfolding x by simp
  qed
qed

end

text \<open>The documented commands on a map from keys to a counter and its expiry.\<close>

definition redis_map :: "(string \<Rightarrow> (nat \<times> time) option) redis_client" where
  "redis_map = \<lparr>
     rc_incr = (\<lambda>k w now s.
       let n = (case s k of Some (n, e) \<Rightarrow> if now < e then n + 1 else 1 | None \<Rightarrow> 1)
       in (Some n, s(k \<mapsto> (n, now + w)))),
     rc_ttl = (\<lambda>k now s. map_option (\<lambda>(n, e). e - now) (s k))\<rparr>"

definition live :: "(string \<Rightarrow> (nat \<times> time) option) \<Rightarrow> time \<Rightarrow> string \<Rightarrow> nat" where
  "live s t k = (case s k of Some (n, e) \<Rightarrow> if t < e then n else 0 | None \<Rightarrow> 0)"

interpretation rmap: redis redis_map live
  by unfold_locales (auto simp: redis_map_def live_def Let_def split: option.splits if_splits)

lemma allow_loop_spec:
  "allow_loop R now key rs worst s = (x, s') \<Longrightarrow>
     (rr_allowed x \<longleftrightarrow> rr_allowed worst \<and> list_all (\<lambda>c. rr_allowed c) (serve R (map (\<lambda>r. (now, r, key)) rs) s)) \<and>
     (\<not> rr_allowed worst \<longrightarrow> rr_retry worst \<le> rr_retry x) \<and>
     (\<forall>c\<in>set (serve R (map (\<lambda>r. (now, r, key)) rs) s). \<not> rr_allowed c \<longrightarrow> rr_retry c \<le> rr_retry x) \<and>
     (x = worst \<or> x \<in> set (serve R (map (\<lambda>r. (now, r, key)) rs) s))"
  by (induction rs arbitrary: worst s) (fastforce split: prod.splits if_splits)+

lemma quot_window: 
  assumes "0 < W" "0 \<le> a" "a \<le> t" "t < a + W"
  shows "quot t W = quot a W \<or> quot t W = quot a W + 1"
proof -
  have "a div W \<le> t div W" using assms by (simp add: zdiv_mono1)
  moreover have "t div W \<le> (a + W) div W" using assms by (intro zdiv_mono1) simp_all
  moreover have "(a + W) div W = a div W + 1"
    using assms(1) div_add_self2[of W a] by linarith
  ultimately show ?thesis using assms by (auto simp: quot_nonneg)
qed


lemma program_rules_window: "r \<in> set (program_rules getenv) \<Longrightarrow> 0 < rl_window r"
  by (auto simp: program_rules_def rule_defs minute_def hour_def second_def)

lemma allow_strict_same:
  "fst (rc_incr R (redis_key r key now) (rl_window r) now s) \<noteq> None \<Longrightarrow> allow_strict R now r key s = allow R now r key s"
  by (auto simp: allow_strict_def allow_def allow_with_def Let_def split: prod.splits option.splits)

lemma passed_le_sum:
  "(\<And>c. c \<in> set cs \<Longrightarrow> P c \<Longrightarrow> Q c \<or> S c) \<Longrightarrow> length xs = length cs \<Longrightarrow> passed P cs xs \<le> passed Q cs xs + passed S cs xs"
proof (induction cs arbitrary: xs)
  case Nil then show ?case by simp
next
  case (Cons c cs)
  then obtain x ys where xs: "xs = x # ys" "length ys = length cs" by (cases xs) auto
  have "passed P cs ys \<le> passed Q cs ys + passed S cs ys" using Cons xs by auto
  with Cons.prems(1)[of c] show ?case by (auto simp: xs)
qed

lemma length_serve [simp]: "length (serve R cs s) = length cs"
  by (induction R cs s rule: serve.induct) (auto split: prod.splits)

lemma allow_loop_served:
  "snd (allow_loop R now key rs worst s) = served R (map (\<lambda>r. (now, r, key)) rs) s"
  by (induction rs arbitrary: worst s) (auto split: prod.splits)

section \<open>Properties\<close>

text \<open>C36: Within one window the fixed-window counter is exact: whatever other keys and rules of the
  program are used in between, of the calls of Allow under one rule, key and window number exactly
  \<open>min limit calls\<close> are let through, when Redis answers and the counters start empty. The entry of
  a window never expires before the window is over, and no two rules share a counter.\<close>

theorem window_exact:
  assumes "redis R val" "\<And>k w now s. fst (rc_incr R k w now s) \<noteq> None"
    and "r \<in> set (program_rules getenv)"
    and "sorted (map fst cs)" "\<forall>c\<in>set cs. 0 \<le> fst c \<and> fst (snd c) \<in> set (program_rules getenv)"
    and "\<And>t k. val s t k = 0" "0 \<le> n"
  shows "passed (hits r key n) cs (serve R cs s) =
    min (nat (rl_limit r)) (length (filter (hits r key n) cs))"
  using redis.serve_exact[OF assms(1,2) program_rules_separated assms(3)
      program_rules_window[OF assms(3)], of cs 0 n s _ 0 key] assms(4-7) by simp

theorem window_exact_witness:
  "passed (hits resetPerEmail ''bob@x.kz'' 0)
     [(minute, resetPerEmail, ''bob@x.kz''), (minute, resetPerEmail, ''bob@x.kz''), (minute, resetPerEmail, ''bob@x.kz''), (minute, resetPerEmail, ''bob@x.kz''),
      (hour, resetPerEmail, ''bob@x.kz'')]
     (serve redis_map [(minute, resetPerEmail, ''bob@x.kz''), (minute, resetPerEmail, ''bob@x.kz''), (minute, resetPerEmail, ''bob@x.kz''), (minute, resetPerEmail, ''bob@x.kz''),
      (hour, resetPerEmail, ''bob@x.kz'')] Map.empty) = 3"
  apply (subst window_exact[OF rmap.redis_axioms, where getenv = "\<lambda>_. []"])
  subgoal by (auto simp: redis_map_def Let_def)
  subgoal by (simp add: program_rules_def)
  subgoal by (simp add: minute_def hour_def second_def)
  subgoal by (auto simp: program_rules_def minute_def hour_def second_def)
  subgoal by (simp add: live_def)
  subgoal by simp
  subgoal by (simp add: hits_def resetPerEmail_def quot_def minute_def hour_def second_def)
  done

text \<open>The bound the limiter's comment states for the window boundary: in any time span as long
  as the rule's window, at most twice the limit of a rule's calls with one key are let through.\<close>

theorem burst_at_most_twice:
  assumes "redis R val" "\<And>k w now s. fst (rc_incr R k w now s) \<noteq> None"
    and "r \<in> set (program_rules getenv)"
    and "sorted (map fst cs)" "\<forall>c\<in>set cs. 0 \<le> fst c \<and> fst (snd c) \<in> set (program_rules getenv)"
    and "\<And>t k. val s t k = 0" "0 \<le> a"
  shows "passed (\<lambda>(t, q, k). q = r \<and> k = key \<and> a \<le> t \<and> t < a + rl_window r) cs (serve R cs s)
    \<le> 2 * nat (rl_limit r)" (is "passed ?P _ _ \<le> _")
proof -
  let ?n = "quot a (rl_window r)"
  have W: "0 < rl_window r" by (rule program_rules_window[OF assms(3)])
  have n: "0 \<le> ?n" using W assms(7) by (simp add: quot_nonneg pos_imp_zdiv_nonneg_iff)
  have e: "passed (hits r key m) cs (serve R cs s) \<le> nat (rl_limit r)" if "0 \<le> m" for m
    using redis.serve_exact[OF assms(1,2) program_rules_separated assms(3) W, of cs 0 m s _ 0 key]
      assms(4-6) that by simp
  have "?P c \<Longrightarrow> hits r key ?n c \<or> hits r key (?n + 1) c" for c
    using quot_window[OF W assms(7)] by (cases c) (auto simp: hits_def)
  then have "passed ?P cs (serve R cs s) \<le> passed (hits r key ?n) cs (serve R cs s) + passed (hits r key (?n + 1)) cs (serve R cs s)"
    by (intro passed_le_sum) auto
  also have "\<dots> \<le> 2 * nat (rl_limit r)"
    using e[OF n] e[of "?n + 1"] n by simp
  finally show ?thesis .
qed

theorem burst_at_most_twice_witness:
  "passed (\<lambda>(t, q, k). q = resetPerEmail \<and> k = ''b'' \<and> 59 * minute \<le> t \<and>
       t < 59 * minute + rl_window resetPerEmail)
     [(59 * minute, resetPerEmail, ''b''), (60 * minute, resetPerEmail, ''b'')]
     (serve redis_map [(59 * minute, resetPerEmail, ''b''), (60 * minute, resetPerEmail, ''b'')]
        Map.empty) \<le> 2 * nat (rl_limit resetPerEmail)"
  apply (rule burst_at_most_twice[OF rmap.redis_axioms, where getenv = "\<lambda>_. []"])
  subgoal by (auto simp: redis_map_def Let_def)
  subgoal by (simp add: program_rules_def)
  subgoal by (simp add: minute_def hour_def second_def)
  subgoal by (auto simp: program_rules_def minute_def hour_def second_def)
  subgoal by (simp add: live_def)
  subgoal by (simp add: minute_def second_def)
  done

text \<open>AllowAll lets the action through exactly when every rule does, counts the action under
  every rule even after a refusal, and a refusal it returns is one of the rules' refusals, with the
  longest RetryAfter among them.\<close>

theorem allow_all_worst:
  fixes R :: "'s redis_client"
  defines "calls rs now key \<equiv> map (\<lambda>r. (now, r, key)) rs"
  assumes "allow_all R now key rs s = (x, s')"
  shows "(rr_allowed x \<longleftrightarrow> list_all rr_allowed (serve R (calls rs now key) s)) \<and>
    s' = served R (calls rs now key) s \<and>
    (\<not> rr_allowed x \<longrightarrow> x \<in> set (serve R (calls rs now key) s) \<and>
       (\<forall>c\<in>set (serve R (calls rs now key) s). \<not> rr_allowed c \<longrightarrow> rr_retry c \<le> rr_retry x))"
  using assms allow_loop_spec[of R now key rs free_pass s x s']
    allow_loop_served[of R now key rs free_pass s]
  by (auto simp: allow_all_def free_pass_def)

end
