(* ===== verification/MailLogin.thy ===== *)
theory MailLogin imports Mailboxes RateLimit begin

text \<open>
  What the two mail servers share: the joins behind the sign-in of internal/imapservice/backend.go and
  internal/submission/server.go, and the state they run in, the world next to the Redis server of
  their limiter. Whether the connection is encrypted and the host of the peer are arguments.
\<close>

type_synonym 's srv = "world \<times> 's"

text \<open>\<open>coalesce(m.personal_workspace_id, d.workspace_id)\<close>.\<close>

definition serves :: "mailbox_row \<Rightarrow> domain_row \<Rightarrow> string" where
  "serves b d = (case b_personal b of Some w \<Rightarrow> w | None \<Rightarrow> d_ws d)"

text \<open>
  \<open>FROM mailboxes m JOIN domains d ... JOIN workspaces w ... WHERE lower(address) = $1 AND
  d.verified_at IS NOT NULL\<close>.
\<close>

definition boxes_at :: "string \<Rightarrow> db \<Rightarrow> (mailbox_row \<times> workspace_row) list" where
  "boxes_at address t = concat (map (\<lambda>b. concat (map (\<lambda>d. map (\<lambda>x. (b, x))
     (filter (\<lambda>x. w_id x = serves b d) (workspaces t)))
     (filter (\<lambda>d. d_id d = b_domain b \<and> Verified d \<and> to_lower (b_local b @ ''@'' @ d_name d) = address) (domains t))))
     (mailboxes t))"

lemma boxes_at_in: "(b, x) \<in> set (boxes_at address t) \<longleftrightarrow> b \<in> set (mailboxes t) \<and> x \<in> set (workspaces t) \<and>
    (\<exists>d\<in>set (domains t). d_id d = b_domain b \<and> Verified d \<and> to_lower (b_local b @ ''@'' @ d_name d) = address \<and> w_id x = serves b d)"
  by (auto simp: boxes_at_def)

text \<open>
  With the members and password identities of the one reader: user, mailbox, workspace and hash. The
  argument says which users may not sign in.
\<close>

definition reader_rows :: "(db \<Rightarrow> string \<Rightarrow> bool) \<Rightarrow> string \<Rightarrow> db \<Rightarrow> (string \<times> string \<times> string \<times> string option) list" where
  "reader_rows barred address t = concat (map (\<lambda>(b, x). concat (map (\<lambda>m. map (\<lambda>i. (m_user m, b_id b, w_id x, i_hash i))
     (filter (\<lambda>i. i_user i = m_user m \<and> i_provider i = ProviderPassword) (identities t)))
     (filter (\<lambda>m. m_ws m = w_id x \<and> reader_of t b x = Some (m_user m) \<and> \<not> barred t (m_user m)) (members t))))
     (boxes_at address t))"

lemma reader_rows_in: "(u, i, ws, h) \<in> set (reader_rows barred address t) \<Longrightarrow>
    (\<exists>b x. (b, x) \<in> set (boxes_at address t) \<and> b_id b = i \<and> w_id x = ws \<and> reader_of t b x = Some u \<and> \<not> barred t u \<and>
       (\<exists>m\<in>set (members t). m_ws m = ws \<and> m_user m = u) \<and>
       (\<exists>j\<in>set (identities t). i_user j = u \<and> i_provider j = ProviderPassword \<and> i_hash j = h))"
  by (fastforce simp: reader_rows_def)

text \<open>The first row; none, or one whose hash is NULL, is an error of \<open>Scan\<close>.\<close>

definition scan_row :: "(db \<Rightarrow> (string \<times> string \<times> string \<times> string option) list) \<Rightarrow> (string \<times> string \<times> string \<times> string) op" where
  "scan_row f = query (\<lambda>now t. case f t of (u, b, w, Some h) # _ \<Rightarrow> Inr (u, b, w, h) | _ \<Rightarrow> Inl ErrNoRows)"

lemma scan_row_Inr: "scan_row f w = (Inr (u, b, ws, h), w') \<Longrightarrow> (u, b, ws, Some h) \<in> set (f (tabs w)) \<and> w' = spend w"
  by (auto simp: scan_row_def step_iffs split: list.splits option.splits prod.splits)

text \<open>Asking a limiter, which may be absent.\<close>

definition ask_limiter :: "('s redis_client \<Rightarrow> time \<Rightarrow> 's \<Rightarrow> result \<times> 's) \<Rightarrow> 's redis_client option \<Rightarrow> ('s srv, gerror, bool) step" where
  "ask_limiter f R = (case R of None \<Rightarrow> returnE True | Some c \<Rightarrow>
     bindE (onSnd (\<lambda>w. f c (app_now w))) (\<lambda>res. returnE (rr_allowed res)))"

lemma ask_limiter_fst: "ask_limiter f R s = (r, s') \<Longrightarrow> fst s' = fst s"
  by (cases r) (auto simp: ask_limiter_def step_iffs split: option.splits)

end
