(* ===== verification/Imap.thy ===== *)
theory Imap imports MailLogin begin

text \<open>
  internal/imapservice: what an IMAP client may do to the mailbox it signed in to. The protocol engine
  go-imap is not in the repository; it calls the methods modelled here. Its flag arithmetic and its search are
  in \<open>imap_lib\<close>. A selected mailbox keeps a snapshot of the messages its client was told of; the
  responses written to its connection are listed in \<open>ib_out\<close>, and \<open>ib_faults\<close> says which writes fail.
\<close>

section \<open>Accounts and folders\<close>

record imap_user =
  iu_id :: string
  iu_box :: string
  iu_address :: string
  iu_hash :: string

definition must_change :: "db \<Rightarrow> string \<Rightarrow> bool" where
  "must_change t u \<longleftrightarrow> (\<exists>v\<in>set (users t). u_id v = u \<and> u_must_change v)"

definition imap_Login :: "lib \<Rightarrow> 's redis_client option \<Rightarrow> bool \<Rightarrow> string \<Rightarrow> string \<Rightarrow> string \<Rightarrow> ('s srv, gerror, imap_user) step" where
  "imap_Login L R tls host addr password =
     bindE (guardE (\<not> tls) Imap_ErrInvalidCredentials) (\<lambda>_. let address = to_lower (trim_space addr) in
     bindE (ask_limiter (\<lambda>c now. allow c now imapLogin host) R) (\<lambda>ok.
     bindE (guardE (\<not> ok) Imap_ErrInvalidCredentials) (\<lambda>_.
     handleE (onFst (scan_row (reader_rows must_change address))) (\<lambda>e. throwE Imap_ErrInvalidCredentials) (\<lambda>(u, box, ws, hash).
     bindE (guardE (\<not> l_bcrypt_ok L hash password) Imap_ErrInvalidCredentials) (\<lambda>_.
     returnE \<lparr>iu_id = u, iu_box = box, iu_address = address, iu_hash = hash\<rparr>)))))"

definition imap_active :: "db \<Rightarrow> imap_user \<Rightarrow> bool" where
  "imap_active t u \<longleftrightarrow> (\<exists>b\<in>set (mailboxes t). b_id b = iu_box u \<and> (\<exists>d\<in>set (domains t). d_id d = b_domain b \<and> Verified d \<and>
     (\<exists>x\<in>set (workspaces t). w_id x = serves b d \<and> reader_of t b x = Some (iu_id u)))) \<and>
     (\<exists>i\<in>set (identities t). i_user i = iu_id u \<and> i_provider i = ProviderPassword \<and> i_hash i = Some (iu_hash u)) \<and>
     \<not> must_change t (iu_id u)"

definition imap_check :: "imap_user \<Rightarrow> unit op" where
  "imap_check u = bindE (CanAccess (iu_id u) (iu_box u)) (\<lambda>allowed.
     bindE (guardE (\<not> allowed) Imap_ErrInvalidCredentials) (\<lambda>_.
     bindE (query (\<lambda>now t. Inr (imap_active t u))) (\<lambda>active. guardE (\<not> active) Imap_ErrInvalidCredentials)))"

definition canonical :: "string \<Rightarrow> string" where
  "canonical name = (if equal_fold name ''INBOX'' then ''INBOX'' else name)"

definition validFolder :: "string \<Rightarrow> bool" where
  "validFolder name \<longleftrightarrow> name \<noteq> [] \<and> length name \<le> 200 \<and> \<not> contains_any name [CHR 0x0D, CHR 0x0A, CHR 0x00] \<and> \<not> contains name ''/''"

definition imap_ListMailboxes :: "imap_user \<Rightarrow> bool \<Rightarrow> string list op" where
  "imap_ListMailboxes u subscribed = bindE (imap_check u) (\<lambda>_. query (\<lambda>now t.
     Inr (sort (map f_name (filter (\<lambda>f. f_box f = iu_box u \<and> (\<not> subscribed \<or> f_subscribed f)) (folders t))))))"

definition imap_GetMailbox :: "imap_user \<Rightarrow> string \<Rightarrow> string op" where
  "imap_GetMailbox u nm = bindE (imap_check u) (\<lambda>_. let name = canonical nm in
     bindE (query (\<lambda>now t. Inr (has_folder t (iu_box u) name))) (\<lambda>there.
     if \<not> there then throwE Imap_ErrNoSuchMailbox else returnE name))"

definition imap_CreateMailbox :: "imap_user \<Rightarrow> string \<Rightarrow> unit op" where
  "imap_CreateMailbox u nm = bindE (imap_check u) (\<lambda>_. let name = canonical nm in
     bindE (guardE (\<not> validFolder name) Imap_Err) (\<lambda>_.
     bindE (add_folder (iu_box u) name) (\<lambda>n. guardE (n = 0) Imap_ErrMailboxAlreadyExists)))"

text \<open>The messages of a folder go with it.\<close>

definition delete_folder :: "string \<Rightarrow> string \<Rightarrow> nat stmt" where
  "delete_folder box name now t = (let P = (\<lambda>f. f_box f = box \<and> f_name f = name) in
     (Inr (count_where P (folders t)), if count_where P (folders t) = 0 then t else
        t\<lparr>folders := del_where P (folders t), messages := del_where (in_folder box name) (messages t)\<rparr>))"

definition imap_DeleteMailbox :: "imap_user \<Rightarrow> string \<Rightarrow> unit op" where
  "imap_DeleteMailbox u nm = bindE (imap_check u) (\<lambda>_. let name = canonical nm in
     bindE (guardE (name = ''INBOX'') Imap_Err) (\<lambda>_.
     bindE (sql (delete_folder (iu_box u) name)) (\<lambda>n. guardE (n = 0) Imap_ErrNoSuchMailbox)))"

text \<open>\<open>INSERT INTO imap_folders\<close> without a conflict clause, and the UPDATE with its cascade.\<close>

definition new_folder :: "string \<Rightarrow> string \<Rightarrow> unit op" where
  "new_folder box name = bindE nextValidity (\<lambda>v. sql (\<lambda>now t. case insert_folder v box name now t of
     (Inl e, t') \<Rightarrow> (Inl e, t) | (Inr n, t') \<Rightarrow> if n = 0 then (Inl ErrUnique, t) else (Inr (), t')))"

definition refile :: "string \<Rightarrow> string \<Rightarrow> string \<Rightarrow> db \<Rightarrow> db" where
  "refile box old new t = t\<lparr>messages := upd_where (in_folder box old) (\<lambda>g. g\<lparr>g_folder := new\<rparr>) (messages t)\<rparr>"

definition rename_folder :: "string \<Rightarrow> string \<Rightarrow> string \<Rightarrow> nat stmt" where
  "rename_folder box old new now t = (let P = (\<lambda>f. f_box f = box \<and> f_name f = old) in
     if count_where P (folders t) = 0 then (Inr 0, t)
     else if new = [] \<or> 200 < rune_count new then (Inl ErrDB, t)
     else if new \<noteq> old \<and> has_folder t box new then (Inl ErrUnique, t)
     else (Inr (count_where P (folders t)), refile box old new (t\<lparr>folders := upd_where P (\<lambda>f. f\<lparr>f_name := new\<rparr>) (folders t)\<rparr>)))"

definition imap_RenameMailbox :: "imap_user \<Rightarrow> string \<Rightarrow> string \<Rightarrow> unit op" where
  "imap_RenameMailbox u old new = bindE (imap_check u) (\<lambda>_. let old = canonical old; new = canonical new in
     bindE (guardE (\<not> validFolder new \<or> new = ''INBOX'') Imap_Err) (\<lambda>_. withTx (
     if old = ''INBOX'' then
       handleE (new_folder (iu_box u) new) (\<lambda>e. throwE Imap_ErrMailboxAlreadyExists) (\<lambda>_.
       bindE (sql (\<lambda>now t. (Inr (), refile (iu_box u) ''INBOX'' new t))) (\<lambda>_. returnE ((), True)))
     else bindE (sql (rename_folder (iu_box u) old new)) (\<lambda>n.
       if n = 0 then throwE Imap_ErrNoSuchMailbox else returnE ((), True)))))"

definition imapMaxBytes :: nat where "imapMaxBytes = 26214400"

text \<open>\<open>None\<close> is a body whose read failed.\<close>

definition imap_append :: "mime_lib \<Rightarrow> imap_user \<Rightarrow> string \<Rightarrow> string list \<Rightarrow> time option \<Rightarrow> string option \<Rightarrow> unit op" where
  "imap_append M u folder flags date body = bindE (imap_check u) (\<lambda>_. case body of None \<Rightarrow> throwE Imap_Err | Some r \<Rightarrow>
     let raw = take (imapMaxBytes + 1) r in
     if raw = [] \<or> imapMaxBytes < length raw then throwE Imap_Err else AppendIMAP M (iu_box u) folder raw flags date)"

section \<open>A selected mailbox\<close>

record imap_record =
  ir_uid :: nat
  ir_date :: time
  ir_size :: nat
  ir_flags :: "string list"

datatype imap_resp = Expunged nat | Exists nat | Fetched nat nat "string list"

record imap_box =
  ib_user :: imap_user
  ib_name :: string
  ib_readonly :: bool
  ib_conn :: bool
  ib_snapshot :: "imap_record list option"
  ib_out :: "imap_resp list"
  ib_faults :: "bool list"

datatype flags_op = SetFlags | AddFlags | RemoveFlags

record imap_lib =
  il_update :: "string list \<Rightarrow> flags_op \<Rightarrow> string list \<Rightarrow> string list"
  il_match :: "string \<Rightarrow> nat \<Rightarrow> imap_record \<Rightarrow> string \<Rightarrow> bool option"

type_synonym 'a box_op = "(world \<times> imap_box, gerror, 'a) step"

definition with_box :: "(imap_box \<Rightarrow> 'a box_op) \<Rightarrow> 'a box_op" where
  "with_box f s = f (snd s) s"

definition set_snapshot :: "imap_record list \<Rightarrow> unit box_op" where
  "set_snapshot rs s = (Inr (), (fst s, (snd s)\<lparr>ib_snapshot := Some rs\<rparr>))"

definition write_resp :: "imap_resp \<Rightarrow> unit box_op" where
  "write_resp r s = (case ib_faults (snd s) of
     [] \<Rightarrow> (Inr (), (fst s, (snd s)\<lparr>ib_out := ib_out (snd s) @ [r]\<rparr>))
   | b # bs \<Rightarrow> if b then (Inl Imap_ErrConn, (fst s, (snd s)\<lparr>ib_faults := bs\<rparr>))
       else (Inr (), (fst s, (snd s)\<lparr>ib_faults := bs, ib_out := ib_out (snd s) @ [r]\<rparr>)))"

fun each :: "('a \<Rightarrow> ('s, 'e, unit) step) \<Rightarrow> 'a list \<Rightarrow> ('s, 'e, unit) step" where
  "each f [] = returnE ()"
| "each f (x # xs) = bindE (f x) (\<lambda>_. each f xs)"

definition record_of :: "message_row \<Rightarrow> imap_record" where
  "record_of g = \<lparr>ir_uid = g_uid g, ir_date = g_received g, ir_size = g_size g,
     ir_flags = g_flags g @ (if g_read g \<noteq> None then [SeenFlag] else [])\<rparr>"

definition folder_records :: "db \<Rightarrow> string \<Rightarrow> string \<Rightarrow> imap_record list" where
  "folder_records t box name = map record_of (sort_key g_uid (filter (in_folder box name) (messages t)))"

definition loadRecords :: "imap_user \<Rightarrow> string \<Rightarrow> imap_record list op" where
  "loadRecords u name = query (\<lambda>now t. Inr (folder_records t (iu_box u) name))"

definition currentRecords :: "imap_user \<Rightarrow> string \<Rightarrow> imap_record list op" where
  "currentRecords u name = bindE (imap_check u) (\<lambda>_. loadRecords u name)"

text \<open>\<open>current[r.Uid]\<close>, the map filled from the rows in order.\<close>

definition by_uid :: "imap_record list \<Rightarrow> nat \<Rightarrow> imap_record option" where
  "by_uid rows uid = List.find (\<lambda>q. ir_uid q = uid) (rev rows)"

definition refresh :: "imap_record list \<Rightarrow> imap_record list \<Rightarrow> imap_record list" where
  "refresh rows snapshot = map (\<lambda>r. case by_uid rows (ir_uid r) of None \<Rightarrow> r | Some q \<Rightarrow> q) snapshot"

definition imap_records :: "imap_record list box_op" where
  "imap_records = with_box (\<lambda>b. bindE (onFst (currentRecords (ib_user b) (ib_name b))) (\<lambda>rows.
     returnE (case ib_snapshot b of None \<Rightarrow> rows | Some s \<Rightarrow> refresh rows s)))"

record imap_status =
  st_messages :: nat
  st_unseen :: nat
  st_first_unseen :: nat
  st_validity :: nat
  st_uidnext :: nat

text \<open>The number of the first record without the flag, 0 when there is none.\<close>

fun first_unseen :: "nat \<Rightarrow> imap_record list \<Rightarrow> nat" where
  "first_unseen i [] = 0"
| "first_unseen i (r # rs) = (if SeenFlag \<notin> set (ir_flags r) then i + 1 else first_unseen (i + 1) rs)"

text \<open>A sequence nobody drew from has \<open>last_value\<close> 1.\<close>

definition uidNext :: "world \<Rightarrow> nat" where
  "uidNext w = max 1 (uid_seq w) + 1"

definition imap_Status :: "imap_status box_op" where
  "imap_Status = with_box (\<lambda>b. bindE (onFst (imap_check (ib_user b))) (\<lambda>_.
     bindE (onFst (withTx (
       bindE (query (\<lambda>now t. Inr ())) (\<lambda>_.
       bindE (loadRecords (ib_user b) (ib_name b)) (\<lambda>rows.
       bindE (query (\<lambda>now t. case List.find (\<lambda>f. f_box f = iu_box (ib_user b) \<and> f_name f = ib_name b) (folders t) of
          None \<Rightarrow> Inl ErrNoRows | Some f \<Rightarrow> Inr (f_validity f))) (\<lambda>v.
       bindE (asks uidNext) (\<lambda>uidnext.
       returnE ((rows, v, uidnext), True)))))))) (\<lambda>(rows, v, uidnext).
     bindE (if \<not> ib_conn b then set_snapshot rows else returnE ()) (\<lambda>_.
     returnE \<lparr>st_messages = length rows, st_unseen = count_where (\<lambda>r. SeenFlag \<notin> set (ir_flags r)) rows,
       st_first_unseen = first_unseen 0 rows, st_validity = v, st_uidnext = uidnext\<rparr>))))"

definition imap_SetSubscribed :: "bool \<Rightarrow> unit box_op" where
  "imap_SetSubscribed subscribed = with_box (\<lambda>b. onFst (bindE (imap_check (ib_user b)) (\<lambda>_. sql (\<lambda>now t.
     (Inr (), t\<lparr>folders := upd_where (\<lambda>f. f_box f = iu_box (ib_user b) \<and> f_name f = ib_name b)
        (\<lambda>f. f\<lparr>f_subscribed := subscribed\<rparr>) (folders t)\<rparr>)))))"

text \<open>A sequence set is a list of ranges; 0 stands for the star.\<close>

definition inSet :: "(nat \<times> nat) list \<Rightarrow> nat \<Rightarrow> nat \<Rightarrow> bool" where
  "inSet seqs i m \<longleftrightarrow> (\<exists>(start, stop)\<in>set seqs. let a = (if start = 0 then m else start); b = (if stop = 0 then m else stop) in
     min a b \<le> i \<and> i \<le> max a b)"

definition selected :: "(nat \<times> nat) list \<Rightarrow> bool \<Rightarrow> nat \<Rightarrow> imap_record list \<Rightarrow> bool" where
  "selected seqs uid i rows = (if uid then inSet seqs (ir_uid (rows ! i)) (ir_uid (last rows)) else inSet seqs (i + 1) (length rows))"

text \<open>The records a command names, each with its number.\<close>

definition picked :: "(nat \<times> nat) list \<Rightarrow> bool \<Rightarrow> imap_record list \<Rightarrow> (nat \<times> imap_record) list" where
  "picked seqs uid rows = filter (\<lambda>(i, r). selected seqs uid i rows) (enumerate 0 rows)"

definition imap_raw :: "imap_user \<Rightarrow> string \<Rightarrow> nat \<Rightarrow> string op" where
  "imap_raw u name uid = query (\<lambda>now t. case List.find (\<lambda>g. in_folder (iu_box u) name g \<and> g_uid g = uid) (messages t) of
     None \<Rightarrow> Inl ErrNoRows | Some g \<Rightarrow> Inr (g_raw g))"

definition set_flags :: "imap_lib \<Rightarrow> imap_user \<Rightarrow> string \<Rightarrow> nat \<Rightarrow> flags_op \<Rightarrow> string list \<Rightarrow> unit op" where
  "set_flags I u name uid f flags = (let P = (\<lambda>g. in_folder (iu_box u) name g \<and> g_uid g = uid) in withTx (
     bindE (query (\<lambda>now t. case List.find P (messages t) of None \<Rightarrow> Inl ErrNoRows | Some g \<Rightarrow> Inr (ir_flags (record_of g)))) (\<lambda>current.
     bindE (asks app_now) (\<lambda>clock. let updated = il_update I current f flags in
     bindE (sql (\<lambda>now t. (Inr (), t\<lparr>messages := upd_where P (\<lambda>g. g\<lparr>g_flags := filter (\<lambda>x. x \<noteq> SeenFlag \<and> x \<noteq> RecentFlag) updated,
       g_read := (if SeenFlag \<in> set updated then Some clock else None)\<rparr>) (messages t)\<rparr>))) (\<lambda>_.
     returnE ((), True))))))"

definition imap_UpdateMessagesFlags :: "imap_lib \<Rightarrow> bool \<Rightarrow> (nat \<times> nat) list \<Rightarrow> flags_op \<Rightarrow> string list \<Rightarrow> unit box_op" where
  "imap_UpdateMessagesFlags I uid seqs f flags = bindE imap_records (\<lambda>rows. with_box (\<lambda>b.
     each (\<lambda>(i, r). onFst (set_flags I (ib_user b) (ib_name b) (ir_uid r) f flags)) (picked seqs uid rows)))"

text \<open>
  What FETCH hands to the engine for every message named: its number, its record and, when an item needs
  it, the source. \<open>needsRaw\<close> and \<open>markSeen\<close> follow from the items (a body section without
  PEEK marks), the layout of the answer is the engine's.
\<close>

fun fetch_each :: "imap_lib \<Rightarrow> imap_box \<Rightarrow> bool \<Rightarrow> bool \<Rightarrow> (nat \<times> imap_record) list \<Rightarrow> (nat \<times> imap_record \<times> string option) list op" where
  "fetch_each I b needsRaw markSeen [] = returnE []"
| "fetch_each I b needsRaw markSeen ((i, r) # rs) =
     bindE (if needsRaw then bindE (imap_raw (ib_user b) (ib_name b) (ir_uid r)) (\<lambda>s. returnE (Some s)) else returnE None) (\<lambda>body.
     let mark = markSeen \<and> \<not> ib_readonly b \<and> SeenFlag \<notin> set (ir_flags r) in
     bindE (if mark then set_flags I (ib_user b) (ib_name b) (ir_uid r) AddFlags [SeenFlag] else returnE ()) (\<lambda>_.
     bindE (fetch_each I b needsRaw markSeen rs) (\<lambda>out.
     returnE ((i + 1, if mark then r\<lparr>ir_flags := ir_flags r @ [SeenFlag]\<rparr> else r, body) # out))))"

definition imap_ListMessages :: "imap_lib \<Rightarrow> bool \<Rightarrow> (nat \<times> nat) list \<Rightarrow> bool \<Rightarrow> bool \<Rightarrow> (nat \<times> imap_record \<times> string option) list box_op" where
  "imap_ListMessages I uid seqs needsRaw markSeen = bindE imap_records (\<lambda>rows. with_box (\<lambda>b.
     onFst (fetch_each I b needsRaw markSeen (picked seqs uid rows))))"

text \<open>\<open>il_match\<close> is \<open>None\<close> for a source that cannot be read or a criterion that cannot be decided.\<close>

fun search_each :: "imap_lib \<Rightarrow> imap_box \<Rightarrow> bool \<Rightarrow> string \<Rightarrow> (nat \<times> imap_record) list \<Rightarrow> nat list op" where
  "search_each I b uid crit [] = returnE []"
| "search_each I b uid crit ((i, r) # rs) = bindE (imap_raw (ib_user b) (ib_name b) (ir_uid r)) (\<lambda>body.
     case il_match I body (i + 1) r crit of None \<Rightarrow> throwE Imap_Err | Some m \<Rightarrow>
     bindE (search_each I b uid crit rs) (\<lambda>out. returnE ((if m then [if uid then ir_uid r else i + 1] else []) @ out)))"

definition imap_SearchMessages :: "imap_lib \<Rightarrow> bool \<Rightarrow> string \<Rightarrow> nat list box_op" where
  "imap_SearchMessages I uid crit = bindE imap_records (\<lambda>rows. with_box (\<lambda>b. onFst (search_each I b uid crit (enumerate 0 rows))))"

definition imap_CreateMessage :: "mime_lib \<Rightarrow> string list \<Rightarrow> time option \<Rightarrow> string option \<Rightarrow> unit box_op" where
  "imap_CreateMessage M flags date body = with_box (\<lambda>b. onFst (imap_append M (ib_user b) (ib_name b) flags date body))"

definition imap_CopyMessages :: "mime_lib \<Rightarrow> bool \<Rightarrow> (nat \<times> nat) list \<Rightarrow> string \<Rightarrow> unit box_op" where
  "imap_CopyMessages M uid seqs dest = with_box (\<lambda>b. bindE (onFst (imap_GetMailbox (ib_user b) dest)) (\<lambda>target.
     bindE imap_records (\<lambda>rows. each (\<lambda>(i, r). onFst (
       bindE (imap_raw (ib_user b) (ib_name b) (ir_uid r)) (\<lambda>body.
       imap_append M (ib_user b) target (ir_flags r) (Some (ir_date r)) (Some body)))) (picked seqs uid rows))))"

definition DeletedFlag :: string where "DeletedFlag = [CHR 0x5C] @ ''Deleted''"

definition delete_uids :: "string \<Rightarrow> string \<Rightarrow> nat list \<Rightarrow> unit op" where
  "delete_uids box name ids = sql (\<lambda>now t. (Inr (), t\<lparr>messages := del_where (\<lambda>g. in_folder box name g \<and> g_uid g \<in> set ids) (messages t)\<rparr>))"

definition imap_Expunge :: "unit box_op" where
  "imap_Expunge = with_box (\<lambda>b. if ib_readonly b then returnE () else
     bindE (onFst (imap_check (ib_user b))) (\<lambda>_.
     bindE imap_records (\<lambda>rows.
     bindE (onFst (delete_uids (iu_box (ib_user b)) (ib_name b) (map ir_uid (filter (\<lambda>r. DeletedFlag \<in> set (ir_flags r)) rows)))) (\<lambda>_.
     if ib_snapshot b \<noteq> None then set_snapshot (filter (\<lambda>r. DeletedFlag \<notin> set (ir_flags r)) rows) else returnE ()))))"

section \<open>Telling the client\<close>

text \<open>The loop over the snapshot: \<open>i\<close> messages seen, \<open>removed\<close> of them gone.\<close>

fun expunges :: "nat set \<Rightarrow> nat \<Rightarrow> nat \<Rightarrow> imap_record list \<Rightarrow> imap_resp list" where
  "expunges cur i removed [] = []"
| "expunges cur i removed (r # rs) = (if ir_uid r \<in> cur then expunges cur (i + 1) removed rs
     else Expunged (i + 1 - removed) # expunges cur (i + 1) (removed + 1) rs)"

fun fetches :: "(nat \<Rightarrow> imap_record option) \<Rightarrow> nat \<Rightarrow> imap_record list \<Rightarrow> imap_resp list" where
  "fetches old i [] = []"
| "fetches old i (r # rs) = (case old (ir_uid r) of
       Some p \<Rightarrow> if ir_flags p = ir_flags r then fetches old (i + 1) rs
                 else Fetched (i + 1) (ir_uid r) (ir_flags r) # fetches old (i + 1) rs
     | None \<Rightarrow> Fetched (i + 1) (ir_uid r) (ir_flags r) # fetches old (i + 1) rs)"

definition poll_responses :: "imap_record list \<Rightarrow> imap_record list \<Rightarrow> imap_resp list" where
  "poll_responses snapshot rows = (let gone = expunges (ir_uid ` set rows) 0 0 snapshot in
     gone @ (if length rows \<noteq> length snapshot \<or> gone \<noteq> [] then [Exists (length rows)] else []) @
     fetches (by_uid snapshot) 0 rows)"

definition imap_Poll :: "unit box_op" where
  "imap_Poll = with_box (\<lambda>b. bindE (onFst (currentRecords (ib_user b) (ib_name b))) (\<lambda>rows.
     if \<not> ib_conn b then set_snapshot rows else
     bindE (each write_resp (poll_responses (case ib_snapshot b of None \<Rightarrow> [] | Some s \<Rightarrow> s) rows)) (\<lambda>_.
     set_snapshot rows)))"

text \<open>SELECT and EXAMINE: after the engine's own handling, which calls Status.\<close>

definition select_handler :: "bool \<Rightarrow> imap_box \<Rightarrow> imap_box" where
  "select_handler readOnly b = b\<lparr>ib_readonly := readOnly, ib_conn := True\<rparr>"

section \<open>MOVE\<close>

text \<open>\<open>INSERT ... SELECT ... ORDER BY imap_uid\<close>: one statement, a number from the sequence for every row.\<close>

definition add_row :: "message_row \<Rightarrow> unit op" where
  "add_row g w = (case insert_message g (db_now w) (tabs w) of (Inl e, t) \<Rightarrow> (Inl e, w) | (Inr r, t) \<Rightarrow> (Inr (), w\<lparr>tabs := t\<rparr>))"

fun copy_each :: "string \<Rightarrow> message_row list \<Rightarrow> unit op" where
  "copy_each dest [] = returnE ()"
| "copy_each dest (g # gs) = bindE nextUID (\<lambda>uid. withUUID (\<lambda>i.
     bindE (add_row (g\<lparr>g_id := i, g_uid := uid, g_folder := dest, g_smtp := False\<rparr>)) (\<lambda>_. copy_each dest gs)))"

definition insert_select :: "string \<Rightarrow> string \<Rightarrow> string \<Rightarrow> nat list \<Rightarrow> unit op" where
  "insert_select box name dest ids w = (if db_down w then (Inl ErrDB, spend w) else
     (case copy_each dest (sort_key g_uid (filter (\<lambda>g. in_folder box name g \<and> g_uid g \<in> set ids) (messages (tabs w)))) (spend w) of
        (Inl e, w1) \<Rightarrow> (Inl e, w1\<lparr>tabs := tabs w\<rparr>) | (Inr u, w1) \<Rightarrow> (Inr u, w1)))"

definition imap_MoveMessages :: "bool \<Rightarrow> (nat \<times> nat) list \<Rightarrow> string \<Rightarrow> unit box_op" where
  "imap_MoveMessages uid seqs dst = with_box (\<lambda>b. bindE (guardE (ib_readonly b) Imap_Err) (\<lambda>_. let dest = canonical dst in
     bindE (guardE (dest = ib_name b) Imap_Err) (\<lambda>_.
     bindE (onFst (imap_GetMailbox (ib_user b) dest)) (\<lambda>_.
     bindE imap_records (\<lambda>rows. let ids = map (\<lambda>(i, r). ir_uid r) (picked seqs uid rows); box = iu_box (ib_user b) in
     bindE (onFst (withTx (
       bindE (query (\<lambda>now t. Inr ())) (\<lambda>_.
       bindE (insert_select box (ib_name b) dest ids) (\<lambda>_.
       bindE (delete_uids box (ib_name b) ids) (\<lambda>_.
       returnE ((), True))))))) (\<lambda>_. imap_Poll))))))"

end
