(* ===== verification/ImapView.thy ===== *)
theory ImapView imports Imap begin

text \<open>
  The client's side of a selected mailbox: a list of entries by number, each with the UID and flags it was
  last told or nothing. What RFC 3501 says of the three responses, and that the responses of \<open>Poll\<close>
  turn the view of the snapshot into the view of the folder.
\<close>

type_synonym view = "(nat \<times> string list) option list"

fun client :: "imap_resp \<Rightarrow> view \<Rightarrow> view" where
  "client (Expunged n) v = take (n - 1) v @ drop n v"
| "client (Exists n) v = v @ replicate (n - length v) None"
| "client (Fetched n uid flags) v = v[n - 1 := Some (uid, flags)]"

definition reads :: "imap_resp list \<Rightarrow> view \<Rightarrow> view" where
  "reads rs v = fold client rs v"

definition view_of :: "imap_record list \<Rightarrow> view" where
  "view_of rows = map (\<lambda>r. Some (ir_uid r, ir_flags r)) rows"

lemma reads_simps [simp]: "reads [] v = v" "reads (r # rs) v = reads rs (client r v)" "reads (rs @ qs) v = reads qs (reads rs v)"
  by (simp_all add: reads_def)

lemma view_of_simps [simp]: "view_of [] = []" "view_of (r # rs) = Some (ir_uid r, ir_flags r) # view_of rs"
  "view_of (rs @ qs) = view_of rs @ view_of qs" "length (view_of rs) = length rs"
  by (simp_all add: view_of_def)

lemma reads_expunges:
  "length pre + removed = i \<Longrightarrow> reads (expunges cur i removed rs) (pre @ view_of rs) = pre @ view_of (filter (\<lambda>r. ir_uid r \<in> cur) rs)"
proof (induction rs arbitrary: pre i removed)
  case (Cons r rs)
  show ?case
  proof (cases "ir_uid r \<in> cur")
    case True
    then show ?thesis using Cons.IH[of "pre @ [Some (ir_uid r, ir_flags r)]" removed "i + 1"] Cons.prems by simp
  next
    case False
    from Cons.prems have "i - removed = length pre" "Suc i - removed = Suc (length pre)" by auto
    with False show ?thesis using Cons.IH[of pre "removed + 1" "i + 1"] Cons.prems by simp
  qed
qed simp

lemma expunges_Nil: "expunges cur i removed rs = [] \<longleftrightarrow> (\<forall>r\<in>set rs. ir_uid r \<in> cur)"
  by (induction rs arbitrary: i removed) auto

lemma reads_fetches:
  assumes "length rest = length rows" "length pre = i"
    "\<And>j. j < length rows \<Longrightarrow> case old (ir_uid (rows ! j)) of Some p \<Rightarrow> rest ! j = Some (ir_uid (rows ! j), ir_flags p) | None \<Rightarrow> True"
  shows "reads (fetches old i rows) (pre @ rest) = pre @ view_of rows"
  using assms
proof (induction rows arbitrary: pre rest i)
  case (Cons r rows)
  obtain x rest' where rest: "rest = x # rest'" using Cons.prems(1) by (cases rest) auto
  have tail: "case old (ir_uid (rows ! j)) of Some p \<Rightarrow> rest' ! j = Some (ir_uid (rows ! j), ir_flags p) | None \<Rightarrow> True" if "j < length rows" for j
    using Cons.prems(3)[of "Suc j"] that unfolding rest by (simp split: option.split_asm option.split)
  note IH = Cons.IH[of rest' "pre @ [Some (ir_uid r, ir_flags r)]" "i + 1", OF _ _ tail]
  have head: "case old (ir_uid r) of Some p \<Rightarrow> x = Some (ir_uid r, ir_flags p) | None \<Rightarrow> True"
    using Cons.prems(3)[of 0] unfolding rest by (simp split: option.split_asm option.split)
  have upd: "(pre @ x # rest')[i := Some (ir_uid r, ir_flags r)] = (pre @ [Some (ir_uid r, ir_flags r)]) @ rest'"
    using Cons.prems(2) by (simp add: list_update_append)
  show ?case
    using IH Cons.prems(1,2) head rest upd by (auto split: option.splits)
qed simp

text \<open>Two ways to say that a list is cut in two by a predicate.\<close>

lemma cut_filter:
  "sorted_wrt (\<lambda>x y. P y \<longrightarrow> P x) xs \<Longrightarrow> filter P xs @ filter (\<lambda>x. \<not> P x) xs = xs"
proof (induction xs)
  case (Cons x xs)
  then show ?case by (cases "P x") (auto simp: filter_empty_conv)
qed simp

definition ascending :: "imap_record list \<Rightarrow> bool" where
  "ascending rows \<longleftrightarrow> sorted_wrt (<) (map ir_uid rows)"

lemma ascending_filter: "ascending rows \<Longrightarrow> ascending (filter P rows)"
  by (simp add: ascending_def sorted_wrt_map sorted_wrt_filter)

lemma ascending_distinct: "ascending rows \<Longrightarrow> distinct (map ir_uid rows)"
  by (simp add: ascending_def strict_sorted_iff)

lemma by_uid_member:
  assumes "ascending rows" "r \<in> set rows"
  shows "by_uid rows (ir_uid r) = Some r"
proof -
  have "q = r" if "q \<in> set (rev rows)" "ir_uid q = ir_uid r" for q
    using ascending_distinct[OF assms(1)] that assms(2) by (auto simp: distinct_map inj_on_def)
  then show ?thesis unfolding by_uid_def by (intro find_unique) (use assms(2) in auto)
qed

lemma by_uid_None: "by_uid rows uid = None \<longleftrightarrow> uid \<notin> ir_uid ` set rows"
  by (auto simp: by_uid_def find_None_iff2)

text \<open>
  The heart of \<open>Poll\<close>: when the messages the client was not told of all have larger UIDs than those it was
  told of and that are still there, the responses lead from the old view to the new one.
\<close>

lemma poll_view:
  assumes S: "ascending S" and R: "ascending rows"
    and ahead: "\<And>r q. r \<in> set rows \<Longrightarrow> ir_uid r \<notin> ir_uid ` set S \<Longrightarrow> q \<in> set rows \<Longrightarrow> ir_uid q \<in> ir_uid ` set S \<Longrightarrow> ir_uid q < ir_uid r"
  shows "reads (poll_responses S rows) (view_of S) = view_of rows"
proof -
  let ?cur = "ir_uid ` set rows" and ?old = "ir_uid ` set S"
  define kept where "kept = filter (\<lambda>r. ir_uid r \<in> ?cur) S"
  define stay where "stay = filter (\<lambda>r. ir_uid r \<in> ?old) rows"
  have rows: "stay @ filter (\<lambda>r. ir_uid r \<notin> ?old) rows = rows"
    unfolding stay_def
  proof (rule cut_filter)
    have "sorted_wrt (\<lambda>x y. ir_uid x < ir_uid y) rows" using R by (simp add: ascending_def sorted_wrt_map)
    then show "sorted_wrt (\<lambda>x y. ir_uid y \<in> ?old \<longrightarrow> ir_uid x \<in> ?old) rows"
      by (rule sorted_wrt_mono_rel[rotated]) (use ahead in \<open>force\<close>)
  qed
  have uids: "map ir_uid stay = map ir_uid kept"
  proof (rule strict_sorted_equal)
    show "sorted_wrt (<) (map ir_uid stay)" "sorted_wrt (<) (map ir_uid kept)"
      using ascending_filter[OF R] ascending_filter[OF S] by (simp_all add: ascending_def stay_def kept_def)
    have both: "ir_uid ` {r \<in> A. ir_uid r \<in> ir_uid ` B} = ir_uid ` A \<inter> ir_uid ` B" for A B by blast
    show "set (map ir_uid stay) = set (map ir_uid kept)" by (simp add: stay_def kept_def both Int_commute)
  qed
  then have len: "length stay = length kept" by (metis length_map)
  define mid where "mid = view_of kept @ replicate (length rows - length kept) None"
  have n: "length kept \<le> length rows" by (subst rows[symmetric]) (simp add: len)
  let ?gone = "expunges ?cur 0 0 S"
  have gone: "reads ?gone (view_of S) = view_of kept"
    using reads_expunges[of "[]" 0 0 ?cur S] by (simp add: kept_def)
  have ex: "reads (if length rows \<noteq> length S \<or> ?gone \<noteq> [] then [Exists (length rows)] else []) (view_of kept) = mid"
  proof (cases "length rows \<noteq> length S \<or> ?gone \<noteq> []")
    case False
    then have "kept = S" by (simp add: kept_def expunges_Nil)
    with False show ?thesis by (simp add: mid_def)
  qed (simp add: mid_def)
  have "reads (fetches (by_uid S) 0 rows) ([] @ mid) = [] @ view_of rows"
  proof (rule reads_fetches)
    show "length mid = length rows" using n by (simp add: mid_def)
    fix j assume j: "j < length rows"
    show "case by_uid S (ir_uid (rows ! j)) of Some p \<Rightarrow> mid ! j = Some (ir_uid (rows ! j), ir_flags p) | None \<Rightarrow> True"
    proof (cases "j < length kept")
      case True
      then have "rows ! j = stay ! j" using rows len by (metis nth_append)
      then have uid: "ir_uid (rows ! j) = ir_uid (kept ! j)" using uids True len by (metis nth_map)
      have "kept ! j \<in> set S" using True by (metis kept_def nth_mem filter_is_subset subsetD)
      then have "by_uid S (ir_uid (kept ! j)) = Some (kept ! j)" by (rule by_uid_member[OF S])
      then show ?thesis using True uid by (simp add: mid_def nth_append view_of_def)
    next
      case False
      then have "rows ! j \<in> set (filter (\<lambda>r. ir_uid r \<notin> ?old) rows)"
        using rows len j by (metis (no_types, lifting) not_less nth_append nth_mem length_append add_less_cancel_left le_add_diff_inverse)
      then have "by_uid S (ir_uid (rows ! j)) = None" by (simp add: by_uid_None)
      then show ?thesis by simp
    qed
  qed simp
  then show ?thesis unfolding poll_responses_def Let_def reads_simps(3) gone ex by simp
qed

end
