(* ===== verification/ImapStore.thy ===== *)
theory ImapStore imports ImapView Workspaces begin

text \<open>
  What every operation on received mail keeps of the folders and messages: they are well formed, UIDs are
  never reused, and messages that share a folder have always shared one since the younger arrived. So a
  client that was told of some messages of a folder finds every message it was not told of after them.
\<close>

section \<open>Relations between two moments of the store\<close>

text \<open>
  Like the locale of the tables, with the sequence the UIDs come from: a rollback restores the tables and
  not the sequence.
\<close>

type_synonym mstate = "db \<times> nat"

definition mstate :: "world \<Rightarrow> mstate" where
  "mstate w = (tabs w, uid_seq w)"

definition on_store :: "(mstate \<Rightarrow> mstate \<Rightarrow> bool) \<Rightarrow> world \<Rightarrow> world \<Rightarrow> bool" where
  "on_store R w w' \<longleftrightarrow> R (mstate w) (mstate w')"

definition on_box :: "(mstate \<Rightarrow> mstate \<Rightarrow> bool) \<Rightarrow> world \<times> 'b \<Rightarrow> world \<times> 'b \<Rightarrow> bool" where
  "on_box R s s' \<longleftrightarrow> on_store R (fst s) (fst s')"

lemma mstate_simps [simp]: "mstate (spend w) = mstate w" "mstate (w\<lparr>tabs := t\<rparr>) = (t, uid_seq w)"
  "mstate (w\<lparr>uuids := us\<rparr>) = mstate w" "mstate (w\<lparr>validity_seq := v\<rparr>) = mstate w" "mstate (w\<lparr>uid_seq := n\<rparr>) = (tabs w, n)"
  by (simp_all add: mstate_def)

locale store_relation =
  fixes R :: "mstate \<Rightarrow> mstate \<Rightarrow> bool"
  assumes store_refl: "R s s"
    and store_trans: "R s s' \<Longrightarrow> R s' s'' \<Longrightarrow> R s s''"
    and store_rollback: "R (t, n) (t', n') \<Longrightarrow> R (t, n) (t, n')"
begin

lemma refls: "reflp (on_store R)" "reflp (on_box R)"
  by (simp_all add: reflp_def on_store_def on_box_def store_refl)

lemma transs: "transp (on_store R)" "transp (on_box R)"
  unfolding transp_def on_store_def on_box_def using store_trans by blast+

lemma st_sql: "(\<And>now t a t' n. q now t = (Inr a, t') \<Longrightarrow> R (t, n) (t', n)) \<Longrightarrow> keeps (on_store R) (sql q)"
  by (auto simp: keeps_def on_store_def mstate_def sql_def store_refl split: prod.splits sum.splits)

lemma st_query: "keeps (on_store R) (query f)"
  unfolding query_def by (rule st_sql) (auto simp: store_refl)

lemma st_tx:
  assumes "keeps (on_store R) body"
  shows "keeps (on_store R) (withTx body)"
proof (rule keepsI)
  fix w r w' assume run: "withTx body w = (r, w')"
  have body: "R (mstate w) (mstate w1)" if "body (spend w) = (x, w1)" for x w1
    using keepsD[OF assms that] by (simp add: on_store_def)
  have undone: "R (mstate w) (tabs w, uid_seq w1)" if "body (spend w) = (x, w1)" for x w1
    using body[OF that] store_rollback by (simp add: mstate_def)
  show "on_store R w w'"
    using run body undone by (cases r) (fastforce simp: step_iffs on_store_def store_refl)+
qed

lemma st_uuid:
  assumes "\<And>u. keeps (on_store R) (f u)"
  shows "keeps (on_store R) (withUUID f)"
proof (rule keepsI)
  fix w r w' assume run: "withUUID f w = (r, w')"
  show "on_store R w w'"
  proof (cases "uuids w")
    case (Cons u us)
    then show ?thesis using keepsD[OF assms, of u "w\<lparr>uuids := us\<rparr>"] run by (simp add: withUUID_def on_store_def)
  qed (use run in \<open>simp add: withUUID_def on_store_def store_refl\<close>)
qed

lemma st_other: "keeps (on_store R) randRead" "keeps (on_store R) (asks g)" "keeps (on_store R) nextValidity"
  by (auto simp: keeps_def on_store_def mstate_def nextValidity_def randRead_def asks_def store_refl split: list.splits)

lemma bx_fst: "keeps (on_store R) m \<Longrightarrow> keeps (on_box R) (onFst m)"
  by (auto simp: keeps_def on_box_def onFst_def split: prod.splits) (metis snd_conv)

lemma bx_box: "(\<And>b. keeps (on_box R) (f b)) \<Longrightarrow> keeps (on_box R) (with_box f)"
  by (auto simp: keeps_def with_box_def)

lemma bx_local: "keeps (on_box R) (set_snapshot rs)" "keeps (on_box R) (write_resp r)"
  by (auto simp: keeps_def on_box_def on_store_def set_snapshot_def write_resp_def store_refl split: list.splits)

lemma bx_each: "(\<And>x. keeps (on_box R) (f x)) \<Longrightarrow> keeps (on_box R) (each f xs)"
  by (induction xs) (auto intro: keeps_basic keeps_bindE refls transs)

lemmas store_rules = keeps_basic[OF refls(1)] keeps_handleE[OF transs(1)] keeps_bindE[OF transs(1)]
  keeps_ignoreE st_query st_tx st_uuid st_other keeps_if keeps_case_option keeps_case_prod keeps_case_sum keeps_Let

lemmas box_rules = keeps_basic[OF refls(2)] keeps_bindE[OF transs(2)] bx_fst bx_box bx_local bx_each
  keeps_if keeps_case_prod keeps_Let

end

section \<open>Well-formed stores\<close>

text \<open>The ids of the mailboxes, the keys of the folders, and where each UID is.\<close>

definition bids :: "db \<Rightarrow> string list" where "bids t = map b_id (mailboxes t)"
definition fkeys :: "db \<Rightarrow> (string \<times> string) list" where "fkeys t = map (\<lambda>f. (f_box f, f_name f)) (folders t)"
definition mkeys :: "db \<Rightarrow> (string \<times> string \<times> nat) list" where "mkeys t = map (\<lambda>g. (g_box g, g_folder g, g_uid g)) (messages t)"

definition mids :: "db \<Rightarrow> string list" where "mids t = map g_id (messages t)"

lemmas key_defs = bids_def fkeys_def mkeys_def mids_def

definition store_ok :: "mstate \<Rightarrow> bool" where
  "store_ok s \<longleftrightarrow> (case s of (t, n) \<Rightarrow> distinct (bids t) \<and> distinct (fkeys t) \<and> distinct (mids t) \<and> distinct (map (\<lambda>(b, f, u). u) (mkeys t)) \<and>
     (\<forall>(b, f)\<in>set (fkeys t). b \<in> set (bids t)) \<and> (\<forall>b\<in>set (bids t). (b, ''INBOX'') \<in> set (fkeys t)) \<and>
     (\<forall>(b, f, u)\<in>set (mkeys t). (b, f) \<in> set (fkeys t) \<and> u \<le> n))"

lemma store_okI:
  assumes "distinct (bids t)" "distinct (fkeys t)" "distinct (mids t)" "distinct (map (\<lambda>(b, f, u). u) (mkeys t))"
    "\<And>b f. (b, f) \<in> set (fkeys t) \<Longrightarrow> b \<in> set (bids t)" "\<And>b. b \<in> set (bids t) \<Longrightarrow> (b, ''INBOX'') \<in> set (fkeys t)"
    "\<And>b f u. (b, f, u) \<in> set (mkeys t) \<Longrightarrow> (b, f) \<in> set (fkeys t) \<and> u \<le> n"
  shows "store_ok (t, n)"
  using assms unfolding store_ok_def by fast

lemma store_okD:
  assumes "store_ok (t, n)"
  shows "distinct (bids t)" "distinct (fkeys t)" "distinct (mids t)" "distinct (map (\<lambda>(b, f, u). u) (mkeys t))"
    "(b, f) \<in> set (fkeys t) \<Longrightarrow> b \<in> set (bids t)" "b \<in> set (bids t) \<Longrightarrow> (b, ''INBOX'') \<in> set (fkeys t)"
    "(b, f, u) \<in> set (mkeys t) \<Longrightarrow> (b, f) \<in> set (fkeys t)" "(b, f, u) \<in> set (mkeys t) \<Longrightarrow> u \<le> n"
  using assms unfolding store_ok_def by fast+

text \<open>Messages that share a folder now, both of them older than the number, shared one then.\<close>

definition coherent :: "db \<Rightarrow> nat \<Rightarrow> db \<Rightarrow> bool" where
  "coherent t n t' \<longleftrightarrow> (\<forall>b f u v. (b, f, u) \<in> set (mkeys t') \<and> (b, f, v) \<in> set (mkeys t') \<and> u \<le> n \<and> v \<le> n \<longrightarrow>
     (\<exists>f'. (b, f', u) \<in> set (mkeys t) \<and> (b, f', v) \<in> set (mkeys t)))"

definition store_keeps :: "mstate \<Rightarrow> mstate \<Rightarrow> bool" where
  "store_keeps s s' \<longleftrightarrow> snd s \<le> snd s' \<and> (store_ok s \<longrightarrow> store_ok s' \<and> coherent (fst s) (snd s) (fst s'))"

lemma coherent_refl: "coherent t n t"
  unfolding coherent_def by blast

lemma coherent_trans:
  assumes "coherent t n u" "coherent u m v" "n \<le> m"
  shows "coherent t n v"
  using assms unfolding coherent_def by (meson order_trans)

interpretation mailstore: store_relation store_keeps
proof
  fix s s' s'' show "store_keeps s s''" if "store_keeps s s'" "store_keeps s' s''"
    using that unfolding store_keeps_def by (meson coherent_trans order_trans)
next
  fix t n t' n' assume "store_keeps (t, n) (t', n')"
  then show "store_keeps (t, n) (t, n')" by (fastforce simp: store_keeps_def store_ok_def coherent_refl)
qed (simp add: store_keeps_def coherent_refl)

text \<open>Dropping messages, and what changes no key.\<close>

lemma filter_keys:
  assumes "messages t' = filter P (messages t)"
  shows "set (mkeys t') \<subseteq> set (mkeys t)" "distinct (mids t) \<Longrightarrow> distinct (mids t')"
    "distinct (map (\<lambda>(b, f, u). u) (mkeys t)) \<Longrightarrow> distinct (map (\<lambda>(b, f, u). u) (mkeys t'))"
  using assms by (auto simp: key_defs distinct_map_filter comp_def)

lemma keeps_fewer:
  assumes "bids t' = bids t" "fkeys t' = fkeys t" "messages t' = filter P (messages t)"
  shows "store_keeps (t, n) (t', n)"
proof -
  have "store_ok (t', n)" if ok: "store_ok (t, n)"
    by (rule store_okI) (use assms(1,2) filter_keys[OF assms(3)] store_okD[OF ok] in auto)
  moreover have "coherent t n t'" using filter_keys(1)[OF assms(3)] unfolding coherent_def by blast
  ultimately show ?thesis by (simp add: store_keeps_def)
qed

lemma keeps_same:
  assumes "bids t' = bids t" "fkeys t' = fkeys t" "mids t' = mids t" "mkeys t' = mkeys t"
  shows "store_keeps (t, n) (t', n)"
  using assms by (simp add: store_keeps_def store_ok_def coherent_def) blast

text \<open>A new message under a new number.\<close>

lemma keeps_append:
  assumes "bids t' = bids t" "fkeys t' = fkeys t" "mkeys t' = mkeys t @ [(b, f, Suc n)]" "(b, f) \<in> set (fkeys t)"
    "mids t' = mids t @ [i]" "i \<notin> set (mids t)"
  shows "store_keeps (t, n) (t', Suc n)"
proof -
  have "store_ok (t', Suc n)" if "store_ok (t, n)"
    using assms that by (fastforce simp: store_ok_def)
  then show ?thesis using assms by (auto simp: store_keeps_def coherent_def)
qed

text \<open>A mailbox with its folders, or one folder.\<close>

lemma keeps_folders:
  assumes "bids t' = bids t @ bs" "fkeys t' = fkeys t @ fs" "messages t' = messages t"
    "distinct bs" "distinct fs" "set bs \<inter> set (bids t) = {}" "store_ok (t, n) \<Longrightarrow> set fs \<inter> set (fkeys t) = {}"
    "fst ` set fs \<subseteq> set (bids t @ bs)" "\<And>b. b \<in> set bs \<Longrightarrow> (b, ''INBOX'') \<in> set fs"
  shows "store_keeps (t, n) (t', n)"
proof -
  have "store_ok (t', n)" if ok: "store_ok (t, n)"
  proof -
    have "distinct (bids t @ bs)" "distinct (fkeys t @ fs)" using assms(4-6) assms(7)[OF ok] ok by (auto simp: store_ok_def)
    moreover have "\<forall>(b, f)\<in>set (fkeys t @ fs). b \<in> set (bids t @ bs)" using assms(8) ok by (fastforce simp: store_ok_def)
    moreover have "\<forall>b\<in>set (bids t @ bs). (b, ''INBOX'') \<in> set (fkeys t @ fs)" using assms(9) ok by (auto simp: store_ok_def)
    moreover have "mkeys t' = mkeys t" "mids t' = mids t" using assms(3) by (simp_all add: key_defs)
    ultimately show ?thesis using ok assms(1,2) by (fastforce simp: store_ok_def)
  qed
  moreover have "mkeys t' = mkeys t" using assms(3) by (simp add: key_defs)
  ultimately show ?thesis by (simp add: store_keeps_def coherent_def) blast
qed

text \<open>Mailboxes or folders that go with all their messages.\<close>

lemma keeps_drop:
  assumes "store_ok (t, n) \<Longrightarrow> bids t' = filter P (bids t)" "fkeys t' = filter Q (fkeys t)"
    "messages t' = filter (\<lambda>g. Q (g_box g, g_folder g)) (messages t)"
    "\<And>b f. b \<in> set (bids t) \<Longrightarrow> Q (b, f) \<Longrightarrow> P b" "\<And>b. P b \<Longrightarrow> Q (b, ''INBOX'')"
  shows "store_keeps (t, n) (t', n)"
proof -
  have "store_ok (t', n)" if ok: "store_ok (t, n)"
  proof (rule store_okI)
    show "distinct (map (\<lambda>(b, f, u). u) (mkeys t'))" "distinct (mids t')"
      using filter_keys[OF assms(3)] store_okD[OF ok] by blast+
    show "distinct (bids t')" "distinct (fkeys t')" using store_okD(1,2)[OF ok] assms(1)[OF ok] assms(2) by simp_all
  next
    fix b f assume "(b, f) \<in> set (fkeys t')"
    then have "(b, f) \<in> set (fkeys t)" "Q (b, f)" using assms(2) by simp_all
    then show "b \<in> set (bids t')" using store_okD(5)[OF ok] assms(1)[OF ok] assms(4) by simp
  next
    fix b assume "b \<in> set (bids t')"
    then show "(b, ''INBOX'') \<in> set (fkeys t')" using store_okD(6)[OF ok] assms(1)[OF ok] assms(2,5) by simp
  next
    fix b f u assume "(b, f, u) \<in> set (mkeys t')"
    then have "(b, f, u) \<in> set (mkeys t)" "Q (b, f)" using assms(3) by (auto simp: mkeys_def)
    then show "(b, f) \<in> set (fkeys t') \<and> u \<le> n" using store_okD(7,8)[OF ok] assms(2) by simp
  qed
  moreover have "coherent t n t'" using filter_keys(1)[OF assms(3)] unfolding coherent_def by blast
  ultimately show ?thesis by (simp add: store_keeps_def)
qed

text \<open>A folder takes another name, which no folder of the mailbox has; its messages go with it.\<close>

lemma keeps_rename:
  assumes "bids t' = bids t" "fkeys t' = map (\<lambda>(b, f). if (b, f) = (i, old) then (i, new) else (b, f)) (fkeys t)"
    "mkeys t' = map (\<lambda>(b, f, u). if (b, f) = (i, old) then (i, new, u) else (b, f, u)) (mkeys t)"
    "(i, new) \<notin> set (fkeys t)" "old \<noteq> ''INBOX''" "mids t' = mids t"
  shows "store_keeps (t, n) (t', n)"
proof -
  let ?r = "\<lambda>(b, f). if (b, f) = (i, old) then (i, new) else (b, f)"
  have "store_ok (t', n) \<and> coherent t n t'" if ok: "store_ok (t, n)"
  proof -
    have key: "\<exists>f0. (b, f0) \<in> set (fkeys t) \<and> (b, f) = ?r (b, f0)" if "(b, f) \<in> set (fkeys t')" for b f
      using that unfolding assms(2) by (auto split: if_splits)
    have moved: "?r (b, f) \<in> set (fkeys t')" if "(b, f) \<in> set (fkeys t)" for b f
      unfolding assms(2) set_map using that by (rule imageI)
    have at: "\<exists>f0. (b, f0, u) \<in> set (mkeys t) \<and> (b, f) = ?r (b, f0)" if "(b, f, u) \<in> set (mkeys t')" for b f u
      using that unfolding assms(3) by (auto split: if_splits)
    have "store_ok (t', n)"
    proof (rule store_okI)
      have "inj_on ?r (set (fkeys t))" using assms(4) by (auto simp: inj_on_def split: if_splits)
      then show "distinct (fkeys t')" using store_okD(2)[OF ok] unfolding assms(2) distinct_map by simp
      have "map (\<lambda>(b, f, u). u) (mkeys t') = map (\<lambda>(b, f, u). u) (mkeys t)"
        unfolding assms(3) by (auto split: if_splits)
      then show "distinct (map (\<lambda>(b, f, u). u) (mkeys t'))" using store_okD(4)[OF ok] by simp
      show "distinct (bids t')" "distinct (mids t')" using store_okD(1,3)[OF ok] assms(1,6) by simp_all
    next
      fix b f assume "(b, f) \<in> set (fkeys t')"
      from key[OF this] obtain f0 where "(b, f0) \<in> set (fkeys t)" by blast
      from store_okD(5)[OF ok this] show "b \<in> set (bids t')" using assms(1) by simp
    next
      fix b assume "b \<in> set (bids t')"
      then have "b \<in> set (bids t)" using assms(1) by simp
      from moved[OF store_okD(6)[OF ok this]] have "?r (b, ''INBOX'') \<in> set (fkeys t')" .
      then show "(b, ''INBOX'') \<in> set (fkeys t')" using assms(5) by simp
    next
      fix b f u assume "(b, f, u) \<in> set (mkeys t')"
      from at[OF this] obtain f0 where f0: "(b, f0, u) \<in> set (mkeys t)" "(b, f) = ?r (b, f0)" by blast
      from moved[OF store_okD(7)[OF ok f0(1)]] have "(b, f) \<in> set (fkeys t')" unfolding f0(2) .
      with store_okD(8)[OF ok f0(1)] show "(b, f) \<in> set (fkeys t') \<and> u \<le> n" by simp
    qed
    moreover have "coherent t n t'"
      unfolding coherent_def
    proof (intro allI impI)
      fix b f u v assume "(b, f, u) \<in> set (mkeys t') \<and> (b, f, v) \<in> set (mkeys t') \<and> u \<le> n \<and> v \<le> n"
      then have "(b, f, u) \<in> set (mkeys t')" "(b, f, v) \<in> set (mkeys t')" by simp_all
      from at[OF this(1)] at[OF this(2)] obtain f0 f1 where f: "(b, f0, u) \<in> set (mkeys t)" "(b, f) = ?r (b, f0)" "(b, f1, v) \<in> set (mkeys t)" "(b, f) = ?r (b, f1)"
        by blast
      then have "(b, f0) \<in> set (fkeys t)" "(b, f1) \<in> set (fkeys t)" using store_okD(7)[OF ok] by blast+
      then have "f0 = f1" using f(2,4) assms(4) by (auto split: if_splits)
      with f show "\<exists>f'. (b, f', u) \<in> set (mkeys t) \<and> (b, f', v) \<in> set (mkeys t)" by blast
    qed
    ultimately show ?thesis by blast
  qed
  then show ?thesis by (simp add: store_keeps_def)
qed

text \<open>All messages of INBOX go to a folder that has none.\<close>

lemma keeps_refile:
  assumes "bids t' = bids t" "fkeys t' = fkeys t" "mids t' = mids t"
    "mkeys t' = map (\<lambda>(b, f, u). if (b, f) = (i, old) then (i, new, u) else (b, f, u)) (mkeys t)"
    "(i, new) \<in> set (fkeys t)" "\<And>u. (i, new, u) \<notin> set (mkeys t)"
  shows "store_keeps (t, n) (t', n)"
proof -
  let ?r = "\<lambda>(b, f). if (b, f) = (i, old) then (i, new) else (b, f)"
  have at: "\<exists>f0. (b, f0, u) \<in> set (mkeys t) \<and> (b, f) = ?r (b, f0)" if "(b, f, u) \<in> set (mkeys t')" for b f u
    using that unfolding assms(4) by (auto split: if_splits)
  have "store_ok (t', n)" if ok: "store_ok (t, n)"
  proof (rule store_okI)
    have "map (\<lambda>(b, f, u). u) (mkeys t') = map (\<lambda>(b, f, u). u) (mkeys t)"
      unfolding assms(4) by (auto split: if_splits)
    then show "distinct (map (\<lambda>(b, f, u). u) (mkeys t'))" using store_okD(4)[OF ok] by simp
    show "distinct (bids t')" "distinct (fkeys t')" "distinct (mids t')" using store_okD(1-3)[OF ok] assms(1-3) by simp_all
    show "b \<in> set (bids t')" if "(b, f) \<in> set (fkeys t')" for b f using that store_okD(5)[OF ok] assms(1,2) by simp
    show "(b, ''INBOX'') \<in> set (fkeys t')" if "b \<in> set (bids t')" for b using that store_okD(6)[OF ok] assms(1,2) by simp
  next
    fix b f u assume "(b, f, u) \<in> set (mkeys t')"
    from at[OF this] obtain f0 where f0: "(b, f0, u) \<in> set (mkeys t)" "(b, f) = ?r (b, f0)" by blast
    have "(b, f) \<in> set (fkeys t)" using store_okD(7)[OF ok f0(1)] f0(2) assms(5) by (auto split: if_splits)
    then show "(b, f) \<in> set (fkeys t') \<and> u \<le> n" using store_okD(8)[OF ok f0(1)] assms(2) by simp
  qed
  moreover have "coherent t n t'"
    unfolding coherent_def
  proof (intro allI impI)
    fix b f u v assume "(b, f, u) \<in> set (mkeys t') \<and> (b, f, v) \<in> set (mkeys t') \<and> u \<le> n \<and> v \<le> n"
    then have "(b, f, u) \<in> set (mkeys t')" "(b, f, v) \<in> set (mkeys t')" by simp_all
    from at[OF this(1)] at[OF this(2)] obtain f0 f1
      where f: "(b, f0, u) \<in> set (mkeys t)" "(b, f) = ?r (b, f0)" "(b, f1, v) \<in> set (mkeys t)" "(b, f) = ?r (b, f1)" by blast
    then have "f0 = f1" using assms(6) by (auto split: if_splits)
    with f show "\<exists>f'. (b, f', u) \<in> set (mkeys t) \<and> (b, f', v) \<in> set (mkeys t)" by blast
  qed
  ultimately show ?thesis by (simp add: store_keeps_def)
qed

text \<open>One message takes a new number, and perhaps another folder.\<close>

lemma keeps_renumber:
  assumes "bids t' = bids t" "fkeys t' = fkeys t" "mids t' = mids t"
    "messages t' = upd_where (\<lambda>g. g_id g = i \<and> g_box g = b) (\<lambda>g. g\<lparr>g_uid := Suc n, g_folder := fl\<rparr>) (messages t)"
    "(b, fl) \<in> set (fkeys t)"
  shows "store_keeps (t, n) (t', Suc n)"
proof -
  have at: "(c, f, u) \<in> set (mkeys t) \<or> (c, f, u) = (b, fl, Suc n)" if "(c, f, u) \<in> set (mkeys t')" for c f u
    using that assms(4) by (auto simp: mkeys_def table_simps)
  have "store_ok (t', Suc n)" if ok: "store_ok (t, n)"
  proof (rule store_okI)
    have d: "distinct (map g_uid (messages t))" "distinct (map g_id (messages t))" "\<forall>g\<in>set (messages t). g_uid g \<le> n"
      using store_okD(3,4)[OF ok] store_okD(8)[OF ok] by (auto simp: mids_def mkeys_def comp_def)
    have inj: "inj_on g_uid (set (messages t))" "inj_on g_id (set (messages t))" using d(1,2) by (simp_all add: distinct_map)
    have "inj_on g_uid (set (messages t'))"
    proof (rule inj_onI)
      fix x y assume x: "x \<in> set (messages t')" and y: "y \<in> set (messages t')" and xy: "g_uid x = g_uid y"
      let ?f = "\<lambda>g. g\<lparr>g_uid := Suc n, g_folder := fl\<rparr>" and ?P = "\<lambda>g. g_id g = i \<and> g_box g = b"
      obtain p q where p: "p \<in> set (messages t)" "x = (if ?P p then ?f p else p)" and q: "q \<in> set (messages t)" "y = (if ?P q then ?f q else q)"
        using x y unfolding assms(4) upd_where_def set_map by blast
      have "p = q"
      proof (cases "?P p"; cases "?P q")
        assume "?P p" "?P q" then show ?thesis using inj(2) p(1) q(1) by (simp add: inj_on_def)
      next
        assume "?P p" "\<not> ?P q" then show ?thesis using xy p(2) q d(3) by auto
      next
        assume "\<not> ?P p" "?P q" then show ?thesis using xy p q(2) d(3) by auto
      next
        assume "\<not> ?P p" "\<not> ?P q"
        then have "g_uid p = g_uid q" using xy p(2) q(2) by (auto split: if_splits)
        then show ?thesis using inj(1) p(1) q(1) by (simp add: inj_on_def)
      qed
      then show "x = y" using p(2) q(2) by simp
    qed
    moreover have "distinct (messages t')" using store_okD(3)[OF ok] assms(3) by (metis distinct_map mids_def)
    ultimately show "distinct (map (\<lambda>(b, f, u). u) (mkeys t'))" by (simp add: mkeys_def comp_def distinct_map)
    show "distinct (bids t')" "distinct (fkeys t')" "distinct (mids t')" using store_okD(1-3)[OF ok] assms(1-3) by simp_all
    show "b \<in> set (bids t')" if "(b, f) \<in> set (fkeys t')" for b f using that store_okD(5)[OF ok] assms(1,2) by simp
    show "(b, ''INBOX'') \<in> set (fkeys t')" if "b \<in> set (bids t')" for b using that store_okD(6)[OF ok] assms(1,2) by simp
  next
    fix c f u assume "(c, f, u) \<in> set (mkeys t')"
    from at[OF this] show "(c, f) \<in> set (fkeys t') \<and> u \<le> Suc n"
      using store_okD(7,8)[OF ok, of c f u] assms(2,5) by auto
  qed
  moreover have "coherent t n t'"
    unfolding coherent_def
  proof (intro allI impI)
    fix c f u v assume "(c, f, u) \<in> set (mkeys t') \<and> (c, f, v) \<in> set (mkeys t') \<and> u \<le> n \<and> v \<le> n"
    then have "(c, f, u) \<in> set (mkeys t)" "(c, f, v) \<in> set (mkeys t)" using at[of c f u] at[of c f v] by auto
    then show "\<exists>f'. (c, f', u) \<in> set (mkeys t) \<and> (c, f', v) \<in> set (mkeys t)" by blast
  qed
  ultimately show ?thesis by (simp add: store_keeps_def)
qed

section \<open>The operations\<close>

lemma has_folder_key: "has_folder t b f \<longleftrightarrow> (b, f) \<in> set (fkeys t)"
  by (auto simp: has_folder_def fkeys_def)

lemma insert_folder_keeps:
  assumes "insert_folder v box name now t = (Inr r, t')"
  shows "store_keeps (t, n) (t', n)"
proof (cases "t' = t")
  case False
  then have "t' = t\<lparr>folders := folders t @ [\<lparr>f_box = box, f_name = name, f_validity = v, f_subscribed = True\<rparr>]\<rparr>"
    "(box, name) \<notin> set (fkeys t)" "box \<in> set (bids t)"
    using assms by (auto simp: insert_folder_def fkeys_def bids_def split: if_splits)
  then show ?thesis
    by (intro keeps_folders[where bs = "[]" and fs = "[(box, name)]"]) (auto simp: bids_def fkeys_def)
qed (simp add: mailstore.store_refl)

lemma st_add_folder: "keeps (on_store store_keeps) (add_folder box name)"
  unfolding add_folder_def by (intro mailstore.store_rules mailstore.st_sql insert_folder_keeps)

lemma st_new_folder: "keeps (on_store store_keeps) (new_folder box name)"
  unfolding new_folder_def
  by (intro mailstore.store_rules mailstore.st_sql)
    (auto split: prod.splits sum.splits if_splits intro: insert_folder_keeps)

lemma delete_folder_keeps:
  assumes "delete_folder box name now t = (Inr r, t')" "name \<noteq> ''INBOX''"
  shows "store_keeps (t, n) (t', n)"
proof (cases "t' = t")
  case False
  then have t': "t' = t\<lparr>folders := del_where (\<lambda>f. f_box f = box \<and> f_name f = name) (folders t),
      messages := del_where (in_folder box name) (messages t)\<rparr>"
    using assms(1) by (auto simp: delete_folder_def Let_def split: if_splits)
  show ?thesis
    by (rule keeps_drop[where P = "\<lambda>_. True" and Q = "\<lambda>(b, f). \<not> (b = box \<and> f = name)"])
      (use assms(2) in \<open>auto simp: t' key_defs del_where_def filter_map comp_def in_folder_def\<close>)
qed (simp add: mailstore.store_refl)

lemma refile_keys:
  "bids (refile i old new t) = bids t" "fkeys (refile i old new t) = fkeys t" "mids (refile i old new t) = mids t"
  "mkeys (refile i old new t) = map (\<lambda>(b, f, u). if (b, f) = (i, old) then (i, new, u) else (b, f, u)) (mkeys t)"
  by (auto simp: refile_def key_defs upd_where_def in_folder_def)

lemma rename_folder_keeps:
  assumes "rename_folder box old new now t = (Inr r, t')" "old \<noteq> ''INBOX''"
  shows "store_keeps (t, n) (t', n)"
proof (cases "t' = t")
  case False
  let ?t = "t\<lparr>folders := upd_where (\<lambda>f. f_box f = box \<and> f_name f = old) (\<lambda>f. f\<lparr>f_name := new\<rparr>) (folders t)\<rparr>"
  from False have t': "t' = refile box old new ?t" and new: "new \<noteq> old \<longrightarrow> \<not> has_folder t box new"
    using assms(1) by (auto simp: rename_folder_def Let_def split: if_splits)
  have keys: "bids t' = bids t" "mids t' = mids t" "fkeys t' = map (\<lambda>(b, f). if (b, f) = (box, old) then (box, new) else (b, f)) (fkeys t)"
    "mkeys t' = map (\<lambda>(b, f, u). if (b, f) = (box, old) then (box, new, u) else (b, f, u)) (mkeys t)"
    unfolding t' by (auto simp: refile_keys) (auto simp: key_defs upd_where_def)
  show ?thesis
  proof (cases "new = old")
    case True
    then have "fkeys t' = fkeys t" "mkeys t' = mkeys t" using keys(3,4) by (auto intro: map_idI)
    then show ?thesis using keys(1,2) by (intro keeps_same)
  next
    case False
    then show ?thesis using new keys assms(2) by (intro keeps_rename[of t' t box old new n]) (simp_all add: has_folder_key)
  qed
qed (simp add: mailstore.store_refl)

text \<open>Numbering and storing a row.\<close>

lemma insert_message_keeps:
  assumes "insert_message g now t = (Inr r, t')" "g_uid g = Suc n"
  shows "store_keeps (t, n) (t', Suc n)"
proof -
  have t': "t' = t\<lparr>messages := messages t @ [g]\<rparr>" "\<not> clashes (\<lambda>_. True) g_id g (messages t)" "(g_box g, g_folder g) \<in> set (fkeys t)"
    using assms(1) by (auto simp: insert_message_def has_folder_key split: if_splits)
  show ?thesis
    by (rule keeps_append[OF _ _ _ t'(3), where i = "g_id g"]) (use assms(2) t'(1,2) in \<open>auto simp: key_defs clashes_def\<close>)
qed

lemma skip_number: "store_keeps (t, n) (t, Suc n)"
proof -
  have "store_ok (t, Suc n)" if "store_ok (t, n)"
    by (rule store_okI) (use store_okD[OF that] le_SucI in blast)+
  then show ?thesis by (simp add: store_keeps_def coherent_refl)
qed

lemma st_numbered:
  assumes "\<And>uid i w r w'. k uid i w = (r, w') \<Longrightarrow> uid_seq w' = uid_seq w \<and>
      (tabs w' = tabs w \<or> (\<exists>g now q. g_uid g = uid \<and> insert_message g now (tabs w) = (Inr q, tabs w')))"
  shows "keeps (on_store store_keeps) (bindE nextUID (\<lambda>uid. withUUID (k uid)))"
proof (rule keepsI)
  fix w r w' assume run: "bindE nextUID (\<lambda>uid. withUUID (k uid)) w = (r, w')"
  show "on_store store_keeps w w'"
  proof (cases "uid_seq w < seqMax")
    case False
    then show ?thesis using run by (auto simp: bindE_def nextUID_def on_store_def mailstore.store_refl)
  next
    case True
    show ?thesis
    proof (cases "uuids w")
      case Nil
      then show ?thesis using run True by (auto simp: bindE_def nextUID_def withUUID_def on_store_def mstate_def skip_number)
    next
      case (Cons i us)
      then have "k (Suc (uid_seq w)) i (w\<lparr>uid_seq := Suc (uid_seq w), uuids := us\<rparr>) = (r, w')"
        using run True by (simp add: bindE_def nextUID_def withUUID_def)
      from assms[OF this] show ?thesis
        using insert_message_keeps[of _ _ "tabs w" _ "tabs w'" "uid_seq w"]
        by (auto simp: on_store_def mstate_def skip_number)
    qed
  qed
qed

lemma row_uid: "g_uid (appended_row M box folder raw flags date clock i uid) = uid" "g_uid (delivered_row M p i uid now) = uid"
  by (simp_all add: appended_row_def delivered_row_def Let_def)

lemma st_AppendIMAP: "keeps (on_store store_keeps) (AppendIMAP M box folder raw flags date)"
  unfolding AppendIMAP_def
proof (rule keeps_bindE[OF mailstore.transs(1) mailstore.st_other(2)], rule st_numbered)
  fix clock uid i w r w'
  assume "bindE (sql (insert_message (appended_row M box folder raw flags date clock i uid))) (\<lambda>_. returnE ()) w = (r, w')"
  then show "uid_seq w' = uid_seq w \<and> (tabs w' = tabs w \<or> (\<exists>g now q. g_uid g = uid \<and> insert_message g now (tabs w) = (Inr q, tabs w')))"
    using row_uid(1) by (cases r) (auto simp: step_iffs)
qed

lemma st_Inb_Deliver: "keeps (on_store store_keeps) (Inb_Deliver M p)"
  unfolding Inb_Deliver_def
proof (rule keeps_bindE[OF mailstore.transs(1) st_add_folder], rule st_numbered)
  fix uid i w r w'
  assume "handleE (sql (\<lambda>now. insert_message (delivered_row M p i uid now) now))
       (\<lambda>e. throwE (if e = ErrUnique then Inb_ErrDuplicate else e)) returnE w = (r, w')"
  then show "uid_seq w' = uid_seq w \<and> (tabs w' = tabs w \<or> (\<exists>g now q. g_uid g = uid \<and> insert_message g now (tabs w) = (Inr q, tabs w')))"
    using row_uid(2) by (auto simp: step_iffs)
qed

end
