(* ===== verification/ImapSync.thy ===== *)
theory ImapSync imports ImapStore begin

text \<open>
  The operations on received mail as steps of one system: deliveries, the web client, IMAP clients, the
  administration of mailboxes and the deletion of domains and tenants, in any order and failing anywhere.
  What holds after any number of them, and what it means for an IMAP client that polls.
\<close>

section \<open>The remaining operations\<close>

lemma insert_mailbox_keeps:
  assumes "insert_mailbox v v' b now t = (Inr r, t')"
  shows "store_keeps (t, n) (t', n)"
proof -
  have t': "t' = t\<lparr>mailboxes := mailboxes t @ [b],
        folders := folders t @ [\<lparr>f_box = b_id b, f_name = ''INBOX'', f_validity = v, f_subscribed = True\<rparr>,
          \<lparr>f_box = b_id b, f_name = ''Junk'', f_validity = v', f_subscribed = True\<rparr>]\<rparr>" and new: "b_id b \<notin> set (bids t)"
    using assms by (auto simp: insert_mailbox_def bids_def clashes_def split: if_splits)
  show ?thesis
  proof (rule keeps_folders[where bs = "[b_id b]" and fs = "[(b_id b, ''INBOX''), (b_id b, ''Junk'')]"])
    assume ok: "store_ok (t, n)"
    have "(b_id b, f) \<notin> set (fkeys t)" for f using store_okD(5)[OF ok] new by blast
    then show "set [(b_id b, ''INBOX''), (b_id b, ''Junk'')] \<inter> set (fkeys t) = {}" by auto
  qed (use new in \<open>auto simp: t' bids_def fkeys_def\<close>)
qed

lemma st_CreateMailbox: "keeps (on_store store_keeps) (Inb_CreateMailbox d l nm owner)"
  unfolding Inb_CreateMailbox_def MailboxByID_def mailbox_where_def
  by (intro mailstore.store_rules mailstore.st_sql insert_mailbox_keeps)

lemma upd_same:
  assumes "\<And>g. g_box (f g) = g_box g" "\<And>g. g_folder (f g) = g_folder g" "\<And>g. g_uid (f g) = g_uid g" "\<And>g. g_id (f g) = g_id g"
  shows "store_keeps (t, n) (t\<lparr>messages := upd_where P f (messages t)\<rparr>, n)"
  by (rule keeps_same) (auto simp: key_defs upd_where_def assms)

lemma st_update:
  assumes "\<And>now g. g_box (f now g) = g_box g" "\<And>now g. g_folder (f now g) = g_folder g" "\<And>now g. g_uid (f now g) = g_uid g"
    "\<And>now g. g_id (f now g) = g_id g"
  shows "keeps (on_store store_keeps) (update_message P f)"
  unfolding update_message_def
  by (rule mailstore.st_sql) (auto split: option.splits intro: upd_same mailstore.store_refl simp: assms)

lemma st_MarkRead: "keeps (on_store store_keeps) (MarkRead ws i)"
  unfolding MarkRead_def by (rule st_update) simp_all

lemma st_AssignOwner: "keeps (on_store store_keeps) (AssignOwner ws i owner)"
  unfolding AssignOwner_def Let_def
  by (intro mailstore.store_rules mailstore.st_sql) (auto simp: key_defs upd_where_def intro!: keeps_same)

text \<open>The cascades.\<close>

lemma drop_boxes_keeps: "store_keeps (t, n) (drop_boxes P t, n)"
proof -
  let ?ids = "b_id ` set (filter P (mailboxes t))"
  show ?thesis
  proof (rule keeps_drop[where P = "\<lambda>i. i \<notin> ?ids" and Q = "\<lambda>(b, f). b \<notin> ?ids"])
    assume ok: "store_ok (t, n)"
    have "P b \<longleftrightarrow> b_id b \<in> ?ids" if "b \<in> set (mailboxes t)" for b
      using store_okD(1)[OF ok] that by (auto simp: bids_def distinct_map inj_on_def)
    then have "filter (\<lambda>b. \<not> P b) (mailboxes t) = filter (\<lambda>b. b_id b \<notin> ?ids) (mailboxes t)" by (intro filter_cong) auto
    then show "bids (drop_boxes P t) = filter (\<lambda>i. i \<notin> ?ids) (bids t)"
      by (simp add: bids_def drop_boxes_def Let_def del_where_def filter_map comp_def)
  qed (auto simp: drop_boxes_def Let_def fkeys_def del_where_def filter_map comp_def)
qed

lemma drop_domains_keeps: "drop_domains P t = Inr t' \<Longrightarrow> store_keeps (t, n) (t', n)"
proof -
  assume "drop_domains P t = Inr t'"
  then obtain Q where "bids t' = bids (drop_boxes Q t)" "fkeys t' = fkeys (drop_boxes Q t)" "mids t' = mids (drop_boxes Q t)"
    "mkeys t' = mkeys (drop_boxes Q t)"
    by (auto simp: drop_domains_def Let_def key_defs split: if_splits)
  from keeps_same[OF this] drop_boxes_keeps show ?thesis by (rule mailstore.store_trans[rotated])
qed

lemma drop_workspaces_keeps: "drop_workspaces P t = Inr t' \<Longrightarrow> store_keeps (t, n) (t', n)"
proof -
  assume "drop_workspaces P t = Inr t'"
  then obtain Q R t1 where t1: "drop_domains R t = Inr t1" and "bids t' = bids (drop_boxes Q t1)" "fkeys t' = fkeys (drop_boxes Q t1)"
    "mids t' = mids (drop_boxes Q t1)" "mkeys t' = mkeys (drop_boxes Q t1)"
    by (auto simp: drop_workspaces_def Let_def key_defs split: sum.splits)
  from keeps_same[OF this(2-)] have "store_keeps (drop_boxes Q t1, n) (t', n)" .
  with drop_domains_keeps[OF t1] drop_boxes_keeps show ?thesis by (blast intro: mailstore.store_trans)
qed

lemma st_Delete: "keeps (on_store store_keeps) (Store_Delete ws name)" "keeps (on_store store_keeps) (DeleteOwned u slug)"
  unfolding Store_Delete_def DeleteOwned_def Let_def
  by (intro mailstore.store_rules mailstore.st_sql;
      auto split: sum.splits intro: drop_domains_keeps drop_workspaces_keeps)+

text \<open>\<open>MoveMessage\<close> draws a number only when the folder changes.\<close>

definition refolder :: "nat \<Rightarrow> string \<Rightarrow> message_row \<Rightarrow> message_row" where
  "refolder uid folder g = g\<lparr>g_uid := (if g_folder g \<noteq> folder then uid else g_uid g), g_folder := folder\<rparr>"

lemma refolder_keeps:
  assumes "\<exists>g\<in>set (messages t). g_box g = box \<and> g_id g = i \<and> g_folder g \<noteq> folder" "(box, folder) \<in> set (fkeys t)"
  shows "store_keeps (t, n) (t\<lparr>messages := upd_where (\<lambda>g. g_box g = box \<and> g_id g = i) (refolder (Suc n) folder) (messages t)\<rparr>, Suc n)"
proof (cases "store_ok (t, n)")
  case True
  from assms(1) obtain g where g: "g \<in> set (messages t)" "g_id g = i" "g_folder g \<noteq> folder" by blast
  have "h = g" if "h \<in> set (messages t)" "g_id h = i" for h
    using store_okD(3)[OF True] g that by (auto simp: mids_def distinct_map inj_on_def)
  then have fld: "g_folder h \<noteq> folder" if "h \<in> set (messages t)" "g_id h = i" for h using g(3) that by blast
  have "upd_where (\<lambda>g. g_box g = box \<and> g_id g = i) (refolder (Suc n) folder) (messages t) =
      upd_where (\<lambda>g. g_id g = i \<and> g_box g = box) (\<lambda>g. g\<lparr>g_uid := Suc n, g_folder := folder\<rparr>) (messages t)"
    unfolding upd_where_def by (rule map_cong) (simp_all add: refolder_def fld)
  moreover have "mids (t\<lparr>messages := upd_where P (\<lambda>g. g\<lparr>g_uid := Suc n, g_folder := folder\<rparr>) (messages t)\<rparr>) = mids t" for P
    by (simp add: mids_def map_upd_where)
  ultimately show ?thesis using assms(2)
    by (intro keeps_renumber[where i = i and b = box and fl = folder]) (simp_all add: bids_def fkeys_def)
qed (simp add: store_keeps_def)

lemma map_upd_on: "(\<And>r. r \<in> set rs \<Longrightarrow> P r \<Longrightarrow> k (f r) = k r) \<Longrightarrow> map k (upd_where P f rs) = map k rs"
  by (simp add: upd_where_def)

lemma refolder_same:
  assumes "\<not> (\<exists>g\<in>set (messages t). g_box g = box \<and> g_id g = i \<and> g_folder g \<noteq> folder)"
  shows "store_keeps (t, n) (t\<lparr>messages := upd_where (\<lambda>g. g_box g = box \<and> g_id g = i) (refolder u folder) (messages t)\<rparr>, n)"
proof (rule keeps_same)
  have "map (\<lambda>g. (g_box g, g_folder g, g_uid g)) (upd_where (\<lambda>g. g_box g = box \<and> g_id g = i) (refolder u folder) (messages t)) =
      map (\<lambda>g. (g_box g, g_folder g, g_uid g)) (messages t)"
    by (rule map_upd_on) (use assms in \<open>simp add: refolder_def\<close>)
  then show "mkeys (t\<lparr>messages := upd_where (\<lambda>g. g_box g = box \<and> g_id g = i) (refolder u folder) (messages t)\<rparr>) = mkeys t"
    by (simp add: mkeys_def)
qed (simp_all add: bids_def fkeys_def mids_def map_upd_where refolder_def)

lemma st_move_body: "keeps (on_store store_keeps) (bindE (add_folder box folder) (\<lambda>_.
     bindE (asks (\<lambda>w. \<exists>g\<in>set (messages (tabs w)). g_box g = box \<and> g_id g = i \<and> g_folder g \<noteq> folder)) (\<lambda>fresh.
     bindE (if fresh then nextUID else returnE 0) (\<lambda>uid.
     bindE (update_message (\<lambda>t g. g_box g = box \<and> g_id g = i) (\<lambda>now. refolder uid folder)) (\<lambda>g. returnE (g, True))))))"
proof (rule keepsI)
  fix w r w'
  let ?P = "\<lambda>t g. g_box g = box \<and> g_id g = i"
  let ?fresh = "\<lambda>w. \<exists>g\<in>set (messages (tabs w)). g_box g = box \<and> g_id g = i \<and> g_folder g \<noteq> folder"
  assume run: "bindE (add_folder box folder) (\<lambda>_. bindE (asks ?fresh) (\<lambda>fresh. bindE (if fresh then nextUID else returnE 0) (\<lambda>uid.
     bindE (update_message ?P (\<lambda>now. refolder uid folder)) (\<lambda>g. returnE (g, True))))) w = (r, w')"
  obtain a w1 where add: "add_folder box folder w = (a, w1)" by fastforce
  have R1: "store_keeps (mstate w) (mstate w1)" using keepsD[OF st_add_folder add] by (simp add: on_store_def)
  show "on_store store_keeps w w'"
  proof (cases a)
    case (Inl e)
    then show ?thesis using run add R1 by (simp add: bindE_def on_store_def)
  next
    case (Inr n1)
    have has: "(box, folder) \<in> set (fkeys (tabs w1))"
      using add Inr by (auto simp: add_folder_def step_iffs insert_folder_def fkeys_def split: if_splits)
    have rest: "bindE (if ?fresh w1 then nextUID else returnE 0) (\<lambda>uid.
       bindE (update_message ?P (\<lambda>now. refolder uid folder)) (\<lambda>g. returnE (g, True))) w1 = (r, w')"
      using run add Inr by (simp add: bindE_def asks_def)
    have upd: "uid_seq w3 = uid_seq w2 \<and> (tabs w3 = tabs w2 \<or> tabs w3 = (tabs w2)\<lparr>messages := upd_where (?P (tabs w2)) (refolder uid folder) (messages (tabs w2))\<rparr>)"
      if "bindE (update_message ?P (\<lambda>now. refolder uid folder)) (\<lambda>g. returnE (g, True)) w2 = (q, w3)" for uid w2 w3 q
      using that by (cases q) (auto simp: update_message_def step_iffs split: option.splits)
    have "store_keeps (mstate w1) (mstate w')"
    proof (cases "?fresh w1")
      case True
      show ?thesis
      proof (cases "uid_seq w1 < seqMax")
        case False
        then show ?thesis using rest True by (auto simp: bindE_def nextUID_def mailstore.store_refl)
      next
        case seq: True
        then have "bindE (update_message ?P (\<lambda>now. refolder (Suc (uid_seq w1)) folder)) (\<lambda>g. returnE (g, True))
            (w1\<lparr>uid_seq := Suc (uid_seq w1)\<rparr>) = (r, w')"
          using rest True by (simp add: bindE_def nextUID_def)
        from upd[OF this] show ?thesis
          using refolder_keeps[OF True has, of "uid_seq w1"] by (auto simp: mstate_def skip_number)
      qed
    next
      case False
      then have "bindE (update_message ?P (\<lambda>now. refolder 0 folder)) (\<lambda>g. returnE (g, True)) w1 = (r, w')"
        using rest unfolding if_not_P[OF False] by (simp add: bindE_def returnE_def)
      from upd[OF this] show ?thesis
        using refolder_same[OF False] by (auto simp: mstate_def mailstore.store_refl)
    qed
    with R1 show ?thesis unfolding on_store_def by (rule mailstore.store_trans)
  qed
qed

lemma st_MoveMessage: "keeps (on_store store_keeps) (MoveMessage box i folder)"
  unfolding MoveMessage_def refolder_def[symmetric]
  by (rule keeps_bindE[OF mailstore.transs(1) mailstore.store_rules(3)], rule mailstore.st_tx,
      rule keeps_bindE[OF mailstore.transs(1) mailstore.st_query], rule st_move_body)

text \<open>MOVE of IMAP: a row at a time, and back when one fails.\<close>

lemma add_row_keeps:
  assumes "add_row g w1 = (r, w2)" "g_uid g = Suc n" "uid_seq w1 = Suc n"
  shows "store_keeps (tabs w1, n) (mstate w2)"
proof (cases "insert_message g (db_now w1) (tabs w1)")
  case (Pair q t)
  show ?thesis
  proof (cases q)
    case (Inl e)
    then show ?thesis using assms Pair by (simp add: add_row_def mstate_def skip_number)
  next
    case (Inr x)
    from insert_message_keeps[OF Pair[unfolded Inr] assms(2)] show ?thesis
      using assms(1,3) Pair Inr by (auto simp: add_row_def mstate_def)
  qed
qed

lemma st_copy_each: "keeps (on_store store_keeps) (copy_each dest gs)"
proof (induction gs)
  case Nil
  show ?case by (simp add: mailstore.store_rules)
next
  case (Cons g gs)
  show ?case
  proof (rule keepsI)
    fix w r w' assume run: "copy_each dest (g # gs) w = (r, w')"
    show "on_store store_keeps w w'"
    proof (cases "uid_seq w < seqMax \<and> uuids w \<noteq> []")
      case False
      then show ?thesis using run
        by (auto simp: bindE_def nextUID_def withUUID_def on_store_def mstate_def mailstore.store_refl skip_number split: if_splits)
    next
      case True
      then obtain i us where us: "uuids w = i # us" by (cases "uuids w") auto
      let ?w = "w\<lparr>uid_seq := Suc (uid_seq w), uuids := us\<rparr>" and ?g = "g\<lparr>g_id := i, g_uid := Suc (uid_seq w), g_folder := dest, g_smtp := False\<rparr>"
      obtain q w1 where add: "add_row ?g ?w = (q, w1)" by fastforce
      have R1: "store_keeps (mstate w) (mstate w1)" using add_row_keeps[OF add, of "uid_seq w"] by (simp add: mstate_def)
      have "bindE (add_row ?g) (\<lambda>_. copy_each dest gs) ?w = (r, w')"
        using run True us by (simp add: bindE_def nextUID_def withUUID_def)
      then have "w' = w1 \<or> copy_each dest gs w1 = (r, w')"
        using add by (cases q) (auto simp: bindE_def)
      then show ?thesis
        using R1 keepsD[OF Cons, of w1 r w'] by (auto simp: on_store_def intro: mailstore.store_trans)
    qed
  qed
qed

lemma st_insert_select: "keeps (on_store store_keeps) (insert_select box name dest ids)"
proof (rule keepsI)
  fix w r w' assume run: "insert_select box name dest ids w = (r, w')"
  let ?gs = "sort_key g_uid (filter (\<lambda>g. in_folder box name g \<and> g_uid g \<in> set ids) (messages (tabs w)))"
  obtain q w1 where c: "copy_each dest ?gs (spend w) = (q, w1)" by fastforce
  have R1: "store_keeps (mstate w) (mstate w1)" using keepsD[OF st_copy_each c] by (simp add: on_store_def)
  then have R2: "store_keeps (mstate w) (tabs w, uid_seq w1)" unfolding mstate_def by (rule mailstore.store_rollback)
  show "on_store store_keeps w w'"
    using run c R1 R2 by (cases q) (auto simp: insert_select_def on_store_def mailstore.store_refl split: if_splits)
qed

section \<open>The commands of an IMAP client\<close>

lemma st_check: "keeps (on_store store_keeps) (imap_check u)"
  unfolding imap_check_def CanAccess_def by (intro mailstore.store_rules)

lemma st_GetMailbox: "keeps (on_store store_keeps) (imap_GetMailbox u name)"
  unfolding imap_GetMailbox_def by (intro mailstore.store_rules st_check)

lemma st_CreateFolder: "keeps (on_store store_keeps) (imap_CreateMailbox u name)"
  unfolding imap_CreateMailbox_def by (intro mailstore.store_rules st_check st_add_folder)

lemma st_DeleteFolder: "keeps (on_store store_keeps) (imap_DeleteMailbox u name)"
proof -
  have "keeps (on_store store_keeps) (bindE (guardE (canonical name = ''INBOX'') Imap_Err) (\<lambda>_.
     bindE (sql (delete_folder (iu_box u) (canonical name))) (\<lambda>n. guardE (n = 0) Imap_ErrNoSuchMailbox)))" (is "keeps _ ?m")
  proof (cases "canonical name = ''INBOX''")
    case True
    then have "?m = throwE Imap_Err" by (simp add: bindE_def guardE_def throwE_def fun_eq_iff)
    then show ?thesis by (simp add: mailstore.store_rules)
  next
    case False
    show ?thesis by (intro mailstore.store_rules mailstore.st_sql delete_folder_keeps[OF _ False])
  qed
  then show ?thesis unfolding imap_DeleteMailbox_def Let_def by (intro keeps_bindE[OF mailstore.transs(1) st_check])
qed

text \<open>INBOX is emptied into a folder that is new.\<close>

lemma st_rename_inbox: "keeps (on_store store_keeps) (handleE (new_folder i new) (\<lambda>e. throwE Imap_ErrMailboxAlreadyExists) (\<lambda>_.
     bindE (sql (\<lambda>now t. (Inr (), refile i ''INBOX'' new t))) (\<lambda>_. returnE ((), True))))"
proof (rule keepsI)
  fix w r w' assume run: "handleE (new_folder i new) (\<lambda>e. throwE Imap_ErrMailboxAlreadyExists) (\<lambda>_.
     bindE (sql (\<lambda>now t. (Inr (), refile i ''INBOX'' new t))) (\<lambda>_. returnE ((), True))) w = (r, w')"
  obtain q w1 where nf: "new_folder i new w = (q, w1)" by fastforce
  have R1: "store_keeps (mstate w) (mstate w1)" using keepsD[OF st_new_folder nf] by (simp add: on_store_def)
  show "on_store store_keeps w w'"
  proof (cases q)
    case (Inl e)
    then show ?thesis using run nf R1 by (auto simp: handleE_def throwE_def on_store_def)
  next
    case (Inr u)
    have t1: "(i, new) \<in> set (fkeys (tabs w1))" "(i, new) \<notin> set (fkeys (tabs w))" "messages (tabs w1) = messages (tabs w)" "uid_seq w1 = uid_seq w"
      using nf Inr by (auto simp: new_folder_def step_iffs insert_folder_def fkeys_def split: if_splits)
    have "tabs w' = tabs w1 \<or> tabs w' = refile i ''INBOX'' new (tabs w1)" "uid_seq w' = uid_seq w1"
      using run nf Inr by (cases r; auto simp: handleE_def step_iffs)+
    moreover have "store_keeps (mstate w) (refile i ''INBOX'' new (tabs w1), uid_seq w1)"
    proof (cases "store_ok (mstate w)")
      case True
      have "(i, new, u) \<notin> set (mkeys (tabs w1))" for u
        using store_okD(7)[OF True[unfolded mstate_def]] t1(2,3) by (auto simp: mkeys_def)
      from keeps_refile[OF refile_keys t1(1) this] show ?thesis
        using R1 unfolding mstate_def by (rule mailstore.store_trans[rotated])
    qed (use t1(4) in \<open>simp add: store_keeps_def mstate_def\<close>)
    ultimately show ?thesis using R1 by (auto simp: on_store_def mstate_def)
  qed
qed

lemma st_RenameFolder: "keeps (on_store store_keeps) (imap_RenameMailbox u old new)"
  unfolding imap_RenameMailbox_def Let_def
  by (rule keeps_bindE[OF mailstore.transs(1) st_check], rule keeps_bindE[OF mailstore.transs(1) mailstore.store_rules(3)],
      rule mailstore.st_tx, rule keeps_if, rule st_rename_inbox)
    (intro mailstore.store_rules mailstore.st_sql rename_folder_keeps, simp_all)

lemma st_append: "keeps (on_store store_keeps) (imap_append M u folder flags date body)"
  unfolding imap_append_def Let_def by (intro mailstore.store_rules st_check st_AppendIMAP)

lemma st_records: "keeps (on_store store_keeps) (currentRecords u name)" "keeps (on_store store_keeps) (imap_raw u name uid)"
  unfolding currentRecords_def loadRecords_def imap_raw_def by (intro mailstore.store_rules st_check)+

lemma st_set_flags: "keeps (on_store store_keeps) (set_flags I u name uid f flags)"
  unfolding set_flags_def Let_def
  by (intro mailstore.store_rules mailstore.st_sql) (auto intro: upd_same)

lemma st_delete_uids: "keeps (on_store store_keeps) (delete_uids box name ids)"
  unfolding delete_uids_def
  by (rule mailstore.st_sql) (auto simp: del_where_def bids_def fkeys_def intro: keeps_fewer)

lemma st_fetch_each: "keeps (on_store store_keeps) (fetch_each I b raw mark rs)"
  by (induction I b raw mark rs rule: fetch_each.induct)
    (simp_all add: mailstore.store_rules st_records st_set_flags Let_def keeps_bindE[OF mailstore.transs(1)] split: prod.splits)

lemma st_search_each: "keeps (on_store store_keeps) (search_each I b uid crit rs)"
  by (induction I b uid crit rs rule: search_each.induct)
    (auto intro!: mailstore.store_rules st_records)

lemmas imap_rules = mailstore.box_rules mailstore.store_rules st_check st_GetMailbox st_append st_records st_set_flags st_delete_uids
  st_fetch_each st_search_each st_insert_select

lemma bx_records: "keeps (on_box store_keeps) imap_records"
  unfolding imap_records_def by (intro mailstore.box_rules st_records)

lemma bx_Poll: "keeps (on_box store_keeps) imap_Poll"
  unfolding imap_Poll_def by (intro mailstore.box_rules st_records)

inductive box_command :: "mime_lib \<Rightarrow> imap_lib \<Rightarrow> world \<times> imap_box \<Rightarrow> world \<times> imap_box \<Rightarrow> bool" for M I where
  status: "imap_Status s = (r1, s') \<Longrightarrow> box_command M I s s'"
| subscribe: "imap_SetSubscribed b s = (r2, s') \<Longrightarrow> box_command M I s s'"
| store: "imap_UpdateMessagesFlags I uid seqs f flags s = (r3, s') \<Longrightarrow> box_command M I s s'"
| fetch: "imap_ListMessages I uid seqs raw mark s = (r4, s') \<Longrightarrow> box_command M I s s'"
| search: "imap_SearchMessages I uid crit s = (r5, s') \<Longrightarrow> box_command M I s s'"
| append: "imap_CreateMessage M flags date body s = (r6, s') \<Longrightarrow> box_command M I s s'"
| copy: "imap_CopyMessages M uid seqs dest s = (r7, s') \<Longrightarrow> box_command M I s s'"
| expunge: "imap_Expunge s = (r8, s') \<Longrightarrow> box_command M I s s'"
| move: "imap_MoveMessages uid seqs dest s = (r9, s') \<Longrightarrow> box_command M I s s'"
| poll: "imap_Poll s = (r10, s') \<Longrightarrow> box_command M I s s'"

lemma bx_Status: "keeps (on_box store_keeps) imap_Status"
  unfolding imap_Status_def loadRecords_def by (intro imap_rules)

lemma bx_SetSubscribed: "keeps (on_box store_keeps) (imap_SetSubscribed b)"
  unfolding imap_SetSubscribed_def
  by (intro imap_rules mailstore.st_sql) (auto simp: key_defs upd_where_def intro!: keeps_same)

lemma bx_UpdateMessagesFlags: "keeps (on_box store_keeps) (imap_UpdateMessagesFlags I uid seqs f flags)"
  unfolding imap_UpdateMessagesFlags_def by (intro imap_rules bx_records)

lemma bx_ListMessages: "keeps (on_box store_keeps) (imap_ListMessages I uid seqs raw mark)"
  unfolding imap_ListMessages_def by (intro imap_rules bx_records)

lemma bx_SearchMessages: "keeps (on_box store_keeps) (imap_SearchMessages I uid crit)"
  unfolding imap_SearchMessages_def by (intro imap_rules bx_records)

lemma bx_CreateMessage: "keeps (on_box store_keeps) (imap_CreateMessage M flags date body)"
  unfolding imap_CreateMessage_def by (intro imap_rules)

lemma bx_CopyMessages: "keeps (on_box store_keeps) (imap_CopyMessages M uid seqs dest)"
  unfolding imap_CopyMessages_def by (intro imap_rules bx_records)

lemma bx_Expunge: "keeps (on_box store_keeps) imap_Expunge"
  unfolding imap_Expunge_def by (intro imap_rules bx_records)

lemma bx_MoveMessages: "keeps (on_box store_keeps) (imap_MoveMessages uid seqs dest)"
  unfolding imap_MoveMessages_def by (intro imap_rules bx_records bx_Poll)

lemmas box_commands = bx_Status bx_SetSubscribed bx_UpdateMessagesFlags bx_ListMessages bx_SearchMessages bx_CreateMessage
  bx_CopyMessages bx_Expunge bx_MoveMessages bx_Poll

lemma box_command_keeps: "box_command M I s s' \<Longrightarrow> on_box store_keeps s s'"
  by (induction rule: box_command.induct) (drule box_commands[THEN keepsD], assumption)+

lemma st_deliver_all: "keeps (on_store store_keeps) (deliver_all M from raw ms)"
  by (induction ms) (auto intro!: mailstore.store_rules st_Inb_Deliver)

lemma st_lmtp_Data: "keeps (on_store store_keeps) (lmtp_Data M r s)"
  unfolding lmtp_Data_def Let_def by (intro mailstore.store_rules st_deliver_all)

section \<open>All of them together\<close>

inductive mail_step :: "mime_lib \<Rightarrow> imap_lib \<Rightarrow> world \<Rightarrow> world \<Rightarrow> bool" for M I where
  lmtp: "lmtp_Data M body ses w = (r1, w') \<Longrightarrow> mail_step M I w w'"
| new_mailbox: "Inb_CreateMailbox d l nm owner w = (r2, w') \<Longrightarrow> mail_step M I w w'"
| assign: "AssignOwner ws i owner w = (r3, w') \<Longrightarrow> mail_step M I w w'"
| mark_read: "MarkRead ws i w = (r4, w') \<Longrightarrow> mail_step M I w w'"
| web_move: "MoveMessage box i folder w = (r5, w') \<Longrightarrow> mail_step M I w w'"
| delete_domain: "Store_Delete ws name w = (r6, w') \<Longrightarrow> mail_step M I w w'"
| delete_tenant: "DeleteOwned u slug w = (r7, w') \<Longrightarrow> mail_step M I w w'"
| create_folder: "imap_CreateMailbox iu name w = (r8, w') \<Longrightarrow> mail_step M I w w'"
| delete_folder: "imap_DeleteMailbox iu name w = (r9, w') \<Longrightarrow> mail_step M I w w'"
| rename_folder: "imap_RenameMailbox iu old new w = (r10, w') \<Longrightarrow> mail_step M I w w'"
| command: "box_command M I (w, b) (w', b') \<Longrightarrow> mail_step M I w w'"
| other: "mailboxes (tabs w') = mailboxes (tabs w) \<Longrightarrow> folders (tabs w') = folders (tabs w) \<Longrightarrow>
    messages (tabs w') = messages (tabs w) \<Longrightarrow> uid_seq w' = uid_seq w \<Longrightarrow> mail_step M I w w'"

lemmas mail_ops = st_lmtp_Data st_CreateMailbox st_AssignOwner st_MarkRead st_MoveMessage st_Delete st_CreateFolder st_DeleteFolder
  st_RenameFolder

lemma mail_step_keeps: "mail_step M I w w' \<Longrightarrow> on_store store_keeps w w'"
proof (induction rule: mail_step.induct)
  case (command w b w' b')
  from box_command_keeps[OF this] show ?case by (simp add: on_box_def)
next
  case (other w' w)
  then show ?case by (auto simp: on_store_def mstate_def key_defs intro!: keeps_same)
qed (drule mail_ops[THEN keepsD], assumption)+

interpretation mailsys: monotone_system "mail_step M I" "\<lambda>w. store_ok (mstate w)" "on_store store_keeps" for M I
  by unfold_locales
    (use mail_step_keeps mailstore.refls(1) mailstore.transs(1) in \<open>auto simp: on_store_def store_keeps_def reflp_def transp_def\<close>)

text \<open>C14: Whatever deliveries, web requests, IMAP clients and administrators do, in any order and failing anywhere,
  the store of received mail stays well formed: every mailbox has its INBOX, every message lies in a folder
  that exists, folders and messages have unique names and UIDs, no UID is ahead of the sequence, and a UID once
  given is never given to a message of another mailbox.\<close>

theorem mail_store_wellformed:
  assumes "(mail_step M I)\<^sup>*\<^sup>* w w'" "store_ok (mstate w)"
  shows "store_ok (mstate w') \<and> uid_seq w \<le> uid_seq w' \<and>
    (\<forall>g\<in>set (messages (tabs w')). has_folder (tabs w') (g_box g) (g_folder g) \<and> g_uid g \<le> uid_seq w' \<and>
       (g_uid g \<le> uid_seq w \<longrightarrow> (\<exists>h\<in>set (messages (tabs w)). g_uid h = g_uid g \<and> g_box h = g_box g)))"
proof (intro conjI)
  show ok: "store_ok (mstate w')" by (rule mailsys.run_inv[OF assms])
  have later: "store_keeps (mstate w) (mstate w')" using mailsys.run_later[OF assms] by (simp add: on_store_def)
  then show "uid_seq w \<le> uid_seq w'" by (simp add: store_keeps_def mstate_def)
  from later assms(2) have co: "coherent (tabs w) (uid_seq w) (tabs w')" by (simp add: store_keeps_def mstate_def)
  have "\<exists>h\<in>set (messages (tabs w)). g_uid h = g_uid g \<and> g_box h = g_box g"
    if g: "g \<in> set (messages (tabs w'))" "g_uid g \<le> uid_seq w" for g
  proof -
    have "(g_box g, g_folder g, g_uid g) \<in> set (mkeys (tabs w'))" using g(1) by (auto simp: mkeys_def)
    then obtain f' where "(g_box g, f', g_uid g) \<in> set (mkeys (tabs w))" using co g(2) unfolding coherent_def by blast
    then show ?thesis by (auto simp: mkeys_def)
  qed
  moreover have "(g_box g, g_folder g) \<in> set (fkeys (tabs w')) \<and> g_uid g \<le> uid_seq w'" if "g \<in> set (messages (tabs w'))" for g
  proof -
    have "(g_box g, g_folder g, g_uid g) \<in> set (mkeys (tabs w'))" using that by (auto simp: mkeys_def)
    then show ?thesis using store_okD(7,8)[OF ok[unfolded mstate_def]] by blast
  qed
  ultimately show "\<forall>g\<in>set (messages (tabs w')). has_folder (tabs w') (g_box g) (g_folder g) \<and> g_uid g \<le> uid_seq w' \<and>
       (g_uid g \<le> uid_seq w \<longrightarrow> (\<exists>h\<in>set (messages (tabs w)). g_uid h = g_uid g \<and> g_box h = g_box g))"
    by (simp add: has_folder_key)
qed

section \<open>A client that polls\<close>

lemma unique_place:
  assumes "store_ok (t, n)" "(b, f, u) \<in> set (mkeys t)" "(c, g, u) \<in> set (mkeys t)"
  shows "(b, f) = (c, g)"
proof -
  have "inj_on (\<lambda>(b, f, u). u) (set (mkeys t))" using store_okD(4)[OF assms(1)] by (simp add: distinct_map)
  from inj_onD[OF this _ assms(2,3)] show ?thesis by simp
qed

lemma folder_records_uids: "ir_uid ` set (folder_records t box name) = {u. (box, name, u) \<in> set (mkeys t)}"
  by (auto simp: folder_records_def record_of_def mkeys_def in_folder_def image_iff)

lemma folder_records_ascending:
  assumes "store_ok (t, n)"
  shows "ascending (folder_records t box name)"
proof -
  have "distinct (map g_uid (messages t))" using store_okD(4)[OF assms] by (simp add: mkeys_def comp_def)
  then have "distinct (map g_uid (filter (in_folder box name) (messages t)))" by (rule distinct_map_filter)
  then have "distinct (map g_uid (sort_key g_uid (filter (in_folder box name) (messages t))))" by (simp add: distinct_map)
  then show ?thesis by (simp add: ascending_def folder_records_def comp_def record_of_def strict_sorted_iff)
qed

lemma each_write:
  "each write_resp rs s = (Inr u, s') \<Longrightarrow> fst s' = fst s \<and> ib_out (snd s') = ib_out (snd s) @ rs \<and>
     ib_user (snd s') = ib_user (snd s) \<and> ib_name (snd s') = ib_name (snd s)"
proof (induction rs arbitrary: s)
  case (Cons r rs)
  then obtain s1 where w: "write_resp r s = (Inr (), s1)" and e: "each write_resp rs s1 = (Inr u, s')"
    by (auto simp: bindE_Inr_iff)
  from w have "fst s1 = fst s \<and> ib_out (snd s1) = ib_out (snd s) @ [r] \<and> ib_user (snd s1) = ib_user (snd s) \<and> ib_name (snd s1) = ib_name (snd s)"
    by (auto simp: write_resp_def split: list.splits if_splits)
  with Cons.IH[OF e] show ?case by simp
qed (simp add: returnE_def)

lemma imap_check_tabs: "imap_check u w = (r, w') \<Longrightarrow> tabs w' = tabs w"
  by (cases r) (auto simp: imap_check_def CanAccess_def step_iffs)

lemma currentRecords_Inr: "currentRecords u name w = (Inr rows, w') \<Longrightarrow> tabs w' = tabs w \<and> rows = folder_records (tabs w) (iu_box u) name"
  by (auto simp: currentRecords_def loadRecords_def step_iffs dest: imap_check_tabs)

text \<open>C13: Polling is as good as selecting the folder anew: a client whose view is what the folder held at some earlier
  moment (the last poll, or the SELECT) and that reads the responses of a Poll ends with exactly the
  messages the folder holds now, each under its number with its UID and flags, whatever anybody did to the
  store in between; the snapshot kept for the next poll is the same list.\<close>

theorem poll_equals_reselect:
  assumes "(mail_step M I)\<^sup>*\<^sup>* w0 w" "store_ok (mstate w0)" "ib_conn b"
    "ib_snapshot b = Some (folder_records (tabs w0) (iu_box (ib_user b)) (ib_name b))"
    "imap_Poll (w, b) = (Inr (), (w', b'))"
  shows "\<exists>out. ib_out b' = ib_out b @ out \<and>
    reads out (view_of (folder_records (tabs w0) (iu_box (ib_user b)) (ib_name b))) =
      view_of (folder_records (tabs w) (iu_box (ib_user b)) (ib_name b)) \<and>
    ib_snapshot b' = Some (folder_records (tabs w) (iu_box (ib_user b)) (ib_name b))"
proof -
  let ?box = "iu_box (ib_user b)" and ?name = "ib_name b"
  let ?S = "folder_records (tabs w0) ?box ?name" and ?R = "folder_records (tabs w) ?box ?name"
  obtain w1 s2 where cur: "currentRecords (ib_user b) ?name w = (Inr ?R, w1)"
    and wr: "each write_resp (poll_responses ?S ?R) (w1, b) = (Inr (), s2)" and fin: "set_snapshot ?R s2 = (Inr (), (w', b'))"
    using assms(3-5) by (auto simp: imap_Poll_def with_box_def step_iffs dest: currentRecords_Inr)
  have ok: "store_ok (tabs w, uid_seq w)" using mailsys.run_inv[OF assms(1,2)] by (simp add: mstate_def)
  have "store_keeps (mstate w0) (mstate w)" using mailsys.run_later[OF assms(1,2)] by (simp add: on_store_def)
  then have co: "coherent (tabs w0) (uid_seq w0) (tabs w)" using assms(2) by (simp add: store_keeps_def mstate_def)
  have "reads (poll_responses ?S ?R) (view_of ?S) = view_of ?R"
  proof (rule poll_view)
    show "ascending ?S" "ascending ?R"
      using folder_records_ascending ok assms(2) unfolding mstate_def by blast+
    fix r q assume r: "r \<in> set ?R" "ir_uid r \<notin> ir_uid ` set ?S" and q: "q \<in> set ?R" "ir_uid q \<in> ir_uid ` set ?S"
    then have now: "(?box, ?name, ir_uid r) \<in> set (mkeys (tabs w))" "(?box, ?name, ir_uid q) \<in> set (mkeys (tabs w))"
      using folder_records_uids[of "tabs w" ?box ?name] by blast+
    have then_q: "(?box, ?name, ir_uid q) \<in> set (mkeys (tabs w0))" and then_r: "(?box, ?name, ir_uid r) \<notin> set (mkeys (tabs w0))"
      using q(2) r(2) folder_records_uids[of "tabs w0" ?box ?name] by blast+
    have q_old: "ir_uid q \<le> uid_seq w0" using store_okD(8)[OF assms(2)[unfolded mstate_def] then_q] .
    show "ir_uid q < ir_uid r"
    proof (rule ccontr)
      assume "\<not> ir_uid q < ir_uid r"
      with q_old have "ir_uid r \<le> uid_seq w0" by simp
      with co now q_old obtain f' where f': "(?box, f', ir_uid r) \<in> set (mkeys (tabs w0))" "(?box, f', ir_uid q) \<in> set (mkeys (tabs w0))"
        unfolding coherent_def by blast
      have "f' = ?name" using unique_place[OF assms(2)[unfolded mstate_def] f'(2) then_q] by simp
      with f'(1) then_r show False by simp
    qed
  qed
  with each_write[OF wr] fin show ?thesis by (auto simp: set_snapshot_def)
qed

end
