(* ===== verification/ImapAccess.thy ===== *)
theory ImapAccess imports ImapSync Inbox begin

text \<open>
  Who gets into a mailbox over IMAP and for how long, what MOVE and EXPUNGE do to the messages, and what a
  client is not told after an EXPUNGE.
\<close>

section \<open>Access\<close>

text \<open>C27: An IMAP login opens a mailbox only over TLS, only to its one reader (its owner, or the person of its personal
  workspace) while a member of the workspace it serves, with the password of that account, under a
  verified domain, and never before a forced password change.\<close>

theorem imap_Login_sound:
  assumes "imap_Login L R tls host addr password s = (Inr u, s')"
  shows "tls \<and> fst s' = spend (fst s) \<and> iu_address u = to_lower (trim_space addr) \<and> l_bcrypt_ok L (iu_hash u) password \<and>
    \<not> must_change (tabs (fst s)) (iu_id u) \<and>
    (\<exists>b\<in>set (mailboxes (tabs (fst s))). \<exists>d\<in>set (domains (tabs (fst s))). \<exists>x\<in>set (workspaces (tabs (fst s))).
       b_id b = iu_box u \<and> d_id d = b_domain b \<and> Verified d \<and> to_lower (b_local b @ ''@'' @ d_name d) = iu_address u \<and>
       w_id x = serves b d \<and> reader_of (tabs (fst s)) b x = Some (iu_id u) \<and>
       (\<exists>m\<in>set (members (tabs (fst s))). m_ws m = w_id x \<and> m_user m = iu_id u)) \<and>
    (\<exists>i\<in>set (identities (tabs (fst s))). i_user i = iu_id u \<and> i_provider i = ProviderPassword \<and> i_hash i = Some (iu_hash u))"
proof -
  let ?a = "to_lower (trim_space addr)"
  obtain s1 i box ws h w1 where lim: "ask_limiter (\<lambda>c now. allow c now imapLogin host) R s = (Inr True, s1)"
    and row: "scan_row (reader_rows must_change ?a) (fst s1) = (Inr (i, box, ws, h), w1)" and ok: "l_bcrypt_ok L h password"
    and u: "u = \<lparr>iu_id = i, iu_box = box, iu_address = ?a, iu_hash = h\<rparr>" and tls: tls and s': "fst s' = w1"
    using assms by (auto simp: imap_Login_def Let_def bindE_Inr_iff guardE_iff returnE_iff handleE_iff throwE_iff onFst_iff)
  have s1: "fst s1 = fst s" by (rule ask_limiter_fst[OF lim])
  from scan_row_Inr[OF row] have "(i, box, ws, Some h) \<in> set (reader_rows must_change ?a (tabs (fst s)))" "w1 = spend (fst s)"
    using s1 by auto
  from reader_rows_in[OF this(1)] obtain b x where b: "(b, x) \<in> set (boxes_at ?a (tabs (fst s)))" "b_id b = box" "w_id x = ws"
    "reader_of (tabs (fst s)) b x = Some i" "\<not> must_change (tabs (fst s)) i" "\<exists>m\<in>set (members (tabs (fst s))). m_ws m = ws \<and> m_user m = i"
    "\<exists>j\<in>set (identities (tabs (fst s))). i_user j = i \<and> i_provider j = ProviderPassword \<and> i_hash j = Some h" by blast
  from b(1)[unfolded boxes_at_in] obtain d where d: "d \<in> set (domains (tabs (fst s)))" "d_id d = b_domain b" "Verified d"
    "to_lower (b_local b @ ''@'' @ d_name d) = ?a" "w_id x = serves b d" "b \<in> set (mailboxes (tabs (fst s)))" "x \<in> set (workspaces (tabs (fst s)))"
    by blast
  have "\<exists>b\<in>set (mailboxes (tabs (fst s))). \<exists>d\<in>set (domains (tabs (fst s))). \<exists>x\<in>set (workspaces (tabs (fst s))).
       b_id b = iu_box u \<and> d_id d = b_domain b \<and> Verified d \<and> to_lower (b_local b @ ''@'' @ d_name d) = iu_address u \<and>
       w_id x = serves b d \<and> reader_of (tabs (fst s)) b x = Some (iu_id u) \<and>
       (\<exists>m\<in>set (members (tabs (fst s))). m_ws m = w_id x \<and> m_user m = iu_id u)"
    by (rule bexI[OF _ d(6)], rule bexI[OF _ d(1)], rule bexI[OF _ d(7)]) (use b(2-6) d(2-5) u in simp)
  with b(5,7) tls ok u s' \<open>w1 = spend (fst s)\<close> show ?thesis by simp
qed

text \<open>A step that ends in an error and changes no table.\<close>

definition shut :: "'a op \<Rightarrow> world \<Rightarrow> bool" where
  "shut m w \<longleftrightarrow> (\<exists>e w'. m w = (Inl e, w') \<and> tabs w' = tabs w)"

definition shut_box :: "'a box_op \<Rightarrow> world \<times> imap_box \<Rightarrow> bool" where
  "shut_box m s \<longleftrightarrow> (\<exists>e s'. m s = (Inl e, s') \<and> tabs (fst s') = tabs (fst s) \<and> ib_out (snd s') = ib_out (snd s))"

lemma shut_bind: "shut m w \<Longrightarrow> shut (bindE m k) w" "shut_box n s \<Longrightarrow> shut_box (bindE n j) s" "shut m (fst s) \<Longrightarrow> shut_box (onFst m) s"
  by (auto simp: shut_def shut_box_def bindE_def onFst_def)

lemma check_shut:
  assumes "\<not> can_access (tabs w) (iu_id u) (iu_box u) \<or> \<not> imap_active (tabs w) u"
  shows "shut (imap_check u) w"
proof -
  obtain r w' where r: "imap_check u w = (r, w')" by fastforce
  have "\<exists>e. r = Inl e"
    using r assms by (cases r) (auto simp: imap_check_def CanAccess_def step_iffs)
  then show ?thesis using r imap_check_tabs[OF r] by (auto simp: shut_def)
qed

lemma records_shut: "shut (imap_check (ib_user (snd s))) (fst s) \<Longrightarrow> shut_box imap_records s"
  unfolding imap_records_def currentRecords_def by (auto simp: shut_def shut_box_def with_box_def bindE_def onFst_def)

lemma with_box_shut: "shut_box (f (snd s)) s \<Longrightarrow> shut_box (with_box f) s"
  by (simp add: shut_box_def with_box_def)

text \<open>C28: Access ends with the right to it: as soon as the reader leaves the workspace or the mailbox is given to
  somebody else, the domain is no longer verified, the password changes or must change, or the mailbox is gone,
  every command of every open IMAP connection is refused and shows and changes nothing.\<close>

theorem imap_access_ends:
  assumes "\<not> can_access (tabs w) (iu_id u) (iu_box u) \<or> \<not> imap_active (tabs w) u" "ib_user b = u"
  shows "shut (imap_ListMailboxes u sub) w \<and> shut (imap_GetMailbox u name) w \<and> shut (imap_CreateMailbox u name) w \<and>
    shut (imap_DeleteMailbox u name) w \<and> shut (imap_RenameMailbox u name name') w \<and> shut_box imap_Status (w, b) \<and>
    shut_box (imap_SetSubscribed sub) (w, b) \<and> shut_box (imap_ListMessages I uid seqs raw mark) (w, b) \<and>
    shut_box (imap_SearchMessages I uid crit) (w, b) \<and> shut_box (imap_UpdateMessagesFlags I uid seqs f flags) (w, b) \<and>
    shut_box (imap_CreateMessage M flags date body) (w, b) \<and> shut_box (imap_CopyMessages M uid seqs name) (w, b) \<and>
    (\<not> ib_readonly b \<longrightarrow> shut_box imap_Expunge (w, b)) \<and> shut_box (imap_MoveMessages uid seqs name) (w, b) \<and> shut_box imap_Poll (w, b)"
proof -
  note c = check_shut[OF assms(1)]
  have cb: "shut (imap_check (ib_user (snd (w, b)))) (fst (w, b))" using c assms(2) by simp
  note rules = shut_bind with_box_shut records_shut[OF cb] c
  have move: "shut_box (imap_MoveMessages uid seqs name) (w, b)"
  proof (cases "ib_readonly b \<or> canonical name = ib_name b")
    case True
    then show ?thesis by (auto simp: imap_MoveMessages_def with_box_def shut_box_def bindE_def guardE_def Let_def)
  next
    case False
    have "shut_box (onFst (imap_GetMailbox u (canonical name))) (w, b)"
      unfolding imap_GetMailbox_def by (rule shut_bind(3)) (simp add: shut_bind(1)[OF c])
    from shut_bind(2)[OF this] show ?thesis
      using False assms(2) by (auto simp: imap_MoveMessages_def with_box_def shut_box_def bindE_def guardE_def Let_def)
  qed
  have "shut (imap_ListMailboxes u sub) w" "shut (imap_GetMailbox u name) w" "shut (imap_CreateMailbox u name) w"
    "shut (imap_DeleteMailbox u name) w" "shut (imap_RenameMailbox u name name') w"
    unfolding imap_ListMailboxes_def imap_GetMailbox_def imap_CreateMailbox_def imap_DeleteMailbox_def imap_RenameMailbox_def
    by (rule shut_bind(1)[OF c])+
  moreover have "shut_box imap_Status (w, b)" "shut_box (imap_SetSubscribed sub) (w, b)" "shut_box (imap_CreateMessage M flags date body) (w, b)"
    "shut_box (imap_CopyMessages M uid seqs name) (w, b)" "shut_box imap_Poll (w, b)" "\<not> ib_readonly b \<longrightarrow> shut_box imap_Expunge (w, b)"
    unfolding imap_Status_def imap_SetSubscribed_def imap_CreateMessage_def imap_append_def imap_CopyMessages_def imap_GetMailbox_def
      imap_Poll_def currentRecords_def imap_Expunge_def
    by (simp_all add: assms(2) with_box_shut shut_bind c)
  moreover have "shut_box (imap_ListMessages I uid seqs raw mark) (w, b)" "shut_box (imap_SearchMessages I uid crit) (w, b)"
    "shut_box (imap_UpdateMessagesFlags I uid seqs f flags) (w, b)"
    unfolding imap_ListMessages_def imap_SearchMessages_def imap_UpdateMessagesFlags_def
    by (rule shut_bind(2)[OF records_shut[OF cb]])+
  ultimately show ?thesis using move by blast
qed

section \<open>MOVE\<close>

text \<open>A message but for its place and its numbers.\<close>

definition content :: "message_row \<Rightarrow> message_row" where
  "content g = g\<lparr>g_id := [], g_uid := 0, g_folder := [], g_smtp := False\<rparr>"

lemma content_box: "content g = content h \<Longrightarrow> g_box g = g_box h"
  by (drule arg_cong[of _ _ g_box]) (simp add: content_def)

definition folder_messages :: "db \<Rightarrow> string \<Rightarrow> string \<Rightarrow> nat list \<Rightarrow> message_row list" where
  "folder_messages t box name ids = sort_key g_uid (filter (\<lambda>g. in_folder box name g \<and> g_uid g \<in> set ids) (messages t))"

lemma insert_message_row: "insert_message g now t = (Inr r, t') \<Longrightarrow> t' = t\<lparr>messages := messages t @ [g]\<rparr>"
  by (auto simp: insert_message_def split: if_splits)

lemma copy_each_Inr:
  "copy_each dest gs w = (Inr u, w') \<Longrightarrow> \<exists>moved. tabs w' = (tabs w)\<lparr>messages := messages (tabs w) @ moved\<rparr> \<and>
     map content moved = map content gs \<and> (\<forall>g\<in>set moved. g_folder g = dest) \<and> map g_uid moved = [Suc (uid_seq w)..<Suc (uid_seq w + length gs)]"
proof (induction gs arbitrary: w)
  case Nil
  then show ?case by (auto simp: returnE_def intro!: exI[of _ "[]"])
next
  case (Cons g gs)
  from Cons.prems obtain i us w1 where us: "uuids w = i # us"
    and add: "add_row (g\<lparr>g_id := i, g_uid := Suc (uid_seq w), g_folder := dest, g_smtp := False\<rparr>) (w\<lparr>uid_seq := Suc (uid_seq w), uuids := us\<rparr>) = (Inr (), w1)"
    and rest: "copy_each dest gs w1 = (Inr u, w')"
    by (auto simp: step_iffs)
  let ?g = "g\<lparr>g_id := i, g_uid := Suc (uid_seq w), g_folder := dest, g_smtp := False\<rparr>"
  from add have w1: "tabs w1 = (tabs w)\<lparr>messages := messages (tabs w) @ [?g]\<rparr>" "uid_seq w1 = Suc (uid_seq w)"
    by (auto simp: add_row_def split: prod.splits sum.splits dest: insert_message_row)
  from Cons.IH[OF rest] obtain moved where m: "tabs w' = (tabs w1)\<lparr>messages := messages (tabs w1) @ moved\<rparr>"
    "map content moved = map content gs" "\<forall>g\<in>set moved. g_folder g = dest" "map g_uid moved = [Suc (uid_seq w1)..<Suc (uid_seq w1 + length gs)]"
    by blast
  have "content ?g = content g" by (simp add: content_def)
  moreover have "map g_uid (?g # moved) = [Suc (uid_seq w)..<Suc (uid_seq w + length (g # gs))]"
    using m(4) w1(2) by (simp add: upt_conv_Cons del: upt_Suc)
  moreover have "tabs w' = (tabs w)\<lparr>messages := messages (tabs w) @ (?g # moved)\<rparr>" using m(1) w1(1) by simp
  ultimately show ?case using m(2,3) by (intro exI[of _ "?g # moved"]) simp
qed

lemma imap_Poll_tabs: "imap_Poll s = (r, s') \<Longrightarrow> tabs (fst s') = tabs (fst s)"
proof -
  have each: "fst s2 = fst s1" if "each write_resp rs s1 = (q, s2)" for rs s1 q s2
    using that
  proof (induction rs arbitrary: s1)
    case (Cons x rs)
    then show ?case
      by (cases "write_resp x s1") (auto simp: bindE_def write_resp_def split: list.splits sum.splits if_splits)
  qed (simp add: returnE_def)
  have cur: "tabs w' = tabs w" if "currentRecords u name w = (q, w')" for u name w q w'
    using that by (cases q) (auto simp: currentRecords_def loadRecords_def step_iffs dest: imap_check_tabs)
  assume run: "imap_Poll s = (r, s')"
  obtain q w1 where c: "currentRecords (ib_user (snd s)) (ib_name (snd s)) (fst s) = (q, w1)" by fastforce
  note cur[OF c]
  moreover have "fst s' = w1"
    using run c
    by (cases q)
      (auto simp: imap_Poll_def with_box_def bindE_def onFst_def set_snapshot_def split: if_splits prod.splits sum.splits dest!: each)
  ultimately show ?thesis by simp
qed

text \<open>The records a command works on: the client's numbering with the flags of now.\<close>

definition current_view :: "db \<Rightarrow> imap_box \<Rightarrow> imap_record list" where
  "current_view t b = (let rows = folder_records t (iu_box (ib_user b)) (ib_name b) in
     case ib_snapshot b of None \<Rightarrow> rows | Some s \<Rightarrow> refresh rows s)"

lemma imap_records_Inr:
  "imap_records s = (Inr rows, s') \<Longrightarrow> rows = current_view (tabs (fst s)) (snd s) \<and> tabs (fst s') = tabs (fst s) \<and> snd s' = snd s"
  by (auto simp: imap_records_def with_box_def step_iffs current_view_def Let_def dest!: currentRecords_Inr split: option.splits)

lemma imap_GetMailbox_tabs: "imap_GetMailbox u name w = (r, w') \<Longrightarrow> tabs w' = tabs w"
  by (cases r) (auto simp: imap_GetMailbox_def Let_def step_iffs dest: imap_check_tabs split: if_splits)

lemma imap_records_tabs: "imap_records s = (r, s') \<Longrightarrow> tabs (fst s') = tabs (fst s)"
  by (cases r) (auto simp: imap_records_def with_box_def currentRecords_def loadRecords_def step_iffs dest!: imap_check_tabs)

definition move_tx :: "string \<Rightarrow> string \<Rightarrow> string \<Rightarrow> nat list \<Rightarrow> unit op" where
  "move_tx box name dest ids = withTx (bindE (query (\<lambda>now t. Inr ())) (\<lambda>_. bindE (insert_select box name dest ids) (\<lambda>_.
     bindE (delete_uids box name ids) (\<lambda>_. returnE ((), True)))))"

lemma move_tx_Inr:
  assumes "move_tx box name dest ids w = (Inr u, w3)" "dest \<noteq> name"
  shows "\<exists>moved. tabs w3 = (tabs w)\<lparr>messages := filter (\<lambda>g. \<not> (in_folder box name g \<and> g_uid g \<in> set ids)) (messages (tabs w)) @ moved\<rparr> \<and>
    map content moved = map content (folder_messages (tabs w) box name ids) \<and> (\<forall>g\<in>set moved. in_folder box dest g) \<and>
    map g_uid moved = [Suc (uid_seq w)..<Suc (uid_seq w + length moved)]"
proof -
  obtain w4 w5 where ins: "insert_select box name dest ids w4 = (Inr (), w5)" and w4: "tabs w4 = tabs w" "uid_seq w4 = uid_seq w"
    and del: "tabs w3 = (tabs w5)\<lparr>messages := del_where (\<lambda>g. in_folder box name g \<and> g_uid g \<in> set ids) (messages (tabs w5))\<rparr>"
    using assms(1) by (auto simp: move_tx_def step_iffs delete_uids_def)
  have "copy_each dest (folder_messages (tabs w) box name ids) (spend w4) = (Inr (), w5)"
    using ins w4(1) by (auto simp: insert_select_def folder_messages_def split: if_splits prod.splits sum.splits)
  from copy_each_Inr[OF this] w4 obtain moved where m: "tabs w5 = (tabs w)\<lparr>messages := messages (tabs w) @ moved\<rparr>"
    "map content moved = map content (folder_messages (tabs w) box name ids)" "\<forall>g\<in>set moved. g_folder g = dest"
    "map g_uid moved = [Suc (uid_seq w)..<Suc (uid_seq w + length (folder_messages (tabs w) box name ids))]" by auto
  have len: "length moved = length (folder_messages (tabs w) box name ids)" using m(2) by (metis length_map)
  have at: "in_folder box dest g" if "g \<in> set moved" for g
  proof -
    have "content g \<in> content ` set (folder_messages (tabs w) box name ids)" using that m(2) by (metis image_eqI list.set_map)
    then have "g_box g = box" by (auto simp: folder_messages_def in_folder_def dest: content_box)
    then show ?thesis using m(3) that by (simp add: in_folder_def)
  qed
  have "filter (\<lambda>g. \<not> (in_folder box name g \<and> g_uid g \<in> set ids)) moved = moved"
    using m(3) assms(2) by (auto simp: filter_id_conv in_folder_def)
  then have "tabs w3 = (tabs w)\<lparr>messages := filter (\<lambda>g. \<not> (in_folder box name g \<and> g_uid g \<in> set ids)) (messages (tabs w)) @ moved\<rparr>"
    using del m(1) by (simp add: del_where_def)
  then show ?thesis using m(2,4) len at by (intro exI[of _ moved]) simp
qed

lemma imap_Move_cases:
  assumes "imap_MoveMessages uid seqs dst (w, b) = (r, (w', b'))"
    "ids = map (\<lambda>(i, x). ir_uid x) (picked seqs uid (current_view (tabs w) b))" "tabs w' \<noteq> tabs w"
  shows "canonical dst \<noteq> ib_name b \<and> (\<exists>v w3 u. tabs v = tabs w \<and> uid_seq w \<le> uid_seq v \<and> tabs w' = tabs w3 \<and>
    move_tx (iu_box (ib_user b)) (ib_name b) (canonical dst) ids v = (Inr u, w3))"
proof -
  let ?tx = "move_tx (iu_box (ib_user b)) (ib_name b) (canonical dst)"
  have guards: "\<not> ib_readonly b" "canonical dst \<noteq> ib_name b"
    using assms(1,3) by (auto simp: imap_MoveMessages_def with_box_def bindE_def guardE_def Let_def split: if_splits)
  obtain q1 w1 where g: "imap_GetMailbox (ib_user b) (canonical dst) w = (q1, w1)" by fastforce
  note t1 = imap_GetMailbox_tabs[OF g]
  obtain q2 v b2 where rec: "imap_records (w1, b) = (q2, (v, b2))" by (metis prod.exhaust)
  note t2 = imap_records_tabs[OF rec, simplified]
  have run: "(case q1 of Inl e \<Rightarrow> (Inl e, (w1, b)) | Inr _ \<Rightarrow> (case q2 of Inl e \<Rightarrow> (Inl e, (v, b2)) | Inr rows \<Rightarrow>
      bindE (onFst (?tx (map (\<lambda>(i, x). ir_uid x) (picked seqs uid rows)))) (\<lambda>_. imap_Poll) (v, b2))) = (r, (w', b'))"
    using assms(1) guards g rec
    by (simp add: imap_MoveMessages_def with_box_def bindE_def guardE_def Let_def onFst_def move_tx_def split: sum.splits)
  then obtain d rows where q: "q1 = Inr d" "q2 = Inr rows" using assms(3) t1 t2 by (auto split: sum.splits)
  have "rows = current_view (tabs w) b" using imap_records_Inr[OF rec[unfolded q]] t1 by simp
  with run q assms(2) have run: "bindE (onFst (?tx ids)) (\<lambda>_. imap_Poll) (v, b2) = (r, (w', b'))" by simp
  obtain q3 w3 where tx: "?tx ids v = (q3, w3)" by fastforce
  have w': "tabs w' = tabs w3" using run tx by (cases q3) (auto simp: bindE_def onFst_def dest!: imap_Poll_tabs)
  moreover obtain u where "q3 = Inr u"
    using w' assms(3) t1 t2 withTx_Inl_tabs tx unfolding move_tx_def by (cases q3) fastforce+
  moreover have "on_store store_keeps w w1" "on_store store_keeps w1 v"
    using keepsD[OF st_GetMailbox g] keepsD[OF bx_records rec] by (simp_all add: on_box_def)
  ultimately show ?thesis using guards(2) t1 t2 tx by (auto simp: on_store_def store_keeps_def mstate_def)
qed

text \<open>C29: MOVE is atomic: either no message changed, or every message of the folder that the client's numbers or UIDs
  name, and no other, is now in the destination, with the same content, in the same order, under new UIDs above
  every earlier one; folders and mailboxes are as they were, even when telling the client fails afterwards.\<close>

theorem imap_move_atomic:
  assumes "imap_MoveMessages uid seqs dst (w, b) = (r, (w', b'))"
  defines "ids \<equiv> map (\<lambda>(i, x). ir_uid x) (picked seqs uid (current_view (tabs w) b))"
  shows "tabs w' = tabs w \<or>
    (\<exists>moved. tabs w' = (tabs w)\<lparr>messages := filter (\<lambda>g. \<not> (in_folder (iu_box (ib_user b)) (ib_name b) g \<and> g_uid g \<in> set ids)) (messages (tabs w)) @ moved\<rparr> \<and>
       map content moved = map content (folder_messages (tabs w) (iu_box (ib_user b)) (ib_name b) ids) \<and>
       (\<forall>g\<in>set moved. in_folder (iu_box (ib_user b)) (canonical dst) g) \<and>
       (\<exists>n\<ge>uid_seq w. map g_uid moved = [Suc n..<Suc (n + length moved)]))"
proof (cases "tabs w' = tabs w")
  case False
  then obtain v w3 u where v: "canonical dst \<noteq> ib_name b" "tabs v = tabs w" "uid_seq w \<le> uid_seq v" "tabs w' = tabs w3"
    "move_tx (iu_box (ib_user b)) (ib_name b) (canonical dst) ids v = (Inr u, w3)"
    using imap_Move_cases[OF assms(1) assms(2)[THEN meta_eq_to_obj_eq]] by blast
  show ?thesis
    by (rule disjI2) (use move_tx_Inr[OF v(5,1)] v(3) in \<open>unfold v(2,4)\<close>, blast)
qed simp

section \<open>EXPUNGE\<close>

lemma fetches_told: "Fetched n u fl \<in> set (fetches old i rows) \<Longrightarrow> \<exists>r\<in>set rows. ir_uid r = u \<and> (\<forall>p. old u = Some p \<longrightarrow> ir_flags p \<noteq> ir_flags r)"
  by (induction rows arbitrary: i) (auto split: option.splits if_splits)

lemma expunges_only: "Fetched n u fl \<notin> set (expunges cur i removed rs)"
  by (induction rs arbitrary: i removed) auto

lemma refresh_uids: "map ir_uid (refresh rows S) = map ir_uid S"
  by (auto simp: refresh_def by_uid_def split: option.splits dest: find_SomeD)

lemma refresh_member:
  assumes "ascending rows" "r \<in> set rows" "ir_uid r \<in> ir_uid ` set S"
  shows "r \<in> set (refresh rows S)"
proof -
  obtain s where "s \<in> set S" "ir_uid s = ir_uid r" using assms(3) by auto
  then show ?thesis using by_uid_member[OF assms(1,2)] by (auto simp: refresh_def image_iff intro!: bexI[of _ s])
qed

lemma imap_Expunge_Inr:
  assumes "imap_Expunge (w, b) = (Inr u, (w1, b1))" "\<not> ib_readonly b" "ib_snapshot b = Some S"
  defines "rows \<equiv> refresh (folder_records (tabs w) (iu_box (ib_user b)) (ib_name b)) S"
  shows "b1 = b\<lparr>ib_snapshot := Some (filter (\<lambda>r. DeletedFlag \<notin> set (ir_flags r)) rows)\<rparr> \<and>
    tabs w1 = (tabs w)\<lparr>messages := filter (\<lambda>g. \<not> (in_folder (iu_box (ib_user b)) (ib_name b) g \<and>
      g_uid g \<in> ir_uid ` {r \<in> set rows. DeletedFlag \<in> set (ir_flags r)})) (messages (tabs w))\<rparr>"
proof -
  obtain v where "imap_check (ib_user b) w = (Inr (), v)"
    using assms(1,2) by (auto simp: imap_Expunge_def with_box_def step_iffs)
  note tv = imap_check_tabs[OF this]
  then show ?thesis
    using assms(1-3) unfolding rows_def
    by (auto simp: imap_Expunge_def with_box_def step_iffs delete_uids_def set_snapshot_def current_view_def del_where_def image_iff
        dest!: imap_records_Inr imap_check_tabs)
qed

text \<open>After an EXPUNGE a client is not told of flags others changed: the snapshot takes over the flags of the moment
  although nothing sent them, so whatever was changed between the client's last poll and its EXPUNGE, the
  next poll of the unchanged folder sends no FETCH for any message the client knew.\<close>

theorem expunge_hides_flags:
  assumes "imap_Expunge (w, b) = (Inr (), (w1, b1))" "\<not> ib_readonly b" "ib_conn b" "ib_snapshot b = Some S" "ascending S"
    "store_ok (mstate w)" "imap_Poll (w1, b1) = (Inr (), (w2, b2))" "ib_out b2 = ib_out b1 @ out"
  shows "\<forall>n u fl. Fetched n u fl \<in> set out \<longrightarrow> u \<notin> ir_uid ` set S"
proof (intro allI impI notI)
  fix n u fl assume f: "Fetched n u fl \<in> set out" and u: "u \<in> ir_uid ` set S"
  let ?R = "folder_records (tabs w) (iu_box (ib_user b)) (ib_name b)" and ?R1 = "folder_records (tabs w1) (iu_box (ib_user b)) (ib_name b)"
  define kept where "kept = filter (\<lambda>r. DeletedFlag \<notin> set (ir_flags r)) (refresh ?R S)"
  note E = imap_Expunge_Inr[OF assms(1,2,4), folded kept_def]
  have "out = poll_responses kept ?R1"
    using assms(3,7,8) E by (auto simp: imap_Poll_def with_box_def step_iffs set_snapshot_def dest!: currentRecords_Inr each_write)
  with f have "Fetched n u fl \<in> set (fetches (by_uid kept) 0 ?R1)"
    using expunges_only by (auto simp: poll_responses_def Let_def split: if_splits)
  then obtain r where r: "r \<in> set ?R1" "ir_uid r = u" "\<forall>p. by_uid kept u = Some p \<longrightarrow> ir_flags p \<noteq> ir_flags r"
    by (blast dest: fetches_told)
  obtain g where g: "g \<in> set (messages (tabs w1))" "in_folder (iu_box (ib_user b)) (ib_name b) g" "r = record_of g"
    using r(1) by (auto simp: folder_records_def)
  have rR: "r \<in> set ?R" using g E by (auto simp: folder_records_def)
  have asc: "ascending ?R" using folder_records_ascending assms(6) unfolding mstate_def by blast
  have mem: "r \<in> set (refresh ?R S)" using refresh_member[OF asc rR] u r(2) by simp
  have "DeletedFlag \<notin> set (ir_flags r)"
  proof
    assume "DeletedFlag \<in> set (ir_flags r)"
    with mem have "u \<in> ir_uid ` {r \<in> set (refresh ?R S). DeletedFlag \<in> set (ir_flags r)}" using r(2) by blast
    moreover have "g_uid g = u" using g(3) r(2) by (simp add: record_of_def)
    ultimately show False using g(1,2) E by auto
  qed
  with mem have "r \<in> set kept" by (simp add: kept_def)
  moreover have "ascending kept" unfolding kept_def by (rule ascending_filter) (use assms(5) in \<open>simp add: ascending_def refresh_uids\<close>)
  ultimately have "by_uid kept u = Some r" using by_uid_member r(2) by blast
  with r(3) show False by blast
qed

end
