(* ===== verification/ImapSamples.thy ===== *)
theory ImapSamples imports ImapAccess begin

text \<open>The hypotheses of the properties of the mail store at a concrete world: Bob's mailbox with one message.\<close>

definition sample_user :: imap_user where
  "sample_user = \<lparr>iu_id = ''bob'', iu_box = ''b1'', iu_address = ''bob@acme.kz'', iu_hash = ''$old password''\<rparr>"

definition sample_rows :: "imap_record list" where
  "sample_rows = folder_records mail_db ''b1'' ''INBOX''"

definition sample_box :: imap_box where
  "sample_box = \<lparr>ib_user = sample_user, ib_name = ''INBOX'', ib_readonly = False, ib_conn = True,
     ib_snapshot = Some sample_rows, ib_out = [], ib_faults = []\<rparr>"

lemmas imap_exec = mail_exec sample_user_def sample_box_def onFst_def imap_check_def CanAccess_def imap_active_def must_change_def
  serves_def Verified_def

lemma sample_address: "to_lower (trim_space ''bob@acme.kz'') = ''bob@acme.kz''"
  by (simp add: to_lower_def lower_char_def trim_space_def trim_by_def is_space_def)

lemma sample_store_ok: "store_ok (mstate mail_world)"
  by (simp add: mstate_def store_ok_def key_defs mail_exec)

lemma sample_check: "imap_check sample_user mail_world = (Inr (), spend (spend mail_world))"
  by (simp add: imap_exec)


lemma sample_reader: "reader_rows must_change ''bob@acme.kz'' mail_db = [(''bob'', ''b1'', ''ws'', Some ''$old password'')]"
  by (simp add: reader_rows_def boxes_at_def imap_exec sample_address to_lower_def lower_char_def)

lemma sample_imap_login: "imap_Login sample_lib None True [] ''bob@acme.kz'' ''old password'' (mail_world, ()) = (Inr sample_user, (spend mail_world, ()))"
  by (simp add: imap_Login_def ask_limiter_def sample_address scan_row_def sample_reader exec_defs onFst_def sample_lib_def mail_world_def
      sample_user_def team_world_def sample_world_def empty_world_def)

theorem imap_Login_sound_witness:
  "imap_Login sample_lib None True [] ''bob@acme.kz'' ''old password'' (mail_world, ()) = (Inr sample_user, (spend mail_world, ())) \<and>
     \<not> must_change (tabs mail_world) ''bob''"
  using sample_imap_login imap_Login_sound[OF sample_imap_login] by (simp add: sample_user_def)

text \<open>Eve was never the reader of Bob's mailbox.\<close>

theorem imap_access_ends_witness:
  "shut_box imap_Poll (mail_world, sample_box\<lparr>ib_user := sample_user\<lparr>iu_id := ''eve''\<rparr>\<rparr>)"
proof -
  have no: "\<not> can_access (tabs mail_world) (iu_id (sample_user\<lparr>iu_id := ''eve''\<rparr>)) (iu_box (sample_user\<lparr>iu_id := ''eve''\<rparr>)) \<or>
      \<not> imap_active (tabs mail_world) (sample_user\<lparr>iu_id := ''eve''\<rparr>)"
    by (simp add: imap_exec)
  show ?thesis using imap_access_ends[OF disjI1, of mail_world "sample_user\<lparr>iu_id := ''eve''\<rparr>" "sample_box\<lparr>ib_user := sample_user\<lparr>iu_id := ''eve''\<rparr>\<rparr>"] no
    by (simp add: imap_exec)
qed


section \<open>Another client reads the message\<close>

definition read_world :: world where
  "read_world = snd (MarkRead ''ws'' ''g1'' mail_world)"

lemma read_world_eq: "read_world = (spend mail_world)\<lparr>tabs := mail_db\<lparr>messages := upd_where (\<lambda>g. True) (\<lambda>g. g\<lparr>g_read := Some 0\<rparr>) (messages mail_db)\<rparr>\<rparr>"
  by (simp add: read_world_def MarkRead_def update_message_def upd_where_def imap_exec)

lemma sample_rows_eq: "sample_rows = [\<lparr>ir_uid = 1, ir_date = 0, ir_size = 5, ir_flags = []\<rparr>]"
  by (simp add: sample_rows_def folder_records_def in_folder_def record_of_def mail_db_def)

lemma read_rows: "folder_records (tabs read_world) ''b1'' ''INBOX'' = [\<lparr>ir_uid = 1, ir_date = 0, ir_size = 5, ir_flags = [SeenFlag]\<rparr>]"
  by (simp add: read_world_eq folder_records_def in_folder_def record_of_def mail_db_def upd_where_def)

lemma read_step: "(mail_step M I)\<^sup>*\<^sup>* mail_world read_world"
proof -
  have "MarkRead ''ws'' ''g1'' mail_world = (fst (MarkRead ''ws'' ''g1'' mail_world), read_world)" by (simp add: read_world_def)
  from mail_step.mark_read[OF this] show ?thesis by blast
qed

theorem mail_store_wellformed_witness: "store_ok (mstate read_world)"
  using mail_store_wellformed[OF read_step sample_store_ok] by blast

lemma read_check: "imap_check sample_user read_world = (Inr (), spend (spend read_world))"
  by (simp add: read_world_eq imap_exec)

lemma records_at: "imap_check u w = (Inr (), spend (spend w)) \<Longrightarrow> db_faults w = [] \<Longrightarrow>
    currentRecords u name w = (Inr (folder_records (tabs w) (iu_box u) name), spend (spend (spend w)))"
  by (simp add: currentRecords_def loadRecords_def bindE_def query_def sql_def db_down_def spend_def)

lemma no_faults: "db_faults mail_world = []" "db_faults read_world = []"
  by (simp_all add: imap_exec read_world_eq)

lemma read_poll: "imap_Poll (read_world, sample_box) = (Inr (), (spend (spend (spend read_world)),
     sample_box\<lparr>ib_snapshot := Some (folder_records (tabs read_world) ''b1'' ''INBOX''), ib_out := [Fetched 1 1 [SeenFlag]]\<rparr>))"
proof -
  have "currentRecords sample_user ''INBOX'' read_world = (Inr (folder_records (tabs read_world) ''b1'' ''INBOX''), spend (spend (spend read_world)))"
    using records_at[OF read_check no_faults(2)] by (simp add: sample_user_def)
  then show ?thesis
    by (simp add: imap_Poll_def with_box_def bindE_def onFst_def read_rows poll_responses_def set_snapshot_def write_resp_def by_uid_def
        sample_box_def sample_rows_eq returnE_def)
qed

theorem poll_equals_reselect_witness:
  "imap_Poll (read_world, sample_box) = (Inr (), (spend (spend (spend read_world)),
     sample_box\<lparr>ib_snapshot := Some (folder_records (tabs read_world) ''b1'' ''INBOX''), ib_out := [Fetched 1 1 [SeenFlag]]\<rparr>)) \<and>
   reads [Fetched 1 1 [SeenFlag]] (view_of sample_rows) = view_of (folder_records (tabs read_world) ''b1'' ''INBOX'')"
proof -
  have s: "ib_conn sample_box" "ib_snapshot sample_box = Some (folder_records (tabs mail_world) (iu_box (ib_user sample_box)) (ib_name sample_box))"
    by (simp_all add: sample_box_def sample_user_def sample_rows_def mail_world_def)
  from poll_equals_reselect[OF read_step sample_store_ok s read_poll] read_poll
  show ?thesis by (auto simp: sample_box_def sample_user_def sample_rows_def mail_world_def)
qed


section \<open>A client that expunges before it polls\<close>

lemma spend_simps: "tabs (spend w) = tabs w" "db_faults w = [] \<Longrightarrow> db_faults (spend w) = []"
  by (simp_all add: spend_def)

lemma check_again: "imap_check sample_user (spend (spend read_world)) = (Inr (), spend (spend (spend (spend read_world))))"
  by (simp add: read_world_eq imap_exec)

definition expunged_box :: imap_box where
  "expunged_box = sample_box\<lparr>ib_snapshot := Some (folder_records (tabs read_world) ''b1'' ''INBOX'')\<rparr>"

lemma expunged: "\<exists>w. imap_Expunge (read_world, sample_box) = (Inr (), (w, expunged_box)) \<and> tabs w = tabs read_world \<and> db_faults w = []"
proof -
  have rec: "imap_records (spend (spend read_world), sample_box) =
      (Inr [\<lparr>ir_uid = 1, ir_date = 0, ir_size = 5, ir_flags = [SeenFlag]\<rparr>], (spend (spend (spend (spend (spend read_world)))), sample_box))"
    using records_at[OF check_again, of "''INBOX''"] no_faults(2)
    by (simp add: imap_records_def with_box_def bindE_def onFst_def sample_box_def sample_user_def returnE_def spend_simps read_rows
        sample_rows_eq refresh_def by_uid_def)
  have "DeletedFlag \<notin> set [SeenFlag]" by (simp add: DeletedFlag_def SeenFlag_def)
  then show ?thesis
    using read_check rec no_faults(2)
    by (simp add: imap_Expunge_def with_box_def bindE_def onFst_def delete_uids_def sql_def db_down_def spend_simps set_snapshot_def
        sample_box_def sample_user_def expunged_box_def read_rows returnE_def del_where_def Collect_conv_if)
qed

lemma expunged_poll:
  assumes "tabs w = tabs read_world" "db_faults w = []"
  shows "\<exists>w2. imap_Poll (w, expunged_box) = (Inr (), (w2, expunged_box))"
proof -
  have "imap_check sample_user w = (Inr (), spend (spend w))"
    using assms by (simp add: read_world_eq imap_exec)
  from records_at[OF this assms(2), of "''INBOX''"] show ?thesis
    using assms by (simp add: imap_Poll_def with_box_def bindE_def onFst_def expunged_box_def sample_box_def sample_user_def read_rows
        poll_responses_def by_uid_def set_snapshot_def returnE_def)
qed

text \<open>Bob's client knows the message without its flag and is never told.\<close>

theorem expunge_hides_flags_witness:
  "1 \<in> ir_uid ` set sample_rows \<and> (\<exists>w1. imap_Expunge (read_world, sample_box) = (Inr (), (w1, expunged_box)) \<and>
     (\<exists>w2. imap_Poll (w1, expunged_box) = (Inr (), (w2, expunged_box)) \<and>
       (\<forall>n u fl. Fetched n u fl \<in> set [] \<longrightarrow> u \<notin> ir_uid ` set sample_rows)))"
proof -
  obtain w1 where w1: "imap_Expunge (read_world, sample_box) = (Inr (), (w1, expunged_box))" "tabs w1 = tabs read_world" "db_faults w1 = []"
    using expunged by blast
  obtain w2 where w2: "imap_Poll (w1, expunged_box) = (Inr (), (w2, expunged_box))" using expunged_poll[OF w1(2,3)] by blast
  have ok: "store_ok (mstate read_world)" using mailsys.run_inv[OF read_step sample_store_ok] .
  have b: "\<not> ib_readonly sample_box" "ib_conn sample_box" "ib_snapshot sample_box = Some sample_rows" "ascending sample_rows"
    "ib_out expunged_box = ib_out expunged_box @ []"
    by (simp_all add: sample_box_def expunged_box_def sample_rows_eq ascending_def)
  from expunge_hides_flags[OF w1(1) b(1-4) ok w2 b(5)] w1(1) w2 show ?thesis by (auto simp: sample_rows_eq)
qed

section \<open>A move\<close>

definition junk_world :: world where
  "junk_world = mail_world\<lparr>tabs := mail_db\<lparr>folders := folders mail_db @ [\<lparr>f_box = ''b1'', f_name = ''Junk'', f_validity = 2, f_subscribed = True\<rparr>]\<rparr>\<rparr>"

definition moved_row :: message_row where
  "moved_row = (hd (messages mail_db))\<lparr>g_id := ''u1'', g_uid := 2, g_folder := ''Junk'', g_smtp := False\<rparr>"


lemma check_in: "tabs w = tabs junk_world \<Longrightarrow> db_faults w = [] \<Longrightarrow> imap_check sample_user w = (Inr (), spend (spend w))"
  by (simp add: junk_world_def imap_exec)

lemma junk_current: "current_view (tabs junk_world) sample_box = sample_rows"
  by (simp add: current_view_def junk_world_def sample_box_def sample_user_def sample_rows_def folder_records_def in_folder_def record_of_def
      mail_db_def refresh_def by_uid_def)

lemma sample_picked: "picked [(1, 1)] True sample_rows = [(0, hd sample_rows)]"
  by (simp add: picked_def selected_def inSet_def sample_rows_eq)


lemma sample_fields: "iu_id sample_user = ''bob''" "iu_box sample_user = ''b1''" "ib_user sample_box = sample_user" "ib_name sample_box = ''INBOX''"
  "\<not> ib_readonly sample_box" "ib_conn sample_box" "ib_snapshot sample_box = Some sample_rows" "ib_out sample_box = []" "ib_faults sample_box = []"
  by (simp_all add: sample_user_def sample_box_def)

lemma canonical_junk: "canonical ''Junk'' = ''Junk''"
  by (simp add: canonical_def equal_fold_def to_lower_def lower_char_def)

lemma junk_get: "tabs w = tabs junk_world \<Longrightarrow> db_faults w = [] \<Longrightarrow>
    imap_GetMailbox sample_user ''Junk'' w = (Inr ''Junk'', spend (spend (spend w)))"
  by (simp add: imap_GetMailbox_def check_in canonical_junk exec_defs has_folder_def sample_fields) (simp add: junk_world_def)

lemma junk_records: "tabs w = tabs junk_world \<Longrightarrow> db_faults w = [] \<Longrightarrow>
    imap_records (w, sample_box) = (Inr sample_rows, (spend (spend (spend w)), sample_box))"
  using records_at[OF check_in, of w "''INBOX''"] junk_current
  by (simp add: imap_records_def with_box_def bindE_def onFst_def returnE_def sample_fields current_view_def)

lemma junk_tx: "tabs w = tabs junk_world \<Longrightarrow> db_faults w = [] \<Longrightarrow> uuids w = ''u1'' # us \<Longrightarrow> uid_seq w = 1 \<Longrightarrow>
    \<exists>w3. move_tx ''b1'' ''INBOX'' ''Junk'' [1] w = (Inr (), w3) \<and> messages (tabs w3) = [moved_row]"
  by (simp add: move_tx_def insert_select_def delete_uids_def exec_defs nextUID_def add_row_def insert_message_def in_folder_def
      junk_world_def has_folder_def mail_db_def moved_row_def del_where_def seqMax_def)


theorem imap_move_atomic_witness:
  "\<exists>r w b. imap_MoveMessages True [(1, 1)] ''Junk'' (junk_world, sample_box) = (r, (w, b)) \<and> messages (tabs w) = [moved_row] \<and>
     tabs w \<noteq> tabs junk_world \<and> map content [moved_row] = map content (folder_messages (tabs junk_world) ''b1'' ''INBOX'' [1])"
proof -
  let ?v = "spend (spend (spend (spend (spend (spend junk_world)))))"
  have w: "tabs junk_world = tabs junk_world" "db_faults junk_world = []" "tabs ?v = tabs junk_world" "db_faults ?v = []"
    "uuids ?v = ''u1'' # [''u2'', ''u3'', ''u4'']" "uid_seq ?v = 1"
    by (simp_all add: junk_world_def spend_def mail_world_def team_world_def sample_world_def empty_world_def)
  obtain w3 where tx: "move_tx ''b1'' ''INBOX'' ''Junk'' [1] ?v = (Inr (), w3)" "messages (tabs w3) = [moved_row]"
    using junk_tx[OF w(3-6)] by blast
  have "imap_GetMailbox sample_user ''Junk'' junk_world = (Inr ''Junk'', spend (spend (spend junk_world)))" using junk_get w by simp
  moreover have "imap_records (spend (spend (spend junk_world)), sample_box) = (Inr sample_rows, (?v, sample_box))"
    using junk_records[of "spend (spend (spend junk_world))"] w by (simp add: spend_simps)
  moreover have "map (\<lambda>(i, r). ir_uid r) (picked [(1, 1)] True sample_rows) = [1]"
    by (simp only: sample_picked) (simp add: sample_rows_eq)
  ultimately have run: "imap_MoveMessages True [(1, 1)] ''Junk'' (junk_world, sample_box) = imap_Poll (w3, sample_box)"
    using tx(1) by (simp add: imap_MoveMessages_def with_box_def bindE_def guardE_def returnE_def onFst_def canonical_junk sample_fields
        Let_def move_tx_def)
  obtain r w b where p: "imap_Poll (w3, sample_box) = (r, (w, b))" by (metis prod.exhaust)
  with tx(2) have m: "messages (tabs w) = [moved_row]" using imap_Poll_tabs[OF p] by simp
  then have "tabs w \<noteq> tabs junk_world" by (auto simp: junk_world_def mail_db_def moved_row_def)
  moreover have "filter (\<lambda>g. \<not> (in_folder ''b1'' ''INBOX'' g \<and> g_uid g \<in> set [1])) (messages (tabs junk_world)) = []"
    by (simp add: junk_world_def mail_db_def in_folder_def)
  moreover have "map (\<lambda>(i, x). ir_uid x) (picked [(1, 1)] True (current_view (tabs junk_world) sample_box)) = [1]"
    by (simp only: junk_current sample_picked) (simp add: sample_rows_eq)
  ultimately have "map content [moved_row] = map content (folder_messages (tabs junk_world) ''b1'' ''INBOX'' [1])"
    using imap_move_atomic[OF run[unfolded p]] m by (auto simp: sample_fields)
  with \<open>tabs w \<noteq> tabs junk_world\<close> run p m show ?thesis by auto
qed

end
