(* ===== verification/Idle.thy ===== *)
theory Idle imports ImapSamples begin

text \<open>
  IDLE (internal/imapservice/updates.go, idleHandler): a poll when the client begins to idle, one at every tick of a two
  second timer, and the end of the connection with a BYE when one fails. The worlds the ticks find are arguments:
  anything may have happened in between. The engine's own part, waiting for DONE, ends the list.
\<close>

datatype idle_end = Idled | Idle_refused | Bye_sent

fun idle_loop :: "world list \<Rightarrow> imap_box \<Rightarrow> idle_end \<times> imap_box" where
  "idle_loop [] b = (Idled, b)"
| "idle_loop (w # ws) b = (case imap_Poll (w, b) of (Inl e, s) \<Rightarrow> (Bye_sent, snd s) | (Inr u, s) \<Rightarrow> idle_loop ws (snd s))"

definition idle_handle :: "world \<Rightarrow> world list \<Rightarrow> imap_box \<Rightarrow> idle_end \<times> imap_box" where
  "idle_handle w0 ws b = (case imap_Poll (w0, b) of (Inl e, s) \<Rightarrow> (Idle_refused, snd s) | (Inr u, s) \<Rightarrow> idle_loop ws (snd s))"

definition entitled_to :: "db \<Rightarrow> imap_user \<Rightarrow> bool" where
  "entitled_to t u \<longleftrightarrow> can_access t (iu_id u) (iu_box u) \<and> imap_active t u"

lemma Poll_shut: "\<not> entitled_to (tabs w) (ib_user b) \<Longrightarrow> shut_box imap_Poll (w, b)"
proof -
  assume "\<not> entitled_to (tabs w) (ib_user b)"
  then have "shut (imap_check (ib_user b)) w" by (intro check_shut) (simp add: entitled_to_def)
  then show ?thesis
    unfolding imap_Poll_def currentRecords_def by (intro with_box_shut shut_bind) (simp add: shut_bind)
qed

lemma write_user: "write_resp x s = (r, s') \<Longrightarrow> ib_user (snd s') = ib_user (snd s)"
  by (auto simp: write_resp_def split: list.splits if_splits)

lemma each_write_user: "each write_resp xs s = (r, s') \<Longrightarrow> ib_user (snd s') = ib_user (snd s)"
proof (induction xs arbitrary: s)
  case (Cons x xs)
  then show ?case by (cases r) (auto simp: step_iffs dest!: write_user)
qed (auto simp: step_iffs)

lemma Poll_user: "imap_Poll (w, b) = (r, s') \<Longrightarrow> ib_user (snd s') = ib_user b"
  by (cases r) (auto simp: imap_Poll_def with_box_def step_iffs set_snapshot_def split: if_splits dest!: each_write_user)

lemma idle_loop_ends:
  assumes "\<exists>w\<in>set ws. \<not> entitled_to (tabs w) (ib_user b)"
  shows "fst (idle_loop ws b) = Bye_sent \<and>
    ib_out (snd (idle_loop ws b)) = ib_out (snd (idle_loop (takeWhile (\<lambda>w. entitled_to (tabs w) (ib_user b)) ws) b))"
  using assms
proof (induction ws arbitrary: b)
  case (Cons w ws)
  obtain r s where p: "imap_Poll (w, b) = (r, s)" by (metis prod.exhaust)
  show ?case
  proof (cases "entitled_to (tabs w) (ib_user b)")
    case False
    then obtain e where "r = Inl e" "ib_out (snd s) = ib_out b" using Poll_shut[OF False] p by (auto simp: shut_box_def)
    then show ?thesis using p False by simp
  next
    case True
    then show ?thesis using Cons p Poll_user[OF p] by (cases r) simp_all
  qed
qed simp

text \<open>C30: An idling connection ends with the right to the mailbox: if at any tick the reader is no longer entitled to it, the
  connection has been closed with a BYE by then (or IDLE was refused), and nothing was written to the client
  beyond what the polls before the first such moment wrote.\<close>

theorem idle_ends_with_access:
  assumes "w \<in> set (w0 # ws)" "\<not> entitled_to (tabs w) (ib_user b)"
  shows "fst (idle_handle w0 ws b) \<noteq> Idled \<and>
    ib_out (snd (idle_handle w0 ws b)) = (if entitled_to (tabs w0) (ib_user b)
      then ib_out (snd (idle_handle w0 (takeWhile (\<lambda>v. entitled_to (tabs v) (ib_user b)) ws) b)) else ib_out b)"
proof -
  obtain r s where p: "imap_Poll (w0, b) = (r, s)" by (metis prod.exhaust)
  show ?thesis
  proof (cases "entitled_to (tabs w0) (ib_user b)")
    case False
    then obtain e where "r = Inl e" "ib_out (snd s) = ib_out b" using Poll_shut[OF False] p by (auto simp: shut_box_def)
    then show ?thesis using p False by (simp add: idle_handle_def)
  next
    case True
    then have "\<exists>v\<in>set ws. \<not> entitled_to (tabs v) (ib_user b)" using assms by auto
    with idle_loop_ends[of ws "snd s"] True p Poll_user[OF p] show ?thesis by (cases r) (simp_all add: idle_handle_def)
  qed
qed

text \<open>Bob's mailbox is given away while he idles.\<close>

definition given_away :: world where
  "given_away = mail_world\<lparr>tabs := mail_db\<lparr>mailboxes := map (\<lambda>b. b\<lparr>b_owner := Some ''eve''\<rparr>) (mailboxes mail_db)\<rparr>\<rparr>"

theorem idle_ends_with_access_witness: "fst (idle_handle mail_world [mail_world, given_away] sample_box) \<noteq> Idled"
proof -
  have "\<not> entitled_to (tabs given_away) (ib_user sample_box)"
    by (simp add: entitled_to_def given_away_def imap_exec)
  from idle_ends_with_access[OF _ this, of mail_world "[mail_world, given_away]"] show ?thesis by simp
qed

end
