(* ===== verification/AccountStore.thy ===== *)
theory AccountStore imports EmailStore begin

text \<open>
  internal/account/store.go: users, their identities, their one-time tokens and their sessions.
  The e-mail column is citext: it compares without case.
\<close>

section \<open>Rows as the statements insert them\<close>

record ext_identity =
  x_provider :: provider
  x_subject :: string
  x_email :: string
  x_name :: string
  x_verified :: bool

definition insert_user :: "user_row \<Rightarrow> user_row stmt" where
  "insert_user u now t =
     (if \<not> like_address (u_email u) then (Inl ErrDB, t)
      else if clashes (\<lambda>_. True) u_id u (users t) \<or>
        clashes (\<lambda>_. True) (\<lambda>u. to_lower (u_email u)) u (users t) then (Inl ErrUnique, t)
      else (Inr u, t\<lparr>users := users t @ [u]\<rparr>))"

definition insert_identity :: "identity_row \<Rightarrow> unit stmt" where
  "insert_identity i now t =
     (if btrim (i_subject i) = [] \<or> (i_provider i = ProviderPassword) \<noteq> (i_hash i \<noteq> None)
        then (Inl ErrDB, t)
      else if clashes (\<lambda>_. True) (\<lambda>i. (i_provider i, i_subject i)) i (identities t) \<or>
        clashes (\<lambda>i. i_provider i = ProviderPassword) i_user i (identities t) then (Inl ErrUnique, t)
      else if i_user i \<notin> u_id ` set (users t) then (Inl ErrDB, t)
      else (Inr (), t\<lparr>identities := identities t @ [i]\<rparr>))"

definition insert_token :: "token_row \<Rightarrow> unit stmt" where
  "insert_token k now t =
     (if length (t_hash k) \<noteq> 32 then (Inl ErrDB, t)
      else if clashes (\<lambda>_. True) t_id k (tokens t) \<or> clashes (\<lambda>_. True) t_hash k (tokens t) \<or>
        clashes (\<lambda>k. t_consumed k = None) (\<lambda>k. (t_user k, t_purpose k)) k (tokens t)
        then (Inl ErrUnique, t)
      else if t_user k \<notin> u_id ` set (users t) then (Inl ErrDB, t)
      else (Inr (), t\<lparr>tokens := tokens t @ [k]\<rparr>))"

definition insert_session :: "session_row \<Rightarrow> session_row stmt" where
  "insert_session s now t =
     (if length (s_hash s) \<noteq> 32 then (Inl ErrDB, t)
      else if clashes (\<lambda>_. True) s_id s (sessions t) \<or> clashes (\<lambda>_. True) s_hash s (sessions t)
        then (Inl ErrUnique, t)
      else if s_user s \<notin> u_id ` set (users t) then (Inl ErrDB, t)
      else (Inr s, t\<lparr>sessions := sessions t @ [s]\<rparr>))"

definition user_where :: "(user_row \<Rightarrow> bool) \<Rightarrow> user_row op" where
  "user_where P = query (\<lambda>now t.
     case List.find P (users t) of None \<Rightarrow> Inl Acc_ErrNotFound | Some u \<Rightarrow> Inr u)"

definition update_users :: "(user_row \<Rightarrow> bool) \<Rightarrow> (user_row \<Rightarrow> user_row) \<Rightarrow> unit op" where
  "update_users P f = sql (\<lambda>now t. (Inr (), t\<lparr>users := upd_where P f (users t)\<rparr>))"

definition update_sessions :: "(session_row \<Rightarrow> bool) \<Rightarrow> (time \<Rightarrow> session_row \<Rightarrow> session_row) \<Rightarrow> unit op" where
  "update_sessions P f = sql (\<lambda>now t. (Inr (), t\<lparr>sessions := upd_where P (f now) (sessions t)\<rparr>))"

section \<open>Users and identities\<close>

definition CreateWithPassword :: "string \<Rightarrow> string \<Rightarrow> string \<Rightarrow> user_row op" where
  "CreateWithPassword email name hash = withTx (withUUID (\<lambda>i.
     handleE (sql (insert_user \<lparr>u_id = i, u_email = email, u_name = name, u_verified_at = None,
         u_must_change = False\<rparr>))
       (\<lambda>e. throwE (if e = ErrUnique then Acc_ErrEmailTaken else e)) (\<lambda>user.
     handleE (sql (insert_identity \<lparr>i_user = u_id user, i_provider = ProviderPassword,
         i_subject = to_lower email, i_hash = Some hash, i_last_login = None\<rparr>))
       (\<lambda>e. throwE (if e = ErrUnique then Acc_ErrEmailTaken else e)) (\<lambda>_.
     returnE (user, True)))))"

definition PasswordIdentity :: "string \<Rightarrow> (user_row \<times> string) op" where
  "PasswordIdentity email = query (\<lambda>now t.
     case List.find (\<lambda>i. i_provider i = ProviderPassword \<and> i_subject i = to_lower email \<and>
         i_user i \<in> u_id ` set (users t)) (identities t) of
       None \<Rightarrow> Inl Acc_ErrNotFound
     | Some i \<Rightarrow> (case (List.find (\<lambda>u. u_id u = i_user i) (users t), i_hash i) of
          (Some u, Some h) \<Rightarrow> Inr (u, h) | _ \<Rightarrow> Inl ErrDB))"

definition UserByExternalIdentity :: "provider \<Rightarrow> string \<Rightarrow> user_row op" where
  "UserByExternalIdentity prov subj = query (\<lambda>now t.
     case List.find (\<lambda>u. \<exists>i\<in>set (identities t). i_user i = u_id u \<and> i_provider i = prov \<and>
         i_subject i = subj) (users t) of
       None \<Rightarrow> Inl Acc_ErrNotFound | Some u \<Rightarrow> Inr u)"

definition UserByID :: "string \<Rightarrow> user_row op" where
  "UserByID i = user_where (\<lambda>u. u_id u = i)"

definition UserByEmail :: "string \<Rightarrow> user_row op" where
  "UserByEmail email = user_where (\<lambda>u. to_lower (u_email u) = to_lower email)"

definition LinkIdentity :: "string \<Rightarrow> ext_identity \<Rightarrow> unit op" where
  "LinkIdentity userID ext = handleE
     (sql (\<lambda>now. insert_identity \<lparr>i_user = userID, i_provider = x_provider ext,
        i_subject = x_subject ext, i_hash = None, i_last_login = Some now\<rparr> now))
     (\<lambda>e. throwE (if e = ErrUnique then Acc_ErrSubjectLinked else e)) returnE"

definition CreateUserWithIdentity :: "ext_identity \<Rightarrow> user_row op" where
  "CreateUserWithIdentity ext = withTx (
     bindE (asks app_now) (\<lambda>clock.
     withUUID (\<lambda>i.
     handleE (sql (insert_user \<lparr>u_id = i, u_email = x_email ext, u_name = x_name ext,
         u_verified_at = (if x_verified ext then Some clock else None), u_must_change = False\<rparr>))
       (\<lambda>e. throwE (if e = ErrUnique then Acc_ErrEmailTaken else e)) (\<lambda>user.
     bindE (sql (\<lambda>now. insert_identity \<lparr>i_user = u_id user, i_provider = x_provider ext,
        i_subject = x_subject ext, i_hash = None, i_last_login = Some now\<rparr> now)) (\<lambda>_.
     returnE (user, True))))))"

definition TouchIdentityLogin :: "provider \<Rightarrow> string \<Rightarrow> unit op" where
  "TouchIdentityLogin prov subj = ignoreE (sql (\<lambda>now t. (Inr (), t\<lparr>identities :=
     upd_where (\<lambda>i. i_provider i = prov \<and> i_subject i = subj) (\<lambda>i. i\<lparr>i_last_login := Some now\<rparr>)
       (identities t)\<rparr>)))"

text \<open>The statements UpdatePassword and ChangeInitialPassword share.\<close>

definition set_password_hash :: "string \<Rightarrow> string \<Rightarrow> nat op" where
  "set_password_hash userID hash = sql (\<lambda>now t.
     let P = (\<lambda>i. i_user i = userID \<and> i_provider i = ProviderPassword) in
     (Inr (count_where P (identities t)),
      t\<lparr>identities := upd_where P (\<lambda>i. i\<lparr>i_hash := Some hash\<rparr>) (identities t)\<rparr>))"

definition clear_must_change :: "string \<Rightarrow> unit op" where
  "clear_must_change userID = update_users (\<lambda>u. u_id u = userID) (\<lambda>u. u\<lparr>u_must_change := False\<rparr>)"

definition RevokeAllSessions :: "string \<Rightarrow> unit op" where
  "RevokeAllSessions userID = update_sessions (\<lambda>s. s_user s = userID \<and> s_revoked s = None)
     (\<lambda>now s. s\<lparr>s_revoked := Some now\<rparr>)"

definition UpdatePassword :: "string \<Rightarrow> string \<Rightarrow> unit op" where
  "UpdatePassword userID hash = withTx (
     bindE (query (\<lambda>now t. Inr ())) (\<lambda>_.
     bindE (set_password_hash userID hash) (\<lambda>n.
     bindE (guardE (n = 0) Acc_ErrNotFound) (\<lambda>_.
     bindE (clear_must_change userID) (\<lambda>_.
     bindE (RevokeAllSessions userID) (\<lambda>_.
     returnE ((), True)))))))"

definition HasPasswordIdentity :: "string \<Rightarrow> bool op" where
  "HasPasswordIdentity userID = query (\<lambda>now t.
     Inr (\<exists>i\<in>set (identities t). i_user i = userID \<and> i_provider i = ProviderPassword))"

definition MarkEmailVerified :: "string \<Rightarrow> unit op" where
  "MarkEmailVerified userID = sql (\<lambda>now t. (Inr (), t\<lparr>users := upd_where (\<lambda>u. u_id u = userID)
     (\<lambda>u. u\<lparr>u_verified_at := Some (case u_verified_at u of None \<Rightarrow> now | Some v \<Rightarrow> v)\<rparr>) (users t)\<rparr>))"

section \<open>Tokens\<close>

definition IssueToken :: "string \<Rightarrow> purpose \<Rightarrow> string \<Rightarrow> time \<Rightarrow> unit op" where
  "IssueToken userID pu hash tt = withTx (
     bindE (sql (\<lambda>now t. (Inr (), t\<lparr>tokens := del_where
       (\<lambda>k. t_user k = userID \<and> t_purpose k = pu \<and> t_consumed k = None) (tokens t)\<rparr>))) (\<lambda>_.
     withUUID (\<lambda>i.
     bindE (sql (\<lambda>now. insert_token \<lparr>t_id = i, t_user = userID, t_purpose = pu, t_hash = hash,
       t_expires = now + tt, t_consumed = None, t_attempts = 0, t_locked = None\<rparr> now)) (\<lambda>_.
     returnE ((), True)))))"

definition redeemable :: "purpose \<Rightarrow> string \<Rightarrow> time \<Rightarrow> token_row \<Rightarrow> bool" where
  "redeemable pu hash now k \<longleftrightarrow>
     t_hash k = hash \<and> t_purpose k = pu \<and> t_consumed k = None \<and> now < t_expires k"

definition ConsumeToken :: "purpose \<Rightarrow> string \<Rightarrow> string op" where
  "ConsumeToken pu hash = sql (\<lambda>now t.
     case List.find (redeemable pu hash now) (tokens t) of None \<Rightarrow> (Inl Acc_ErrNotFound, t)
     | Some k \<Rightarrow> (Inr (t_user k),
         t\<lparr>tokens := upd_where (redeemable pu hash now) (\<lambda>k. k\<lparr>t_consumed := Some now\<rparr>)
           (tokens t)\<rparr>))"

record otp_result =
  ot_ok :: bool
  ot_remaining :: int
  ot_locked :: "time option"

definition update_token :: "string \<Rightarrow> (time \<Rightarrow> token_row \<Rightarrow> token_row) \<Rightarrow> unit op" where
  "update_token i f = sql (\<lambda>now t.
     (Inr (), t\<lparr>tokens := upd_where (\<lambda>k. t_id k = i) (f now) (tokens t)\<rparr>))"

text \<open>ConsumeOTP once the row is locked and read, \<open>now\<close> the process clock.\<close>

definition otp_attempt :: "token_row \<Rightarrow> bool \<Rightarrow> time \<Rightarrow> string \<Rightarrow> int \<Rightarrow> time \<Rightarrow> (otp_result \<times> bool) op" where
  "otp_attempt k expired now hash maxAttempts lockFor =
     (if (case t_locked k of None \<Rightarrow> False | Some l \<Rightarrow> now < l) then
       returnE (\<lparr>ot_ok = False, ot_remaining = 0, ot_locked = t_locked k\<rparr>, False)
     else if expired then throwE Acc_ErrNotFound
     else if t_hash k = hash then
       bindE (update_token (t_id k) (\<lambda>now k. k\<lparr>t_consumed := Some now\<rparr>)) (\<lambda>_.
       returnE (\<lparr>ot_ok = True, ot_remaining = 0, ot_locked = None\<rparr>, True))
     else
       let attempts = (case t_locked k of None \<Rightarrow> t_attempts k | Some _ \<Rightarrow> 0) + 1;
           lock = (if maxAttempts \<le> attempts then Some (now + lockFor) else None) in
       bindE (update_token (t_id k) (\<lambda>_ k. k\<lparr>t_attempts := attempts, t_locked := lock\<rparr>)) (\<lambda>_.
       returnE (\<lparr>ot_ok = False,
         ot_remaining = (if maxAttempts - attempts < 0 then 0 else maxAttempts - attempts),
         ot_locked = lock\<rparr>, True)))"

definition ConsumeOTP :: "string \<Rightarrow> purpose \<Rightarrow> string \<Rightarrow> int \<Rightarrow> time \<Rightarrow> otp_result op" where
  "ConsumeOTP userID pu hash maxAttempts lockFor = withTx (
     bindE (query (\<lambda>now t.
       case List.find (\<lambda>k. t_user k = userID \<and> t_purpose k = pu \<and> t_consumed k = None) (tokens t) of
         None \<Rightarrow> Inl Acc_ErrNotFound | Some k \<Rightarrow> Inr (k, t_expires k \<le> now))) (\<lambda>(k, expired).
     bindE (asks app_now) (\<lambda>now.
     otp_attempt k expired now hash maxAttempts lockFor)))"

section \<open>Sessions\<close>

definition insertSession :: "lib \<Rightarrow> string \<Rightarrow> string \<Rightarrow> string \<Rightarrow> string \<Rightarrow> time \<Rightarrow> session_row op" where
  "insertSession L userID hash agent ip tt = withUUID (\<lambda>i. sql (\<lambda>now t.
     if ip \<noteq> [] \<and> \<not> l_inet L ip then (Inl ErrDB, t)
     else insert_session \<lparr>s_id = i, s_user = userID, s_hash = hash, s_agent = nullif agent,
       s_ip = nullif ip, s_expires = now + tt, s_revoked = None, s_seen = None\<rparr> now t))"

definition CreateSession :: "lib \<Rightarrow> string \<Rightarrow> string \<Rightarrow> string \<Rightarrow> string \<Rightarrow> time \<Rightarrow> session_row op" where
  "CreateSession L userID hash agent ip tt = insertSession L userID hash agent ip tt"

definition live_session :: "time \<Rightarrow> session_row \<Rightarrow> bool" where
  "live_session now s \<longleftrightarrow> s_revoked s = None \<and> now < s_expires s"

definition UserBySessionToken :: "string \<Rightarrow> (user_row \<times> string \<times> time option) op" where
  "UserBySessionToken hash = query (\<lambda>now t.
     case List.find (\<lambda>s. s_hash s = hash \<and> live_session now s \<and> s_user s \<in> u_id ` set (users t))
       (sessions t) of
       None \<Rightarrow> Inl Acc_ErrNotFound
     | Some s \<Rightarrow> (case List.find (\<lambda>u. u_id u = s_user s) (users t) of
          None \<Rightarrow> Inl Acc_ErrNotFound | Some u \<Rightarrow> Inr (u, s_id s, s_seen s)))"

definition TouchSession :: "string \<Rightarrow> unit op" where
  "TouchSession i = update_sessions (\<lambda>s. s_id s = i) (\<lambda>now s. s\<lparr>s_seen := Some now\<rparr>)"

definition RevokeSession :: "string \<Rightarrow> unit op" where
  "RevokeSession hash = update_sessions (\<lambda>s. s_hash s = hash \<and> s_revoked s = None)
     (\<lambda>now s. s\<lparr>s_revoked := Some now\<rparr>)"

end
