(* ===== verification/MailTexts.thy ===== *)
theory MailTexts imports GoStrings begin

text \<open>
  The texts of the two system mails in internal/account/service.go (sendVerificationEmail and
  RequestPasswordReset). They are Russian, so they are written by their code points; the code, the
  number of minutes and the link are spliced in where the Go format strings have them.
\<close>

definition verification_subject :: "string \<Rightarrow> string" where
  "verification_subject code =
   utf8 [
    1050, 1086, 1076, 32, 1087, 1086, 1076, 1090, 1074, 1077, 1088, 1078, 1076, 1077, 1085,
    1080, 1103, 58, 32] @
   code"

definition verification_text :: "string \<Rightarrow> string \<Rightarrow> string" where
  "verification_text code minutes =
   utf8 [
    1047, 1076, 1088, 1072, 1074, 1089, 1090, 1074, 1091, 1081, 1090, 1077, 33, 10, 10, 1042,
    1072, 1096, 32, 1082, 1086, 1076, 32, 1087, 1086, 1076, 1090, 1074, 1077, 1088, 1078, 1076,
    1077, 1085, 1080, 1103, 58, 32] @
   code @
   utf8 [
    10, 10, 1050, 1086, 1076, 32, 1076, 1077, 1081, 1089, 1090, 1074, 1091, 1077, 1090, 32] @
   minutes @
   utf8 [
    32, 1084, 1080, 1085, 1091, 1090, 46, 10, 10, 1045, 1089, 1083, 1080, 32, 1074, 1099, 32,
    1085, 1077, 32, 1088, 1077, 1075, 1080, 1089, 1090, 1088, 1080, 1088, 1086, 1074, 1072,
    1083, 1080, 1089, 1100, 44, 32, 1087, 1080, 1089, 1100, 1084, 1086, 32, 1084, 1086, 1078,
    1085, 1086, 32, 1087, 1088, 1086, 1080, 1075, 1085, 1086, 1088, 1080, 1088, 1086, 1074,
    1072, 1090, 1100, 32, 8212, 32, 1073, 1077, 1079, 32, 1082, 1086, 1076, 1072, 32, 1085,
    1080, 1082, 1090, 1086, 32, 1085, 1077, 32, 1087, 1086, 1083, 1091, 1095, 1080, 1090, 32,
    1076, 1086, 1089, 1090, 1091, 1087, 32, 1082, 32, 1072, 1082, 1082, 1072, 1091, 1085, 1090,
    1091, 46, 32, 1045, 1089, 1083, 1080, 32, 1101, 1090, 1086, 32, 1087, 1086, 1074, 1090,
    1086, 1088, 1103, 1077, 1090, 1089, 1103, 44, 32, 1086, 1090, 1074, 1077, 1090, 1100, 1090,
    1077, 32, 1085, 1072, 32, 1101, 1090, 1086, 32, 1087, 1080, 1089, 1100, 1084, 1086, 44, 32,
    1084, 1099, 32, 1088, 1072, 1079, 1073, 1077, 1088, 1105, 1084, 1089, 1103, 46, 10]"

definition verification_html :: "string \<Rightarrow> string \<Rightarrow> string" where
  "verification_html code minutes =
   utf8 [
    60, 112, 62, 1047, 1076, 1088, 1072, 1074, 1089, 1090, 1074, 1091, 1081, 1090, 1077, 33,
    60, 47, 112, 62, 60, 112, 62, 1042, 1072, 1096, 32, 1082, 1086, 1076, 32, 1087, 1086, 1076,
    1090, 1074, 1077, 1088, 1078, 1076, 1077, 1085, 1080, 1103, 58, 60, 47, 112, 62, 60, 112,
    32, 115, 116, 121, 108, 101, 61, 34, 102, 111, 110, 116, 45, 115, 105, 122, 101, 58, 50,
    56, 112, 120, 59, 102, 111, 110, 116, 45, 119, 101, 105, 103, 104, 116, 58, 55, 48, 48, 59,
    108, 101, 116, 116, 101, 114, 45, 115, 112, 97, 99, 105, 110, 103, 58, 52, 112, 120, 34, 62] @
   code @
   utf8 [
    60, 47, 112, 62, 60, 112, 62, 1050, 1086, 1076, 32, 1076, 1077, 1081, 1089, 1090, 1074,
    1091, 1077, 1090, 32] @
   minutes @
   utf8 [
    32, 1084, 1080, 1085, 1091, 1090, 46, 60, 47, 112, 62, 60, 112, 62, 1045, 1089, 1083, 1080,
    32, 1074, 1099, 32, 1085, 1077, 32, 1088, 1077, 1075, 1080, 1089, 1090, 1088, 1080, 1088,
    1086, 1074, 1072, 1083, 1080, 1089, 1100, 44, 32, 1087, 1080, 1089, 1100, 1084, 1086, 32,
    1084, 1086, 1078, 1085, 1086, 32, 1087, 1088, 1086, 1080, 1075, 1085, 1086, 1088, 1080,
    1088, 1086, 1074, 1072, 1090, 1100, 32, 8212, 32, 1073, 1077, 1079, 32, 1082, 1086, 1076,
    1072, 32, 1085, 1080, 1082, 1090, 1086, 32, 1085, 1077, 32, 1087, 1086, 1083, 1091, 1095,
    1080, 1090, 32, 1076, 1086, 1089, 1090, 1091, 1087, 32, 1082, 32, 1072, 1082, 1082, 1072,
    1091, 1085, 1090, 1091, 46, 32, 1045, 1089, 1083, 1080, 32, 1101, 1090, 1086, 32, 1087,
    1086, 1074, 1090, 1086, 1088, 1103, 1077, 1090, 1089, 1103, 44, 32, 1086, 1090, 1074, 1077,
    1090, 1100, 1090, 1077, 32, 1085, 1072, 32, 1101, 1090, 1086, 32, 1087, 1080, 1089, 1100,
    1084, 1086, 44, 32, 1084, 1099, 32, 1088, 1072, 1079, 1073, 1077, 1088, 1105, 1084, 1089,
    1103, 46, 60, 47, 112, 62]"

definition reset_subject :: "string" where
  "reset_subject =
   utf8 [
    1057, 1073, 1088, 1086, 1089, 32, 1087, 1072, 1088, 1086, 1083, 1103]"

definition reset_text :: "string \<Rightarrow> string" where
  "reset_text link =
   utf8 [
    1047, 1076, 1088, 1072, 1074, 1089, 1090, 1074, 1091, 1081, 1090, 1077, 33, 10, 10, 1063,
    1090, 1086, 1073, 1099, 32, 1079, 1072, 1076, 1072, 1090, 1100, 32, 1085, 1086, 1074, 1099,
    1081, 32, 1087, 1072, 1088, 1086, 1083, 1100, 44, 32, 1087, 1077, 1088, 1077, 1081, 1076,
    1080, 1090, 1077, 32, 1087, 1086, 32, 1089, 1089, 1099, 1083, 1082, 1077, 58, 10] @
   link @
   utf8 [
    10, 10, 1057, 1089, 1099, 1083, 1082, 1072, 32, 1076, 1077, 1081, 1089, 1090, 1074, 1091,
    1077, 1090, 32, 49, 32, 1095, 1072, 1089, 32, 1080, 32, 1089, 1088, 1072, 1073, 1086, 1090,
    1072, 1077, 1090, 32, 1086, 1076, 1080, 1085, 32, 1088, 1072, 1079, 46, 32, 1055, 1086,
    1089, 1083, 1077, 32, 1089, 1084, 1077, 1085, 1099, 32, 1087, 1072, 1088, 1086, 1083, 1103,
    32, 1074, 1089, 1077, 32, 1072, 1082, 1090, 1080, 1074, 1085, 1099, 1077, 32, 1089, 1077,
    1089, 1089, 1080, 1080, 32, 1073, 1091, 1076, 1091, 1090, 32, 1079, 1072, 1074, 1077, 1088,
    1096, 1077, 1085, 1099, 46, 10, 10, 1045, 1089, 1083, 1080, 32, 1074, 1099, 32, 1085, 1077,
    32, 1079, 1072, 1087, 1088, 1072, 1096, 1080, 1074, 1072, 1083, 1080, 32, 1089, 1073, 1088,
    1086, 1089, 44, 32, 1087, 1088, 1086, 1089, 1090, 1086, 32, 1087, 1088, 1086, 1080, 1075,
    1085, 1086, 1088, 1080, 1088, 1091, 1081, 1090, 1077, 32, 1101, 1090, 1086, 32, 1087, 1080,
    1089, 1100, 1084, 1086, 32, 8212, 32, 1087, 1072, 1088, 1086, 1083, 1100, 32, 1086, 1089,
    1090, 1072, 1085, 1077, 1090, 1089, 1103, 32, 1087, 1088, 1077, 1078, 1085, 1080, 1084, 46,
    10]"

definition reset_html :: "string \<Rightarrow> string" where
  "reset_html link =
   utf8 [
    60, 112, 62, 1047, 1076, 1088, 1072, 1074, 1089, 1090, 1074, 1091, 1081, 1090, 1077, 33,
    60, 47, 112, 62, 60, 112, 62, 1063, 1090, 1086, 1073, 1099, 32, 1079, 1072, 1076, 1072,
    1090, 1100, 32, 1085, 1086, 1074, 1099, 1081, 32, 1087, 1072, 1088, 1086, 1083, 1100, 44,
    32, 1087, 1077, 1088, 1077, 1081, 1076, 1080, 1090, 1077, 32, 1087, 1086, 32, 1089, 1089,
    1099, 1083, 1082, 1077, 58, 60, 47, 112, 62, 60, 112, 62, 60, 97, 32, 104, 114, 101, 102,
    61, 34] @
   link @
   utf8 [
    34, 62, 1047, 1072, 1076, 1072, 1090, 1100, 32, 1085, 1086, 1074, 1099, 1081, 32, 1087,
    1072, 1088, 1086, 1083, 1100, 60, 47, 97, 62, 60, 47, 112, 62, 60, 112, 62, 1057, 1089,
    1099, 1083, 1082, 1072, 32, 1076, 1077, 1081, 1089, 1090, 1074, 1091, 1077, 1090, 32, 49,
    32, 1095, 1072, 1089, 32, 1080, 32, 1089, 1088, 1072, 1073, 1086, 1090, 1072, 1077, 1090,
    32, 1086, 1076, 1080, 1085, 32, 1088, 1072, 1079, 46, 32, 1055, 1086, 1089, 1083, 1077, 32,
    1089, 1084, 1077, 1085, 1099, 32, 1087, 1072, 1088, 1086, 1083, 1103, 32, 1074, 1089, 1077,
    32, 1072, 1082, 1090, 1080, 1074, 1085, 1099, 1077, 32, 1089, 1077, 1089, 1089, 1080, 1080,
    32, 1073, 1091, 1076, 1091, 1090, 32, 1079, 1072, 1074, 1077, 1088, 1096, 1077, 1085, 1099,
    46, 60, 47, 112, 62, 60, 112, 62, 1045, 1089, 1083, 1080, 32, 1074, 1099, 32, 1085, 1077,
    32, 1079, 1072, 1087, 1088, 1072, 1096, 1080, 1074, 1072, 1083, 1080, 32, 1089, 1073, 1088,
    1086, 1089, 44, 32, 1087, 1088, 1086, 1089, 1090, 1086, 32, 1087, 1088, 1086, 1080, 1075,
    1085, 1086, 1088, 1080, 1088, 1091, 1081, 1090, 1077, 32, 1101, 1090, 1086, 32, 1087, 1080,
    1089, 1100, 1084, 1086, 32, 8212, 32, 1087, 1072, 1088, 1086, 1083, 1100, 32, 1086, 1089,
    1090, 1072, 1085, 1077, 1090, 1089, 1103, 32, 1087, 1088, 1077, 1078, 1085, 1080, 1084, 46,
    60, 47, 112, 62]"

end
