(* ===== verification/Accounts.thy ===== *)
theory Accounts imports AccountStore MailTexts Samples begin

text \<open>
  internal/account/secrets.go, service.go, initial_password.go and middleware.go: registration,
  sign-in, one-time codes, password reset and the session check in front of the API.
\<close>

section \<open>Secrets\<close>

definition minPasswordLen :: nat where "minPasswordLen = 10"
definition maxPasswordBytes :: nat where "maxPasswordBytes = 72"

definition hashPassword :: "lib \<Rightarrow> string \<Rightarrow> string op" where
  "hashPassword L plain =
     bindE (guardE (rune_count plain < minPasswordLen) Acc_ErrWeakPassword) (\<lambda>_.
     bindE (guardE (maxPasswordBytes < length plain) Acc_ErrWeakPassword) (\<lambda>_.
     bindE randRead (\<lambda>salt.
     returnE (l_bcrypt L salt plain))))"

definition verifyPassword :: "lib \<Rightarrow> string \<Rightarrow> string \<Rightarrow> bool" where
  "verifyPassword L hash plain = l_bcrypt_ok L hash plain"

definition hashToken :: "lib \<Rightarrow> string \<Rightarrow> string" where
  "hashToken L tok = l_sha256 L tok"

definition newToken :: "lib \<Rightarrow> (string \<times> string) op" where
  "newToken L = bindE randRead (\<lambda>raw.
     let tok = b64_raw_url raw in returnE (tok, hashToken L tok))"

definition otpDigits :: nat where "otpDigits = 6"

definition newOTP :: "string op" where
  "newOTP = bindE (randInt (10 ^ otpDigits)) (\<lambda>n. returnE (pad_dec otpDigits n))"

definition hashOTP :: "lib \<Rightarrow> string \<Rightarrow> string \<Rightarrow> string" where
  "hashOTP L userID code = l_sha256 L (userID @ '':'' @ trim_space code)"

section \<open>The service\<close>

definition sessionTTL :: time where "sessionTTL = 30 * 24 * hour"
definition verificationTTL :: time where "verificationTTL = 15 * minute"
definition passwordResetTTL :: time where "passwordResetTTL = hour"
definition maxOTPAttempts :: int where "maxOTPAttempts = 7"
definition otpLockout :: time where "otpLockout = 15 * minute"

record account_service =
  ac_lib :: lib
  ac_send :: "mail \<Rightarrow> string op"
  ac_signer :: "(string \<Rightarrow> (string \<times> string) op) option"
  ac_base :: string
  ac_from :: string

definition NewService :: "lib \<Rightarrow> (mail \<Rightarrow> string op) \<Rightarrow> (string \<Rightarrow> (string \<times> string) op) option
    \<Rightarrow> string \<Rightarrow> string \<Rightarrow> account_service" where
  "NewService L send signer base from = \<lparr>ac_lib = L, ac_send = send, ac_signer = signer,
     ac_base = (if base = [] then ''http://localhost:8061'' else base),
     ac_from = (if from = [] then ''noreply@heromail.local'' else from)\<rparr>"

record request_context =
  rc_agent :: string
  rc_ip :: string

record register_request =
  rg_personal :: string
  rg_email :: string
  rg_password :: string
  rg_name :: string

record credentials =
  cr_token :: string
  cr_user :: user_row
  cr_expires :: time

definition normaliseEmail :: "string \<Rightarrow> string" where
  "normaliseEmail email = to_lower (trim_space email)"

definition signMailFrom :: "account_service \<Rightarrow> dkim_sig option op" where
  "signMailFrom S = (case ac_signer S of None \<Rightarrow> returnE None | Some signer \<Rightarrow>
     (case after_at (ac_from S) of None \<Rightarrow> returnE None | Some domain \<Rightarrow>
       handleE (signer domain) (\<lambda>_. returnE None) (\<lambda>(sel, der).
       returnE (Some \<lparr>dk_domain = domain, dk_selector = sel, dk_key = der\<rparr>))))"

definition system_mail :: "account_service \<Rightarrow> string \<Rightarrow> string \<Rightarrow> string \<Rightarrow> string \<Rightarrow> dkim_sig option \<Rightarrow> mail" where
  "system_mail S to subject txt html dkim = \<lparr>ml_from = ac_from S, ml_to = [to], ml_cc = [], ml_bcc = [],
     ml_subject = subject, ml_html = html, ml_text = txt, ml_headers = [], ml_files = [],
     ml_dkim = dkim\<rparr>"

definition sendVerificationEmail :: "account_service \<Rightarrow> user_row \<Rightarrow> unit op" where
  "sendVerificationEmail S user =
     handleE newOTP (\<lambda>_. returnE ()) (\<lambda>code.
     handleE (IssueToken (u_id user) PurposeEmailVerification (hashOTP (ac_lib S) (u_id user) code)
         verificationTTL) (\<lambda>_. returnE ()) (\<lambda>_.
     bindE (signMailFrom S) (\<lambda>dkim.
     let minutes = dec (nat (verificationTTL div minute)) in
     ignoreE (ac_send S (system_mail S (u_email user) (verification_subject code)
       (verification_text code minutes) (verification_html code minutes) dkim)))))"

definition startSession :: "account_service \<Rightarrow> user_row \<Rightarrow> request_context \<Rightarrow> credentials op" where
  "startSession S user rc =
     bindE (newToken (ac_lib S)) (\<lambda>(tok, hash).
     bindE (CreateSession (ac_lib S) (u_id user) hash (rc_agent rc) (rc_ip rc) sessionTTL) (\<lambda>sess.
     returnE \<lparr>cr_token = tok, cr_user = user, cr_expires = s_expires sess\<rparr>))"

definition password_hash_of :: "string \<Rightarrow> string op" where
  "password_hash_of userID = query (\<lambda>now t.
     case List.find (\<lambda>i. i_user i = userID \<and> i_provider i = ProviderPassword) (identities t) of
       None \<Rightarrow> Inl ErrNoRows
     | Some i \<Rightarrow> (case i_hash i of None \<Rightarrow> Inl ErrDB | Some h \<Rightarrow> Inr h))"

definition startPasswordSession :: "account_service \<Rightarrow> string \<Rightarrow> string \<Rightarrow> request_context \<Rightarrow> credentials op" where
  "startPasswordSession S userID verifiedHash rc = withTx (
     bindE (UserByID userID) (\<lambda>user.
     bindE (password_hash_of userID) (\<lambda>current.
     bindE (guardE (current \<noteq> verifiedHash) Acc_ErrCredentials) (\<lambda>_.
     bindE (newToken (ac_lib S)) (\<lambda>(tok, hash).
     bindE (insertSession (ac_lib S) userID hash (rc_agent rc) (rc_ip rc) sessionTTL) (\<lambda>sess.
     returnE (\<lparr>cr_token = tok, cr_user = user, cr_expires = s_expires sess\<rparr>, True)))))))"

definition valid_register :: "lib \<Rightarrow> register_request \<Rightarrow> bool" where
  "valid_register L q \<longleftrightarrow> rg_email q \<noteq> [] \<and> l_email L (rg_email q) \<and> rune_count (rg_email q) \<le> 254 \<and>
     rg_password q \<noteq> [] \<and> rune_count (rg_name q) \<le> 200"

text \<open>A password the caller can fix is a validation error.\<close>

definition hash_or_invalid :: "lib \<Rightarrow> string \<Rightarrow> string op" where
  "hash_or_invalid L plain = handleE (hashPassword L plain)
     (\<lambda>e. throwE (if e = Acc_ErrWeakPassword then Acc_ErrValidation else e)) returnE"

definition Register :: "account_service \<Rightarrow> register_request \<Rightarrow> request_context \<Rightarrow> credentials op" where
  "Register S q rc =
     bindE (guardE (\<not> valid_register (ac_lib S) q) Acc_ErrValidation) (\<lambda>_.
     bindE (guardE (trim_space (rg_personal q) \<noteq> []) Acc_ErrValidation) (\<lambda>_.
     let email = normaliseEmail (rg_email q) in
     bindE (hash_or_invalid (ac_lib S) (rg_password q)) (\<lambda>hash.
     bindE (CreateWithPassword email (trim_space (rg_name q)) hash) (\<lambda>user.
     bindE (sendVerificationEmail S user) (\<lambda>_.
     startSession S user rc)))))"

definition Login :: "account_service \<Rightarrow> string \<Rightarrow> string \<Rightarrow> request_context \<Rightarrow> credentials op" where
  "Login S email password rc =
     bindE (guardE (\<not> (email \<noteq> [] \<and> l_email (ac_lib S) email \<and> password \<noteq> [])) Acc_ErrCredentials) (\<lambda>_.
     handleE (PasswordIdentity (normaliseEmail email))
       (\<lambda>e. throwE (if e = Acc_ErrNotFound then Acc_ErrCredentials else e)) (\<lambda>(user, hash).
     bindE (guardE (\<not> verifyPassword (ac_lib S) hash password) Acc_ErrCredentials) (\<lambda>_.
     bindE (TouchIdentityLogin ProviderPassword (normaliseEmail email)) (\<lambda>_.
     startPasswordSession S (u_id user) hash rc))))"

definition SignInWithIdentity :: "account_service \<Rightarrow> ext_identity \<Rightarrow> request_context \<Rightarrow> credentials op" where
  "SignInWithIdentity S ext rc =
     bindE (guardE (x_provider ext = ProviderPassword) Acc_ErrValidation) (\<lambda>_.
     bindE (guardE (trim_space (x_subject ext) = []) Acc_ErrValidation) (\<lambda>_.
     handleE (UserByExternalIdentity (x_provider ext) (x_subject ext))
       (\<lambda>e. if e \<noteq> Acc_ErrNotFound then throwE e else
          let create = (let ext = ext\<lparr>x_email := normaliseEmail (x_email ext)\<rparr> in
                bindE (CreateUserWithIdentity ext) (\<lambda>created. startSession S created rc)) in
          if x_verified ext \<and> x_email ext \<noteq> [] then
            handleE (UserByEmail (normaliseEmail (x_email ext)))
              (\<lambda>e. if e \<noteq> Acc_ErrNotFound then throwE e else create)
              (\<lambda>existing. bindE (LinkIdentity (u_id existing) ext) (\<lambda>_. startSession S existing rc))
          else create)
       (\<lambda>user. bindE (TouchIdentityLogin (x_provider ext) (x_subject ext)) (\<lambda>_.
          startSession S user rc))))"

text \<open>\<open>Round(time.Minute)\<close>: halves away from zero.\<close>

definition round_minute :: "time \<Rightarrow> time" where
  "round_minute d = (if d < 0 then - ((- d + 30 * second) div minute * minute)
     else (d + 30 * second) div minute * minute)"

definition VerifyEmail :: "account_service \<Rightarrow> string \<Rightarrow> string \<Rightarrow> user_row op" where
  "VerifyEmail S email code =
     handleE (UserByEmail (normaliseEmail email))
       (\<lambda>e. throwE (if e = Acc_ErrNotFound then Acc_ErrInvalidToken None else e)) (\<lambda>user.
     handleE (ConsumeOTP (u_id user) PurposeEmailVerification
         (hashOTP (ac_lib S) (u_id user) code) maxOTPAttempts otpLockout)
       (\<lambda>e. throwE (if e = Acc_ErrNotFound then Acc_ErrInvalidToken None else e)) (\<lambda>res.
     case ot_locked res of
       Some l \<Rightarrow> bindE (asks app_now) (\<lambda>now. throwE (Acc_ErrCodeLocked (round_minute (l - now))))
     | None \<Rightarrow>
         if \<not> ot_ok res then throwE (Acc_ErrInvalidToken (Some (nat (ot_remaining res))))
         else bindE (MarkEmailVerified (u_id user)) (\<lambda>_. UserByID (u_id user))))"

definition ResendVerification :: "account_service \<Rightarrow> string \<Rightarrow> unit op" where
  "ResendVerification S email =
     handleE (UserByEmail (normaliseEmail email)) (\<lambda>_. returnE ()) (\<lambda>user.
     if u_verified_at user \<noteq> None then returnE () else sendVerificationEmail S user)"

definition trim_right_slashes :: "string \<Rightarrow> string" where
  "trim_right_slashes s = rev (dropWhile (\<lambda>c. c = CHR ''/'') (rev s))"

definition RequestPasswordReset :: "account_service \<Rightarrow> string \<Rightarrow> unit op" where
  "RequestPasswordReset S email =
     handleE (UserByEmail (normaliseEmail email)) (\<lambda>_. returnE ()) (\<lambda>user.
     handleE (HasPasswordIdentity (u_id user)) (\<lambda>_. returnE ()) (\<lambda>has.
     if \<not> has then returnE () else
     handleE (newToken (ac_lib S)) (\<lambda>_. returnE ()) (\<lambda>(tok, hash).
     handleE (IssueToken (u_id user) PurposePasswordReset hash passwordResetTTL)
       (\<lambda>_. returnE ()) (\<lambda>_.
     bindE (signMailFrom S) (\<lambda>dkim.
     let link = trim_right_slashes (ac_base S) @ ''/reset-password?token='' @ query_escape tok in
     ignoreE (ac_send S (system_mail S (u_email user) reset_subject (reset_text link)
       (reset_html link) dkim)))))))"

definition ResetPassword :: "account_service \<Rightarrow> string \<Rightarrow> string \<Rightarrow> request_context \<Rightarrow> credentials op" where
  "ResetPassword S tok newPassword rc =
     bindE (hash_or_invalid (ac_lib S) newPassword) (\<lambda>hash.
     handleE (ConsumeToken PurposePasswordReset (hashToken (ac_lib S) tok))
       (\<lambda>e. throwE (if e = Acc_ErrNotFound then Acc_ErrInvalidToken None else e)) (\<lambda>userID.
     bindE (UserByID userID) (\<lambda>existing.
     bindE (if u_must_change existing then
         bindE (PasswordIdentity (u_email existing)) (\<lambda>(_, oldHash).
         guardE (verifyPassword (ac_lib S) oldHash newPassword) Acc_ErrValidation)
       else returnE ()) (\<lambda>_.
     bindE (UpdatePassword userID hash) (\<lambda>_.
     bindE (RevokeAllSessions userID) (\<lambda>_.
     bindE (ignoreE (MarkEmailVerified userID)) (\<lambda>_.
     bindE (UserByID userID) (\<lambda>user.
     startSession S user rc))))))))"

definition Logout :: "account_service \<Rightarrow> string \<Rightarrow> unit op" where
  "Logout S tok = RevokeSession (hashToken (ac_lib S) tok)"

text \<open>The transaction of ChangeInitialPassword.\<close>

definition replace_initial :: "account_service \<Rightarrow> string \<Rightarrow> string \<Rightarrow> string \<Rightarrow> unit op" where
  "replace_initial S userID current hash = withTx (
     bindE (query (\<lambda>now t. case List.find (\<lambda>u. u_id u = userID) (users t) of
         None \<Rightarrow> Inl ErrNoRows | Some u \<Rightarrow> Inr (u_must_change u))) (\<lambda>required.
     bindE (guardE (\<not> required) Acc_ErrPasswordAlreadyChanged) (\<lambda>_.
     bindE (password_hash_of userID) (\<lambda>old.
     bindE (guardE (\<not> verifyPassword (ac_lib S) old current) Acc_ErrCredentials) (\<lambda>_.
     bindE (set_password_hash userID hash) (\<lambda>_.
     bindE (clear_must_change userID) (\<lambda>_.
     bindE (RevokeAllSessions userID) (\<lambda>_.
     bindE (sql (\<lambda>now t. (Inr (), t\<lparr>tokens := del_where
       (\<lambda>k. t_user k = userID \<and> t_purpose k = PurposePasswordReset) (tokens t)\<rparr>))) (\<lambda>_.
     returnE ((), True))))))))))"

definition ChangeInitialPassword :: "account_service \<Rightarrow> string \<Rightarrow> string \<Rightarrow> string \<Rightarrow> request_context
    \<Rightarrow> credentials op" where
  "ChangeInitialPassword S userID current password rc =
     bindE (guardE (current = password) Acc_ErrValidation) (\<lambda>_.
     handleE (hashPassword (ac_lib S) password) (\<lambda>_. throwE Acc_ErrValidation) (\<lambda>hash.
     bindE (replace_initial S userID current hash) (\<lambda>_.
     bindE (UserByID userID) (\<lambda>user.
     startSession S user rc))))"

section \<open>The session check\<close>

text \<open>
  What the middleware answers: an error with its HTTP status, or the user and the token with which
  the handler behind it is called.
\<close>

datatype gate = Refuse nat string | Pass user_row string

definition bearerToken :: "string \<Rightarrow> string option" where
  "bearerToken header =
     (if trim_space header = [] then None else
      case str_cut header (CHR '' '') of None \<Rightarrow> None
      | Some (scheme, v) \<Rightarrow>
          if \<not> equal_fold scheme ''Bearer'' then None
          else if trim_space v = [] then None else Some (trim_space v))"

definition touchInterval :: time where "touchInterval = 5 * minute"

definition RequireSession :: "account_service \<Rightarrow> string \<Rightarrow> string \<Rightarrow> (world, gerror, gate) step" where
  "RequireSession S header url =
     (case bearerToken header of None \<Rightarrow> returnE (Refuse 401 ''unauthenticated'') | Some tok \<Rightarrow>
      handleE (UserBySessionToken (hashToken (ac_lib S) tok))
        (\<lambda>e. returnE (if e = Acc_ErrNotFound then Refuse 401 ''unauthenticated''
               else Refuse 500 ''internal'')) (\<lambda>(user, sessionID, lastSeen).
      if u_must_change user \<and> url \<noteq> ''/auth/me'' \<and> url \<noteq> ''/auth/logout'' \<and>
          url \<noteq> ''/auth/change-initial-password''
      then returnE (Refuse 403 ''password_change_required'')
      else bindE (asks app_now) (\<lambda>now.
        bindE (case lastSeen of None \<Rightarrow> ignoreE (TouchSession sessionID)
          | Some seen \<Rightarrow> if touchInterval < now - seen then ignoreE (TouchSession sessionID)
              else returnE ()) (\<lambda>_.
        returnE (Pass user tok)))))"

text \<open>\<open>clientIP\<close>; \<open>host\<close> is net.SplitHostPort's host, when it accepts the address.\<close>

definition clientIP :: "string \<Rightarrow> string \<Rightarrow> string option \<Rightarrow> string" where
  "clientIP xff remote host =
     (if xff \<noteq> [] then
        (case str_cut xff (CHR '','') of Some (a, _) \<Rightarrow> trim_space a | None \<Rightarrow> trim_space xff)
      else case host of Some h \<Rightarrow> h | None \<Rightarrow> remote)"

end
