(* ===== verification/EmailService.thy ===== *)
theory EmailService imports EmailStore RateLimit Samples "HOL-Library.Multiset" begin

text \<open>
  internal/email/service.go: what POST /v1/emails does. The service's collaborators are the
  fields of \<open>service\<close>: the environment, the libraries, the queue, the bucket and the domain guard.
  \<open>es_other\<close> stands for the other requests: it is applied between the look-up of the idempotency
  key and the INSERT, where another process may commit.

  Send returns an email next to an error in some branches, so an error here is the pair.
\<close>

record service =
  es_getenv :: "string \<Rightarrow> string"
  es_lib :: lib
  es_queue :: "string \<Rightarrow> unit op"
  es_blobs :: "blob_store option"
  es_domains :: "(string \<Rightarrow> string \<Rightarrow> unit op) option"
  es_other :: "world \<Rightarrow> world"

record send_request =
  rq_in_reply_to :: string
  rq_refs :: string
  rq_from :: string
  rq_to :: "string list"
  rq_cc :: "string list"
  rq_bcc :: "string list"
  rq_subject :: string
  rq_html :: string
  rq_text :: string
  rq_attachments :: "string list"

type_synonym 'a send_op = "(world, gerror \<times> email_row option, 'a) step"

section \<open>Limits and validation\<close>

text \<open>\<open>strconv.ParseInt(raw, 10, 64)\<close> accepts what Atoi accepts on a 64-bit platform.\<close>

definition envBytes :: "(string \<Rightarrow> string) \<Rightarrow> string \<Rightarrow> int \<Rightarrow> int" where
  "envBytes getenv name fallback =
     (let raw = getenv name in
      if raw = [] then fallback
      else case atoi raw of None \<Rightarrow> fallback | Some n \<Rightarrow> if n \<le> 0 then fallback else n)"

definition attachmentMaxBytes :: "(string \<Rightarrow> string) \<Rightarrow> int" where
  "attachmentMaxBytes getenv = envBytes getenv ''ATTACHMENT_MAX_BYTES'' (25 * 2 ^ 20)"

definition attachmentMaxTotalBytes :: "(string \<Rightarrow> string) \<Rightarrow> int" where
  "attachmentMaxTotalBytes getenv = envBytes getenv ''ATTACHMENT_MAX_TOTAL_BYTES'' (25 * 2 ^ 20)"

text \<open>The \<open>validate\<close> tags of SendRequest; \<open>max\<close> on a string counts runes.\<close>

definition valid_addresses :: "lib \<Rightarrow> string list \<Rightarrow> bool" where
  "valid_addresses L as \<longleftrightarrow> length as \<le> 50 \<and> (\<forall>a\<in>set as. a \<noteq> [] \<and> l_email L a)"

definition valid_request :: "lib \<Rightarrow> send_request \<Rightarrow> bool" where
  "valid_request L q \<longleftrightarrow>
     rune_count (rq_in_reply_to q) \<le> 900 \<and> rune_count (rq_refs q) \<le> 900 \<and>
     rq_from q \<noteq> [] \<and> l_email L (rq_from q) \<and>
     rq_to q \<noteq> [] \<and> valid_addresses L (rq_to q) \<and> valid_addresses L (rq_cc q) \<and>
     valid_addresses L (rq_bcc q) \<and> rune_count (rq_subject q) \<le> 998 \<and>
     (rq_html q \<noteq> [] \<or> rq_text q \<noteq> []) \<and>
     length (rq_attachments q) \<le> 20 \<and> (\<forall>a\<in>set (rq_attachments q). l_uuid L a)"

definition checkFrom :: "service \<Rightarrow> string \<Rightarrow> string \<Rightarrow> unit op" where
  "checkFrom S ws from =
     (case es_domains S of None \<Rightarrow> returnE ()
      | Some allows \<Rightarrow>
          (case after_at from of None \<Rightarrow> throwE Email_ErrValidation
           | Some d \<Rightarrow> handleE (allows ws from) (\<lambda>_. throwE Email_ErrFromNotAllowed) returnE))"

section \<open>Send\<close>

definition no_row :: "'a op \<Rightarrow> 'a send_op" where
  "no_row m = handleE m (\<lambda>e. throwE (e, None)) returnE"

definition with_row :: "email_row \<Rightarrow> 'a op \<Rightarrow> 'a send_op" where
  "with_row r m = handleE m (\<lambda>e. throwE (e, Some r)) returnE"

definition params_of :: "string \<Rightarrow> string \<Rightarrow> send_request \<Rightarrow> create_params" where
  "params_of ws key q = \<lparr>p_ws = ws, p_from = rq_from q, p_to = rq_to q, p_cc = rq_cc q,
     p_bcc = rq_bcc q, p_subject = rq_subject q, p_html = rq_html q, p_text = rq_text q,
     p_idem = key, p_in_reply_to = rq_in_reply_to q, p_refs = rq_refs q\<rparr>"

definition same_message :: "email_row \<Rightarrow> send_request \<Rightarrow> bool" where
  "same_message e q \<longleftrightarrow> e_in_reply_to e = rq_in_reply_to q \<and> e_refs e = rq_refs q \<and>
     e_from e = rq_from q \<and> e_to e = rq_to q \<and> e_cc e = rq_cc q \<and> e_bcc e = rq_bcc q \<and>
     e_subject e = rq_subject q \<and> deref (e_text e) = rq_text q \<and> deref (e_html e) = rq_html q"

text \<open>\<open>err == nil\<close> of the look-up: an earlier request under the same key did the work.\<close>

definition send_again :: "service \<Rightarrow> send_request \<Rightarrow> email_row \<Rightarrow> email_row send_op" where
  "send_again S q existing =
     bindE (guardE (\<not> same_message existing q) (Email_ErrValidation, None)) (\<lambda>_.
     bindE (no_row (AttachmentsByEmailID (e_id existing))) (\<lambda>attached.
     bindE (guardE (sort (map a_id attached) \<noteq> sort (rq_attachments q)) (Email_ErrValidation, None)) (\<lambda>_.
     if e_status existing = StatusQueued then
       handleE (es_queue S (e_id existing))
         (\<lambda>_. throwE (Email_ErrEnqueueFailed, Some existing)) (\<lambda>_. returnE existing)
     else returnE existing)))"

definition check_attachments :: "service \<Rightarrow> string \<Rightarrow> string list \<Rightarrow> unit op" where
  "check_attachments S ws ids =
     (if ids = [] then returnE () else
      bindE (AttachmentsByIDs ws ids) (\<lambda>as.
      bindE (guardE (length as \<noteq> length ids) Email_ErrNotFound) (\<lambda>_.
      guardE (attachmentMaxTotalBytes (es_getenv S) < sum_list (map a_size as))
        Email_ErrAttachmentsTooLarge)))"

definition attach_files :: "string \<Rightarrow> email_row \<Rightarrow> string list \<Rightarrow> unit send_op" where
  "attach_files ws email ids =
     (if ids = [] then returnE () else
      bindE (with_row email (AttachToEmail ws (e_id email) ids)) (\<lambda>claimed.
      guardE (claimed \<noteq> length ids) (Email_ErrAttachmentNotFound, Some email)))"

definition meanwhile :: "(world \<Rightarrow> world) \<Rightarrow> (world, 'e, unit) step" where
  "meanwhile other w = (Inr (), other w)"

definition send_new :: "service \<Rightarrow> string \<Rightarrow> string \<Rightarrow> send_request \<Rightarrow> email_row send_op" where
  "send_new S ws key q =
     bindE (no_row (check_attachments S ws (rq_attachments q))) (\<lambda>_.
     bindE (meanwhile (es_other S)) (\<lambda>_.
     handleE (Create (params_of ws key q))
       (\<lambda>e. if e = Email_ErrDuplicateIdempotencyKey then no_row (ByIdempotencyKey ws key)
            else throwE (e, None)) (\<lambda>email.
     bindE (attach_files ws email (rq_attachments q)) (\<lambda>_.
     handleE (es_queue S (e_id email)) (\<lambda>_. throwE (Email_ErrEnqueueFailed, Some email)) (\<lambda>_.
     returnE email)))))"

definition Send :: "service \<Rightarrow> string \<Rightarrow> string \<Rightarrow> send_request \<Rightarrow> email_row send_op" where
  "Send S ws key q =
     bindE (guardE (\<not> valid_request (es_lib S) q) (Email_ErrValidation, None)) (\<lambda>_.
     bindE (guardE (50 < length (rq_to q) + length (rq_cc q) + length (rq_bcc q))
       (Email_ErrValidation, None)) (\<lambda>_.
     bindE (guardE (trim_space (rq_text q) = [] \<and> trim_space (rq_html q) = [])
       (Email_ErrValidation, None)) (\<lambda>_.
     bindE (no_row (checkFrom S ws (rq_from q))) (\<lambda>_.
     if key \<noteq> [] then
       handleE (ByIdempotencyKey ws key)
         (\<lambda>e. if e = Email_ErrNotFound then send_new S ws key q else throwE (e, None))
         (send_again S q)
     else send_new S ws key q))))"

section \<open>Uploads\<close>

text \<open>
  \<open>data\<close> is what the reader holds; \<open>io.LimitReader\<close> lets through one byte more than the limit.
\<close>

definition UploadAttachment :: "service \<Rightarrow> string \<Rightarrow> string \<Rightarrow> string \<Rightarrow> string \<Rightarrow> attachment_row op" where
  "UploadAttachment S ws filename ctype data =
     (case es_blobs S of None \<Rightarrow> throwE Email_ErrStorageNotConfigured | Some B \<Rightarrow>
      let filename = trim_space filename;
          ctype = (if ctype = [] then ''application/octet-stream'' else ctype);
          limit = attachmentMaxBytes (es_getenv S);
          data = take (nat (limit + 1)) data in
      bindE (guardE (filename = []) Email_ErrValidation) (\<lambda>_.
      bindE (guardE (limit < int (length data)) Email_ErrAttachmentTooLarge) (\<lambda>_.
      bindE (guardE (data = []) Email_ErrValidation) (\<lambda>_.
      withUUID (\<lambda>u.
      let key = ws @ ''/'' @ u in
      bindE (bs_Put B key data) (\<lambda>_.
      handleE (InsertAttachment ws filename ctype (int (length data)) (l_sha256 (es_lib S) data) key)
        (\<lambda>e. bindE (ignoreE (bs_Delete B key)) (\<lambda>_. throwE e)) returnE))))))"

section \<open>Inverting the steps of Send\<close>

lemma no_row_iff [step_iffs]:
  "no_row m w = (Inr a, w') \<longleftrightarrow> m w = (Inr a, w')"
  "no_row m w = (Inl x, w') \<longleftrightarrow> (\<exists>e. m w = (Inl e, w') \<and> x = (e, None))"
  by (auto simp: no_row_def step_iffs)

lemma with_row_iff [step_iffs]:
  "with_row r m w = (Inr a, w') \<longleftrightarrow> m w = (Inr a, w')"
  "with_row r m w = (Inl x, w') \<longleftrightarrow> (\<exists>e. m w = (Inl e, w') \<and> x = (e, Some r))"
  by (auto simp: with_row_def step_iffs)

lemma meanwhile_iff [step_iffs]: "meanwhile f w = (r, w') \<longleftrightarrow> r = Inr () \<and> w' = f w"
  by (auto simp: meanwhile_def)

lemma ByIdempotencyKey_iff [step_iffs]:
  "ByIdempotencyKey ws key w = (Inr e, w') \<longleftrightarrow> \<not> db_down w \<and>
     List.find (\<lambda>e. e_ws e = ws \<and> e_idem e = Some key) (emails (tabs w)) = Some e \<and> w' = spend w"
  "ByIdempotencyKey ws key w = (Inl x, w') \<longleftrightarrow> w' = spend w \<and>
     (if db_down w then x = ErrDB else x = Email_ErrNotFound \<and>
        (\<forall>e\<in>set (emails (tabs w)). \<not> (e_ws e = ws \<and> e_idem e = Some key)))"
  by (auto simp: ByIdempotencyKey_def step_iffs find_None_iff2)

lemma AttachmentsByEmailID_iff [step_iffs]:
  "AttachmentsByEmailID i w = (Inr as, w') \<longleftrightarrow> \<not> db_down w \<and> w' = spend w \<and>
     as = filter (\<lambda>a. a_email a = Some i) (attachments (tabs w))"
  "AttachmentsByEmailID i w = (Inl x, w') \<longleftrightarrow> db_down w \<and> x = ErrDB \<and> w' = spend w"
  by (auto simp: AttachmentsByEmailID_def step_iffs)

text \<open>The attachments the rows of a message are attached to.\<close>

definition attached_ids :: "db \<Rightarrow> string \<Rightarrow> string list" where
  "attached_ids t i = map a_id (filter (\<lambda>a. a_email a = Some i) (attachments t))"

definition files_ok :: "db \<Rightarrow> bool" where
  "files_ok t \<longleftrightarrow> distinct (map a_id (attachments t)) \<and>
     (\<forall>a\<in>set (attachments t). \<forall>i. a_email a = Some i \<longrightarrow> i \<in> e_id ` set (emails t))"

lemma mset_eq_of_count:
  assumes "distinct xs" "set xs \<subseteq> set ys" "length xs = length ys"
  shows "mset xs = mset ys"
proof -
  have "card (set xs) = length ys"
    using assms by (simp add: distinct_card)
  moreover have "card (set xs) \<le> card (set ys)" "card (set ys) \<le> length ys"
    using assms(2) by (auto intro: card_mono card_length)
  ultimately have c: "card (set xs) = card (set ys)" "card (set ys) = length ys" by auto
  then have "distinct ys" by (simp add: card_distinct)
  moreover have "set xs = set ys"
    using assms(2) c(1) by (simp add: card_subset_eq)
  ultimately show ?thesis
    using assms(1) set_eq_iff_mset_eq_distinct by blast
qed

lemma sort_eq_of_mset: "mset xs = mset ys \<Longrightarrow> sort xs = sort ys"
  by (metis mset_sort properties_for_sort sorted_sort)

lemma AttachToEmail_iff [step_iffs]:
  "AttachToEmail ws i ids w = (Inr n, w') \<longleftrightarrow> \<not> db_down w \<and>
     (let P = (\<lambda>a. a_ws a = ws \<and> a_id a \<in> set ids \<and> a_email a = None) in
       n = count_where P (attachments (tabs w)) \<and> (n = 0 \<or> i \<in> e_id ` set (emails (tabs w))) \<and>
       w' = (spend w)\<lparr>tabs := (tabs w)\<lparr>attachments := upd_where P (\<lambda>a. a\<lparr>a_email := Some i\<rparr>) (attachments (tabs w))\<rparr>\<rparr>)"
  by (auto simp: AttachToEmail_def step_iffs Let_def)

lemma attach_sorted:
  assumes "distinct (map a_id (attachments t))" "\<And>a. a \<in> set (attachments t) \<Longrightarrow> a_email a \<noteq> Some i"
    and "count_where P (attachments t) = length ids" "\<And>a. P a \<Longrightarrow> a_id a \<in> set ids"
  shows "sort (attached_ids (t\<lparr>attachments := upd_where P (\<lambda>a. a\<lparr>a_email := Some i\<rparr>) (attachments t)\<rparr>) i) = sort ids"
proof -
  have "map a_id (filter (\<lambda>a. a_email a = Some i) (upd_where P (\<lambda>a. a\<lparr>a_email := Some i\<rparr>) as)) = map a_id (filter P as)"
    if "\<And>a. a \<in> set as \<Longrightarrow> a_email a \<noteq> Some i" for as
    using that by (induction as) (auto simp: upd_where_def)
  then have eq: "attached_ids (t\<lparr>attachments := upd_where P (\<lambda>a. a\<lparr>a_email := Some i\<rparr>) (attachments t)\<rparr>) i = map a_id (filter P (attachments t))"
    using assms(2) by (simp add: attached_ids_def)
  have "mset (map a_id (filter P (attachments t))) = mset ids"
    using assms(1,3,4) by (intro mset_eq_of_count) (auto simp: distinct_map_filter count_where_def)
  then show ?thesis
    unfolding eq by (rule sort_eq_of_mset)
qed

lemma deref_nullif [simp]: "deref (nullif s) = s"
  by (simp add: deref_def nullif_def)

lemma new_email_same: "same_message (new_email (params_of ws key q) i) q"
  by (simp add: same_message_def new_email_def params_of_def)

lemma check_attachments_tabs: "check_attachments S ws ids w = (r, w') \<Longrightarrow> tabs w' = tabs w"
  by (cases r) (auto simp: check_attachments_def AttachmentsByIDs_def step_iffs split: if_splits)

lemma checkFrom_tabs:
  assumes "checkFrom S ws from w = (r, w')"
    "\<And>g a b w r w'. es_domains S = Some g \<Longrightarrow> g a b w = (r, w') \<Longrightarrow> tabs w' = tabs w"
  shows "tabs w' = tabs w"
  using assms(1) by (auto simp: checkFrom_def step_iffs split: option.splits dest: assms(2))

text \<open>What a nil error of Send says about the database and the queue.\<close>

definition recorded :: "string \<Rightarrow> string \<Rightarrow> send_request \<Rightarrow> email_row \<Rightarrow> world \<Rightarrow> bool" where
  "recorded ws key q e w \<longleftrightarrow> e \<in> set (emails (tabs w)) \<and> e_ws e = ws \<and> same_message e q \<and>
     (key \<noteq> [] \<longrightarrow> e_idem e = Some key) \<and>
     sort (attached_ids (tabs w) (e_id e)) = sort (rq_attachments q) \<and>
     (e_status e = StatusQueued \<longrightarrow> e_id e \<in> set (queue w))"

lemma send_again_recorded:
  assumes "send_again S q e0 w = (Inr e, w')" "enqueuer (es_queue S)"
    "e0 \<in> set (emails (tabs w))" "e_ws e0 = ws" "e_idem e0 = Some key"
  shows "recorded ws key q e w' \<and> tabs w' = tabs w \<and> e = e0"
  using assms enqueuer.enq_tabs[OF assms(2)] enqueuer.enq_queued[OF assms(2)]
  by (auto simp: send_again_def recorded_def attached_ids_def step_iffs split: if_splits)

lemma send_new_recorded:
  assumes "send_new S ws key q w = (Inr e, w')" "enqueuer (es_queue S)" "es_other S = id"
    "files_ok (tabs w)" "\<forall>x\<in>set (emails (tabs w)). \<not> (e_ws x = ws \<and> e_idem x = Some key)"
  shows "recorded ws key q e w' \<and> e_id e \<notin> e_id ` set (emails (tabs w)) \<and>
    emails (tabs w') = emails (tabs w) @ [e]"
proof -
  obtain w1 where chk: "check_attachments S ws (rq_attachments q) w = (Inr (), w1)" and
    rest: "handleE (Create (params_of ws key q))
       (\<lambda>e. if e = Email_ErrDuplicateIdempotencyKey then no_row (ByIdempotencyKey ws key)
            else throwE (e, None)) (\<lambda>email.
     bindE (attach_files ws email (rq_attachments q)) (\<lambda>_.
     handleE (es_queue S (e_id email)) (\<lambda>_. throwE (Email_ErrEnqueueFailed, Some email)) (\<lambda>_.
     returnE email))) w1 = (Inr e, w')"
    using assms(1,3) by (auto simp: send_new_def step_iffs)
  note t1 = check_attachments_tabs[OF chk]
  from rest consider
    (dup) w2 where "Create (params_of ws key q) w1 = (Inl Email_ErrDuplicateIdempotencyKey, w2)" "ByIdempotencyKey ws key w2 = (Inr e, w')"
  | (new) w2 w3 where "Create (params_of ws key q) w1 = (Inr e, w2)"
      "attach_files ws e (rq_attachments q) w2 = (Inr (), w3)" "es_queue S (e_id e) w3 = (Inr (), w')"
    by (auto simp: step_iffs split: if_splits)
  then show ?thesis
  proof cases
    case dup
    then show ?thesis using Create_Inl[OF dup(1)] t1 assms(5) by (auto simp: step_iffs dest: find_SomeD)
  next
    case new
    note c = Create_Inr[OF new(1)]
    have fresh: "a_email a \<noteq> Some (e_id e)" if "a \<in> set (attachments (tabs w))" for a
      using assms(4) c that t1 unfolding files_ok_def by metis
    have "sort (attached_ids (tabs w3) (e_id e)) = sort (rq_attachments q) \<and> emails (tabs w3) = emails (tabs w2)"
    proof (cases "rq_attachments q = []")
      case True
      then show ?thesis using new(2) c fresh t1 by (auto simp: attach_files_def step_iffs attached_ids_def filter_empty_conv)
    next
      case False
      let ?P = "\<lambda>a. a_ws a = ws \<and> a_id a \<in> set (rq_attachments q) \<and> a_email a = None"
      have "count_where ?P (attachments (tabs w2)) = length (rq_attachments q)"
        "tabs w3 = (tabs w2)\<lparr>attachments := upd_where ?P (\<lambda>a. a\<lparr>a_email := Some (e_id e)\<rparr>) (attachments (tabs w2))\<rparr>"
        using new(2) False by (auto simp: attach_files_def step_iffs Let_def)
      then show ?thesis
        using attach_sorted[of "tabs w2" "e_id e" ?P "rq_attachments q"] c t1 fresh assms(4)
        by (auto simp: files_ok_def)
    qed
    moreover have "tabs w' = tabs w3" "e_id e \<in> set (queue w')"
      using enqueuer.enq_tabs[OF assms(2) new(3)] enqueuer.enq_queued[OF assms(2) new(3)] by auto
    moreover have "same_message e q" "e_ws e = ws" "key \<noteq> [] \<longrightarrow> e_idem e = Some key"
      using c new_email_same[of ws key q "e_id e"] by (metis, metis params_of_def new_email_def email_row.select_convs(2) create_params.select_convs(1), 
        metis (no_types, lifting) params_of_def new_email_def email_row.select_convs(14) create_params.select_convs(9) nullif_def)
    ultimately show ?thesis
      using c t1 by (auto simp: recorded_def attached_ids_def)
  qed
qed

lemma spend_no_faults: "db_faults w = [] \<Longrightarrow> spend w = w"
  by (simp add: spend_def)

lemma Send_Inr:
  assumes "Send S ws key q w = (Inr e, w')"
  shows "length (rq_to q) + length (rq_cc q) + length (rq_bcc q) \<le> 50 \<and> (\<exists>w1. checkFrom S ws (rq_from q) w = (Inr (), w1) \<and>
    ((\<exists>e0 w2. ByIdempotencyKey ws key w1 = (Inr e0, w2) \<and> send_again S q e0 w2 = (Inr e, w')) \<or>
     (key \<noteq> [] \<and> (\<exists>w2. ByIdempotencyKey ws key w1 = (Inl Email_ErrNotFound, w2) \<and> send_new S ws key q w2 = (Inr e, w'))) \<or>
     (key = [] \<and> send_new S ws key q w1 = (Inr e, w'))))"
  using assms unfolding Send_def by (auto simp: step_iffs(1-11) no_row_iff split: if_splits)

text \<open>What holds of the tables at every moment: the primary key, the foreign key, nullif.\<close>

definition send_db_ok :: "db \<Rightarrow> bool" where
  "send_db_ok t \<longleftrightarrow> files_ok t \<and> (\<forall>e\<in>set (emails t). e_idem e \<noteq> Some [])"

lemma send_again_retry:
  assumes "same_message e q" "sort (attached_ids (tabs w) (e_id e)) = sort (rq_attachments q)"
    "db_faults w = []" "enqueuer (es_queue S)" "send_again S q e w = (r, w')"
  shows "tabs w' = tabs w \<and> (r = Inr e \<or> r = Inl (Email_ErrEnqueueFailed, Some e))"
proof -
  have "AttachmentsByEmailID (e_id e) w = (Inr (filter (\<lambda>a. a_email a = Some (e_id e)) (attachments (tabs w))), w)"
    using assms(3) by (simp add: step_iffs db_down_def spend_no_faults)
  then show ?thesis
    using assms(1,2,5) enqueuer.enq_tabs[OF assms(4)]
    by (cases r) (auto simp: send_again_def step_iffs attached_ids_def split: if_splits)
qed

lemma withUUID_insert: "InsertAttachment ws f c n h k w = (Inr a, w') \<Longrightarrow>
    a_ws a = ws \<and> a_filename a = f \<and> a_ctype a = c \<and> a_size a = n \<and> a_sha a = h \<and> a_key a = k \<and>
    a_email a = None \<and> tabs w' = (tabs w)\<lparr>attachments := attachments (tabs w) @ [a]\<rparr> \<and> blobs w' = blobs w"
  by (auto simp: InsertAttachment_def insert_attachment_def step_iffs split: if_splits)

lemma InsertAttachment_Inl: "InsertAttachment ws f c n h k w = (Inl e, w') \<Longrightarrow> tabs w' = tabs w"
  by (auto simp: InsertAttachment_def insert_attachment_def step_iffs split: if_splits)

section \<open>Properties\<close>

definition sample_service :: service where
  "sample_service = \<lparr>es_getenv = (\<lambda>_. []), es_lib = sample_lib, es_queue = EnqueueSend,
     es_blobs = Some (S3Store ''dev/''), es_domains = None, es_other = id\<rparr>"

definition sample_request :: send_request where
  "sample_request = \<lparr>rq_in_reply_to = [], rq_refs = [], rq_from = ''bob@acme.kz'',
     rq_to = [''eve@x.kz''], rq_cc = [], rq_bcc = [], rq_subject = ''hi'', rq_html = [],
     rq_text = ''hello'', rq_attachments = []\<rparr>"

lemma sample_request_sel [simp]:
  "rq_to sample_request = [''eve@x.kz'']" "rq_cc sample_request = []" "rq_bcc sample_request = []"
  "rq_attachments sample_request = []"
  by (simp_all add: sample_request_def)

lemma sample_request_ok [simp]:
  "valid_request sample_lib sample_request" "trim_space (rq_text sample_request) \<noteq> []"
  by code_simp+

lemma sample_row_ok: "emails_check (new_email (params_of ''ws'' ''key'' sample_request) i)"
  by (simp add: emails_check_def new_email_def params_of_def sample_request_def like_address_def
      btrim_def trim_chars_def trim_by_def trim_left_by_def nullif_def deref_def)

definition sample_row :: email_row where
  "sample_row = new_email (params_of ''ws'' ''key'' sample_request) ''e1''"

definition sample_sent :: world where
  "sample_sent = sample_world\<lparr>tabs := sample_db\<lparr>emails := [sample_row],
     events := [\<lparr>ev_email = ''e1'', ev_type = EventQueued, ev_detail = None\<rparr>]\<rparr>\<rparr>"

lemma sample_row_sel [simp]:
  "e_id sample_row = ''e1''" "e_ws sample_row = ''ws''" "e_idem sample_row = Some ''key''"
  "e_status sample_row = StatusQueued" "same_message sample_row sample_request" "e_attempts sample_row = 0"
  "e_from sample_row = ''bob@acme.kz''" "e_to sample_row = [''eve@x.kz'']" "e_cc sample_row = []"
  "e_bcc sample_row = []" "e_in_reply_to sample_row = []" "e_refs sample_row = []"
  by (simp_all add: sample_row_def new_email_def params_of_def nullif_def same_message_def
      deref_def sample_request_def)

lemmas send_exec = Send_def send_new_def checkFrom_def no_row_def ByIdempotencyKey_def
  email_where_def meanwhile_def check_attachments_def attach_files_def EnqueueSend_def
  enqueue_task_def Create_def insertEvent_def insert_email_def insert_event_def params_of_def
  new_email_def sample_request_def sample_service_def sample_world_def sample_db_def
  empty_world_def empty_db_def exec_defs

lemma sample_send:
  "case Send sample_service ''ws'' ''key'' sample_request sample_world of
     (Inr e, w) \<Rightarrow> True | _ \<Rightarrow> False"
  using sample_request_ok sample_row_ok by (simp add: send_exec)

lemma Send_records:
  assumes "Send S ws key q w = (Inr e, w')" "enqueuer (es_queue S)" "es_other S = id" "send_db_ok (tabs w)"
    "\<And>g a b w r w'. es_domains S = Some g \<Longrightarrow> g a b w = (r, w') \<Longrightarrow> tabs w' = tabs w"
  shows "recorded ws key q e w'"
proof -
  obtain w1 where w1: "checkFrom S ws (rq_from q) w = (Inr (), w1)" and
   cs: "(\<exists>e0 w2. ByIdempotencyKey ws key w1 = (Inr e0, w2) \<and> send_again S q e0 w2 = (Inr e, w')) \<or>
     (key \<noteq> [] \<and> (\<exists>w2. ByIdempotencyKey ws key w1 = (Inl Email_ErrNotFound, w2) \<and> send_new S ws key q w2 = (Inr e, w'))) \<or>
     (key = [] \<and> send_new S ws key q w1 = (Inr e, w'))"
    using Send_Inr[OF assms(1)] by blast
  have t: "tabs w1 = tabs w" using checkFrom_tabs[OF w1 assms(5)] .
  have new: ?thesis if n: "send_new S ws key q w2 = (Inr e, w')" and w2: "tabs w2 = tabs w"
      and k: "\<forall>x\<in>set (emails (tabs w)). \<not> (e_ws x = ws \<and> e_idem x = Some key)" for w2
    using send_new_recorded[OF n assms(2,3)] assms(4) w2 k by (simp add: send_db_ok_def)
  from cs show ?thesis
  proof (elim disjE exE conjE)
    fix e0 w2 assume "ByIdempotencyKey ws key w1 = (Inr e0, w2)" "send_again S q e0 w2 = (Inr e, w')"
    then show ?thesis
      using send_again_recorded[of S q e0 w2 e w' ws key] assms(2)
      by (auto simp: step_iffs dest!: find_SomeD)
  next
    fix w2 assume l: "ByIdempotencyKey ws key w1 = (Inl Email_ErrNotFound, w2)"
      and n: "send_new S ws key q w2 = (Inr e, w')"
    show ?thesis
      by (rule new[OF n]) (use l t in \<open>auto simp: step_iffs split: if_splits\<close>)
  next
    assume "key = []" "send_new S ws key q w1 = (Inr e, w')"
    then show ?thesis
      using new t assms(4) by (simp add: send_db_ok_def)
  qed
qed



text \<open>C10: A retry under the same idempotency key with the same content writes nothing and returns the
  message already recorded, whatever state its delivery has reached, or reports that its task could
  not be queued, with that message.\<close>

theorem Send_idempotent:
  assumes "db_faults w = []" "enqueuer (es_queue S)" "key \<noteq> []"
    and row: "e \<in> set (emails (tabs w))" "e_ws e = ws" "e_idem e = Some key" "same_message e q"
    and files: "sort (attached_ids (tabs w) (e_id e)) = sort (rq_attachments q)"
    and uniq: "uniq_on (\<lambda>e. e_idem e \<noteq> None) (\<lambda>e. (e_ws e, e_idem e)) (emails (tabs w))"
    and valid: "valid_request (es_lib S) q" "length (rq_to q) + length (rq_cc q) + length (rq_bcc q) \<le> 50"
      "trim_space (rq_text q) \<noteq> [] \<or> trim_space (rq_html q) \<noteq> []" "checkFrom S ws (rq_from q) w = (Inr (), w)"
    and run: "Send S ws key q w = (r, w')"
  shows "tabs w' = tabs w \<and> (r = Inr e \<or> r = Inl (Email_ErrEnqueueFailed, Some e))"
proof -
  have "List.find (\<lambda>e. e_ws e = ws \<and> e_idem e = Some key) (emails (tabs w)) = Some e"
  proof (rule find_unique[OF row(1)])
    show "x = e" if "x \<in> set (emails (tabs w))" "e_ws x = ws \<and> e_idem x = Some key" for x
      using uniq_onD[OF uniq that(1) row(1)] that(2) row by simp
  qed (use row in simp)
  then have "ByIdempotencyKey ws key w = (Inr e, w)"
    using assms(1) by (simp add: step_iffs db_down_def spend_no_faults)
  then have "Send S ws key q w = send_again S q e w"
    using valid assms(3) by (auto simp: Send_def bindE_def guardE_def no_row_def handleE_def returnE_def)
  then show ?thesis
    using send_again_retry[OF row(4) files assms(1,2), of r w'] run by metis
qed

theorem Send_idempotent_witness:
  "\<exists>r w. Send sample_service ''ws'' ''key'' sample_request sample_sent = (r, w) \<and>
     tabs w = tabs sample_sent \<and> (r = Inr sample_row \<or> r = Inl (Email_ErrEnqueueFailed, Some sample_row))"
proof -
  obtain r w where s: "Send sample_service ''ws'' ''key'' sample_request sample_sent = (r, w)"
    by (cases "Send sample_service ''ws'' ''key'' sample_request sample_sent") auto
  have "tabs w = tabs sample_sent \<and> (r = Inr sample_row \<or> r = Inl (Email_ErrEnqueueFailed, Some sample_row))"
    by (rule Send_idempotent[OF _ _ _ _ _ _ _ _ _ _ _ _ _ s])
      (simp_all add: sample_sent_def sample_service_def sample_world_def sample_db_def
        empty_world_def empty_db_def asynq.enqueuer_axioms attached_ids_def uniq_on_def checkFrom_def
        returnE_def)
  with s show ?thesis by blast
qed

text \<open>A request under a key that already belongs to a different message (any field, or the list of
  attachments, differs) is refused and neither the database nor the queue changes.\<close>

theorem Send_key_mismatch:
  assumes "Send S ws key q w = (r, w')" "key \<noteq> []" 
    "es_domains S = None" 
    and row: "e \<in> set (emails (tabs w))" "e_ws e = ws" "e_idem e = Some key"
    and uniq: "uniq_on (\<lambda>e. e_idem e \<noteq> None) (\<lambda>e. (e_ws e, e_idem e)) (emails (tabs w))"
    and differs: "\<not> same_message e q \<or> sort (attached_ids (tabs w) (e_id e)) \<noteq> sort (rq_attachments q)"
  shows "r \<in> {Inl (Email_ErrValidation, None), Inl (ErrDB, None)} \<and> tabs w' = tabs w \<and> queue w' = queue w"
proof -
  have find: "List.find (\<lambda>e. e_ws e = ws \<and> e_idem e = Some key) (emails (tabs w)) = Some e"
  proof (rule find_unique[OF row(1)])
    show "x = e" if "x \<in> set (emails (tabs w))" "e_ws x = ws \<and> e_idem x = Some key" for x
      using uniq_onD[OF uniq that(1) row(1)] that(2) row by simp
  qed (use row in simp)
  show ?thesis
    using assms(1-3) find differs row
    by (cases r) (auto simp: Send_def checkFrom_def send_again_def attached_ids_def step_iffs split: if_splits)
qed

theorem Send_key_mismatch_witness:
  "\<exists>r w. Send sample_service ''ws'' ''key'' (sample_request\<lparr>rq_subject := ''bye''\<rparr>) sample_sent = (r, w) \<and>
     tabs w = tabs sample_sent \<and> r \<in> {Inl (Email_ErrValidation, None), Inl (ErrDB, None)}"
proof -
  obtain r w where s: "Send sample_service ''ws'' ''key'' (sample_request\<lparr>rq_subject := ''bye''\<rparr>) sample_sent = (r, w)"
    by (cases "Send sample_service ''ws'' ''key'' (sample_request\<lparr>rq_subject := ''bye''\<rparr>) sample_sent") auto
  have "r \<in> {Inl (Email_ErrValidation, None), Inl (ErrDB, None)} \<and> tabs w = tabs sample_sent \<and> queue w = queue sample_sent"
    by (rule Send_key_mismatch[OF s, where e = sample_row])
      (simp_all add: sample_sent_def sample_service_def sample_defs uniq_on_def same_message_def
        sample_row_def new_email_def params_of_def nullif_def sample_request_def)
  with s show ?thesis by blast
qed

text \<open>The loser of a race for a key does not compare: if another request commits a message under
  the key between the look-up and the INSERT, Send returns that message without an error, whatever
  its content.\<close>

theorem race_loser_unchecked:
  assumes "db_faults w = []" "\<And>w. db_faults (es_other S w) = db_faults w" "\<And>w. uuids (es_other S w) = uuids w"
    and new: "\<forall>x\<in>set (emails (tabs w)). \<not> (e_ws x = ws \<and> e_idem x = Some key)" "key \<noteq> []"
    and other: "r \<in> set (emails (tabs (es_other S w)))" "e_ws r = ws" "e_idem r = Some key"
      "uniq_on (\<lambda>e. e_idem e \<noteq> None) (\<lambda>e. (e_ws e, e_idem e)) (emails (tabs (es_other S w)))"
    and valid: "valid_request (es_lib S) q" "length (rq_to q) + length (rq_cc q) + length (rq_bcc q) \<le> 50"
      "trim_space (rq_text q) \<noteq> [] \<or> trim_space (rq_html q) \<noteq> []" "rq_attachments q = []"
      "emails_check (new_email (params_of ws key q) u)" "uuids w = u # us" "checkFrom S ws (rq_from q) w = (Inr (), w)"
  shows "fst (Send S ws key q w) = Inr r"
proof -
  let ?v = "es_other S w"
  have find: "List.find (\<lambda>e. e_ws e = ws \<and> e_idem e = Some key) (emails (tabs ?v)) = Some r"
  proof (rule find_unique[OF other(1)])
    show "x = r" if "x \<in> set (emails (tabs ?v))" "e_ws x = ws \<and> e_idem x = Some key" for x
      using uniq_onD[OF other(4) that(1) other(1)] that(2) other by simp
  qed (use other in simp)
  have look: "ByIdempotencyKey ws key w = (Inl Email_ErrNotFound, w)"
    using assms(1) new by (simp add: step_iffs db_down_def spend_no_faults)
  have "insert_email (params_of ws key q) u (db_now ?v) (tabs ?v) = (Inl ErrUnique, tabs ?v)"
    using valid(5) other new(2) by (auto simp: insert_email_def Let_def clashes_def new_email_def params_of_def nullif_def)
  then obtain w2 where w2: "Create (params_of ws key q) ?v = (Inl Email_ErrDuplicateIdempotencyKey, w2)" "tabs w2 = tabs ?v" "db_faults w2 = []"
    using assms(1-3) valid(6)
    by (auto simp: Create_def withTx_def withUUID_def handleE_def sql_def throwE_def db_down_def spend_def)
  then have "fst (send_new S ws key q w) = Inr r"
    using find valid(4) assms(1)
    by (simp add: send_new_def no_row_def bindE_def handleE_def check_attachments_def returnE_def meanwhile_def
        ByIdempotencyKey_def email_where_def query_def sql_def db_down_def)
  then show ?thesis
    using look valid new(2) by (auto simp: Send_def bindE_def guardE_def no_row_def handleE_def returnE_def)
qed

theorem race_loser_unchecked_witness:
  "fst (Send (sample_service\<lparr>es_other := (\<lambda>w. w\<lparr>tabs := tabs sample_sent\<rparr>)\<rparr>) ''ws'' ''key''
     (sample_request\<lparr>rq_subject := ''bye''\<rparr>) sample_world) = Inr sample_row \<and>
   \<not> same_message sample_row (sample_request\<lparr>rq_subject := ''bye''\<rparr>)"
proof
  have "valid_request sample_lib (sample_request\<lparr>rq_subject := ''bye''\<rparr>)"
    "trim_space (rq_text (sample_request\<lparr>rq_subject := ''bye''\<rparr>)) \<noteq> []"
    by code_simp+
  moreover have "emails_check (new_email (params_of ''ws'' ''key'' (sample_request\<lparr>rq_subject := ''bye''\<rparr>)) ''u1'')"
    using sample_row_ok[of "''u1''"] by (simp add: emails_check_def new_email_def params_of_def)
  ultimately show "fst (Send (sample_service\<lparr>es_other := (\<lambda>w. w\<lparr>tabs := tabs sample_sent\<rparr>)\<rparr>) ''ws'' ''key''
     (sample_request\<lparr>rq_subject := ''bye''\<rparr>) sample_world) = Inr sample_row"
    by (intro race_loser_unchecked[where u = "''u1''" and us = "[''u2'', ''u3'', ''u4'']"])
      (simp_all add: sample_sent_def sample_service_def sample_world_def sample_db_def
        empty_world_def empty_db_def uniq_on_def checkFrom_def returnE_def)
  show "\<not> same_message sample_row (sample_request\<lparr>rq_subject := ''bye''\<rparr>)"
    by (simp add: same_message_def sample_row_def new_email_def params_of_def sample_request_def)
qed

text \<open>An upload that succeeds is recorded once, unattached, with the digest and size of its bytes,
  and the bucket holds those bytes under the recorded key, within the size limit; one that fails leaves
  no row.\<close>

theorem UploadAttachment_stored:
  assumes "UploadAttachment S ws filename ctype data w = (r, w')" "es_blobs S = Some (S3Store p)"
  shows "case r of
      Inr a \<Rightarrow> tabs w' = (tabs w)\<lparr>attachments := attachments (tabs w) @ [a]\<rparr> \<and>
        s3_at p w' (a_key a) = Some data \<and> a_size a = int (length data) \<and>
        a_sha a = l_sha256 (es_lib S) data \<and> a_ws a = ws \<and> a_email a = None \<and>
        0 < length data \<and> int (length data) \<le> attachmentMaxBytes (es_getenv S)
    | Inl e \<Rightarrow> tabs w' = tabs w"
proof (cases r)
  case (Inr a)
  let ?l = "attachmentMaxBytes (es_getenv S)"
  obtain u us w1 where put: "\<not> ?l < int (length (take (nat (?l + 1)) data))" "data \<noteq> []"
      "Put p (ws @ ''/'' @ u) (take (nat (?l + 1)) data) (w\<lparr>uuids := us\<rparr>) = (Inr (), w1)"
    and ins: "InsertAttachment ws (trim_space filename) (if ctype = [] then ''application/octet-stream'' else ctype)
      (int (length (take (nat (?l + 1)) data))) (l_sha256 (es_lib S) (take (nat (?l + 1)) data)) (ws @ ''/'' @ u) w1 = (Inr a, w')"
    using assms Inr by (auto simp: UploadAttachment_def Let_def step_iffs S3Store_def split: if_splits)
  have "0 < ?l"
    by (simp add: attachmentMaxBytes_def envBytes_def Let_def split: option.split)
  then have all: "take (nat (?l + 1)) data = data"
    using put(1) by (auto simp: min_def split: if_splits)
  have "s3_at p w1 (ws @ ''/'' @ u) = Some data"
    using s3.put_ok[of p "ws @ ''/'' @ u" data "w\<lparr>uuids := us\<rparr>" w1] put(3) all by (simp add: S3Store_def)
  then show ?thesis
    using withUUID_insert[OF ins] put(1,2) s3.blob_tabs[of p "ws @ ''/'' @ u" data "w\<lparr>uuids := us\<rparr>" "Inr ()" w1] put(3) Inr all
    by (simp add: S3Store_def s3_at_def)
next
  case (Inl e)
  then show ?thesis
    using assms by (auto simp: UploadAttachment_def Let_def step_iffs S3Store_def split: if_splits
        dest!: s3_tabs InsertAttachment_Inl)
qed

theorem UploadAttachment_stored_witness:
  "\<exists>r w. UploadAttachment sample_service ''ws'' ''a.txt'' [] ''data'' sample_world = (r, w) \<and>
     (case r of Inr a \<Rightarrow> s3_at ''dev/'' w (a_key a) = Some ''data'' | Inl e \<Rightarrow> tabs w = sample_db)"
proof -
  obtain r w where s: "UploadAttachment sample_service ''ws'' ''a.txt'' [] ''data'' sample_world = (r, w)"
    by (cases "UploadAttachment sample_service ''ws'' ''a.txt'' [] ''data'' sample_world") auto
  show ?thesis
    using UploadAttachment_stored[OF s, of "''dev/''"] s
    by (auto simp: sample_service_def sample_world_def empty_world_def split: sum.splits)
qed

end
