(* ===== verification/Tokens.thy ===== *)
theory Tokens imports Accounts begin

text \<open>
  One-time codes and links (IssueToken, ConsumeToken, ConsumeOTP): the unique indexes they keep, and
  how many guesses one code allows.
\<close>

text \<open>The unique indexes of \<open>user_tokens\<close>.\<close>

definition pending :: "string \<Rightarrow> purpose \<Rightarrow> token_row \<Rightarrow> bool" where
  "pending u pu k \<longleftrightarrow> t_user k = u \<and> t_purpose k = pu \<and> t_consumed k = None"

definition tokens_ok :: "db \<Rightarrow> bool" where
  "tokens_ok t \<longleftrightarrow> uniq_on (\<lambda>_. True) t_id (tokens t) \<and> uniq_on (\<lambda>_. True) t_hash (tokens t) \<and>
     uniq_on (\<lambda>k. t_consumed k = None) (\<lambda>k. (t_user k, t_purpose k)) (tokens t)"

lemma find_upd_where:
  "(\<And>x. P (if Q x then f x else x) = P x) \<Longrightarrow>
   List.find P (upd_where Q f xs) = map_option (\<lambda>x. if Q x then f x else x) (List.find P xs)"
  by (induction xs) (auto simp: upd_where_def)

lemma insert_token_iff [step_iffs]:
  "insert_token k now t = (Inr u, t') \<longleftrightarrow> length (t_hash k) = 32 \<and>
     \<not> clashes (\<lambda>_. True) t_id k (tokens t) \<and> \<not> clashes (\<lambda>_. True) t_hash k (tokens t) \<and>
     \<not> clashes (\<lambda>k. t_consumed k = None) (\<lambda>k. (t_user k, t_purpose k)) k (tokens t) \<and>
     t_user k \<in> u_id ` set (users t) \<and> t' = t\<lparr>tokens := tokens t @ [k]\<rparr>"
  by (auto simp: insert_token_def)

lemma IssueToken_Inr:
  assumes "IssueToken u pu h d w = (Inr x, w')"
  shows "\<exists>i. tabs w' = (tabs w)\<lparr>tokens := del_where (pending u pu) (tokens (tabs w)) @
     [\<lparr>t_id = i, t_user = u, t_purpose = pu, t_hash = h, t_expires = db_now w + d, t_consumed = None,
       t_attempts = 0, t_locked = None\<rparr>]\<rparr> \<and> i \<notin> t_id ` set (del_where (pending u pu) (tokens (tabs w))) \<and>
    h \<notin> t_hash ` set (del_where (pending u pu) (tokens (tabs w))) \<and> u \<in> u_id ` set (users (tabs w)) \<and>
    skew w' = skew w"
  using assms
  apply (clarsimp simp: IssueToken_def step_iffs clashes_def pending_def[abs_def])
  apply (intro exI conjI)
      apply (rule refl)
     apply auto
  done

lemma IssueToken_Inl: "IssueToken u pu h d w = (Inl e, w') \<Longrightarrow> tabs w' = tabs w"
  by (auto simp: IssueToken_def dest: withTx_Inl_tabs)

lemma IssueToken_ok:
  assumes "IssueToken u pu h d w = (r, w')" "tokens_ok (tabs w)"
  shows "tokens_ok (tabs w')"
proof (cases r)
  case (Inl e)
  then show ?thesis using assms IssueToken_Inl by metis
next
  case (Inr x)
  obtain i where i: "tabs w' = (tabs w)\<lparr>tokens := del_where (pending u pu) (tokens (tabs w)) @
     [\<lparr>t_id = i, t_user = u, t_purpose = pu, t_hash = h, t_expires = db_now w + d, t_consumed = None,
       t_attempts = 0, t_locked = None\<rparr>]\<rparr>" "i \<notin> t_id ` set (del_where (pending u pu) (tokens (tabs w)))"
    "h \<notin> t_hash ` set (del_where (pending u pu) (tokens (tabs w)))"
    using IssueToken_Inr assms(1) Inr by metis
  then show ?thesis
    using assms(2) unfolding tokens_ok_def i(1)
    by (auto simp: uniq_on_snoc uniq_on_del_where clashes_def table_simps pending_def image_iff)
qed

lemma ConsumeToken_Inr [step_iffs]:
  "ConsumeToken pu h w = (Inr u, w') \<longleftrightarrow> \<not> db_down w \<and>
     (\<exists>k. List.find (redeemable pu h (db_now w)) (tokens (tabs w)) = Some k \<and>
       u = t_user k \<and> w' = (spend w)\<lparr>tabs := (tabs w)\<lparr>tokens := upd_where (redeemable pu h (db_now w))
         (\<lambda>k. k\<lparr>t_consumed := Some (db_now w)\<rparr>) (tokens (tabs w))\<rparr>\<rparr>)"
  by (auto simp: ConsumeToken_def step_iffs split: option.splits)

lemma ConsumeToken_Inl [step_iffs]:
  "ConsumeToken pu h w = (Inl e, w') \<longleftrightarrow> w' = spend w \<and> (if db_down w then e = ErrDB else
     e = Acc_ErrNotFound \<and> (\<forall>k\<in>set (tokens (tabs w)). \<not> redeemable pu h (db_now w) k))"
  unfolding find_None_iff2[symmetric] by (auto simp: ConsumeToken_def step_iffs split: option.splits)

lemma tokens_ok_upd:
  assumes "tokens_ok t" "\<And>k. t_id (f k) = t_id k" "\<And>k. t_hash (f k) = t_hash k"
    "\<And>k. t_user (f k) = t_user k" "\<And>k. t_purpose (f k) = t_purpose k"
    "\<And>k. Q k \<Longrightarrow> t_consumed (f k) = None \<Longrightarrow> t_consumed k = None"
  shows "tokens_ok (t\<lparr>tokens := upd_where Q f (tokens t)\<rparr>)"
  using assms unfolding tokens_ok_def by (auto intro!: uniq_on_upd_where)

lemma update_token_iff [step_iffs]:
  "update_token i f w = (Inr u, w') \<longleftrightarrow> \<not> db_down w \<and> w' = (spend w)\<lparr>tabs := (tabs w)\<lparr>tokens :=
     upd_where (\<lambda>k. t_id k = i) (f (db_now w)) (tokens (tabs w))\<rparr>\<rparr>"
  "update_token i f w = (Inl e, w') \<longleftrightarrow> db_down w \<and> e = ErrDB \<and> w' = spend w"
  by (auto simp: update_token_def step_iffs)

text \<open>The change an attempt makes to the row: consumed if the code is right, one more failure if not.\<close>

definition verdict :: "time \<Rightarrow> time \<Rightarrow> string \<Rightarrow> token_row \<Rightarrow> token_row \<Rightarrow> token_row" where
  "verdict now clock h k =
     (if t_hash k = h then (\<lambda>x. x\<lparr>t_consumed := Some now\<rparr>)
      else let n = (case t_locked k of None \<Rightarrow> t_attempts k | Some _ \<Rightarrow> 0) + 1 in
        (\<lambda>x. x\<lparr>t_attempts := n, t_locked := (if maxOTPAttempts \<le> n then Some (clock + otpLockout) else None)\<rparr>))"

lemma otp_attempt_Inr:
  assumes "otp_attempt k expired now h maxOTPAttempts otpLockout w = (Inr (res, b), w')"
  shows "skew w' = skew w \<and> db_now w' = db_now w \<and> (if b then \<not> expired \<and> (\<forall>l. t_locked k = Some l \<longrightarrow> l \<le> now) \<and> (ot_ok res \<longleftrightarrow> t_hash k = h) \<and>
       tabs w' = (tabs w)\<lparr>tokens := upd_where (\<lambda>x. t_id x = t_id k) (verdict (db_now w) now h k) (tokens (tabs w))\<rparr>
     else \<not> ot_ok res \<and> (\<exists>l. t_locked k = Some l \<and> now < l))"
  using assms by (auto simp: otp_attempt_def verdict_def Let_def step_iffs split: if_splits option.splits)

lemma otp_attempt_skew: "otp_attempt k x now h m l w = (r, w') \<Longrightarrow> skew w' = skew w"
  by (cases r) (auto simp: otp_attempt_def Let_def step_iffs split: if_splits option.splits)

lemma pending_abs: "pending u pu = (\<lambda>k. t_user k = u \<and> t_purpose k = pu \<and> t_consumed k = None)"
  by (simp add: fun_eq_iff pending_def)

lemma ConsumeOTP_cases:
  assumes "ConsumeOTP u pu h maxOTPAttempts otpLockout w = (r, w')"
  obtains (same) "tabs w' = tabs w" "\<And>res. r = Inr res \<Longrightarrow> \<not> ot_ok res" "skew w' = skew w"
  | (counted) k res where "List.find (pending u pu) (tokens (tabs w)) = Some k" "db_now w < t_expires k"
      "\<And>l. t_locked k = Some l \<Longrightarrow> l \<le> app_now w" "r = Inr res" "ot_ok res \<longleftrightarrow> t_hash k = h"
      "tabs w' = (tabs w)\<lparr>tokens := upd_where (\<lambda>x. t_id x = t_id k) (verdict (db_now w) (app_now w) h k) (tokens (tabs w))\<rparr>"
      "skew w' = skew w"
proof (cases r)
  case (Inl e)
  have "skew w' = skew w"
    using assms Inl by (auto simp: ConsumeOTP_def step_iffs dest: otp_attempt_skew)
  with Inl show ?thesis
    using same assms withTx_Inl_tabs unfolding ConsumeOTP_def by blast
next
  case (Inr res)
  obtain k b w1 where k: "List.find (pending u pu) (tokens (tabs w)) = Some k"
    and a: "otp_attempt k (t_expires k \<le> db_now w) (app_now w) h maxOTPAttempts otpLockout (spend (spend w)) = (Inr (res, b), w1)"
    and w': "if b then w' = spend w1 else w' = w1\<lparr>tabs := tabs w\<rparr>"
    using assms Inr by (auto simp: ConsumeOTP_def step_iffs pending_abs split: option.splits)
  show ?thesis
  proof (cases b)
    case True
    then show ?thesis
      using counted[OF k, of res] otp_attempt_Inr[OF a] w' Inr by auto
  next
    case False
    then show ?thesis
      using same otp_attempt_Inr[OF a] w' Inr by auto
  qed
qed


text \<open>
  A sequence of attempts at the code of one user, each with its moment; what is counted are the
  answers that tell the caller whether the code was right (the row was consumed or a failure was
  recorded), as opposed to refusals and errors.
\<close>

fun otp_tells :: "string \<Rightarrow> purpose \<Rightarrow> (time \<times> string) list \<Rightarrow> world \<Rightarrow> nat" where
  "otp_tells u pu [] w = 0"
| "otp_tells u pu ((now, h) # as) w =
     (case ConsumeOTP u pu h maxOTPAttempts otpLockout (w\<lparr>db_now := now\<rparr>) of (r, w') \<Rightarrow>
       (case r of Inl _ \<Rightarrow> 0 | Inr res \<Rightarrow> if ot_ok res \<or> tabs w' \<noteq> tabs w then 1 else 0)
       + otp_tells u pu as w')"

definition row_spent :: "time \<Rightarrow> nat \<Rightarrow> time \<Rightarrow> token_row \<Rightarrow> bool" where
  "row_spent E c sk k \<longleftrightarrow> t_expires k = E \<and>
     (case t_locked k of None \<Rightarrow> t_attempts k = int c \<and> c \<le> 6 | Some l \<Rightarrow> E + sk \<le> l)"

definition spent :: "string \<Rightarrow> purpose \<Rightarrow> time \<Rightarrow> nat \<Rightarrow> world \<Rightarrow> bool" where
  "spent u pu E c w \<longleftrightarrow> tokens_ok (tabs w) \<and> c \<le> 7 \<and>
     (\<forall>k. List.find (pending u pu) (tokens (tabs w)) = Some k \<longrightarrow> row_spent E c (skew w) k)"

lemma verdict_fields [simp]:
  "t_id (verdict now clock h k x) = t_id x" "t_hash (verdict now clock h k x) = t_hash x"
  "t_user (verdict now clock h k x) = t_user x" "t_purpose (verdict now clock h k x) = t_purpose x"
  "t_expires (verdict now clock h k x) = t_expires x"
  "t_consumed (verdict now clock h k x) = (if t_hash k = h then Some now else t_consumed x)"
  by (simp_all add: verdict_def Let_def)

lemma spent_step:
  assumes sp: "spent u pu E c (w\<lparr>db_now := now\<rparr>)" and E: "E \<le> now + otpLockout"
    and run: "ConsumeOTP u pu h maxOTPAttempts otpLockout (w\<lparr>db_now := now\<rparr>) = (r, w')"
  shows "(\<exists>res. r = Inr res \<and> (ot_ok res \<or> tabs w' \<noteq> tabs w)) \<and> spent u pu E (Suc c) w' \<or>
     \<not> (\<exists>res. r = Inr res \<and> (ot_ok res \<or> tabs w' \<noteq> tabs w)) \<and> spent u pu E c w'"
  using run
proof (cases rule: ConsumeOTP_cases)
  case same
  then show ?thesis using sp by (auto simp: spent_def)
next
  case (counted k res)
  let ?w = "w\<lparr>db_now := now\<rparr>"
  let ?v = "verdict now (app_now ?w) h k"
  have k: "List.find (pending u pu) (tokens (tabs w)) = Some k" "now < t_expires k"
    using counted(1,2) by simp_all
  have unlocked: "t_locked k = None" "t_attempts k = int c" "c \<le> 6" "t_expires k = E"
    using sp k counted(3) by (auto simp: spent_def row_spent_def app_now_def split: option.splits)
  have t': "tokens (tabs w') = upd_where (\<lambda>x. t_id x = t_id k) ?v (tokens (tabs w))"
    using counted(6) by simp
  have ok: "tokens_ok (tabs w')"
    unfolding counted(6) using sp by (auto simp: spent_def intro!: tokens_ok_upd split: if_splits)
  have kin: "k \<in> set (tokens (tabs w))" "pending u pu k"
    using find_SomeD[OF k(1)] by auto
  have changed: "tabs w' \<noteq> tabs w"
  proof
    assume eq: "tabs w' = tabs w"
    have "?v k \<in> set (tokens (tabs w'))"
      unfolding t' using kin by (auto simp: table_simps)
    with eq have "?v k \<in> set (tokens (tabs w))" by simp
    moreover have "?v k \<noteq> k"
    proof
      assume e: "?v k = k"
      show False
        using arg_cong[OF e, of t_consumed] arg_cong[OF e, of t_attempts] unlocked kin(2)
        by (cases "t_hash k = h") (simp_all add: pending_def verdict_def Let_def)
    qed
    ultimately show False
      using sp kin(1) by (auto simp: spent_def tokens_ok_def dest: uniq_onD)
  qed
  have "spent u pu E (Suc c) w'"
  proof (cases "t_hash k = h")
    case True
    have "\<not> pending u pu x" if x: "x \<in> set (tokens (tabs w'))" for x
    proof
      assume p: "pending u pu x"
      obtain y where y: "y \<in> set (tokens (tabs w))" "x = (if t_id y = t_id k then ?v y else y)"
        using x unfolding t' by (auto simp: upd_where_def)
      with p True have "pending u pu y" "t_id y \<noteq> t_id k"
        by (auto simp: pending_def split: if_splits)
      then show False
        using sp kin y(1) by (auto simp: spent_def tokens_ok_def pending_def dest: uniq_onD)
    qed
    then have "List.find (pending u pu) (tokens (tabs w')) = None"
      by (simp add: find_None_iff2)
    then show ?thesis using ok unlocked(3) by (simp add: spent_def)
  next
    case False
    have "List.find (pending u pu) (tokens (tabs w')) = Some (?v k)"
      unfolding t' by (subst find_upd_where) (use k(1) False in \<open>auto simp: pending_def\<close>)
    then show ?thesis
      using ok unlocked False E counted(7)
      by (auto simp: spent_def row_spent_def verdict_def Let_def maxOTPAttempts_def app_now_def)
  qed
  then show ?thesis using counted(4) changed by blast
qed

lemma otp_tells_bound:
  assumes "spent u pu E c w" "E \<le> T0 + otpLockout" "sorted (map fst as)" "\<forall>a\<in>set as. T0 \<le> fst a"
  shows "c + otp_tells u pu as w \<le> 7"
  using assms
proof (induction as arbitrary: c w)
  case Nil
  then show ?case by (simp add: spent_def)
next
  case (Cons a as)
  obtain now h where a: "a = (now, h)" by (cases a) auto
  obtain r w' where run: "ConsumeOTP u pu h maxOTPAttempts otpLockout (w\<lparr>db_now := now\<rparr>) = (r, w')"
    by fastforce
  have "spent u pu E c (w\<lparr>db_now := now\<rparr>)" "E \<le> now + otpLockout"
    using Cons.prems a by (auto simp: spent_def)
  from spent_step[OF this run] show ?case
    using Cons.IH[of "Suc c" w'] Cons.IH[of c w'] Cons.prems a run
    by (auto split: sum.splits)
qed

section \<open>Properties\<close>

text \<open>C33: A code is guessed at most seven times: from its issue until it is replaced, in any sequence of
  attempts in time order, at most seven are answered in a way that tells whether the code was right.
  The lock of the seventh failure outlasts the code, so the fresh budget given after a lock is never
  usable.\<close>

theorem otp_budget:
  assumes "IssueToken u pu h0 verificationTTL w0 = (Inr (), w)" "tokens_ok (tabs w0)"
    "sorted (map fst as)" "\<forall>a\<in>set as. db_now w0 \<le> fst a"
  shows "otp_tells u pu as w \<le> 7"
proof -
  obtain i where i: "tabs w = (tabs w0)\<lparr>tokens := del_where (pending u pu) (tokens (tabs w0)) @
     [\<lparr>t_id = i, t_user = u, t_purpose = pu, t_hash = h0, t_expires = db_now w0 + verificationTTL,
       t_consumed = None, t_attempts = 0, t_locked = None\<rparr>]\<rparr>"
    using IssueToken_Inr[OF assms(1)] by blast
  have "List.find (pending u pu) (del_where (pending u pu) xs @ [k]) = Some k" if "pending u pu k" for xs k
    using that by (induction xs) (auto simp: del_where_def)
  then have "spent u pu (db_now w0 + verificationTTL) 0 w"
    using IssueToken_ok[OF assms(1,2)] unfolding i by (simp add: spent_def row_spent_def pending_def i)
  from otp_tells_bound[OF this _ assms(3,4)] show ?thesis
    by (simp add: verificationTTL_def otpLockout_def)
qed

theorem otp_budget_witness:
  "\<exists>w. IssueToken ''bob'' PurposeEmailVerification sample_random verificationTTL sample_world = (Inr (), w) \<and>
     otp_tells ''bob'' PurposeEmailVerification [(0, ''x''), (1, ''y'')] w \<le> 7"
proof -
  have "case IssueToken ''bob'' PurposeEmailVerification sample_random verificationTTL sample_world of
      (r, w) \<Rightarrow> r = Inr ()"
    by (simp add: IssueToken_def insert_token_def sample_random_def sample_world_def sample_db_def
        empty_world_def empty_db_def exec_defs del_where_def)
  then obtain w where w: "IssueToken ''bob'' PurposeEmailVerification sample_random verificationTTL sample_world = (Inr (), w)"
    by (auto split: prod.splits)
  moreover have "otp_tells ''bob'' PurposeEmailVerification [(0, ''x''), (1, ''y'')] w \<le> 7"
    by (rule otp_budget[OF w]) (simp_all add: sample_world_def sample_db_def empty_world_def empty_db_def
        tokens_ok_def uniq_on_def)
  ultimately show ?thesis by blast
qed

text \<open>Issuing a link or code leaves exactly one unconsumed token of that purpose for the user, the
  new one with its full life, and every earlier unconsumed token of it is gone; a failed issue changes nothing.\<close>

theorem IssueToken_replaces:
  assumes "IssueToken u pu h d w = (r, w')"
  shows "case r of Inl e \<Rightarrow> tabs w' = tabs w
    | Inr x \<Rightarrow> \<exists>k. filter (pending u pu) (tokens (tabs w')) = [k] \<and> t_hash k = h \<and>
        t_expires k = db_now w + d \<and> t_attempts k = 0 \<and> t_locked k = None"
proof (cases r)
  case (Inr x)
  have "filter (pending u pu) (del_where (pending u pu) ts @ [k]) = [k]" if "pending u pu k" for ts k
    using that by (simp add: del_where_def)
  with Inr IssueToken_Inr[of u pu h d w x w'] assms show ?thesis
    by (fastforce simp: pending_def)
qed (use assms IssueToken_Inl in auto)

theorem IssueToken_replaces_witness:
  "\<exists>r w. IssueToken ''bob'' PurposePasswordReset ''short'' passwordResetTTL sample_world = (r, w) \<and>
     (case r of Inl e \<Rightarrow> tabs w = tabs sample_world | Inr x \<Rightarrow> True)"
proof -
  obtain r w where "IssueToken ''bob'' PurposePasswordReset ''short'' passwordResetTTL sample_world = (r, w)"
    by fastforce
  with IssueToken_replaces[OF this] show ?thesis by (auto split: sum.splits)
qed

end
