(* ===== verification/Signin.thy ===== *)
theory Signin imports Tokens begin

text \<open>
  Sign-in, password reset, the first password change and the session check of internal/account: what
  a success means and what a failure leaves alone. The inversion lemmas say what each operation does
  to the tables; \<open>signed_in\<close> is what every way in has in common.
\<close>

section \<open>Inverting the steps\<close>

lemma user_where_Inr [step_iffs]:
  "user_where P w = (Inr u, w') \<longleftrightarrow> \<not> db_down w \<and> List.find P (users (tabs w)) = Some u \<and> w' = spend w"
  by (auto simp: user_where_def step_iffs split: option.splits)

lemma user_where_Inl [step_iffs]:
  "user_where P w = (Inl e, w') \<longleftrightarrow> w' = spend w \<and> (if db_down w then e = ErrDB else
     e = Acc_ErrNotFound \<and> List.find P (users (tabs w)) = None)"
  by (auto simp: user_where_def step_iffs split: option.splits)

lemma update_users_iff [step_iffs]:
  "update_users P f w = (Inr u, w') \<longleftrightarrow> \<not> db_down w \<and>
     w' = (spend w)\<lparr>tabs := (tabs w)\<lparr>users := upd_where P f (users (tabs w))\<rparr>\<rparr>"
  "update_users P f w = (Inl e, w') \<longleftrightarrow> db_down w \<and> e = ErrDB \<and> w' = spend w"
  by (auto simp: update_users_def step_iffs)

lemma update_sessions_iff [step_iffs]:
  "update_sessions P f w = (Inr u, w') \<longleftrightarrow> \<not> db_down w \<and>
     w' = (spend w)\<lparr>tabs := (tabs w)\<lparr>sessions := upd_where P (f (db_now w)) (sessions (tabs w))\<rparr>\<rparr>"
  "update_sessions P f w = (Inl e, w') \<longleftrightarrow> db_down w \<and> e = ErrDB \<and> w' = spend w"
  by (auto simp: update_sessions_def step_iffs)

lemma set_password_hash_iff [step_iffs]:
  "set_password_hash u h w = (Inr n, w') \<longleftrightarrow> \<not> db_down w \<and>
     n = count_where (\<lambda>i. i_user i = u \<and> i_provider i = ProviderPassword) (identities (tabs w)) \<and>
     w' = (spend w)\<lparr>tabs := (tabs w)\<lparr>identities := upd_where (\<lambda>i. i_user i = u \<and> i_provider i = ProviderPassword)
       (\<lambda>i. i\<lparr>i_hash := Some h\<rparr>) (identities (tabs w))\<rparr>\<rparr>"
  "set_password_hash u h w = (Inl e, w') \<longleftrightarrow> db_down w \<and> e = ErrDB \<and> w' = spend w"
  by (auto simp: set_password_hash_def step_iffs Let_def)

lemma insert_user_iff [step_iffs]:
  "insert_user u now t = (Inr v, t') \<longleftrightarrow> v = u \<and> t' = t\<lparr>users := users t @ [u]\<rparr> \<and>
     like_address (u_email u) \<and> (\<forall>x\<in>set (users t). u_id x \<noteq> u_id u \<and> to_lower (u_email x) \<noteq> to_lower (u_email u))"
  by (auto simp: insert_user_def clashes_def)

lemma insert_identity_iff [step_iffs]:
  "insert_identity i now t = (Inr x, t') \<longleftrightarrow> t' = t\<lparr>identities := identities t @ [i]\<rparr> \<and>
     btrim (i_subject i) \<noteq> [] \<and> (i_provider i = ProviderPassword) = (i_hash i \<noteq> None) \<and>
     \<not> clashes (\<lambda>_. True) (\<lambda>i. (i_provider i, i_subject i)) i (identities t) \<and>
     \<not> clashes (\<lambda>i. i_provider i = ProviderPassword) i_user i (identities t) \<and> i_user i \<in> u_id ` set (users t)"
  by (auto simp: insert_identity_def)

lemma insert_session_iff [step_iffs]:
  "insert_session s now t = (Inr v, t') \<longleftrightarrow> v = s \<and> t' = t\<lparr>sessions := sessions t @ [s]\<rparr> \<and>
     length (s_hash s) = 32 \<and> (\<forall>x\<in>set (sessions t). s_id x \<noteq> s_id s \<and> s_hash x \<noteq> s_hash s) \<and>
     s_user s \<in> u_id ` set (users t)"
  by (auto simp: insert_session_def clashes_def)

lemma insertSession_Inr:
  "insertSession L u h a ip d w = (Inr s, w') \<Longrightarrow>
     tabs w' = (tabs w)\<lparr>sessions := sessions (tabs w) @ [s]\<rparr> \<and> s_user s = u \<and> s_hash s = h \<and>
     s_revoked s = None \<and> s_expires s = db_now w + d \<and> (\<forall>x\<in>set (sessions (tabs w)). s_id x \<noteq> s_id s \<and> s_hash x \<noteq> h) \<and>
     db_now w' = db_now w \<and> skew w' = skew w \<and> db_faults w' = tl (db_faults w)"
  by (auto simp: insertSession_def step_iffs split: if_splits)

lemma insertSession_Inl: "insertSession L u h a ip d w = (Inl e, w') \<Longrightarrow> tabs w' = tabs w"
  by (auto simp: insertSession_def step_iffs)

lemma newToken_iff [step_iffs]:
  "newToken L w = (Inr (tok, h), w') \<longleftrightarrow> (\<exists>raw rs. entropy w = raw # rs \<and> tok = b64_raw_url raw \<and>
     h = hashToken L tok \<and> w' = w\<lparr>entropy := rs\<rparr>)"
  "newToken L w = (Inl e, w') \<longleftrightarrow> entropy w = [] \<and> e = ErrRand \<and> w' = w"
  by (auto simp: newToken_def step_iffs Let_def)

text \<open>A successful sign-in: the tables gain exactly the session of the token handed out.\<close>

definition signed_in :: "account_service \<Rightarrow> world \<Rightarrow> credentials \<Rightarrow> world \<Rightarrow> bool" where
  "signed_in S w cr w' \<longleftrightarrow> (\<exists>s. tabs w' = (tabs w)\<lparr>sessions := sessions (tabs w) @ [s]\<rparr> \<and>
     s_user s = u_id (cr_user cr) \<and> s_hash s = hashToken (ac_lib S) (cr_token cr) \<and>
     s_revoked s = None \<and> s_expires s = db_now w + sessionTTL \<and> cr_expires cr = s_expires s \<and>
     (\<forall>x\<in>set (sessions (tabs w)). s_hash x \<noteq> s_hash s))"

lemma startSession_Inr:
  "startSession S user rc w = (Inr cr, w') \<Longrightarrow> signed_in S w cr w' \<and> cr_user cr = user"
  by (auto simp: startSession_def signed_in_def CreateSession_def step_iffs dest!: insertSession_Inr)

lemma startSession_Inl: "startSession S user rc w = (Inl e, w') \<Longrightarrow> tabs w' = tabs w"
  by (auto simp: startSession_def CreateSession_def step_iffs dest!: insertSession_Inl)

lemma password_hash_of_Inr:
  "password_hash_of u w = (Inr h, w') \<Longrightarrow> w' = spend w \<and>
     (\<exists>i\<in>set (identities (tabs w)). i_user i = u \<and> i_provider i = ProviderPassword \<and> i_hash i = Some h)"
  by (auto simp: password_hash_of_def step_iffs split: option.splits dest!: find_SomeD)

lemma password_hash_of_Inl: "password_hash_of u w = (Inl e, w') \<Longrightarrow> tabs w' = tabs w"
  by (auto simp: password_hash_of_def step_iffs)

lemma startPasswordSession_Inr:
  assumes "startPasswordSession S u h rc w = (Inr cr, w')"
  shows "signed_in S w cr w' \<and> u_id (cr_user cr) = u \<and>
    (\<exists>i\<in>set (identities (tabs w)). i_user i = u \<and> i_provider i = ProviderPassword \<and> i_hash i = Some h)"
  using assms by (auto simp: startPasswordSession_def signed_in_def step_iffs UserByID_def
      dest!: insertSession_Inr password_hash_of_Inr find_SomeD)

lemma startPasswordSession_Inl: "startPasswordSession S u h rc w = (Inl e, w') \<Longrightarrow> tabs w' = tabs w"
  by (auto simp: startPasswordSession_def dest: withTx_Inl_tabs)

lemma hashPassword_Inr:
  "hashPassword L p w = (Inr h, w') \<Longrightarrow> (\<exists>salt. h = l_bcrypt L salt p) \<and> tabs w' = tabs w \<and> db_now w' = db_now w \<and>
     minPasswordLen \<le> rune_count p \<and> length p \<le> maxPasswordBytes \<and> skew w' = skew w"
  by (auto simp: hashPassword_def step_iffs)

lemma hashPassword_Inl: "hashPassword L p w = (Inl h, w') \<Longrightarrow> tabs w' = tabs w"
  by (auto simp: hashPassword_def step_iffs)

lemma UpdatePassword_Inr:
  assumes "UpdatePassword u h w = (Inr x, w')"
  shows "tabs w' = (tabs w)\<lparr>identities := upd_where (\<lambda>i. i_user i = u \<and> i_provider i = ProviderPassword)
       (\<lambda>i. i\<lparr>i_hash := Some h\<rparr>) (identities (tabs w)),
     users := upd_where (\<lambda>x. u_id x = u) (\<lambda>u. u\<lparr>u_must_change := False\<rparr>) (users (tabs w)),
     sessions := upd_where (\<lambda>s. s_user s = u \<and> s_revoked s = None) (\<lambda>s. s\<lparr>s_revoked := Some (db_now w)\<rparr>) (sessions (tabs w))\<rparr> \<and>
     (\<exists>i\<in>set (identities (tabs w)). i_user i = u \<and> i_provider i = ProviderPassword) \<and> db_now w' = db_now w"
  using assms by (auto simp: UpdatePassword_def clear_must_change_def RevokeAllSessions_def step_iffs count_where_pos)

lemma MarkEmailVerified_tabs:
  "MarkEmailVerified u w = (r, w') \<Longrightarrow> sessions (tabs w') = sessions (tabs w) \<and> tokens (tabs w') = tokens (tabs w) \<and>
     identities (tabs w') = identities (tabs w) \<and> db_now w' = db_now w"
  by (cases r) (auto simp: MarkEmailVerified_def step_iffs)



lemma PasswordIdentity_Inr:
  "PasswordIdentity e w = (Inr (u, h), w') \<Longrightarrow> w' = spend w \<and> u \<in> set (users (tabs w)) \<and>
     (\<exists>i\<in>set (identities (tabs w)). i_user i = u_id u \<and> i_provider i = ProviderPassword \<and>
        i_subject i = to_lower e \<and> i_hash i = Some h)"
  by (auto simp: PasswordIdentity_def step_iffs Bex_def split: option.splits dest!: find_SomeD intro!: exI)

lemma PasswordIdentity_Inl: "PasswordIdentity e w = (Inl x, w') \<Longrightarrow> w' = spend w"
  by (auto simp: PasswordIdentity_def step_iffs)

lemma UserByID_Inr: "UserByID i w = (Inr u, w') \<Longrightarrow> w' = spend w \<and> u \<in> set (users (tabs w)) \<and> u_id u = i"
  unfolding UserByID_def user_where_Inr using find_SomeD[of "\<lambda>x. u_id x = i" "users (tabs w)" u] by blast

lemma redeemable_gone:
  assumes "now \<le> now'" "k \<in> set (upd_where (redeemable pu h now) (\<lambda>k. k\<lparr>t_consumed := Some c\<rparr>) ks)"
  shows "\<not> redeemable pu h now' k"
proof -
  obtain x where "k = (if redeemable pu h now x then x\<lparr>t_consumed := Some c\<rparr> else x)"
    using assms(2) unfolding upd_where_def set_map by blast
  then show ?thesis using assms(1) by (auto simp: redeemable_def split: if_splits)
qed

definition reset_check :: "account_service \<Rightarrow> string \<Rightarrow> user_row \<Rightarrow> unit op" where
  "reset_check S new u = (if u_must_change u then bindE (PasswordIdentity (u_email u)) (\<lambda>(_, oldHash).
         guardE (verifyPassword (ac_lib S) oldHash new) Acc_ErrValidation) else returnE ())"

lemma reset_check_Inr: "reset_check S new u w = (Inr x, w') \<Longrightarrow> tabs w' = tabs w \<and> db_now w' = db_now w"
  by (auto simp: reset_check_def step_iffs dest!: PasswordIdentity_Inr split: if_splits)

lemma ResetPassword_steps:
  assumes "ResetPassword S tok new rc w = (Inr cr, w')"
  obtains salt w1 u w2 w3 w4 w5 w6 user where "tabs w1 = tabs w" "db_now w1 = db_now w"
    "ConsumeToken PurposePasswordReset (hashToken (ac_lib S) tok) w1 = (Inr u, w2)"
    "tabs w3 = tabs w2" "db_now w3 = db_now w2"
    "UpdatePassword u (l_bcrypt (ac_lib S) salt new) w3 = (Inr (), w4)" "RevokeAllSessions u w4 = (Inr (), w5)"
    "sessions (tabs w6) = sessions (tabs w5)" "tokens (tabs w6) = tokens (tabs w5)"
    "identities (tabs w6) = identities (tabs w5)" "db_now w6 = db_now w5"
    "u_id user = u" "startSession S user rc w6 = (Inr cr, w')"
proof -
  have folded: "ResetPassword S tok new rc =
     bindE (hash_or_invalid (ac_lib S) new) (\<lambda>hash.
     handleE (ConsumeToken PurposePasswordReset (hashToken (ac_lib S) tok))
       (\<lambda>e. throwE (if e = Acc_ErrNotFound then Acc_ErrInvalidToken None else e)) (\<lambda>u.
     bindE (UserByID u) (\<lambda>existing. bindE (reset_check S new existing) (\<lambda>_.
     bindE (UpdatePassword u hash) (\<lambda>_. bindE (RevokeAllSessions u) (\<lambda>_.
     bindE (ignoreE (MarkEmailVerified u)) (\<lambda>_. bindE (UserByID u) (\<lambda>user. startSession S user rc))))))))"
    by (simp add: ResetPassword_def reset_check_def)
  obtain hash s1 u s2 ex s3 s4 s5 s6 q s7 user s8 where
    1: "hashPassword (ac_lib S) new w = (Inr hash, s1)"
       "ConsumeToken PurposePasswordReset (hashToken (ac_lib S) tok) s1 = (Inr u, s2)" and
    2: "UserByID u s2 = (Inr ex, s3)" "reset_check S new ex s3 = (Inr (), s4)"
       "UpdatePassword u hash s4 = (Inr (), s5)" "RevokeAllSessions u s5 = (Inr (), s6)" and
    3: "MarkEmailVerified u s6 = (q, s7)" "UserByID u s7 = (Inr user, s8)" "startSession S user rc s8 = (Inr cr, w')"
    using assms unfolding folded
    by (simp add: bindE_Inr_iff handleE_iff throwE_iff ignoreE_iff hash_or_invalid_def returnE_iff) blast
  obtain salt where salt: "hash = l_bcrypt (ac_lib S) salt new" "tabs s1 = tabs w" "db_now s1 = db_now w"
    using hashPassword_Inr[OF 1(1)] by blast
  show thesis
    using that[OF salt(2,3) 1(2) _ _ 2(3)[unfolded salt(1)] 2(4) _ _ _ _ _ 3(3)]
      UserByID_Inr[OF 2(1)] UserByID_Inr[OF 3(2)] reset_check_Inr[OF 2(2)] MarkEmailVerified_tabs[OF 3(1)] by simp
qed

section \<open>A service and worlds to run them in\<close>

definition sample_service :: account_service where
  "sample_service = NewService sample_lib (\<lambda>m. returnE ''id'') None [] []"

definition sample_rc :: request_context where
  "sample_rc = \<lparr>rc_agent = [], rc_ip = []\<rparr>"

definition reset_world :: world where
  "reset_world = sample_world\<lparr>tabs := sample_db\<lparr>tokens := [\<lparr>t_id = ''t'', t_user = ''bob'',
     t_purpose = PurposePasswordReset, t_hash = hashToken sample_lib ''tok'', t_expires = 10, t_consumed = None,
     t_attempts = 0, t_locked = None\<rparr>]\<rparr>\<rparr>"

definition initial_world :: world where
  "initial_world = sample_world\<lparr>tabs := sample_db\<lparr>users := [\<lparr>u_id = ''bob'', u_email = ''bob@acme.kz'',
     u_name = ''Bob'', u_verified_at = None, u_must_change = True\<rparr>]\<rparr>\<rparr>"

definition session_world :: world where
  "session_world = sample_world\<lparr>tabs := sample_db\<lparr>sessions := [\<lparr>s_id = ''s'', s_user = ''bob'',
     s_hash = hashToken sample_lib ''tok'', s_agent = None, s_ip = None, s_expires = 10, s_revoked = None, s_seen = None\<rparr>]\<rparr>\<rparr>"

lemmas account_exec = hash_or_invalid_def hashPassword_def randRead_def ConsumeToken_def UserByID_def
  user_where_def UpdatePassword_def set_password_hash_def clear_must_change_def update_users_def
  RevokeAllSessions_def RevokeSession_def update_sessions_def MarkEmailVerified_def startSession_def newToken_def
  CreateSession_def insertSession_def insert_session_def PasswordIdentity_def TouchIdentityLogin_def
  startPasswordSession_def password_hash_of_def verifyPassword_def redeemable_def hashToken_def asks_def
  upd_where_def count_where_def nullif_def UserBySessionToken_def TouchSession_def live_session_def

lemma sample_strings:
  "length sample_random = 32" "\<not> rune_count ''a new password'' < minPasswordLen" "length (l_sha256 sample_lib x) = 32"
  "normaliseEmail ''bob@acme.kz'' = ''bob@acme.kz''" "to_lower ''bob@acme.kz'' = ''bob@acme.kz''"
  "bearerToken ''Bearer tok'' = Some ''tok''" "trim_space ''subj'' = ''subj''" "btrim ''subj'' = ''subj''"
     apply (simp add: sample_random_def)
    apply code_simp
   apply (simp add: sample_lib_def)
  apply code_simp+
  done

lemmas account_run = account_exec exec_defs sample_service_def NewService_def sample_rc_def sample_world_def
  sample_db_def empty_world_def empty_db_def sample_strings maxPasswordBytes_def

lemma sample_reset: "\<exists>cr w. ResetPassword sample_service ''tok'' ''a new password'' sample_rc reset_world = (Inr cr, w)"
  by (simp add: account_run ResetPassword_def reset_world_def)

lemma sample_login: "\<exists>cr w. Login sample_service ''bob@acme.kz'' ''old password'' sample_rc sample_world = (Inr cr, w)"
  by (simp add: account_run Login_def) (simp add: sample_lib_def)

lemma sample_change: "\<exists>cr w. ChangeInitialPassword sample_service ''bob'' ''old password'' ''a new password'' sample_rc initial_world = (Inr cr, w)"
  by (simp add: account_run ChangeInitialPassword_def replace_initial_def initial_world_def) (simp add: sample_lib_def)

lemma sample_session: "\<exists>u w. RequireSession sample_service ''Bearer tok'' ''/emails'' session_world = (Inr (Pass u ''tok''), w)"
  by (simp add: account_run RequireSession_def session_world_def)

lemma sample_logout: "\<exists>w. Logout sample_service ''tok'' session_world = (Inr (), w)"
  by (simp add: account_run Logout_def session_world_def)

definition sample_ext :: ext_identity where
  "sample_ext = \<lparr>x_provider = ProviderGoogle, x_subject = ''subj'', x_email = ''bob@acme.kz'', x_name = ''Bob'', x_verified = True\<rparr>"

lemma sample_ext_signin: "\<exists>cr w. SignInWithIdentity sample_service sample_ext sample_rc sample_world = (Inr cr, w) \<and> u_id (cr_user cr) = ''bob''"
  by (simp add: account_run SignInWithIdentity_def sample_ext_def UserByExternalIdentity_def UserByEmail_def LinkIdentity_def insert_identity_def)

section \<open>Properties\<close>



lemma TouchIdentityLogin_tabs:
  "TouchIdentityLogin p subj w = (r, w') \<Longrightarrow> users (tabs w') = users (tabs w) \<and>
     sessions (tabs w') = sessions (tabs w) \<and> tokens (tabs w') = tokens (tabs w) \<and> db_now w' = db_now w \<and>
     (\<forall>i'\<in>set (identities (tabs w')). \<exists>i\<in>set (identities (tabs w)). i_user i' = i_user i \<and>
        i_provider i' = i_provider i \<and> i_hash i' = i_hash i \<and> i_subject i' = i_subject i)"
  unfolding TouchIdentityLogin_def ignoreE_iff
  apply (elim conjE exE)
  subgoal for q by (cases q) (auto simp: step_iffs table_simps)
  done


text \<open>The session check lets a request through only with a bearer token whose digest is that of a session
  of the user, not revoked and not expired on the database clock; a user who must change the initial password
  reaches only the three routes that let them do it.\<close>

theorem RequireSession_pass:
  assumes "RequireSession S header url w = (Inr (Pass user tok), w')"
  shows "bearerToken header = Some tok \<and> user \<in> set (users (tabs w)) \<and>
    (\<exists>s\<in>set (sessions (tabs w)). s_hash s = hashToken (ac_lib S) tok \<and> s_user s = u_id user \<and>
       live_session (db_now w) s) \<and>
    (u_must_change user \<longrightarrow> url \<in> {''/auth/me'', ''/auth/logout'', ''/auth/change-initial-password''})"
  using assms
  by (auto simp: RequireSession_def UserBySessionToken_def step_iffs split: option.splits if_splits
      dest!: find_SomeD)

text \<open>After a logout the token opens nothing any more: every later check of it is refused.\<close>

theorem Logout_refuses:
  assumes "Logout S tok w = (Inr (), w1)" "bearerToken header = Some tok" "tabs w2 = tabs w1" "RequireSession S header url w2 = (Inr g, w3)"
  shows "g = Refuse 401 ''unauthenticated'' \<or> g = Refuse 500 ''internal''"
  using assms
  by (auto simp: RequireSession_def UserBySessionToken_def Logout_def RevokeSession_def live_session_def step_iffs table_simps split: option.splits if_splits
      dest!: find_SomeD)

lemma UserByExternalIdentity_Inr:
  "UserByExternalIdentity p subj w = (Inr u, w') \<Longrightarrow> w' = spend w \<and> u \<in> set (users (tabs w)) \<and>
     (\<exists>i\<in>set (identities (tabs w)). i_user i = u_id u \<and> i_provider i = p \<and> i_subject i = subj)"
  by (auto simp: UserByExternalIdentity_def step_iffs split: option.splits dest!: find_SomeD)

lemma UserByExternalIdentity_Inl: "UserByExternalIdentity p subj w = (Inl e, w') \<Longrightarrow> w' = spend w"
  by (auto simp: UserByExternalIdentity_def step_iffs)

lemma UserByEmail_Inr:
  "UserByEmail e w = (Inr u, w') \<Longrightarrow> w' = spend w \<and> u \<in> set (users (tabs w)) \<and> to_lower (u_email u) = to_lower e"
  unfolding UserByEmail_def user_where_Inr
  using find_SomeD[of "\<lambda>u. to_lower (u_email u) = to_lower e" "users (tabs w)" u] by blast

lemma UserByEmail_Inl: "UserByEmail e w = (Inl x, w') \<Longrightarrow> w' = spend w"
  by (auto simp: UserByEmail_def user_where_Inl)

lemma CreateUserWithIdentity_Inr:
  "CreateUserWithIdentity ext w = (Inr u, w') \<Longrightarrow> u_id u \<notin> u_id ` set (users (tabs w)) \<and>
     u_email u = x_email ext \<and> to_lower (x_email ext) \<notin> (to_lower \<circ> u_email) ` set (users (tabs w))"
  by (force simp: CreateUserWithIdentity_def step_iffs)

text \<open>The branch of SignInWithIdentity that makes a new account.\<close>

definition sign_up :: "account_service \<Rightarrow> ext_identity \<Rightarrow> request_context \<Rightarrow> credentials op" where
  "sign_up S ext rc = bindE (CreateUserWithIdentity (ext\<lparr>x_email := normaliseEmail (x_email ext)\<rparr>))
     (\<lambda>created. startSession S created rc)"

lemma sign_up_new: "sign_up S ext rc w = (Inr cr, w') \<Longrightarrow> u_id (cr_user cr) \<notin> u_id ` set (users (tabs w))"
  by (auto simp: sign_up_def bindE_Inr_iff dest!: CreateUserWithIdentity_Inr startSession_Inr)

text \<open>C32: A sign-in through an identity provider enters an account that existed before only when this very
  provider and subject were linked to it, or when the provider vouches for the address and it is the account's.
  An unverified address never opens an existing account.\<close>

theorem SignInWithIdentity_no_takeover:
  assumes "SignInWithIdentity S ext rc w = (Inr cr, w')" "u_id (cr_user cr) \<in> u_id ` set (users (tabs w))"
  shows "x_provider ext \<noteq> ProviderPassword \<and>
    ((\<exists>i\<in>set (identities (tabs w)). i_user i = u_id (cr_user cr) \<and> i_provider i = x_provider ext \<and>
        i_subject i = x_subject ext) \<or>
     x_verified ext \<and> to_lower (u_email (cr_user cr)) = to_lower (normaliseEmail (x_email ext)))"
proof -
  have folded: "SignInWithIdentity S ext rc =
     bindE (guardE (x_provider ext = ProviderPassword) Acc_ErrValidation) (\<lambda>_.
     bindE (guardE (trim_space (x_subject ext) = []) Acc_ErrValidation) (\<lambda>_.
     handleE (UserByExternalIdentity (x_provider ext) (x_subject ext))
       (\<lambda>e. if e \<noteq> Acc_ErrNotFound then throwE e else
          if x_verified ext \<and> x_email ext \<noteq> [] then
            handleE (UserByEmail (normaliseEmail (x_email ext)))
              (\<lambda>e. if e \<noteq> Acc_ErrNotFound then throwE e else sign_up S ext rc)
              (\<lambda>existing. bindE (LinkIdentity (u_id existing) ext) (\<lambda>_. startSession S existing rc))
          else sign_up S ext rc)
       (\<lambda>user. bindE (TouchIdentityLogin (x_provider ext) (x_subject ext)) (\<lambda>_. startSession S user rc))))"
    by (simp only: SignInWithIdentity_def sign_up_def Let_def)
  have "x_provider ext \<noteq> ProviderPassword" using assms(1) by (auto simp: folded bindE_Inr_iff guardE_iff)
  moreover have new: "sign_up S ext rc (spend w) \<noteq> (Inr cr, w')" "sign_up S ext rc (spend (spend w)) \<noteq> (Inr cr, w')"
    using assms(2) sign_up_new[of S ext rc _ cr w'] by fastforce+
  moreover have "(\<exists>i\<in>set (identities (tabs w)). i_user i = u_id (cr_user cr) \<and> i_provider i = x_provider ext \<and>
        i_subject i = x_subject ext) \<or>
      x_verified ext \<and> to_lower (u_email (cr_user cr)) = to_lower (normaliseEmail (x_email ext))"
    using assms(1) new unfolding folded bindE_Inr_iff guardE_iff handleE_iff
    by (auto simp: handleE_iff bindE_Inr_iff throwE_iff split: if_splits
        dest!: UserByExternalIdentity_Inl UserByExternalIdentity_Inr UserByEmail_Inl UserByEmail_Inr startSession_Inr)
  ultimately show ?thesis by blast
qed

lemma replace_initial_Inr:
  assumes "replace_initial S u cur h w = (Inr x, w')"
  shows "(\<exists>v. List.find (\<lambda>v. u_id v = u) (users (tabs w)) = Some v \<and> u_must_change v) \<and>
    (\<exists>i\<in>set (identities (tabs w)). i_user i = u \<and> i_provider i = ProviderPassword \<and>
       (\<exists>old. i_hash i = Some old \<and> l_bcrypt_ok (ac_lib S) old cur)) \<and> db_now w' = db_now w \<and>
    tabs w' = (tabs w)\<lparr>identities := upd_where (\<lambda>i. i_user i = u \<and> i_provider i = ProviderPassword)
       (\<lambda>i. i\<lparr>i_hash := Some h\<rparr>) (identities (tabs w)),
     users := upd_where (\<lambda>x. u_id x = u) (\<lambda>u. u\<lparr>u_must_change := False\<rparr>) (users (tabs w)),
     sessions := upd_where (\<lambda>s. s_user s = u \<and> s_revoked s = None) (\<lambda>s. s\<lparr>s_revoked := Some (db_now w)\<rparr>) (sessions (tabs w)),
     tokens := del_where (\<lambda>k. t_user k = u \<and> t_purpose k = PurposePasswordReset) (tokens (tabs w))\<rparr>"
  using assms
  by (auto simp: replace_initial_def clear_must_change_def RevokeAllSessions_def step_iffs verifyPassword_def
      split: option.splits dest!: password_hash_of_Inr)

lemma replace_initial_Inl: "replace_initial S u cur h w = (Inl e, w') \<Longrightarrow> tabs w' = tabs w"
  unfolding replace_initial_def by (rule withTx_Inl_tabs)

text \<open>The first password change takes effect as a whole or not at all: either the tables are as they were,
  or the account had to change its password, the current one was verified, the mark is gone, the hash is of the new password,
  no reset link is left and the only open session is the one handed out.\<close>

theorem ChangeInitialPassword_atomic:
  assumes "ChangeInitialPassword S u cur new rc w = (r, w')"
  shows "tabs w' = tabs w \<or>
    cur \<noteq> new \<and> (\<exists>v. List.find (\<lambda>v. u_id v = u) (users (tabs w)) = Some v \<and> u_must_change v) \<and>
    (\<exists>i\<in>set (identities (tabs w)). i_user i = u \<and> i_provider i = ProviderPassword \<and>
       (\<exists>old. i_hash i = Some old \<and> l_bcrypt_ok (ac_lib S) old cur)) \<and>
    (\<forall>v\<in>set (users (tabs w')). u_id v = u \<longrightarrow> \<not> u_must_change v) \<and>
    (\<forall>i\<in>set (identities (tabs w')). i_user i = u \<and> i_provider i = ProviderPassword \<longrightarrow>
       (\<exists>salt. i_hash i = Some (l_bcrypt (ac_lib S) salt new))) \<and>
    (\<forall>k\<in>set (tokens (tabs w')). \<not> (t_user k = u \<and> t_purpose k = PurposePasswordReset)) \<and>
    (\<forall>s\<in>set (sessions (tabs w')). s_user s = u \<and> s_revoked s = None \<longrightarrow>
       (\<exists>cr. r = Inr cr \<and> s_hash s = hashToken (ac_lib S) (cr_token cr)))"
proof (cases "tabs w' = tabs w")
  case False
  have tail: "(\<exists>cr s. r = Inr cr \<and> tabs w' = (tabs w1)\<lparr>sessions := sessions (tabs w1) @ [s]\<rparr> \<and>
      s_hash s = hashToken (ac_lib S) (cr_token cr)) \<or> tabs w' = tabs w1"
    if "bindE (UserByID u) (\<lambda>user. startSession S user rc) w1 = (r, w')" for w1
    using that by (cases r) (auto simp: step_iffs UserByID_def signed_in_def dest!: startSession_Inr startSession_Inl)
  obtain h w1 where h: "hashPassword (ac_lib S) new w = (Inr h, w1)" "cur \<noteq> new"
    and body: "bindE (replace_initial S u cur h) (\<lambda>_. bindE (UserByID u) (\<lambda>user. startSession S user rc)) w1 = (r, w')"
    using assms False
    by (cases r) (auto simp: ChangeInitialPassword_def bindE_Inl_iff bindE_Inr_iff guardE_iff handleE_iff throwE_iff dest: hashPassword_Inl)
  obtain salt where salt: "h = l_bcrypt (ac_lib S) salt new" "tabs w1 = tabs w"
    using hashPassword_Inr[OF h(1)] by blast
  obtain w2 where rep: "replace_initial S u cur h w1 = (Inr (), w2)"
    and rest: "bindE (UserByID u) (\<lambda>user. startSession S user rc) w2 = (r, w')"
    using body False salt(2) replace_initial_Inl
    unfolding bindE_def[of "replace_initial S u cur h"] by (auto split: prod.splits sum.splits)
  note R = replace_initial_Inr[OF rep, unfolded salt(2)]
  have T: "users (tabs w') = users (tabs w2)" "identities (tabs w') = identities (tabs w2)" "tokens (tabs w') = tokens (tabs w2)"
    "\<forall>x\<in>set (sessions (tabs w')). x \<in> set (sessions (tabs w2)) \<or>
       (\<exists>cr. r = Inr cr \<and> s_hash x = hashToken (ac_lib S) (cr_token cr))"
    using tail[OF rest] by auto
  have live: "\<not> (s_user x = u \<and> s_revoked x = None)" if "x \<in> set (sessions (tabs w2))" for x
    using that R by (auto simp: upd_where_def)
  show ?thesis
  proof (intro disjI2 conjI)
    show "\<forall>v\<in>set (users (tabs w')). u_id v = u \<longrightarrow> \<not> u_must_change v"
      "\<forall>k\<in>set (tokens (tabs w')). \<not> (t_user k = u \<and> t_purpose k = PurposePasswordReset)"
      unfolding T using R by (auto simp: table_simps)
    show "\<forall>i\<in>set (identities (tabs w')). i_user i = u \<and> i_provider i = ProviderPassword \<longrightarrow>
       (\<exists>salt. i_hash i = Some (l_bcrypt (ac_lib S) salt new))"
      unfolding T using R salt(1) by (auto simp: table_simps)
    show "\<forall>s\<in>set (sessions (tabs w')). s_user s = u \<and> s_revoked s = None \<longrightarrow>
       (\<exists>cr. r = Inr cr \<and> s_hash s = hashToken (ac_lib S) (cr_token cr))"
      using T(4) live by blast
  qed (use R h(2) in blast)+
qed simp

section \<open>Witnesses\<close>



theorem RequireSession_pass_witness:
  "\<exists>u w. RequireSession sample_service ''Bearer tok'' ''/emails'' session_world = (Inr (Pass u ''tok''), w) \<and>
     u \<in> set (users (tabs session_world))"
  using sample_session RequireSession_pass by blast

theorem Logout_refuses_witness:
  "\<exists>w g w'. Logout sample_service ''tok'' session_world = (Inr (), w) \<and>
     RequireSession sample_service ''Bearer tok'' ''/emails'' w = (Inr g, w') \<and>
     (g = Refuse 401 ''unauthenticated'' \<or> g = Refuse 500 ''internal'')"
proof -
  obtain w where l: "Logout sample_service ''tok'' session_world = (Inr (), w)" using sample_logout by blast
  obtain r w' where "RequireSession sample_service ''Bearer tok'' ''/emails'' w = (r, w')" by fastforce
  moreover have "\<exists>g. r = Inr g"
    using calculation by (cases r) (auto simp: RequireSession_def step_iffs split: option.splits if_splits)
  ultimately obtain g where g: "RequireSession sample_service ''Bearer tok'' ''/emails'' w = (Inr g, w')" by blast
  from Logout_refuses[OF l sample_strings(6) refl g] l g show ?thesis by blast
qed

theorem SignInWithIdentity_no_takeover_witness:
  "\<exists>cr w. SignInWithIdentity sample_service sample_ext sample_rc sample_world = (Inr cr, w) \<and> x_verified sample_ext"
proof -
  obtain cr w where l: "SignInWithIdentity sample_service sample_ext sample_rc sample_world = (Inr cr, w)"
    "u_id (cr_user cr) = ''bob''"
    using sample_ext_signin by blast
  have "u_id (cr_user cr) \<in> u_id ` set (users (tabs sample_world))"
    by (simp add: l(2) sample_world_def sample_db_def)
  from SignInWithIdentity_no_takeover[OF l(1) this] l(1) show ?thesis
    by (auto simp: sample_ext_def sample_world_def sample_db_def)
qed

theorem ChangeInitialPassword_atomic_witness:
  "\<exists>r w. ChangeInitialPassword sample_service ''bob'' ''old password'' ''a new password'' sample_rc initial_world = (r, w) \<and>
     (tabs w = tabs initial_world \<or> (\<forall>v\<in>set (users (tabs w)). u_id v = ''bob'' \<longrightarrow> \<not> u_must_change v))"
proof -
  obtain cr w where l: "ChangeInitialPassword sample_service ''bob'' ''old password'' ''a new password'' sample_rc initial_world = (Inr cr, w)"
    using sample_change by blast
  from ChangeInitialPassword_atomic[OF l] l show ?thesis by blast
qed

end
