(* ===== verification/ApiKeys.thy ===== *)
theory ApiKeys imports Tenants Signin begin

text \<open>
  API keys: internal/apikey/apikey.go (their shape and digest), internal/auth/auth.go (the check in
  front of the /v1 endpoints) and internal/httpapi/apikeys.go (issuing, listing, revoking).
\<close>

section \<open>Keys\<close>

definition key_Prefix :: string where "key_Prefix = ''hm_live_''"
definition PrefixLen :: nat where "PrefixLen = length key_Prefix + 4"

definition key_Hash :: "lib \<Rightarrow> string \<Rightarrow> string" where
  "key_Hash L key = l_sha256 L key"

definition key_New :: "lib \<Rightarrow> (string \<times> string \<times> string) op" where
  "key_New L = bindE (randBytes 24) (\<lambda>raw.
     let key = key_Prefix @ hex raw in returnE (key, take PrefixLen key, key_Hash L key))"

definition LooksLikeKey :: "string \<Rightarrow> bool" where
  "LooksLikeKey s \<longleftrightarrow> has_prefix s key_Prefix \<and> PrefixLen < length s"

definition insert_apikey :: "apikey_row \<Rightarrow> apikey_row stmt" where
  "insert_apikey k now t =
     (if btrim (ak_name k) = [] \<or> length (ak_hash k) \<noteq> 32 \<or> btrim (ak_prefix k) = [] then (Inl ErrDB, t)
      else if clashes (\<lambda>_. True) ak_id k (api_keys t) \<or> clashes (\<lambda>_. True) ak_hash k (api_keys t) then (Inl ErrUnique, t)
      else if ak_ws k \<notin> w_id ` set (workspaces t) then (Inl ErrDB, t)
      else (Inr k, t\<lparr>api_keys := api_keys t @ [k]\<rparr>))"

section \<open>Handlers\<close>

text \<open>What a listing shows of a key: neither the key nor its digest.\<close>

record key_view =
  kv_id :: string
  kv_name :: string
  kv_prefix :: string
  kv_used :: "time option"
  kv_revoked :: "time option"

definition apiKeyToAPI :: "apikey_row \<Rightarrow> key_view" where
  "apiKeyToAPI k = \<lparr>kv_id = ak_id k, kv_name = ak_name k, kv_prefix = ak_prefix k, kv_used = ak_used k,
     kv_revoked = ak_revoked k\<rparr>"

definition ListApiKeys :: "user_row option \<Rightarrow> string \<Rightarrow> key_view list handler" where
  "ListApiKeys cu slug = orElse (scope cu slug RoleMember) (always 404 ''not_found'') (\<lambda>(i, _).
     bindE (query (\<lambda>now t. Inr (map apiKeyToAPI (rev (filter (\<lambda>k. ak_ws k = i) (api_keys t)))))) (\<lambda>out.
     returnE (Reply 200 out)))"

definition CreateApiKey :: "lib \<Rightarrow> user_row option \<Rightarrow> string \<Rightarrow> string option \<Rightarrow> (key_view \<times> string) handler" where
  "CreateApiKey L cu slug body =
     orElse (scope cu slug RoleAdmin) (always 404 ''not_found'') (\<lambda>(i, forbidden).
     if forbidden then returnE (Problem 403 ''forbidden'') else
     case body of None \<Rightarrow> returnE (Problem 400 ''validation_failed'') | Some name \<Rightarrow>
     if trim_space name = [] then returnE (Problem 400 ''validation_failed'') else
     bindE (key_New L) (\<lambda>(key, prefix, hash).
     bindE (withUUID (\<lambda>u. sql (insert_apikey \<lparr>ak_id = u, ak_ws = i, ak_name = trim_space name, ak_hash = hash,
       ak_prefix = prefix, ak_used = None, ak_revoked = None\<rparr>))) (\<lambda>row.
     returnE (Reply 201 (apiKeyToAPI row, key)))))"

definition revoke_key :: "string \<Rightarrow> string \<Rightarrow> nat op" where
  "revoke_key i keyId = sql (\<lambda>now t. let P = (\<lambda>k. ak_id k = keyId \<and> ak_ws k = i) in
     (Inr (count_where P (api_keys t)),
      t\<lparr>api_keys := upd_where P (\<lambda>k. k\<lparr>ak_revoked := Some (case ak_revoked k of None \<Rightarrow> now | Some r \<Rightarrow> r)\<rparr>) (api_keys t)\<rparr>))"

definition RevokeApiKey :: "user_row option \<Rightarrow> string \<Rightarrow> string \<Rightarrow> unit handler" where
  "RevokeApiKey cu slug keyId =
     orElse (scope cu slug RoleAdmin) (always 404 ''not_found'') (\<lambda>(i, forbidden).
     if forbidden then returnE (Problem 403 ''forbidden'') else
     bindE (revoke_key i keyId) (\<lambda>n. returnE (if n = 0 then Problem 404 ''not_found'' else Reply 204 ())))"

section \<open>The check in front of /v1\<close>

datatype api_gate = ApiRefuse nat string | ApiPass string string

definition keyTouchInterval :: time where "keyTouchInterval = minute"

definition lookup_key :: "lib \<Rightarrow> string \<Rightarrow> (string \<times> string \<times> time option) op" where
  "lookup_key L key = query (\<lambda>now t. case List.find (\<lambda>k. ak_hash k = key_Hash L key \<and> ak_revoked k = None) (api_keys t) of
     None \<Rightarrow> Inl ErrNoRows | Some k \<Rightarrow> Inr (ak_ws k, ak_id k, ak_used k))"

definition touch_key :: "string \<Rightarrow> unit op" where
  "touch_key keyID = ignoreE (sql (\<lambda>now t. (Inr (), t\<lparr>api_keys :=
     upd_where (\<lambda>k. ak_id k = keyID) (\<lambda>k. k\<lparr>ak_used := Some now\<rparr>) (api_keys t)\<rparr>)))"

text \<open>auth.bearerToken is the same code as account.bearerToken, with other messages.\<close>

definition Api_Middleware :: "lib \<Rightarrow> string \<Rightarrow> (world, gerror, api_gate) step" where
  "Api_Middleware L header = (case bearerToken header of None \<Rightarrow> returnE (ApiRefuse 401 ''unauthenticated'') | Some key \<Rightarrow>
     handleE (lookup_key L key)
       (\<lambda>e. returnE (if e = ErrNoRows then ApiRefuse 401 ''unauthenticated'' else ApiRefuse 500 ''internal''))
       (\<lambda>(ws, keyID, lastUsed).
     bindE (asks app_now) (\<lambda>now.
     bindE (if (case lastUsed of None \<Rightarrow> True | Some used \<Rightarrow> keyTouchInterval < now - used)
       then touch_key keyID else returnE ()) (\<lambda>_.
     returnE (ApiPass ws keyID)))))"

section \<open>A key lives until it is revoked\<close>

definition ak_ok :: "db \<Rightarrow> bool" where
  "ak_ok t \<longleftrightarrow> uniq_on (\<lambda>_. True) ak_id (api_keys t) \<and> uniq_on (\<lambda>_. True) ak_hash (api_keys t)"

text \<open>What no step short of deleting the tenant changes of a key.\<close>

definition key_later :: "db \<Rightarrow> db \<Rightarrow> bool" where
  "key_later t t' \<longleftrightarrow> (\<forall>k\<in>set (api_keys t). \<exists>k'\<in>set (api_keys t'). ak_id k' = ak_id k \<and> ak_ws k' = ak_ws k \<and>
     ak_hash k' = ak_hash k \<and> (ak_revoked k \<noteq> None \<longrightarrow> ak_revoked k' = ak_revoked k))"

definition key_keeps :: "db \<Rightarrow> db \<Rightarrow> bool" where
  "key_keeps t t' \<longleftrightarrow> key_later t t' \<and> (ak_ok t \<longrightarrow> ak_ok t')"

interpretation keytab: table_relation key_keeps
proof
  show "key_keeps t t" for t by (auto simp: key_keeps_def key_later_def)
  show "key_keeps t v" if "key_keeps t u" "key_keeps u v" for t u v
  proof -
    have "\<exists>k''\<in>set (api_keys v). ak_id k'' = ak_id k \<and> ak_ws k'' = ak_ws k \<and>
       ak_hash k'' = ak_hash k \<and> (ak_revoked k \<noteq> None \<longrightarrow> ak_revoked k'' = ak_revoked k)" if k: "k \<in> set (api_keys t)" for k
    proof -
      obtain k' where k': "k' \<in> set (api_keys u)" "ak_id k' = ak_id k" "ak_ws k' = ak_ws k" "ak_hash k' = ak_hash k"
        "ak_revoked k \<noteq> None \<longrightarrow> ak_revoked k' = ak_revoked k"
        using \<open>key_keeps t u\<close> k unfolding key_keeps_def key_later_def by blast
      moreover obtain k'' where "k'' \<in> set (api_keys v)" "ak_id k'' = ak_id k'" "ak_ws k'' = ak_ws k'" "ak_hash k'' = ak_hash k'"
        "ak_revoked k' \<noteq> None \<longrightarrow> ak_revoked k'' = ak_revoked k'"
        using \<open>key_keeps u v\<close> k'(1) unfolding key_keeps_def key_later_def by blast
      ultimately show ?thesis by (intro bexI[of _ k'']) auto
    qed
    with that show ?thesis unfolding key_keeps_def key_later_def by blast
  qed
qed

lemma key_keeps_upd:
  assumes "\<And>k. ak_id (f k) = ak_id k" "\<And>k. ak_ws (f k) = ak_ws k" "\<And>k. ak_hash (f k) = ak_hash k"
    "\<And>k. ak_revoked k \<noteq> None \<Longrightarrow> ak_revoked (f k) = ak_revoked k"
  shows "key_keeps t (t\<lparr>api_keys := upd_where P f (api_keys t)\<rparr>)"
proof -
  have "\<exists>k'\<in>set (upd_where P f (api_keys t)). ak_id k' = ak_id k \<and> ak_ws k' = ak_ws k \<and>
     ak_hash k' = ak_hash k \<and> (ak_revoked k \<noteq> None \<longrightarrow> ak_revoked k' = ak_revoked k)" if "k \<in> set (api_keys t)" for k
    using in_upd_where[OF that, of P f] assms by (intro bexI[of _ "if P k then f k else k"]) auto
  then show ?thesis
    using assms by (auto simp: key_keeps_def key_later_def ak_ok_def uniq_on_def map_upd_where)
qed

lemma keeps_insert_apikey: "keeps (on_tabs key_keeps) (sql (insert_apikey k))"
  by (rule keytab.on_sql)
    (auto simp: insert_apikey_def key_keeps_def key_later_def ak_ok_def uniq_on_snoc split: if_splits)

lemma keeps_revoke_key: "keeps (on_tabs key_keeps) (revoke_key i k)"
  unfolding revoke_key_def Let_def by (rule keytab.on_sql) (auto intro!: key_keeps_upd)

lemma keeps_touch_key: "keeps (on_tabs key_keeps) (touch_key k)"
  unfolding touch_key_def by (intro keeps_ignoreE keytab.on_sql) (auto intro!: key_keeps_upd)

lemmas key_rules = keytab.handler_rules keeps_insert_apikey keeps_revoke_key keeps_touch_key

lemma keeps_keys:
  "keeps (on_tabs key_keeps) (CreateApiKey L cu slug body)" "keeps (on_tabs key_keeps) (RevokeApiKey cu slug keyId)"
  "keeps (on_tabs key_keeps) (Api_Middleware L header)"
  unfolding CreateApiKey_def RevokeApiKey_def Api_Middleware_def key_New_def randBytes_def lookup_key_def
  by (intro key_rules)+

inductive key_step :: "lib \<Rightarrow> world \<Rightarrow> world \<Rightarrow> bool" for L where
  create: "CreateApiKey L cu slug body w = (r, w') \<Longrightarrow> key_step L w w'"
| revoke: "RevokeApiKey cu slug keyId w = (u, w') \<Longrightarrow> key_step L w w'"
| authenticate: "Api_Middleware L header w = (g, w') \<Longrightarrow> key_step L w w'"
| other: "api_keys (tabs w') = api_keys (tabs w) \<Longrightarrow> key_step L w w'"

lemma key_step_keeps: "key_step L w w' \<Longrightarrow> key_keeps (tabs w) (tabs w')"
  by (induction rule: key_step.induct)
    (auto dest: keeps_keys[THEN keytab.relD] simp: key_keeps_def key_later_def ak_ok_def)

interpretation keyring: monotone_system "key_step L" "\<lambda>w. ak_ok (tabs w)" "\<lambda>w w'. key_keeps (tabs w) (tabs w')" for L
  by unfold_locales (use key_step_keeps keytab.rel_refl keytab.rel_trans in \<open>auto simp: key_keeps_def\<close>)

text \<open>A request passes as a workspace only with an unrevoked key of that workspace.\<close>

theorem Api_Middleware_pass:
  assumes "Api_Middleware L header w = (Inr (ApiPass ws keyID), w')"
  shows "\<exists>key. bearerToken header = Some key \<and>
    (\<exists>k\<in>set (api_keys (tabs w)). ak_hash k = key_Hash L key \<and> ak_ws k = ws \<and> ak_id k = keyID \<and> ak_revoked k = None)"
  using assms
  by (auto simp: Api_Middleware_def lookup_key_def step_iffs split: option.splits if_splits dest!: find_SomeD)


section \<open>A new key opens its workspace\<close>

lemma trim_space_fix: "s \<noteq> [] \<Longrightarrow> \<not> is_space (hd s) \<Longrightarrow> \<not> is_space (last s) \<Longrightarrow> trim_space s = s"
proof -
  assume "s \<noteq> []" "\<not> is_space (hd s)" "\<not> is_space (last s)"
  then have "dropWhile is_space s = s" "dropWhile is_space (rev s) = rev s"
    by (auto simp: dropWhile_eq_self_iff hd_rev)
  then show ?thesis by (simp add: trim_space_def trim_by_def)
qed

lemma hex_digit_visible: "n < 16 \<Longrightarrow> \<not> is_space (hex_digit n)"
  by (auto simp: is_space_def hex_digit_def)

lemma hex_visible: "c \<in> set (hex s) \<Longrightarrow> \<not> is_space c"
proof -
  have lt: "(of_char d :: nat) div 16 < 16" for d using of_char_of[of "of_char d :: nat"] by (cases d) (simp add: of_char_def)
  assume "c \<in> set (hex s)"
  then show ?thesis using lt by (auto simp: hex_def hex_digit_visible)
qed

lemma bearer_key: "bearerToken (''Bearer '' @ key_Prefix @ hex raw) = Some (key_Prefix @ hex raw)"
proof -
  let ?k = "key_Prefix @ hex raw"
  have vis: "\<not> is_space c" if "c \<in> set ?k" for c
    using that hex_visible[of c raw] by (auto simp: key_Prefix_def is_space_def)
  have ne: "?k \<noteq> []" by (simp add: key_Prefix_def)
  have "trim_space ?k = ?k"
    using vis[OF hd_in_set[OF ne]] vis[OF last_in_set[OF ne]] ne by (intro trim_space_fix) auto
  moreover have "trim_space (''Bearer '' @ ?k) \<noteq> []"
  proof -
    have "last (''Bearer '' @ ?k) = last ?k" using ne by (rule last_appendR)
    then have "trim_space (''Bearer '' @ ?k) = ''Bearer '' @ ?k"
      using vis[OF last_in_set[OF ne]] by (intro trim_space_fix) (auto simp: is_space_def)
    then show ?thesis by simp
  qed
  moreover have "str_cut (''Bearer '' @ ?k) (CHR '' '') = Some (''Bearer'', ?k)"
    using str_cut_at[of "CHR '' ''" "''Bearer''" ?k] by simp
  ultimately show ?thesis using ne by (simp add: bearerToken_def)
qed

lemma insert_apikey_iff [step_iffs]:
  "insert_apikey k now t = (Inr r, t') \<longleftrightarrow> r = k \<and> t' = t\<lparr>api_keys := api_keys t @ [k]\<rparr> \<and>
     btrim (ak_name k) \<noteq> [] \<and> length (ak_hash k) = 32 \<and> btrim (ak_prefix k) \<noteq> [] \<and>
     \<not> clashes (\<lambda>_. True) ak_id k (api_keys t) \<and> \<not> clashes (\<lambda>_. True) ak_hash k (api_keys t) \<and> ak_ws k \<in> w_id ` set (workspaces t)"
  by (auto simp: insert_apikey_def)

lemma CreateApiKey_Inr:
  assumes "CreateApiKey L cu slug body w = (Inr (Reply s (v, key)), w')"
  obtains u x raw row where "cu = Some u" "x \<in> set (workspaces (tabs w))" "w_slug x = slug"
    "has_role (tabs w) (w_id x) (u_id u) RoleAdmin" "key = key_Prefix @ hex raw" "s = 201"
    "tabs w' = (tabs w)\<lparr>api_keys := api_keys (tabs w) @ [row]\<rparr>" "ak_ws row = w_id x" "ak_hash row = key_Hash L key"
    "ak_prefix row = take PrefixLen key" "ak_revoked row = None" "v = apiKeyToAPI row"
    "\<not> clashes (\<lambda>_. True) ak_hash row (api_keys (tabs w))"
proof -
  obtain i w1 name where sc: "scope cu slug RoleAdmin w = (Inr (i, False), w1)"
    and k: "bindE (key_New L) (\<lambda>(key, prefix, hash).
     bindE (withUUID (\<lambda>u. sql (insert_apikey \<lparr>ak_id = u, ak_ws = i, ak_name = name, ak_hash = hash,
       ak_prefix = prefix, ak_used = None, ak_revoked = None\<rparr>))) (\<lambda>row.
     returnE (Reply 201 (apiKeyToAPI row, key)))) w1 = (Inr (Reply s (v, key)), w')"
    using assms by (auto simp: CreateApiKey_def orElse_Inr returnE_iff split: if_splits option.splits)
  from sc obtain u x where ux: "cu = Some u" "x \<in> set (workspaces (tabs w))" "w_id x = i" "w_slug x = slug"
    "has_role (tabs w) i (u_id u) RoleAdmin" "tabs w1 = tabs w" by (rule scope_Inr) blast
  obtain raw w2 where "randBytes 24 w1 = (Inr raw, w2)" "key = key_Prefix @ hex raw" and t2: "tabs w2 = tabs w1"
    and k2: "bindE (withUUID (\<lambda>u. sql (insert_apikey \<lparr>ak_id = u, ak_ws = i, ak_name = name, ak_hash = key_Hash L key,
       ak_prefix = take PrefixLen key, ak_used = None, ak_revoked = None\<rparr>))) (\<lambda>row.
     returnE (Reply 201 (apiKeyToAPI row, key))) w2 = (Inr (Reply s (v, key)), w')"
    using k unfolding key_New_def Let_def by (auto simp: bindE_Inr_iff returnE_iff randBytes_iff withUUID_Inr_iff simp del: take_append)
  from k2 obtain uid where "s = 201" "v = apiKeyToAPI \<lparr>ak_id = uid, ak_ws = i, ak_name = name, ak_hash = key_Hash L key,
       ak_prefix = take PrefixLen key, ak_used = None, ak_revoked = None\<rparr>"
    "tabs w' = (tabs w)\<lparr>api_keys := api_keys (tabs w) @ [\<lparr>ak_id = uid, ak_ws = i, ak_name = name, ak_hash = key_Hash L key,
       ak_prefix = take PrefixLen key, ak_used = None, ak_revoked = None\<rparr>]\<rparr>"
    "\<not> clashes (\<lambda>_. True) ak_hash \<lparr>ak_id = uid, ak_ws = i, ak_name = name, ak_hash = key_Hash L key,
       ak_prefix = take PrefixLen key, ak_used = None, ak_revoked = None\<rparr> (api_keys (tabs w))"
    using t2 ux(6) by (auto simp: step_iffs)
  then show ?thesis
    by (intro that[of u x raw "\<lparr>ak_id = uid, ak_ws = i, ak_name = name, ak_hash = key_Hash L key,
       ak_prefix = take PrefixLen key, ak_used = None, ak_revoked = None\<rparr>"])
      (use ux \<open>key = key_Prefix @ hex raw\<close> in \<open>simp_all del: take_append\<close>)
qed

text \<open>A key that was issued works and is nowhere stored: only an admin of the tenant gets one, presenting it
  passes as that tenant and no other until it is revoked, and the row holds its digest and its first twelve
  characters.\<close>

theorem CreateApiKey_opens:
  assumes "CreateApiKey L cu slug body w = (Inr (Reply s (v, key)), w')" "tabs w2 = tabs w'" "db_faults w2 = []"
  shows "\<exists>u x row w3. cu = Some u \<and> x \<in> set (workspaces (tabs w)) \<and> w_slug x = slug \<and>
    has_role (tabs w) (w_id x) (u_id u) RoleAdmin \<and> api_keys (tabs w') = api_keys (tabs w) @ [row] \<and>
    ak_hash row = key_Hash L key \<and> ak_prefix row = take 12 key \<and> v = apiKeyToAPI row \<and>
    Api_Middleware L (''Bearer '' @ key) w2 = (Inr (ApiPass (w_id x) (ak_id row)), w3)"
  using assms(1)
proof (rule CreateApiKey_Inr)
  fix u x raw row
  assume ux: "cu = Some u" "x \<in> set (workspaces (tabs w))" "w_slug x = slug"
    "has_role (tabs w) (w_id x) (u_id u) RoleAdmin" and key: "key = key_Prefix @ hex raw"
    and t': "tabs w' = (tabs w)\<lparr>api_keys := api_keys (tabs w) @ [row]\<rparr>" and row: "ak_ws row = w_id x" "ak_hash row = key_Hash L key"
    "ak_prefix row = take PrefixLen key" "ak_revoked row = None" "v = apiKeyToAPI row"
    and new: "\<not> clashes (\<lambda>_. True) ak_hash row (api_keys (tabs w))"
  have found: "List.find (\<lambda>k. ak_hash k = key_Hash L key \<and> ak_revoked k = None) (api_keys (tabs w2)) = Some row"
  proof (rule find_unique)
    show "q = row" if "q \<in> set (api_keys (tabs w2))" "ak_hash q = key_Hash L key \<and> ak_revoked q = None" for q
      using that new row(2) unfolding assms(2) t' by (auto simp: clashes_def)
  qed (simp_all add: assms(2) t' row)
  have "\<exists>w3. Api_Middleware L (''Bearer '' @ key) w2 = (Inr (ApiPass (w_id x) (ak_id row)), w3)"
    using found row(1) assms(3) bearer_key[of raw] key
    by (simp add: Api_Middleware_def handleE_def lookup_key_def query_def sql_def db_down_def bindE_def asks_def touch_key_def ignoreE_def returnE_def)
  moreover have "take PrefixLen key = take 12 key" by (simp add: PrefixLen_def key_Prefix_def)
  ultimately show ?thesis using ux t' row by (auto simp del: take_append)
qed

section \<open>At concrete inputs\<close>

definition ci_key :: "time option \<Rightarrow> apikey_row" where
  "ci_key r = \<lparr>ak_id = ''k1'', ak_ws = ''ws'', ak_name = ''ci'', ak_hash = take 32 (''hm_live_42'' @ replicate 32 (CHR ''0'')),
     ak_prefix = ''hm_live_42'', ak_used = Some 0, ak_revoked = r\<rparr>"

definition api_world :: "time option \<Rightarrow> world" where
  "api_world r = sample_world\<lparr>tabs := sample_db\<lparr>api_keys := [ci_key r]\<rparr>\<rparr>"

lemma api_strings: "bearerToken ''Bearer hm_live_42'' = Some ''hm_live_42''" "trim_space ''ci'' = ''ci''" "btrim ''ci'' \<noteq> []"
  "btrim (take PrefixLen (key_Prefix @ hex (take 24 (sample_random @ replicate 24 (char_of (0 :: nat)))))) \<noteq> []"
  "length (l_sha256 sample_lib x) = 32"
     apply code_simp+
  apply (simp add: sample_lib_def)
  done

lemmas key_exec = tenant_exec api_strings api_world_def ci_key_def

theorem Api_Middleware_pass_witness:
  "\<exists>w'. Api_Middleware sample_lib ''Bearer hm_live_42'' (api_world None) = (Inr (ApiPass ''ws'' ''k1''), w') \<and>
     (\<exists>k\<in>set (api_keys (tabs (api_world None))). ak_ws k = ''ws'' \<and> ak_id k = ''k1'')"
proof -
  have "\<exists>w'. Api_Middleware sample_lib ''Bearer hm_live_42'' (api_world None) = (Inr (ApiPass ''ws'' ''k1''), w')"
    by (simp add: Api_Middleware_def lookup_key_def key_Hash_def asks_def app_now_def keyTouchInterval_def minute_def second_def key_exec)
  then obtain w' where w': "Api_Middleware sample_lib ''Bearer hm_live_42'' (api_world None) = (Inr (ApiPass ''ws'' ''k1''), w')" by blast
  from Api_Middleware_pass[OF w'] w' show ?thesis by blast
qed


lemma sample_issue: "\<exists>v key w'. CreateApiKey sample_lib (Some boss) ''acme'' (Some ''ci'') sample_world = (Inr (Reply 201 (v, key)), w')"
proof -
  have "\<exists>v key w'. CreateApiKey sample_lib (Some boss) ''acme'' (Some ''ci'') sample_world = (Inr (Reply 201 (v, key)), w')"
    unfolding CreateApiKey_def key_New_def randBytes_def key_Hash_def
    using api_strings(4)
    by (simp add: tenant_exec randRead_def insert_apikey_def api_strings(2,3,5) del: take_append)
  then show ?thesis .
qed

theorem CreateApiKey_opens_witness:
  "\<exists>v key w' w3. CreateApiKey sample_lib (Some boss) ''acme'' (Some ''ci'') sample_world = (Inr (Reply 201 (v, key)), w') \<and>
     (\<exists>ws k. Api_Middleware sample_lib (''Bearer '' @ key) (w'\<lparr>db_faults := []\<rparr>) = (Inr (ApiPass ws k), w3))"
proof -
  obtain v key w' where c: "CreateApiKey sample_lib (Some boss) ''acme'' (Some ''ci'') sample_world = (Inr (Reply 201 (v, key)), w')"
    using sample_issue by blast
  have "tabs (w'\<lparr>db_faults := []\<rparr>) = tabs w'" "db_faults (w'\<lparr>db_faults := []\<rparr>) = []" by simp_all
  from CreateApiKey_opens[OF c this] c show ?thesis by blast
qed

end
