(* ===== verification/Domains.thy ===== *)
theory Domains imports MailDomain begin

text \<open>
  What holds of the mail domains: the constraints every operation keeps (each statement keeps
  \<open>dom_keeps\<close>, so any sequence does, through the interpretations \<open>dom\<close> and \<open>domains\<close>), who may
  sign and send as a domain, and what a claim and a DNS check mean.
\<close>

section \<open>The constraints and what no operation undoes\<close>

text \<open>The constraints of \<open>domains\<close> and \<open>dkim_keys\<close>.\<close>

definition domains_ok :: "domain_row list \<Rightarrow> bool" where
  "domains_ok ds \<longleftrightarrow> uniq_on (\<lambda>_. True) d_id ds \<and> uniq_on (\<lambda>_. True) d_name ds \<and>
     uniq_on d_primary d_ws ds \<and> (\<forall>d\<in>set ds. namePattern (d_name d) \<and> (d_primary d \<longrightarrow> Verified d))"

definition keys_ok :: "dkim_row list \<Rightarrow> bool" where
  "keys_ok ks \<longleftrightarrow> uniq_on (\<lambda>_. True) k_id ks \<and> uniq_on (\<lambda>_. True) (\<lambda>k. (k_domain k, k_selector k)) ks \<and>
     uniq_on k_active k_domain ks \<and> (\<forall>k\<in>set ks. selector_ok (k_selector k) \<and> (k_active k \<longrightarrow> k_retired k = None))"

definition dom_ok :: "db \<Rightarrow> bool" where
  "dom_ok t \<longleftrightarrow> domains_ok (domains t) \<and> keys_ok (dkim_keys t) \<and>
     (\<forall>k\<in>set (dkim_keys t). k_domain k \<in> d_id ` set (domains t))"

definition same_domain :: "domain_row \<Rightarrow> domain_row \<Rightarrow> bool" where
  "same_domain d d' \<longleftrightarrow> d_id d' = d_id d \<and> d_ws d' = d_ws d \<and> d_name d' = d_name d \<and> d_token d' = d_token d \<and>
     (Verified d \<longrightarrow> d_verified d' = d_verified d)"

definition same_key :: "dkim_row \<Rightarrow> dkim_row \<Rightarrow> bool" where
  "same_key k k' \<longleftrightarrow> k_id k' = k_id k \<and> k_domain k' = k_domain k \<and> k_selector k' = k_selector k \<and>
     k_public k' = k_public k \<and> k_private k' = k_private k"

definition dom_keeps :: "db \<Rightarrow> db \<Rightarrow> bool" where
  "dom_keeps t t' \<longleftrightarrow> (dom_ok t \<longrightarrow> dom_ok t') \<and>
     (\<forall>d\<in>set (domains t). \<exists>d'\<in>set (domains t'). same_domain d d') \<and>
     (\<forall>k\<in>set (dkim_keys t). \<exists>k'\<in>set (dkim_keys t'). same_key k k')"

interpretation dom: table_relation dom_keeps
proof
  show "dom_keeps t t" for t by (auto simp: dom_keeps_def same_domain_def same_key_def)
  fix t u v assume "dom_keeps t u" "dom_keeps u v"
  then show "dom_keeps t v"
    unfolding dom_keeps_def same_domain_def same_key_def by (fastforce simp: Verified_def)
qed

lemma domains_ok_upd:
  assumes "domains_ok ds" "\<And>d. same_domain d (f d)" "\<And>d. d \<in> set ds \<Longrightarrow> Q d \<Longrightarrow> d_primary (f d) \<Longrightarrow> d_primary d"
  shows "domains_ok (upd_where Q f ds)"
  using assms unfolding domains_ok_def same_domain_def
  by (auto simp: table_simps Verified_def intro!: uniq_on_upd_where)

lemma keys_ok_upd:
  assumes "keys_ok ks" "\<And>k. same_key k (f k)" "\<And>k. k_active (f k) \<Longrightarrow> k_active k \<and> k_retired (f k) = k_retired k"
  shows "keys_ok (upd_where Q f ks)"
  using assms unfolding keys_ok_def same_key_def
  by (auto simp: table_simps intro!: uniq_on_upd_where)

lemma dom_keeps_domains:
  assumes "\<And>d. same_domain d (f d)" "dom_ok t \<Longrightarrow> domains_ok (upd_where Q f (domains t))"
  shows "dom_keeps t (t\<lparr>domains := upd_where Q f (domains t)\<rparr>)"
proof -
  have "d_id (f d) = d_id d" for d using assms(1) by (simp add: same_domain_def)
  then show ?thesis
    using assms key_upd_where[of d_id f Q "domains t"]
    by (auto simp: dom_keeps_def dom_ok_def same_key_def intro!: bexI[OF _ in_upd_where]) (auto simp: same_domain_def)
qed

lemma dom_keeps_keys:
  assumes "\<And>k. same_key k (f k)" "dom_ok t \<Longrightarrow> keys_ok (upd_where Q f (dkim_keys t))"
  shows "dom_keeps t (t\<lparr>dkim_keys := upd_where Q f (dkim_keys t)\<rparr>)"
proof -
  have "k_domain (f k) = k_domain k" for k using assms(1) by (simp add: same_key_def)
  then show ?thesis
    using assms by (auto simp: dom_keeps_def dom_ok_def same_domain_def set_upd_where)
      (auto simp: same_key_def intro!: bexI[OF _ in_upd_where] simp flip: set_upd_where)
qed

lemma keeps_insert_domain: "keeps (on_tabs dom_keeps) (sql (insert_domain d))"
  by (rule dom.on_sql)
    (auto simp: insert_domain_def dom_keeps_def dom_ok_def domains_ok_def table_simps Verified_def same_domain_def same_key_def split: if_splits)

lemma keeps_insert_key: "keeps (on_tabs dom_keeps) (sql (insert_key k))"
  by (rule dom.on_sql)
    (auto simp: insert_key_def dom_keeps_def dom_ok_def keys_ok_def table_simps same_domain_def same_key_def split: if_splits)

lemma same_domain_upd [simp]:
  "same_domain d (d\<lparr>d_primary := b\<rparr>)" "same_domain d (checked_row ok reason now d)"
  by (auto simp: same_domain_def checked_row_def Verified_def)

lemma checked_row_primary [simp]: "d_primary (checked_row ok reason now d) = d_primary d"
  by (simp add: checked_row_def)

lemma same_key_upd [simp]: "same_key k (k\<lparr>k_active := b, k_retired := r\<rparr>)"
  by (simp add: same_key_def)

lemma keeps_update_domain: "keeps (on_tabs dom_keeps) (RecordCheck i ok reason)"
  unfolding RecordCheck_def update_domain_def
  by (rule dom.on_sql)
    (auto split: option.splits intro!: dom_keeps_domains domains_ok_upd simp: dom_ok_def)

lemma keeps_promote: "keeps (on_tabs dom_keeps) (promote i)"
  unfolding promote_def
proof (rule dom.on_sql)
  fix now a and t t' :: db
  assume run: "(case List.find (\<lambda>d. d_id d = i) (domains t) of None \<Rightarrow> (Inl Dom_ErrNotFound, t)
     | Some d \<Rightarrow> if d_verified d = None then (Inl ErrDB, t)
         else if \<exists>x\<in>set (domains t). d_id x \<noteq> i \<and> d_primary x \<and> d_ws x = d_ws d then (Inl ErrUnique, t)
         else (Inr (d\<lparr>d_primary := True\<rparr>),
           t\<lparr>domains := upd_where (\<lambda>d. d_id d = i) (\<lambda>d. d\<lparr>d_primary := True\<rparr>) (domains t)\<rparr>)) = (Inr a, t')"
  then obtain d where d: "d \<in> set (domains t)" "d_id d = i" "Verified d"
    "\<And>x. x \<in> set (domains t) \<Longrightarrow> d_id x \<noteq> i \<Longrightarrow> d_primary x \<Longrightarrow> d_ws x \<noteq> d_ws d"
    and t': "t' = t\<lparr>domains := upd_where (\<lambda>d. d_id d = i) (\<lambda>d. d\<lparr>d_primary := True\<rparr>) (domains t)\<rparr>"
    by (auto simp: Verified_def split: option.splits if_splits dest: find_SomeD)
  show "dom_keeps t t'"
    unfolding t'
  proof (rule dom_keeps_domains)
    assume "dom_ok t"
    then have ok: "domains_ok (domains t)" by (simp add: dom_ok_def)
    then have only: "x = d" if "x \<in> set (domains t)" "d_id x = i" for x
      using that d by (auto simp: domains_ok_def dest: uniq_onD)
    have row: "namePattern (d_name x) \<and> (d_id x = i \<longrightarrow> Verified x) \<and> (d_primary x \<longrightarrow> Verified x)" if "x \<in> set (domains t)" for x
      using that ok only[OF that] d(3) by (auto simp: domains_ok_def)
    show "domains_ok (upd_where (\<lambda>d. d_id d = i) (\<lambda>d. d\<lparr>d_primary := True\<rparr>) (domains t))"
      unfolding domains_ok_def
    proof (intro conjI)
      show "uniq_on d_primary d_ws (upd_where (\<lambda>d. d_id d = i) (\<lambda>d. d\<lparr>d_primary := True\<rparr>) (domains t))"
      proof (rule uniq_on_promote)
        fix r q assume "r \<in> set (domains t)" "q \<in> set (domains t)" "d_id r = i" "d_id q \<noteq> i" "d_primary q"
        then show "d_ws q \<noteq> d_ws r" using d(4) only by blast
      qed (use ok in \<open>simp_all add: domains_ok_def\<close>)
    next
      show "\<forall>x\<in>set (upd_where (\<lambda>d. d_id d = i) (\<lambda>d. d\<lparr>d_primary := True\<rparr>) (domains t)). namePattern (d_name x) \<and> (d_primary x \<longrightarrow> Verified x)"
        unfolding upd_where_def set_map using row by (auto simp: Verified_def)
    qed (rule uniq_on_upd_where; use ok in \<open>simp add: domains_ok_def\<close>)+
  qed simp
qed

lemma keeps_demote: "keeps (on_tabs dom_keeps) (sql (\<lambda>now t. (Inr (), t\<lparr>domains := upd_where Q
       (\<lambda>d. d\<lparr>d_primary := False\<rparr>) (domains t)\<rparr>)))"
  by (rule dom.on_sql) (auto intro!: dom_keeps_domains domains_ok_upd simp: dom_ok_def)

lemma keeps_retire: "keeps (on_tabs dom_keeps) (retire_others i k)"
  unfolding retire_others_def by (rule dom.on_sql) (auto intro!: dom_keeps_keys keys_ok_upd simp: dom_ok_def)

lemma keeps_activate: "keeps (on_tabs dom_keeps) (activate_key k)"
  unfolding activate_key_def
  by (rule dom.on_sql) (auto intro!: dom_keeps_keys uniq_on_upd_where
      simp: dom_ok_def Let_def keys_ok_def set_upd_where split: if_splits)

lemma keeps_randBytes: "keeps (on_tabs dom_keeps) (randBytes n)"
  unfolding randBytes_def by (intro dom.keeps_rules)

lemmas dom_rules = dom.keeps_rules keeps_insert_domain keeps_insert_key keeps_update_domain keeps_promote keeps_demote
  keeps_retire keeps_activate keeps_randBytes

lemma keeps_generateKey: "keeps (on_tabs dom_keeps) (generateKey D i a)"
  unfolding generateKey_def generateDKIM_def Seal_def CreateDKIMKey_def by (intro dom_rules)

lemma keeps_Add: "keeps (on_tabs dom_keeps) (Add D ws name)"
  unfolding Add_def newDomainToken_def Dom_Create_def by (intro dom_rules keeps_generateKey)

lemma keeps_Rotate: "keeps (on_tabs dom_keeps) (RotateDKIM D ws name)"
  unfolding RotateDKIM_def ByName_def domain_where_def by (intro dom_rules keeps_generateKey)

lemma keeps_record_ownership: "keeps (on_tabs dom_keeps) (record_ownership rs d)"
proof (induction rs arbitrary: d)
  case Nil
  show ?case unfolding record_ownership.simps by (intro dom_rules)
next
  case (Cons r rs)
  show ?case unfolding record_ownership.simps by (intro dom_rules Cons)
qed

lemma keeps_Verify: "keeps (on_tabs dom_keeps) (Verify D ws name)"
  unfolding Verify_def ByName_def domain_where_def Records_def DKIMKeys_def promotePendingKey_def ActivateDKIMKey_def
  by (intro dom_rules keeps_record_ownership)

lemma keeps_SetPrimary: "keeps (on_tabs dom_keeps) (Dom_SetPrimary ws name)"
  unfolding Dom_SetPrimary_def ByName_def domain_where_def Store_SetPrimary_def by (intro dom_rules)


section \<open>Deletion\<close>

lemma retain_dom: "domains_ok (domains (retain bs t)) = domains_ok (domains t)" by simp

lemma drop_domains_Inr:
  assumes "drop_domains P t = Inr t'"
  shows "domains t' = del_where P (domains t)"
    "dkim_keys t' = del_where (\<lambda>k. k_domain k \<in> d_id ` set (filter P (domains t))) (dkim_keys t)"
  using assms by (auto simp: drop_domains_def Let_def split: if_splits)

lemma drop_domains_ok:
  assumes "drop_domains P t = Inr t'" "dom_ok t"
  shows "dom_ok t'"
proof -
  have "k_domain k \<in> d_id ` set (domains t')" if "k \<in> set (dkim_keys t')" for k
  proof -
    have k: "k \<in> set (dkim_keys t)" "k_domain k \<notin> d_id ` set (filter P (domains t))"
      using that by (auto simp: drop_domains_Inr(2)[OF assms(1)] set_del_where)
    then obtain d where "d \<in> set (domains t)" "d_id d = k_domain k" using assms(2) by (auto simp: dom_ok_def)
    with k(2) show ?thesis unfolding drop_domains_Inr(1)[OF assms(1)] by (force simp: set_del_where)
  qed
  then show ?thesis
    using assms(2) unfolding dom_ok_def domains_ok_def keys_ok_def drop_domains_Inr[OF assms(1)]
    by (simp add: uniq_on_del_where set_del_where)
qed

lemma Store_Delete_cases:
  assumes "Store_Delete ws name w = (r, w')"
  obtains (same) "tabs w' = tabs w" "r \<noteq> Inr ()"
  | (gone) "drop_domains (\<lambda>d. d_ws d = ws \<and> d_name d = name) (tabs w) = Inr (tabs w')"
      "r = Inr () \<longleftrightarrow> (\<exists>d\<in>set (domains (tabs w)). d_ws d = ws \<and> d_name d = name)"
proof (cases "db_down w")
  case True
  then show ?thesis using assms same by (auto simp: Store_Delete_def bindE_def sql_def)
next
  case False
  let ?P = "\<lambda>d. d_ws d = ws \<and> d_name d = name"
  show ?thesis
  proof (cases "drop_domains ?P (tabs w)")
    case (Inl e)
    then show ?thesis using assms False same by (auto simp: Store_Delete_def bindE_def sql_def Let_def)
  next
    case (Inr t')
    then have run: "(if count_where ?P (domains (tabs w)) = 0 then throwE Dom_ErrNotFound else returnE ())
        ((spend w)\<lparr>tabs := t'\<rparr>) = (r, w')"
      using assms False by (simp add: Store_Delete_def bindE_def sql_def Let_def)
    then have "tabs w' = t'" "r = Inr () \<longleftrightarrow> count_where ?P (domains (tabs w)) \<noteq> 0"
      by (auto simp: throwE_def returnE_def split: if_splits)
    then show ?thesis using gone Inr count_where_0[of ?P "domains (tabs w)"] by auto
  qed
qed

section \<open>Sequences of operations\<close>

text \<open>
  What may happen to the domains: an operation of the service, successful or not, or anything that leaves
  the tables alone (time, failures, other components).
\<close>

inductive dom_step :: "domain_service \<Rightarrow> world \<Rightarrow> world \<Rightarrow> bool" for D where
  add: "Add D ws name w = (r, w') \<Longrightarrow> dom_step D w w'"
| rotate: "RotateDKIM D ws name w = (r, w') \<Longrightarrow> dom_step D w w'"
| verify: "Verify D ws name w = (q, w') \<Longrightarrow> dom_step D w w'"
| set_primary: "Dom_SetPrimary ws name w = (r, w') \<Longrightarrow> dom_step D w w'"
| delete: "Dom_Delete ws name w = (u, w') \<Longrightarrow> dom_step D w w'"
| other: "domains (tabs w') = domains (tabs w) \<Longrightarrow> dkim_keys (tabs w') = dkim_keys (tabs w) \<Longrightarrow> dom_step D w w'"

lemma dom_step_keeps:
  assumes "dom_step D w w'"
  shows "dom_keeps (tabs w) (tabs w') \<or> (\<exists>ws name u. Dom_Delete ws name w = (u, w'))"
  using assms
proof cases
  case other
  then show ?thesis by (auto simp: dom_keeps_def dom_ok_def same_domain_def same_key_def)
qed (use dom.relD keeps_Add keeps_Rotate keeps_Verify keeps_SetPrimary in blast)+

interpretation domains: step_system "dom_step D" "\<lambda>w. dom_ok (tabs w)" for D
proof
  fix s t assume ok: "dom_ok (tabs s)" and step: "dom_step D s t"
  from dom_step_keeps[OF step] show "dom_ok (tabs t)"
  proof (elim disjE exE)
    fix ws name u assume "Dom_Delete ws name s = (u, t)"
    then show ?thesis
      unfolding Dom_Delete_def by (cases rule: Store_Delete_cases) (use ok drop_domains_ok in auto)
  qed (use ok in \<open>auto simp: dom_keeps_def\<close>)
qed

section \<open>Properties\<close>

text \<open>C21: Whatever sequence of claims, rotations, checks, promotions and deletions the tenants run, failing
  anywhere: no name is claimed twice, a workspace has at most one primary domain and it is a verified one,
  and a domain has at most one signing key, never a retired one.\<close>

theorem domains_invariant:
  assumes "(dom_step D)\<^sup>*\<^sup>* w w'" "dom_ok (tabs w)"
  shows "distinct (map d_name (domains (tabs w'))) \<and>
    (\<forall>d\<in>set (domains (tabs w')). d_primary d \<longrightarrow> Verified d \<and>
       (\<forall>x\<in>set (domains (tabs w')). d_primary x \<and> d_ws x = d_ws d \<longrightarrow> x = d)) \<and>
    (\<forall>k\<in>set (dkim_keys (tabs w')). k_active k \<longrightarrow> k_retired k = None \<and>
       (\<exists>d\<in>set (domains (tabs w')). d_id d = k_domain k) \<and>
       (\<forall>x\<in>set (dkim_keys (tabs w')). k_active x \<and> k_domain x = k_domain k \<longrightarrow> x = k))"
proof -
  have "dom_ok (tabs w')" using domains.run_inv[OF assms] .
  then have d: "domains_ok (domains (tabs w'))" and k: "keys_ok (dkim_keys (tabs w'))"
    and fk: "\<forall>k\<in>set (dkim_keys (tabs w')). \<exists>d\<in>set (domains (tabs w')). d_id d = k_domain k"
    by (force simp: dom_ok_def)+
  have "distinct (map d_name (domains (tabs w')))" using d by (simp add: domains_ok_def uniq_on_def)
  moreover have "x = y" if "x \<in> set (domains (tabs w'))" "y \<in> set (domains (tabs w'))" "d_primary x" "d_primary y" "d_ws x = d_ws y" for x y
    using d that uniq_onD[of d_primary d_ws] by (auto simp: domains_ok_def)
  moreover have "x = y" if "x \<in> set (dkim_keys (tabs w'))" "y \<in> set (dkim_keys (tabs w'))" "k_active x" "k_active y" "k_domain x = k_domain y" for x y
    using k that uniq_onD[of k_active k_domain] by (auto simp: keys_ok_def)
  ultimately show ?thesis using d k fk by (simp add: domains_ok_def keys_ok_def)
qed

text \<open>No operation takes a domain from its workspace or its verification from a domain: a verified
  domain keeps its owner, name and date through every step, a failed DNS check included, unless that very
  workspace deletes it.\<close>

theorem verification_is_kept:
  assumes "dom_step D w w'" "d \<in> set (domains (tabs w))" "Verified d"
  shows "(\<exists>d'\<in>set (domains (tabs w')). same_domain d d' \<and> d_verified d' = d_verified d) \<or>
    (\<exists>name. Dom_Delete (d_ws d) name w = (Inr (), w') \<and> Normalise name = d_name d)"
  using dom_step_keeps[OF assms(1)]
proof (elim disjE exE)
  assume "dom_keeps (tabs w) (tabs w')"
  then show ?thesis using assms(2,3) by (auto simp: dom_keeps_def same_domain_def)
next
  fix ws name u assume del: "Dom_Delete ws name w = (u, w')"
  from del[unfolded Dom_Delete_def] show ?thesis
  proof (cases rule: Store_Delete_cases)
    case same
    then show ?thesis using assms(2) by (auto simp: same_domain_def)
  next
    case gone
    show ?thesis
    proof (cases "d_ws d = ws \<and> d_name d = Normalise name")
      case True
      then have "u = Inr ()" using gone(2) assms(2) by auto
      then show ?thesis using del True by auto
    next
      case False
      then have "d \<in> set (domains (tabs w'))" using assms(2) by (simp add: drop_domains_Inr(1)[OF gone(1)] set_del_where)
      then show ?thesis by (auto simp: same_domain_def)
    qed
  qed
qed

section \<open>Who may send as what\<close>

lemma domain_where_iff [step_iffs]:
  "domain_where P w = (Inr d, w') \<longleftrightarrow> \<not> db_down w \<and> List.find P (domains (tabs w)) = Some d \<and> w' = spend w"
  "domain_where P w = (Inl e, w') \<longleftrightarrow> w' = spend w \<and> (if db_down w then e = ErrDB else
     e = Dom_ErrNotFound \<and> List.find P (domains (tabs w)) = None)"
  by (auto simp: domain_where_def step_iffs split: option.splits)

lemma ByName_Inr: "ByName ws name w = (Inr d, w') \<Longrightarrow> d \<in> set (domains (tabs w)) \<and> d_ws d = ws \<and> d_name d = name \<and> w' = spend w"
  unfolding ByName_def domain_where_iff using find_SomeD by fast

lemma ByName_Inl: "ByName ws name w = (Inl e, w') \<Longrightarrow> w' = spend w"
  unfolding ByName_def by (auto simp: domain_where_iff)

lemma ByNameUnscoped_Inr: "ByNameUnscoped name w = (Inr d, w') \<Longrightarrow> d \<in> set (domains (tabs w)) \<and> d_name d = name \<and> w' = spend w"
  unfolding ByNameUnscoped_def domain_where_iff using find_SomeD by fast

lemma SigningKey_Inr:
  "SigningKey D i w = (Inr (sel, der), w') \<Longrightarrow> w' = spend w \<and> (\<exists>k\<in>set (dkim_keys (tabs w)). k_domain k = i \<and> k_active k \<and>
     k_selector k = sel \<and> Open (ds_cipher D) (k_private k) = Inr der)"
  by (auto simp: SigningKey_def ActivePrivateKey_def step_iffs split: option.splits dest!: find_SomeD)

lemma sign_with_Inr:
  "sign_with D d w = (Inr (sel, der), w') \<Longrightarrow> Verified d \<and> (\<exists>k\<in>set (dkim_keys (tabs w)). k_domain k = d_id d \<and> k_active k \<and>
     k_selector k = sel \<and> Open (ds_cipher D) (k_private k) = Inr der)"
  unfolding sign_with_def bindE_Inr_iff guardE_iff using SigningKey_Inr by fastforce

text \<open>C22: A signature is only made with the active key of a verified domain, and only for a workspace that
  owns the domain or has its personal mailbox there; the private half is what the sealed column opens to.\<close>

theorem SigningKeyForDomain_sound:
  assumes "SigningKeyForDomain D ws name w = (Inr (sel, der), w')"
  shows "\<exists>d\<in>set (domains (tabs w)). d_name d = Normalise name \<and> Verified d \<and>
    (d_ws d = ws \<or> (\<exists>b\<in>set (mailboxes (tabs w)). b_personal b = Some ws \<and>
        (\<exists>x\<in>set (domains (tabs w)). d_id x = b_domain b \<and> d_name x = d_name d))) \<and>
    (\<exists>k\<in>set (dkim_keys (tabs w)). k_domain k = d_id d \<and> k_active k \<and> k_selector k = sel \<and>
       Open (ds_cipher D) (k_private k) = Inr der)"
  using assms unfolding SigningKeyForDomain_def handleE_iff
proof (elim disjE exE conjE)
  fix d w1 assume "ByName ws (Normalise name) w = (Inr d, w1)" "sign_with D d w1 = (Inr (sel, der), w')"
  with ByName_Inr[OF this(1)] sign_with_Inr[OF this(2)] show ?thesis by auto
next
  fix e w1
  assume e: "ByName ws (Normalise name) w = (Inl e, w1)" and
    "(if e = Dom_ErrNotFound then bindE (hosts_personal_of ws (Normalise name)) (\<lambda>allowed.
        if allowed then bindE (ByNameUnscoped (Normalise name)) (sign_with D) else throwE e) else throwE e) w1 = (Inr (sel, der), w')"
  then obtain d w2 w3 where
    "hosts_personal_of ws (Normalise name) w1 = (Inr True, w2)" "ByNameUnscoped (Normalise name) w2 = (Inr d, w3)"
    "sign_with D d w3 = (Inr (sel, der), w')"
    by (auto simp: bindE_Inr_iff throwE_iff split: if_splits)
  with ByName_Inl[OF e] ByNameUnscoped_Inr[OF this(2)] sign_with_Inr[OF this(3)] show ?thesis
    by (auto simp: hosts_personal_of_def step_iffs)
qed

text \<open>A sender address is allowed only to those it belongs to: an address whose mailbox has an owner only to
  that user; the address of a personal mailbox only to its workspace; every other one only to the workspace
  that owns its verified domain.\<close>

lemma AllowsAddress_Inr:
  assumes "AllowsAddress user ws address w = (Inr (), w')"
  shows "\<exists>local name. to_lower (trim_space address) = local @ ''@'' @ name \<and> local \<noteq> [] \<and>
    (\<forall>b. List.find (box_at (tabs w) local name) (mailboxes (tabs w)) = Some b \<longrightarrow> b_owner b = None \<or> user = b_owner b) \<and>
    ((\<exists>b\<in>set (mailboxes (tabs w)). box_at (tabs w) local name b \<and> b_personal b = Some ws) \<or>
     (\<exists>d\<in>set (domains (tabs w)). d_ws d = ws \<and> d_name d = Normalise name \<and> Verified d))"
proof -
  let ?a = "to_lower (trim_space address)"
  obtain i where i: "last_index ?a (CHR ''@'') = Some i" "0 < i"
    using assms by (auto simp: AllowsAddress_def Let_def throwE_iff split: option.splits if_splits)
  let ?l = "take i ?a" and ?n = "drop (Suc i) ?a"
  have split: "?a = ?l @ ''@'' @ ?n" using last_index_split[OF i(1)] by simp
  obtain owner w1 personal w2 where o: "owner_of ?l ?n w = (Inr owner, w1)" "owner = None \<or> user = owner"
    and pers: "personal_of ?l ?n w1 = (Inr personal, w2)"
    and last: "(case personal of Some x \<Rightarrow> if x = ws then returnE () else throwE Dom_ErrNotFound
       | None \<Rightarrow> AllowsSender ws ?n) w2 = (Inr (), w')"
    using assms i by (auto simp: AllowsAddress_def Let_def bindE_Inr_iff guardE_iff)
  have ow: "w1 = spend w" "owner = (case List.find (box_at (tabs w) ?l ?n) (mailboxes (tabs w)) of None \<Rightarrow> None | Some b \<Rightarrow> b_owner b)"
    using o(1) by (auto simp: owner_of_def step_iffs)
  have "(\<exists>b\<in>set (mailboxes (tabs w)). box_at (tabs w) ?l ?n b \<and> b_personal b = Some ws) \<or>
     (\<exists>d\<in>set (domains (tabs w)). d_ws d = ws \<and> d_name d = Normalise ?n \<and> Verified d)"
  proof (cases personal)
    case None
    with last have "AllowsSender ws ?n w2 = (Inr (), w')" "tabs w2 = tabs w"
      using pers ow(1) by (auto simp: personal_of_def step_iffs)
    then show ?thesis unfolding AllowsSender_def bindE_Inr_iff guardE_iff using ByName_Inr by fastforce
  next
    case (Some x)
    with last have "x = ws" by (auto simp: throwE_iff split: if_splits)
    with pers Some ow(1) show ?thesis
      by (auto simp: personal_of_def query_Inr_iff split: option.splits dest!: find_SomeD)
  qed
  moreover have "?l \<noteq> []" using i last_index_Some[of ?a "CHR ''@''" i] by auto
  ultimately show ?thesis
    using split o(2) ow(2) by (intro exI[of _ ?l] exI[of _ ?n]) (auto split: option.splits)
qed


section \<open>Claiming and checking\<close>

lemma CreateDKIMKey_Inr:
  "CreateDKIMKey i sel pub sealed a w = (Inr k, w') \<Longrightarrow> tabs w' = (tabs w)\<lparr>dkim_keys := dkim_keys (tabs w) @ [k]\<rparr> \<and>
     k_domain k = i \<and> k_selector k = sel \<and> k_public k = pub \<and> k_private k = sealed \<and> k_active k = a \<and> k_retired k = None \<and>
     k_id k \<notin> k_id ` set (dkim_keys (tabs w))"
  by (auto simp: CreateDKIMKey_def insert_key_def step_iffs clashes_def split: if_splits)

lemma generateDKIM_Inr:
  "generateDKIM D w = (Inr (sel, pub, priv), w') \<Longrightarrow> tabs w' = tabs w \<and>
     (\<exists>seed pk. ds_keypair D seed = (pk, priv) \<and> pub = b64_std pk)"
  by (auto simp: generateDKIM_def step_iffs Let_def intro!: exI prod.expand)

lemma generateKey_Inr:
  assumes "generateKey D i a w = (Inr k, w')" "aead_ok (ds_cipher D)"
  shows "tabs w' = (tabs w)\<lparr>dkim_keys := dkim_keys (tabs w) @ [k]\<rparr> \<and> k_domain k = i \<and> k_active k = a \<and> k_retired k = None \<and>
    k_id k \<notin> k_id ` set (dkim_keys (tabs w)) \<and>
    (\<exists>seed pk priv. ds_keypair D seed = (pk, priv) \<and> k_public k = b64_std pk \<and> Open (ds_cipher D) (k_private k) = Inr priv)"
proof -
  obtain sel pub priv w1 sealed w2 where g: "generateDKIM D w = (Inr (sel, pub, priv), w1)"
    "Seal (ds_cipher D) priv w1 = (Inr sealed, w2)" "CreateDKIMKey i sel pub sealed a w2 = (Inr k, w')"
    using assms(1) by (auto simp: generateKey_def bindE_Inr_iff)
  show ?thesis
    using generateDKIM_Inr[OF g(1)] Seal_Inr[OF g(2)] Open_Seal[OF assms(2) g(2)] CreateDKIMKey_Inr[OF g(3)] by auto
qed

lemma Dom_Create_Inr:
  "Dom_Create ws name tok w = (Inr d, w') \<Longrightarrow> tabs w' = (tabs w)\<lparr>domains := domains (tabs w) @ [d]\<rparr> \<and>
     d_ws d = ws \<and> d_name d = name \<and> d_verified d = None \<and> \<not> d_primary d \<and> d_token d = tok \<and>
     d_name d \<notin> d_name ` set (domains (tabs w)) \<and> d_id d \<notin> d_id ` set (domains (tabs w))"
  by (auto simp: Dom_Create_def insert_domain_def step_iffs clashes_def split: if_splits)

text \<open>Claiming a domain: on success the workspace has a new, unverified and not primary domain of that
  normalised name, which nobody had, and one active signing key for it whose public half is the one to publish
  and whose sealed private half opens to the private half of the same pair.\<close>

theorem Add_claims:
  assumes "Add D ws name w = (Inr d, w')" "aead_ok (ds_cipher D)"
  shows "namePattern (Normalise name) \<and> length (Normalise name) \<le> 253 \<and>
    domains (tabs w') = domains (tabs w) @ [d] \<and> d_ws d = ws \<and> d_name d = Normalise name \<and> \<not> Verified d \<and> \<not> d_primary d \<and>
    Normalise name \<notin> d_name ` set (domains (tabs w)) \<and>
    (\<exists>k seed pk priv. dkim_keys (tabs w') = dkim_keys (tabs w) @ [k] \<and> k_domain k = d_id d \<and> k_active k \<and>
       ds_keypair D seed = (pk, priv) \<and> key_RecordValue k = ''v=DKIM1; k=rsa; p='' @ b64_std pk \<and>
       Open (ds_cipher D) (k_private k) = Inr priv)"
proof -
  obtain tok w1 w2 k where "namePattern (Normalise name)" "length (Normalise name) \<le> 253"
    and t: "newDomainToken w = (Inr tok, w1)" and c: "Dom_Create ws (Normalise name) tok w1 = (Inr d, w2)"
    and g: "generateKey D (d_id d) True w2 = (Inr k, w')"
    using assms(1) by (auto simp: Add_def Let_def bindE_Inr_iff guardE_iff returnE_iff)
  moreover have "tabs w1 = tabs w" using t by (auto simp: newDomainToken_def step_iffs)
  ultimately show ?thesis
    using Dom_Create_Inr[OF c] generateKey_Inr[OF g assms(2)] by (auto simp: Verified_def key_RecordValue_def)
qed

text \<open>The row and the statuses Verify ends with.\<close>

definition dns_proves :: "domain_service \<Rightarrow> domain_row \<Rightarrow> bool" where
  "dns_proves D d \<longleftrightarrow> (case ds_lookup D (challengeHost @ ''.'' @ d_name d) of None \<Rightarrow> False
     | Some vs \<Rightarrow> \<exists>v\<in>set vs. trim_space (trim_chars v [CHR 0x22]) = d_token d)"

definition dns_publishes :: "domain_service \<Rightarrow> string \<Rightarrow> dkim_row \<Rightarrow> bool" where
  "dns_publishes D name k \<longleftrightarrow> (case ds_lookup D (key_RecordName k name) of None \<Rightarrow> False
     | Some vs \<Rightarrow> \<exists>v\<in>set vs. trim_space (trim_chars v [CHR 0x22]) = key_RecordValue k)"

lemma checkRecord_plain:
  assumes "dr_purpose r = PurposeOwnership \<or> dr_purpose r = PurposeDKIM"
  shows "dr_status (checkRecord D r) = Some StatusOK \<longleftrightarrow> (case ds_lookup D (dr_name r) of None \<Rightarrow> False
     | Some vs \<Rightarrow> \<exists>v\<in>set vs. trim_space (trim_chars v [CHR 0x22]) = dr_value r)"
  using assms by (auto simp: checkRecord_def satisfies_def Let_def split: option.splits)

lemma checkRecord_same [simp]: "dr_purpose (checkRecord D r) = dr_purpose r" "dr_name (checkRecord D r) = dr_name r"
  by (auto simp: checkRecord_def split: option.splits)

definition expected_records :: "domain_service \<Rightarrow> domain_row \<Rightarrow> dkim_row list \<Rightarrow> dns_record list" where
  "expected_records D d keys = [txt_record (fst (ChallengeRecord d)) (snd (ChallengeRecord d)) PurposeOwnership True,
               txt_record (d_name d) (spfValue D) PurposeSPF True] @
       map (\<lambda>k. txt_record (key_RecordName k (d_name d)) (key_RecordValue k) PurposeDKIM (k_retired k = None)) keys @
       [txt_record (''_dmarc.'' @ d_name d) (dmarcValue D) PurposeDMARC False]"

lemma DKIMKeys_Inr: "DKIMKeys i w = (Inr ks, w') \<Longrightarrow> w' = spend w \<and> set ks = {k \<in> set (dkim_keys (tabs w)). k_domain k = i}"
  by (auto simp: DKIMKeys_def step_iffs Let_def)

lemma record_ownership_skip:
  "\<forall>r\<in>set rs. dr_purpose r \<noteq> PurposeOwnership \<Longrightarrow> record_ownership rs d w = (Inr d, w)"
  by (induction rs) (auto simp: returnE_def)

lemma Verify_steps:
  assumes "Verify D ws name w = (Inr (d', checked), w')"
  obtains d keys w1 w2 where "d \<in> set (domains (tabs w))" "d_ws d = ws" "d_name d = Normalise name"
    "set keys = {k \<in> set (dkim_keys (tabs w)). k_domain k = d_id d}" "tabs w1 = tabs w"
    "checked = map (checkRecord D) (expected_records D d keys)"
    "RecordCheck (d_id d) (dns_proves D d) (if dns_proves D d then [] else describeFailure (hd checked)) w1 = (Inr d', w2)"
    "promotePendingKey d' checked w2 = (Inr (), w')"
proof -
  obtain d w1 rs w2 w3 where b: "ByName ws (Normalise name) w = (Inr d, w1)" and r: "Records D d w1 = (Inr rs, w2)"
    and o: "record_ownership (map (checkRecord D) rs) d w2 = (Inr d', w3)"
    and p: "promotePendingKey d' (map (checkRecord D) rs) w3 = (Inr (), w')" and c: "checked = map (checkRecord D) rs"
    using assms by (auto simp: Verify_def Let_def bindE_Inr_iff returnE_iff)
  obtain keys where k: "DKIMKeys (d_id d) w1 = (Inr keys, w2)" and rs: "rs = expected_records D d keys"
    using r by (auto simp: Records_def expected_records_def bindE_Inr_iff returnE_iff)
  let ?own = "checkRecord D (txt_record (challengeHost @ ''.'' @ d_name d) (d_token d) PurposeOwnership True)"
  have own: "dr_status ?own = Some StatusOK \<longleftrightarrow> dns_proves D d"
    by (simp add: checkRecord_plain txt_record_def dns_proves_def cong: option.case_cong)
  have hd: "hd checked = ?own" by (simp add: c rs expected_records_def ChallengeRecord_def)
  have "RecordCheck (d_id d) (dns_proves D d) (if dns_proves D d then [] else describeFailure (hd checked)) w2 = (Inr d', w3)"
    using o own unfolding hd rs expected_records_def
    by (auto simp: bindE_Inr_iff ChallengeRecord_def txt_record_def record_ownership_skip split: if_splits)
  then show thesis
    using that[of d keys w2 w3] ByName_Inr[OF b] DKIMKeys_Inr[OF k] p c rs by simp
qed


lemma ActivateDKIMKey_Inr:
  assumes "ActivateDKIMKey i j w = (Inr (), w')"
  shows "domains (tabs w') = domains (tabs w) \<and> dkim_keys (tabs w') = upd_where (\<lambda>k. k_id k = j) (\<lambda>k. k\<lparr>k_active := True, k_retired := None\<rparr>)
     (upd_where (\<lambda>k. k_domain k = i \<and> k_active k \<and> k_id k \<noteq> j) (\<lambda>k. k\<lparr>k_active := False, k_retired := Some (db_now w)\<rparr>)
       (dkim_keys (tabs w)))"
  using assms by (auto simp: ActivateDKIMKey_def retire_others_def activate_key_def step_iffs Let_def split: if_splits)

lemma activated:
  assumes "k \<in> set (upd_where (\<lambda>k. k_id k = j) (\<lambda>k. k\<lparr>k_active := True, k_retired := None\<rparr>)
     (upd_where (\<lambda>k. k_domain k = i \<and> k_active k \<and> k_id k \<noteq> j) (\<lambda>k. k\<lparr>k_active := False, k_retired := n\<rparr>) ks))"
    "k_active k" "k_domain k = i"
  shows "\<exists>k0\<in>set ks. k_id k0 = j \<and> k = k0\<lparr>k_active := True, k_retired := None\<rparr>"
proof -
  obtain k1 where k1: "k1 \<in> set ks" "k = (let x = (if k_domain k1 = i \<and> k_active k1 \<and> k_id k1 \<noteq> j then k1\<lparr>k_active := False, k_retired := n\<rparr> else k1)
      in if k_id x = j then x\<lparr>k_active := True, k_retired := None\<rparr> else x)"
    using assms(1) unfolding upd_where_def set_map Let_def by blast
  with assms(2,3) have "k_id k1 = j" by (auto simp: Let_def split: if_splits)
  with k1 show ?thesis by (auto simp: Let_def)
qed

lemma published_key:
  assumes "key_RecordName k (d_name d) \<in> published (map (checkRecord D) (expected_records D d keys))"
    "keys_ok ks" "set keys = {k \<in> set ks. k_domain k = d_id d}" "k \<in> set ks" "k_domain k = d_id d"
  shows "dns_publishes D (d_name d) k"
proof -
  obtain k1 where k1: "k1 \<in> set keys" "key_RecordName k1 (d_name d) = key_RecordName k (d_name d)"
    and ok: "dr_status (checkRecord D (txt_record (key_RecordName k1 (d_name d)) (key_RecordValue k1) PurposeDKIM (k_retired k1 = None))) = Some StatusOK"
    using assms(1) by (auto simp: published_def expected_records_def txt_record_def)
  have "k1 = k"
    using k1 assms(2-5) by (auto simp: key_RecordName_def keys_ok_def dest: uniq_onD)
  with ok show ?thesis
    by (simp add: checkRecord_plain txt_record_def dns_publishes_def cong: option.case_cong)
qed

lemma RecordCheck_Inr:
  "RecordCheck i ok reason w = (Inr d', w') \<Longrightarrow> \<exists>d. List.find (\<lambda>d. d_id d = i) (domains (tabs w)) = Some d \<and>
     d' = checked_row ok reason (db_now w) d \<and> w' = (spend w)\<lparr>tabs := (tabs w)\<lparr>domains := upd_where (\<lambda>d. d_id d = i) (checked_row ok reason (db_now w)) (domains (tabs w))\<rparr>\<rparr>"
  by (auto simp: RecordCheck_def update_domain_def step_iffs split: option.splits)

lemma promotePendingKey_Inr:
  assumes "promotePendingKey d checked w = (Inr (), w')"
  obtains (none) "tabs w' = tabs w"
  | (one) k where "k \<in> set (dkim_keys (tabs w))" "k_domain k = d_id d" "k_retired k = None"
      "key_RecordName k (d_name d) \<in> published checked" "ActivateDKIMKey (d_id d) (k_id k) (spend w) = (Inr (), w')"
proof -
  obtain keys w1 where k1: "DKIMKeys (d_id d) w = (Inr keys, w1)" and
    r1: "(case List.find (\<lambda>k. \<not> k_active k \<and> k_retired k = None \<and> key_RecordName k (d_name d) \<in> published checked) keys of
       None \<Rightarrow> returnE () | Some k \<Rightarrow> ActivateDKIMKey (d_id d) (k_id k)) w1 = (Inr (), w')"
    using assms unfolding promotePendingKey_def bindE_Inr_iff by blast
  have w1: "w1 = spend w" using DKIMKeys_Inr[OF k1] by simp
  note keys = k1[unfolded w1] and rest = r1[unfolded w1]
  show thesis
  proof (cases "List.find (\<lambda>k. \<not> k_active k \<and> k_retired k = None \<and> key_RecordName k (d_name d) \<in> published checked) keys")
    case None
    with rest none show ?thesis by (simp add: returnE_iff)
  next
    case (Some k)
    with rest one[of k] find_SomeD[OF Some] DKIMKeys_Inr[OF keys] show ?thesis by auto
  qed
qed

text \<open>A check reconciles the row with DNS: the domain is verified afterwards exactly when it was or the
  challenge is published now, and the signing key changes only to a key whose record DNS shows with exactly
  that key, so mail is never signed with a key nobody can look up on account of a rotation.\<close>

theorem Verify_reconciles:
  assumes "Verify D ws name w = (Inr (d', checked), w')" "dom_ok (tabs w)"
  shows "\<exists>d\<in>set (domains (tabs w)). d_ws d = ws \<and> d_name d = Normalise name \<and> same_domain d d' \<and> d' \<in> set (domains (tabs w')) \<and>
    (Verified d' \<longleftrightarrow> Verified d \<or> dns_proves D d) \<and>
    (\<forall>k\<in>set (dkim_keys (tabs w')). k_active k \<and> k_domain k = d_id d \<longrightarrow>
       k \<in> set (dkim_keys (tabs w)) \<or> dns_publishes D (d_name d) k)"
  using assms(1)
proof (cases rule: Verify_steps)
  case (1 d keys w1 w2)
  obtain d0 where "List.find (\<lambda>x. d_id x = d_id d) (domains (tabs w)) = Some d0"
    and d': "d' = checked_row (dns_proves D d) (if dns_proves D d then [] else describeFailure (hd checked)) (db_now w1) d0"
    and w2: "tabs w2 = (tabs w)\<lparr>domains := upd_where (\<lambda>x. d_id x = d_id d)
      (checked_row (dns_proves D d) (if dns_proves D d then [] else describeFailure (hd checked)) (db_now w1)) (domains (tabs w))\<rparr>"
    using RecordCheck_Inr[OF 1(7)] 1(5) by auto
  moreover have ks: "keys_ok (dkim_keys (tabs w))" and ds: "uniq_on (\<lambda>_. True) d_id (domains (tabs w))"
    using assms(2) by (auto simp: dom_ok_def domains_ok_def)
  ultimately have d0: "d0 = d"
    using find_SomeD[of "\<lambda>x. d_id x = d_id d" "domains (tabs w)" d0] 1(1) uniq_onD[OF ds] by blast
  have same: "same_domain d d'" by (simp add: d' d0)
  have ver: "Verified d' \<longleftrightarrow> Verified d \<or> dns_proves D d"
    by (auto simp: d' d0 checked_row_def Verified_def split: option.splits)
  have "d' \<in> set (domains (tabs w2))"
    using in_upd_where[OF 1(1), of "\<lambda>x. d_id x = d_id d"] by (simp add: w2 d' d0)
  moreover have "domains (tabs w') = domains (tabs w2) \<and> (\<forall>k\<in>set (dkim_keys (tabs w')). k_active k \<and> k_domain k = d_id d \<longrightarrow>
       k \<in> set (dkim_keys (tabs w)) \<or> dns_publishes D (d_name d) k)"
    using 1(8)
  proof (cases rule: promotePendingKey_Inr)
    case none
    then show ?thesis by (simp add: w2)
  next
    case (one k)
    have ids: "d_id d' = d_id d" "d_name d' = d_name d" using same by (simp_all add: same_domain_def)
    have "dns_publishes D (d_name d) k"
      using published_key[OF _ ks 1(4)] one(1,2,4) unfolding 1(6) ids w2 by simp
    moreover have "\<exists>k0\<in>set (dkim_keys (tabs w)). k_id k0 = k_id k \<and> x = k0\<lparr>k_active := True, k_retired := None\<rparr>"
      if "x \<in> set (dkim_keys (tabs w'))" "k_active x" "k_domain x = d_id d" for x
      using that activated[of x "k_id k" "d_id d" "Some (db_now (spend w2))" "dkim_keys (tabs w)"] ActivateDKIMKey_Inr[OF one(5)]
      by (simp add: ids w2)
    moreover have "k0 = k" if "k0 \<in> set (dkim_keys (tabs w))" "k_id k0 = k_id k" for k0
      using that one(1) ks by (auto simp: keys_ok_def w2 dest: uniq_onD)
    moreover have "dns_publishes D n (k\<lparr>k_active := a, k_retired := r\<rparr>) = dns_publishes D n k" for n a r
      by (simp add: dns_publishes_def key_RecordName_def key_RecordValue_def cong: option.case_cong)
    ultimately have "dns_publishes D (d_name d) x" if "x \<in> set (dkim_keys (tabs w'))" "k_active x" "k_domain x = d_id d" for x
      using that by blast
    then show ?thesis using ActivateDKIMKey_Inr[OF one(5)] by simp
  qed
  ultimately have "d' \<in> set (domains (tabs w'))" "\<forall>k\<in>set (dkim_keys (tabs w')). k_active k \<and> k_domain k = d_id d \<longrightarrow>
       k \<in> set (dkim_keys (tabs w)) \<or> dns_publishes D (d_name d) k"
    by simp_all
  then show ?thesis by (intro bexI[OF _ 1(1)] conjI 1(2,3) same ver)
qed

text \<open>The SPF check is a text search: a record that authorises another party's domain, whose name only
  begins with ours, is reported as correct.\<close>

theorem spf_accepts_lookalike:
  "dr_status (checkRecord (withDefaults \<lparr>ds_cipher = c, ds_lookup = (\<lambda>n. Some [''v=spf1 include:spf.heromail.kz.attacker.example -all'']),
     ds_keypair = kp, ds_spf = [], ds_report = []\<rparr>) (txt_record ''acme.kz'' v PurposeSPF True)) = Some StatusOK"
  by (simp add: checkRecord_def withDefaults_def txt_record_def satisfies_def Let_def) code_simp


section \<open>Witnesses\<close>

definition sample_ds :: domain_service where
  "sample_ds = \<lparr>ds_cipher = sample_aead, ds_lookup = (\<lambda>n. Some [''tok'']), ds_keypair = (\<lambda>s. (s, ''der'')),
     ds_spf = ''include:spf.heromail.kz'', ds_report = ''dmarc@heromail.local''\<rparr>"

definition sample_nonce :: string where
  "sample_nonce = ''nonce nonce ''"

definition key_world :: world where
  "key_world = sample_world\<lparr>tabs := sample_db\<lparr>dkim_keys := [\<lparr>k_id = ''k'', k_domain = ''dom'', k_selector = ''hm1'',
     k_public = ''pub'', k_private = b64_std (sample_nonce @ ae_seal sample_aead sample_nonce ''der''), k_active = True, k_retired = None\<rparr>]\<rparr>\<rparr>"

lemma sample_domain_strings:
  "Normalise ''acme.kz'' = ''acme.kz''" "namePattern ''acme.kz''" "Normalise ''shop.kz'' = ''shop.kz''" "namePattern ''shop.kz''"
  "selector_ok (''hm'' @ year_month 0 @ hex (take 3 (sample_random @ replicate 3 (char_of (0 :: nat)))))"
  "to_lower (trim_space ''bob@acme.kz'') = ''bob@acme.kz''"
  by code_simp+

lemma Open_sample: "Open sample_aead (b64_std (sample_nonce @ ae_seal sample_aead sample_nonce p)) = Inr p"
  by (simp add: Open_def DecodeString_b64 sample_nonce_def nonceSize_def sample_aead_def)

lemma sample_dom_ok: "dom_ok (tabs sample_world)" "dom_ok (tabs key_world)"
  using sample_domain_strings(2)
  by (auto simp: dom_ok_def domains_ok_def keys_ok_def uniq_on_def sample_defs key_world_def Verified_def selector_ok_def alnum_def is_digit_def)

lemmas domain_exec = Add_def newDomainToken_def randBytes_def Dom_Create_def insert_domain_def generateKey_def generateDKIM_def Seal_def
  CreateDKIMKey_def insert_key_def randRead_def asks_def exec_defs sample_domain_strings sample_ds_def sample_world_def empty_world_def
  sample_db_def empty_db_def app_now_def

lemma sample_add: "\<exists>d w. Add sample_ds ''ws'' ''shop.kz'' sample_world = (Inr d, w)"
  using sample_domain_strings(5) by (simp add: domain_exec)

lemma sample_sign: "\<exists>w. SigningKeyForDomain sample_ds ''ws'' ''acme.kz'' key_world = (Inr (''hm1'', ''der''), w)"
  by (simp add: SigningKeyForDomain_def ByName_def domain_where_def sign_with_def SigningKey_def ActivePrivateKey_def liftE_def
      Verified_def key_world_def domain_exec Open_sample)

theorem domains_invariant_witness:
  "\<exists>d w. Add sample_ds ''ws'' ''shop.kz'' sample_world = (Inr d, w) \<and> distinct (map d_name (domains (tabs w)))"
proof -
  obtain d w where a: "Add sample_ds ''ws'' ''shop.kz'' sample_world = (Inr d, w)" using sample_add by blast
  have "(dom_step sample_ds)\<^sup>*\<^sup>* sample_world w" using dom_step.add[OF a] by blast
  from domains_invariant[OF this sample_dom_ok(1)] a show ?thesis by blast
qed

theorem verification_is_kept_witness:
  "\<exists>r w d. Verify sample_ds ''ws'' ''acme.kz'' sample_world = (r, w) \<and> d \<in> set (domains (tabs sample_world)) \<and> Verified d \<and>
     ((\<exists>d'\<in>set (domains (tabs w)). same_domain d d' \<and> d_verified d' = d_verified d) \<or>
      (\<exists>name. Dom_Delete (d_ws d) name sample_world = (Inr (), w) \<and> Normalise name = d_name d))"
proof -
  obtain r w where v: "Verify sample_ds ''ws'' ''acme.kz'' sample_world = (r, w)" by fastforce
  obtain d where d: "d \<in> set (domains (tabs sample_world))" "Verified d" by (simp add: sample_defs Verified_def)
  from verification_is_kept[OF dom_step.verify[OF v] d] v d show ?thesis by blast
qed

theorem SigningKeyForDomain_sound_witness:
  "\<exists>w. SigningKeyForDomain sample_ds ''ws'' ''acme.kz'' key_world = (Inr (''hm1'', ''der''), w) \<and>
     (\<exists>d\<in>set (domains (tabs key_world)). d_name d = Normalise ''acme.kz'' \<and> Verified d)"
proof -
  obtain w where s: "SigningKeyForDomain sample_ds ''ws'' ''acme.kz'' key_world = (Inr (''hm1'', ''der''), w)" using sample_sign by blast
  from SigningKeyForDomain_sound[OF s] s show ?thesis by blast
qed

theorem Add_claims_witness:
  "\<exists>d w. Add sample_ds ''ws'' ''shop.kz'' sample_world = (Inr d, w) \<and> d_name d = Normalise ''shop.kz'' \<and> \<not> Verified d"
proof -
  obtain d w where a: "Add sample_ds ''ws'' ''shop.kz'' sample_world = (Inr d, w)" using sample_add by blast
  have "aead_ok (ds_cipher sample_ds)" by (simp add: sample_ds_def sample_aead_ok)
  from Add_claims[OF a this] a show ?thesis by blast
qed

theorem Verify_reconciles_witness:
  "\<exists>d c w. Verify sample_ds ''ws'' ''acme.kz'' key_world = (Inr (d, c), w) \<and> d_ws d = ''ws''"
proof -
  have "\<exists>d c w. Verify sample_ds ''ws'' ''acme.kz'' key_world = (Inr (d, c), w)"
    by (simp add: Verify_def ByName_def domain_where_def Records_def DKIMKeys_def promotePendingKey_def RecordCheck_def
        update_domain_def checkRecord_def txt_record_def ChallengeRecord_def key_world_def domain_exec)
  then obtain d c w where v: "Verify sample_ds ''ws'' ''acme.kz'' key_world = (Inr (d, c), w)" by blast
  from Verify_reconciles[OF v sample_dom_ok(2)] v show ?thesis by (auto simp: same_domain_def)
qed

end
