(* ===== verification/Handlers.thy ===== *)
theory Handlers imports Inbox Accounts EmailService MailLogin ApiKeys Domains begin

text \<open>
  internal/httpapi: the operations of server.go, send_session.go, send_session_support.go,
  initial_password.go and domains.go on top of the services. A request reaches an operation with a context: the user
  and token a session stands for, or the workspace of an API key. An answer is a reply and the value of the
  Retry-After header when it has one. The wire types are generated; the operations answer the rows
  convert.go renders.
\<close>

section \<open>Contexts and answers\<close>

record request_ctx =
  cx_user :: "user_row option"
  cx_token :: "string option"
  cx_workspace :: "string option"
  cx_rc :: request_context

record 's api =
  sv_accounts :: account_service
  sv_emails :: "string option \<Rightarrow> service"
  sv_domains :: domain_service
  sv_limiter :: "'s redis_client option"
  sv_getenv :: "string \<Rightarrow> string"
  sv_mime :: mime_lib
  sv_scan :: scan_lib

type_synonym 'a answer = "'a reply \<times> int option"

type_synonym ('s, 'a) http = "('s srv, gerror, 'a answer) step"

definition problem :: "nat \<Rightarrow> string \<Rightarrow> 'a answer" where
  "problem status code = (Problem status code, None)"

definition plain :: "'a handler \<Rightarrow> ('s, 'a) http" where
  "plain m = bindE (onFst m) (\<lambda>r. returnE (r, None))"

definition tooMany :: "result \<Rightarrow> 'a answer" where
  "tooMany res = (Problem 429 ''rate_limited'', Some (retryAfterSeconds (rr_retry res)))"

text \<open>\<open>if res := s.allow(ctx, key, rules...); !res.Allowed { return tooMany(res) }\<close>.\<close>

definition limited :: "'s api \<Rightarrow> string \<Rightarrow> rule list \<Rightarrow> ('s, 'a) http \<Rightarrow> ('s, 'a) http" where
  "limited H key rules k = bindE (onSnd (\<lambda>w. server_allow (sv_limiter H) (app_now w) key rules)) (\<lambda>res.
     if \<not> rr_allowed res then returnE (tooMany res) else k)"

definition signed_user :: "request_ctx \<Rightarrow> string option" where
  "signed_user c = map_option u_id (cx_user c)"

section \<open>Accounts\<close>

text \<open>Email, password, name and personal name.\<close>

definition Http_Register :: "'s api \<Rightarrow> request_ctx \<Rightarrow> (string \<times> string \<times> string option \<times> string option) option \<Rightarrow> ('s, credentials) http" where
  "Http_Register H c body = (case body of None \<Rightarrow> returnE (problem 400 ''invalid_json'') | Some (addr, pass, name, personal) \<Rightarrow>
     limited H (rc_ip (cx_rc c)) [registerPerIP] (plain
       (orElse (Register (sv_accounts H) \<lparr>rg_personal = deref personal, rg_email = addr, rg_password = pass, rg_name = deref name\<rparr> (cx_rc c))
         (\<lambda>e. if e = Acc_ErrValidation then Some (Problem 400 ''validation_failed'')
              else if e = Acc_ErrEmailTaken then Some (Problem 409 ''email_taken'') else None)
         (\<lambda>creds. returnE (Reply 201 creds)))))"

definition Http_Login :: "'s api \<Rightarrow> request_ctx \<Rightarrow> (string \<times> string) option \<Rightarrow> ('s, credentials) http" where
  "Http_Login H c body = (case body of None \<Rightarrow> returnE (problem 400 ''invalid_json'') | Some (addr, pass) \<Rightarrow>
     limited H (normaliseKey addr) [loginPerEmail] (limited H (rc_ip (cx_rc c)) [loginPerIP] (plain
       (orElse (Login (sv_accounts H) addr pass (cx_rc c)) (onError Acc_ErrCredentials 401 ''invalid_credentials'')
         (\<lambda>creds. returnE (Reply 200 creds))))))"

definition otpLockoutSeconds :: int where "otpLockoutSeconds = 900"

definition Http_VerifyEmail :: "'s api \<Rightarrow> (string \<times> string) option \<Rightarrow> ('s, user_row) http" where
  "Http_VerifyEmail H body = (case body of None \<Rightarrow> returnE (problem 400 ''validation_failed'') | Some (addr, code) \<Rightarrow>
     if code = [] \<or> addr = [] then returnE (problem 400 ''validation_failed'') else
     limited H (normaliseKey addr) [verifyAttemptPerEmail]
       (handleE (onFst (VerifyEmail (sv_accounts H) addr code))
         (\<lambda>e. case e of Acc_ErrCodeLocked t \<Rightarrow> returnE (Problem 429 ''code_locked'', Some otpLockoutSeconds)
            | Acc_ErrInvalidToken n \<Rightarrow> returnE (problem 400 ''invalid_code'') | _ \<Rightarrow> throwE e)
         (\<lambda>u. returnE (Reply 200 u, None))))"

definition Http_ResendVerification :: "'s api \<Rightarrow> string option \<Rightarrow> ('s, unit) http" where
  "Http_ResendVerification H body = (case body of None \<Rightarrow> returnE (Reply 202 (), None) | Some addr \<Rightarrow>
     limited H (normaliseKey addr) [verifyPerEmail]
       (bindE (ignoreE (onFst (ResendVerification (sv_accounts H) addr))) (\<lambda>_. returnE (Reply 202 (), None))))"

definition Http_ForgotPassword :: "'s api \<Rightarrow> string option \<Rightarrow> ('s, unit) http" where
  "Http_ForgotPassword H body = (case body of None \<Rightarrow> returnE (Reply 202 (), None) | Some addr \<Rightarrow>
     limited H (normaliseKey addr) [resetPerEmail]
       (bindE (ignoreE (onFst (RequestPasswordReset (sv_accounts H) addr))) (\<lambda>_. returnE (Reply 202 (), None))))"

definition Http_ResetPassword :: "'s api \<Rightarrow> request_ctx \<Rightarrow> (string \<times> string) option \<Rightarrow> ('s, credentials) http" where
  "Http_ResetPassword H c body = (case body of None \<Rightarrow> returnE (problem 400 ''invalid_json'') | Some (token, pass) \<Rightarrow> plain
     (orElse (ResetPassword (sv_accounts H) token pass (cx_rc c))
       (\<lambda>e. case e of Acc_ErrInvalidToken n \<Rightarrow> Some (Problem 400 ''invalid_token'')
          | Acc_ErrValidation \<Rightarrow> Some (Problem 400 ''validation_failed'') | _ \<Rightarrow> None)
       (\<lambda>creds. returnE (Reply 200 creds))))"

definition GetCurrentUser :: "request_ctx \<Rightarrow> ('s, user_row) http" where
  "GetCurrentUser c = (case cx_user c of None \<Rightarrow> returnE (problem 401 ''unauthenticated'') | Some u \<Rightarrow> returnE (Reply 200 u, None))"

definition Http_Logout :: "'s api \<Rightarrow> request_ctx \<Rightarrow> ('s, unit) http" where
  "Http_Logout H c = bindE (case cx_token c of None \<Rightarrow> returnE () | Some token \<Rightarrow> ignoreE (onFst (Logout (sv_accounts H) token)))
     (\<lambda>_. returnE (Reply 204 (), None))"

definition Http_ChangeInitialPassword :: "'s api \<Rightarrow> request_ctx \<Rightarrow> (string \<times> string) option \<Rightarrow> ('s, credentials) http" where
  "Http_ChangeInitialPassword H c body = (case cx_user c of None \<Rightarrow> returnE (problem 401 ''unauthenticated'') | Some u \<Rightarrow>
     bindE (onSnd (\<lambda>w. server_allow (sv_limiter H) (app_now w) (u_id u) [initialPasswordRule])) (\<lambda>res.
     if \<not> rr_allowed res then returnE (problem 429 ''rate_limited'') else
     case body of None \<Rightarrow> returnE (problem 400 ''invalid_request'') | Some (old, new) \<Rightarrow> plain
       (orElse (ChangeInitialPassword (sv_accounts H) (u_id u) old new (cx_rc c))
         (\<lambda>e. if e = Acc_ErrValidation then Some (Problem 400 ''validation_failed'')
              else if e = Acc_ErrCredentials then Some (Problem 403 ''invalid_password'')
              else if e = Acc_ErrPasswordAlreadyChanged then Some (Problem 409 ''password_already_changed'') else None)
         (\<lambda>creds. returnE (Reply 200 creds)))))"

section \<open>Sending\<close>

record send_body =
  bd_from :: string
  bd_to :: "string list"
  bd_cc :: "string list option"
  bd_bcc :: "string list option"
  bd_subject :: "string option"
  bd_html :: "string option"
  bd_text :: "string option"
  bd_attachments :: "string list option"
  bd_reply_to :: "string option"

definition emailAddresses :: "'b list option \<Rightarrow> 'b list" where
  "emailAddresses values = (case values of None \<Rightarrow> [] | Some vs \<Rightarrow> vs)"

definition request_of :: "string \<Rightarrow> string \<Rightarrow> string \<Rightarrow> send_body \<Rightarrow> send_request" where
  "request_of from inReplyTo refs b = \<lparr>rq_in_reply_to = inReplyTo, rq_refs = refs, rq_from = from, rq_to = bd_to b, rq_cc = emailAddresses (bd_cc b),
     rq_bcc = emailAddresses (bd_bcc b), rq_subject = deref (bd_subject b), rq_html = deref (bd_html b), rq_text = deref (bd_text b),
     rq_attachments = emailAddresses (bd_attachments b)\<rparr>"

definition client_fault :: "gerror \<Rightarrow> bool" where
  "client_fault e \<longleftrightarrow> e \<in> {Email_ErrValidation, Email_ErrNotFound, Email_ErrAttachmentNotFound, Email_ErrAttachmentsTooLarge, Email_ErrFromNotAllowed}"

definition send_answer :: "email_row send_op \<Rightarrow> (string \<times> status) handler" where
  "send_answer m = handleE m (\<lambda>(e, row). if client_fault e then returnE (Problem 400 ''validation_failed'') else throwE e)
     (\<lambda>msg. returnE (Reply 202 (e_id msg, e_status msg)))"

definition SendEmail :: "'s api \<Rightarrow> request_ctx \<Rightarrow> string option \<Rightarrow> send_body option \<Rightarrow> ('s, string \<times> status) http" where
  "SendEmail H c key body = (case cx_workspace c of None \<Rightarrow> returnE (problem 401 ''unauthenticated'') | Some ws \<Rightarrow>
     case body of None \<Rightarrow> returnE (problem 400 ''invalid_json'') | Some b \<Rightarrow>
     if bd_reply_to b \<noteq> None then returnE (problem 400 ''invalid_request'') else
     limited H ws (sendQuota (sv_getenv H)) (plain
       (send_answer (Send (sv_emails H (signed_user c)) ws (deref key) (request_of (bd_from b) [] [] b)))))"

text \<open>What follows the checks of SendWorkspaceEmail: the headers of the message replied to, and the send.\<close>

definition reply_and_send :: "'s api \<Rightarrow> request_ctx \<Rightarrow> string \<Rightarrow> string option \<Rightarrow> string \<Rightarrow> send_body \<Rightarrow> (string \<times> status) handler" where
  "reply_and_send H c ws key from b = (case bd_reply_to b of
     None \<Rightarrow> send_answer (Send (sv_emails H (signed_user c)) ws (deref key) (request_of from [] [] b))
   | Some i \<Rightarrow> handleE (readableMessage (cx_user c) ws i) (\<lambda>e. returnE (Problem 404 ''not_found'')) (\<lambda>original.
       bindE (Inb_Presentation (sv_mime H) (sv_scan H) (g_box original) (g_id original)) (\<lambda>reply.
       send_answer (Send (sv_emails H (signed_user c)) ws (deref key) (request_of from (pr_in_reply_to reply) (pr_references reply) b)))))"

definition SendWorkspaceEmail :: "'s api \<Rightarrow> request_ctx \<Rightarrow> string \<Rightarrow> string option \<Rightarrow> send_body option \<Rightarrow> ('s, string \<times> status) http" where
  "SendWorkspaceEmail H c slug key body =
     handleE (onFst (scope (cx_user c) slug RoleMember)) (\<lambda>e. if e = Ws_ErrNotFound then returnE (problem 404 ''not_found'') else throwE e) (\<lambda>(ws, forbidden).
     case body of None \<Rightarrow> returnE (problem 400 ''invalid_json'') | Some b \<Rightarrow>
     bindE (onFst (MailboxesForWorkspace ws)) (\<lambda>boxes. let from = to_lower (trim_space (bd_from b)) in
     if \<not> (\<exists>box\<in>set boxes. equal_fold (mb_address box) from) \<or> last_index from (CHR ''@'') = None
     then returnE (problem 400 ''sender_not_allowed'') else
     handleE (onFst (AllowsAddress (signed_user c) ws from)) (\<lambda>e. returnE (problem 400 ''sender_not_allowed'')) (\<lambda>_.
     limited H ws (sendQuota (sv_getenv H)) (plain (reply_and_send H c ws key from b)))))"

section \<open>Uploads\<close>

record form_part =
  fp_name :: string
  fp_filename :: string
  fp_ctype :: string
  fp_data :: string

text \<open>The loop over the parts: what comes before the first file part is skipped, a malformed body ends it.\<close>

fun file_part :: "form_part list \<Rightarrow> bool \<Rightarrow> unit + form_part option" where
  "file_part [] malformed = (if malformed then Inl () else Inr None)"
| "file_part (p # ps) malformed = (if fp_name p = ''file'' then Inr (Some p) else file_part ps malformed)"

definition upload_answer :: "'s api \<Rightarrow> request_ctx \<Rightarrow> string \<Rightarrow> (form_part list \<times> bool) option \<Rightarrow> attachment_row handler" where
  "upload_answer H c ws body = (case body of None \<Rightarrow> returnE (Problem 400 ''invalid_request'') | Some (parts, malformed) \<Rightarrow>
     case file_part parts malformed of Inl _ \<Rightarrow> returnE (Problem 400 ''invalid_request'')
     | Inr None \<Rightarrow> returnE (Problem 400 ''validation_failed'')
     | Inr (Some p) \<Rightarrow> orElse (UploadAttachment (sv_emails H (signed_user c)) ws (fp_filename p) (fp_ctype p) (fp_data p))
         (\<lambda>e. if e = Email_ErrStorageNotConfigured then Some (Problem 503 ''storage_not_configured'')
              else if e = Email_ErrAttachmentTooLarge then Some (Problem 413 ''attachment_too_large'')
              else if e = Email_ErrValidation then Some (Problem 400 ''validation_failed'') else None)
         (\<lambda>a. returnE (Reply 201 a)))"

definition Http_UploadAttachment :: "'s api \<Rightarrow> request_ctx \<Rightarrow> (form_part list \<times> bool) option \<Rightarrow> ('s, attachment_row) http" where
  "Http_UploadAttachment H c body = (case cx_workspace c of None \<Rightarrow> returnE (problem 401 ''unauthenticated'') | Some ws \<Rightarrow>
     limited H ws (uploadQuota (sv_getenv H)) (plain (upload_answer H c ws body)))"

definition UploadWorkspaceAttachment :: "'s api \<Rightarrow> request_ctx \<Rightarrow> string \<Rightarrow> (form_part list \<times> bool) option \<Rightarrow> ('s, attachment_row) http" where
  "UploadWorkspaceAttachment H c slug body =
     handleE (onFst (scope (cx_user c) slug RoleMember)) (\<lambda>e. if e = Ws_ErrNotFound then returnE (problem 404 ''not_found'') else throwE e) (\<lambda>(ws, forbidden).
     limited H ws (uploadQuota (sv_getenv H)) (plain (upload_answer H c ws body)))"

section \<open>Reading\<close>

definition email_detail :: "request_ctx \<Rightarrow> string \<Rightarrow> string \<Rightarrow> (email_row \<times> attachment_row list) handler" where
  "email_detail c ws i = orElse (ByID ws i) (onError Email_ErrNotFound 404 ''not_found'') (\<lambda>msg.
     bindE (CanReadOutbound (caller (cx_user c)) (e_id msg)) (\<lambda>allowed.
     if \<not> allowed then returnE (Problem 404 ''not_found'') else
     bindE (AttachmentsByEmailID (e_id msg)) (\<lambda>files. returnE (Reply 200 (msg, files)))))"

definition GetEmail :: "request_ctx \<Rightarrow> string \<Rightarrow> ('s, email_row \<times> attachment_row list) http" where
  "GetEmail c i = (case cx_workspace c of None \<Rightarrow> returnE (problem 401 ''unauthenticated'') | Some ws \<Rightarrow> plain (email_detail c ws i))"

definition GetWorkspaceEmail :: "request_ctx \<Rightarrow> string \<Rightarrow> string \<Rightarrow> ('s, email_row \<times> attachment_row list) http" where
  "GetWorkspaceEmail c slug i = plain
     (orElse (scope (cx_user c) slug RoleMember) (onError Ws_ErrNotFound 404 ''not_found'') (\<lambda>(ws, forbidden). email_detail c ws i))"

definition GetApiKeyWorkspace :: "request_ctx \<Rightarrow> ('s, workspace_row) http" where
  "GetApiKeyWorkspace c = (case cx_workspace c of None \<Rightarrow> returnE (problem 401 ''unauthenticated'') | Some ws \<Rightarrow> plain
     (bindE (Ws_ByID ws) (\<lambda>x. returnE (Reply 200 x))))"

definition SearchMessages :: "request_ctx \<Rightarrow> string \<Rightarrow> int option \<Rightarrow> ('s, email_row list) http" where
  "SearchMessages c q lim = (case cx_user c of None \<Rightarrow> returnE (problem 401 ''unauthenticated'') | Some u \<Rightarrow>
     let term = trim_space q; limit = (case lim of None \<Rightarrow> 50 | Some n \<Rightarrow> n) in
     if term = [] \<or> limit < 1 \<or> 100 < limit then returnE (problem 400 ''validation_failed'') else plain
     (bindE (SearchForUser (u_id u) term (nat limit)) (\<lambda>out. returnE (Reply 200 out))))"

text \<open>A ping is an exchange with the database.\<close>

definition GetHealth :: "('s, bool) http" where
  "GetHealth = plain (handleE (query (\<lambda>now t. Inr ())) (\<lambda>e. returnE (Reply 503 False)) (\<lambda>_. returnE (Reply 200 True)))"

section \<open>Domains\<close>

text \<open>The records next to a domain, none when they cannot be loaded.\<close>

definition describe :: "'s api \<Rightarrow> domain_row \<Rightarrow> (domain_row \<times> dns_record list) op" where
  "describe H d = handleE (Records (sv_domains H) d) (\<lambda>e. returnE (d, [])) (\<lambda>rs. returnE (d, rs))"

fun list_records :: "'s api \<Rightarrow> domain_row list \<Rightarrow> (domain_row \<times> dns_record list) list op" where
  "list_records H [] = returnE []"
| "list_records H (d # ds) = bindE (Records (sv_domains H) d) (\<lambda>rs. bindE (list_records H ds) (\<lambda>out. returnE ((d, rs) # out)))"

definition as_member :: "request_ctx \<Rightarrow> string \<Rightarrow> (string \<Rightarrow> 'a handler) \<Rightarrow> 'a handler" where
  "as_member c slug k = orElse (scope (cx_user c) slug RoleMember) (onError Ws_ErrNotFound 404 ''not_found'') (\<lambda>(ws, forbidden). k ws)"

definition as_admin :: "request_ctx \<Rightarrow> string \<Rightarrow> (string \<Rightarrow> 'a handler) \<Rightarrow> 'a handler" where
  "as_admin c slug k = orElse (scope (cx_user c) slug RoleAdmin) (onError Ws_ErrNotFound 404 ''not_found'') (\<lambda>(ws, forbidden).
     if forbidden then returnE (Problem 403 ''forbidden'') else k ws)"

definition ListDomains :: "'s api \<Rightarrow> request_ctx \<Rightarrow> string \<Rightarrow> (domain_row \<times> dns_record list) list handler" where
  "ListDomains H c slug = as_member c slug (\<lambda>ws. bindE (Dom_List ws) (\<lambda>ds. bindE (list_records H ds) (\<lambda>out. returnE (Reply 200 out))))"

definition AddDomain :: "'s api \<Rightarrow> request_ctx \<Rightarrow> string \<Rightarrow> string option \<Rightarrow> (domain_row \<times> dns_record list) handler" where
  "AddDomain H c slug body = as_admin c slug (\<lambda>ws. case body of None \<Rightarrow> returnE (Problem 400 ''invalid_json'') | Some name \<Rightarrow>
     orElse (Add (sv_domains H) ws name)
       (\<lambda>e. if e = Dom_ErrValidation then Some (Problem 400 ''validation_failed'')
            else if e = Dom_ErrTaken then Some (Problem 409 ''domain_taken'') else None)
       (\<lambda>d. bindE (describe H d) (\<lambda>out. returnE (Reply 201 out))))"

definition GetDomain :: "'s api \<Rightarrow> request_ctx \<Rightarrow> string \<Rightarrow> string \<Rightarrow> (domain_row \<times> dns_record list) handler" where
  "GetDomain H c slug name = as_member c slug (\<lambda>ws. orElse (Dom_Get ws name) (onError Dom_ErrNotFound 404 ''not_found'')
     (\<lambda>d. bindE (describe H d) (\<lambda>out. returnE (Reply 200 out))))"

definition VerifyDomain :: "'s api \<Rightarrow> request_ctx \<Rightarrow> string \<Rightarrow> string \<Rightarrow> (domain_row \<times> dns_record list) handler" where
  "VerifyDomain H c slug name = as_admin c slug (\<lambda>ws. orElse (Verify (sv_domains H) ws name) (onError Dom_ErrNotFound 404 ''not_found'')
     (\<lambda>out. returnE (Reply 200 out)))"

definition UpdateDomain :: "'s api \<Rightarrow> request_ctx \<Rightarrow> string \<Rightarrow> string \<Rightarrow> bool option \<Rightarrow> (domain_row \<times> dns_record list) handler" where
  "UpdateDomain H c slug name body = as_admin c slug (\<lambda>ws. case body of None \<Rightarrow> returnE (Problem 400 ''invalid_json'') | Some isPrimary \<Rightarrow>
     if \<not> isPrimary then returnE (Problem 400 ''validation_failed'') else
     orElse (Dom_SetPrimary ws name)
       (\<lambda>e. if e = Dom_ErrNotFound then Some (Problem 404 ''not_found'')
            else if e = Dom_ErrNotVerified then Some (Problem 400 ''not_verified'') else None)
       (\<lambda>d. bindE (describe H d) (\<lambda>out. returnE (Reply 200 out))))"

definition DeleteDomain :: "request_ctx \<Rightarrow> string \<Rightarrow> string \<Rightarrow> unit handler" where
  "DeleteDomain c slug name = as_admin c slug (\<lambda>ws. orElse (Dom_Delete ws name) (onError Dom_ErrNotFound 404 ''not_found'')
     (\<lambda>_. returnE (Reply 204 ())))"

definition RotateDkimKey :: "'s api \<Rightarrow> request_ctx \<Rightarrow> string \<Rightarrow> string \<Rightarrow> (domain_row \<times> dns_record list) handler" where
  "RotateDkimKey H c slug name = as_admin c slug (\<lambda>ws. orElse (RotateDKIM (sv_domains H) ws name) (onError Dom_ErrNotFound 404 ''not_found'')
     (\<lambda>d. bindE (describe H d) (\<lambda>out. returnE (Reply 200 out))))"

end
