(* ===== verification/Routing.thy ===== *)
theory Routing imports Handlers Signin begin

text \<open>
  internal/httpapi/router.go: CORS, the request context, and one credential per path prefix in front of the
  generated router. The generated layer is a parameter \<open>gen\<close> of the model: it picks the
  operation for method and path, decodes the body, and answers 400 itself when it cannot.
\<close>

record http_request =
  hr_method :: string
  hr_path :: string
  hr_auth :: string
  hr_agent :: string
  hr_forwarded :: string
  hr_remote :: string
  hr_host :: "string option"

datatype 'a response = NoContent | Answer "'a answer"

datatype guard = Key_guard | Session_guard | Open_guard

definition session_paths :: "string list" where
  "session_paths = [''/workspaces'', ''/auth/change-initial-password'', ''/auth/me'', ''/auth/logout'', ''/messages/search'']"

definition guard_of :: "string \<Rightarrow> guard" where
  "guard_of p = (if has_prefix p ''/v1/'' then Key_guard
     else if p \<in> set session_paths \<or> has_prefix p ''/workspaces/'' then Session_guard else Open_guard)"

definition base_ctx :: "http_request \<Rightarrow> request_ctx" where
  "base_ctx q = \<lparr>cx_user = None, cx_token = None, cx_workspace = None,
     cx_rc = \<lparr>rc_agent = hr_agent q, rc_ip = clientIP (hr_forwarded q) (hr_remote q) (hr_host q)\<rparr>\<rparr>"

text \<open>
  The address a request is limited by is the first entry of X-Forwarded-For, whatever the proxy appended behind it: a client that
  sends the header itself chooses it.
\<close>

lemma clients_choose_their_ip:
  assumes "CHR '','' \<notin> set claimed"
  shows "rc_ip (cx_rc (base_ctx (q\<lparr>hr_forwarded := claimed @ '','' @ appended\<rparr>))) = trim_space claimed"
proof -
  have "str_cut (claimed @ '','' @ appended) (CHR '','') = Some (claimed, appended)"
    using str_cut_at[OF assms, of appended] by simp
  then show ?thesis by (simp add: base_ctx_def clientIP_def)
qed

text \<open>The error handler of the strict layer: an operation that fails is a 500 that says nothing.\<close>

definition respond :: "('s, 'a) http \<Rightarrow> ('s srv, gerror, 'a response) step" where
  "respond m = handleE m (\<lambda>e. returnE (Answer (problem 500 ''internal''))) (\<lambda>a. returnE (Answer a))"

lemma respond_eq: "respond m s = (case m s of (Inl e, s') \<Rightarrow> (Inr (Answer (problem 500 ''internal'')), s') | (Inr a, s') \<Rightarrow> (Inr (Answer a), s'))"
  by (simp add: respond_def handleE_def returnE_def split: prod.split sum.split)

definition Router :: "'s api \<Rightarrow> (http_request \<Rightarrow> request_ctx \<Rightarrow> ('s, 'a) http) \<Rightarrow> http_request \<Rightarrow> ('s srv, gerror, 'a response) step" where
  "Router H gen q = (if hr_method q = ''OPTIONS'' then returnE NoContent else
     case guard_of (hr_path q) of
       Key_guard \<Rightarrow> bindE (onFst (Api_Middleware (ac_lib (sv_accounts H)) (hr_auth q))) (\<lambda>g. case g of
           ApiRefuse status code \<Rightarrow> returnE (Answer (problem status code))
         | ApiPass ws key \<Rightarrow> respond (gen q ((base_ctx q)\<lparr>cx_workspace := Some ws\<rparr>)))
     | Session_guard \<Rightarrow> bindE (onFst (RequireSession (sv_accounts H) (hr_auth q) (hr_path q))) (\<lambda>g. case g of
           Refuse status code \<Rightarrow> returnE (Answer (problem status code))
         | Pass user token \<Rightarrow> respond (gen q ((base_ctx q)\<lparr>cx_user := Some user, cx_token := Some token\<rparr>)))
     | Open_guard \<Rightarrow> respond (gen q (base_ctx q)))"

text \<open>
  Which credential the paths of api/openapi.yaml need, and what the context of an operation rests on: an unrevoked key of
  the workspace, an open session of the user, or nothing.
\<close>

definition needs_key :: "string \<Rightarrow> bool" where
  "needs_key p \<longleftrightarrow> (\<exists>rest. p = ''/v1/'' @ rest)"

definition needs_session :: "string \<Rightarrow> bool" where
  "needs_session p \<longleftrightarrow> p \<in> {''/workspaces'', ''/auth/me'', ''/auth/logout'', ''/auth/change-initial-password'', ''/messages/search''} \<or>
     (\<exists>rest. p = ''/workspaces/'' @ rest)"

definition key_context :: "'s api \<Rightarrow> db \<Rightarrow> string \<Rightarrow> request_ctx \<Rightarrow> bool" where
  "key_context H t auth c \<longleftrightarrow> cx_user c = None \<and> cx_token c = None \<and> (\<exists>key. bearerToken auth = Some key \<and>
     (\<exists>k\<in>set (api_keys t). ak_hash k = key_Hash (ac_lib (sv_accounts H)) key \<and> ak_revoked k = None \<and> cx_workspace c = Some (ak_ws k)))"

definition session_context :: "'s api \<Rightarrow> db \<Rightarrow> time \<Rightarrow> string \<Rightarrow> string \<Rightarrow> request_ctx \<Rightarrow> bool" where
  "session_context H t now auth p c \<longleftrightarrow> cx_workspace c = None \<and> (\<exists>user\<in>set (users t). cx_user c = Some user \<and>
     (\<exists>token. bearerToken auth = Some token \<and> cx_token c = Some token \<and>
       (\<exists>s\<in>set (sessions t). s_hash s = hashToken (ac_lib (sv_accounts H)) token \<and> s_user s = u_id user \<and> live_session now s)) \<and>
     (u_must_change user \<longrightarrow> p \<in> {''/auth/me'', ''/auth/logout'', ''/auth/change-initial-password''}))"

definition entitled :: "'s api \<Rightarrow> db \<Rightarrow> time \<Rightarrow> http_request \<Rightarrow> request_ctx \<Rightarrow> bool" where
  "entitled H t now q c \<longleftrightarrow> cx_rc c = cx_rc (base_ctx q) \<and>
     (needs_key (hr_path q) \<longrightarrow> key_context H t (hr_auth q) c) \<and>
     (needs_session (hr_path q) \<longrightarrow> session_context H t now (hr_auth q) (hr_path q) c) \<and>
     (\<not> needs_key (hr_path q) \<longrightarrow> \<not> needs_session (hr_path q) \<longrightarrow> cx_user c = None \<and> cx_token c = None \<and> cx_workspace c = None)"

lemma has_prefix_iff: "has_prefix s p \<longleftrightarrow> (\<exists>rest. s = p @ rest)"
  by (metis append_eq_conv_conj has_prefix_def)

lemma needs_iff:
  "needs_key p \<longleftrightarrow> has_prefix p ''/v1/''" "needs_session p \<longleftrightarrow> p \<in> set session_paths \<or> has_prefix p ''/workspaces/''"
  by (simp_all add: needs_key_def needs_session_def session_paths_def has_prefix_iff disj_ac)

lemma guard_needs:
  "guard_of p = Key_guard \<longleftrightarrow> needs_key p" "guard_of p = Session_guard \<longleftrightarrow> needs_session p"
  "guard_of p = Open_guard \<longleftrightarrow> \<not> needs_key p \<and> \<not> needs_session p" "\<not> (needs_key p \<and> needs_session p)"
proof -
  show excl: "\<not> (needs_key p \<and> needs_session p)" by (auto simp: needs_key_def needs_session_def)
  show "guard_of p = Key_guard \<longleftrightarrow> needs_key p" by (simp add: guard_of_def needs_iff)
  show "guard_of p = Open_guard \<longleftrightarrow> \<not> needs_key p \<and> \<not> needs_session p" by (simp add: guard_of_def needs_iff)
  show "guard_of p = Session_guard \<longleftrightarrow> needs_session p"
  proof (cases "needs_key p")
    case True
    then show ?thesis using excl by (simp add: guard_of_def needs_iff(1))
  qed (simp add: guard_of_def needs_iff)
qed

section \<open>The gates\<close>

text \<open>What a request that is turned away leaves alone: rows, mail, tasks and objects.\<close>

definition unaffected :: "world \<Rightarrow> world \<Rightarrow> bool" where
  "unaffected w w' \<longleftrightarrow> tabs w' = tabs w \<and> outbox w' = outbox w \<and> queue w' = queue w \<and> blobs w' = blobs w"

fun turned_away :: "'a response \<Rightarrow> bool" where
  "turned_away NoContent = True"
| "turned_away (Answer (Problem status code, after)) = True"
| "turned_away (Answer (Reply status a, after)) = False"

lemma key_gate:
  "\<exists>out w1. Api_Middleware L auth w = (Inr out, w1) \<and> (case out of ApiRefuse status code \<Rightarrow> unaffected w w1 | ApiPass ws key \<Rightarrow> True)"
proof -
  obtain r w1 where g: "Api_Middleware L auth w = (r, w1)" by fastforce
  then show ?thesis
    by (cases r) (auto simp: Api_Middleware_def step_iffs touch_key_def lookup_key_def unaffected_def spend_def
        split: option.splits if_splits api_gate.splits)
qed

lemma session_gate:
  "\<exists>out w1. RequireSession S auth p w = (Inr out, w1) \<and> (case out of Refuse status code \<Rightarrow> unaffected w w1 | Pass u tok \<Rightarrow> True)"
proof -
  obtain r w1 where g: "RequireSession S auth p w = (r, w1)" by fastforce
  then show ?thesis
    by (cases r) (auto simp: RequireSession_def UserBySessionToken_def step_iffs unaffected_def spend_def
        split: option.splits if_splits gate.splits)
qed

text \<open>What a request comes to, by the answer of its gate; \<open>shown\<close> is the response to an operation.\<close>

definition shown :: "(gerror + 'a answer) \<times> 's srv \<Rightarrow> (gerror + 'a response) \<times> 's srv" where
  "shown out = (case out of (Inl e, s') \<Rightarrow> (Inr (Answer (problem 500 ''internal'')), s') | (Inr a, s') \<Rightarrow> (Inr (Answer a), s'))"

lemma respond_shown: "respond m s = shown (m s)"
  by (simp add: respond_eq shown_def)

lemma Router_key:
  assumes "hr_method q \<noteq> ''OPTIONS''" "guard_of (hr_path q) = Key_guard"
    "Api_Middleware (ac_lib (sv_accounts H)) (hr_auth q) (fst s) = (Inr out, w1)"
  shows "Router H gen q s = (case out of ApiRefuse status code \<Rightarrow> (Inr (Answer (problem status code)), (w1, snd s))
     | ApiPass ws key \<Rightarrow> shown (gen q ((base_ctx q)\<lparr>cx_workspace := Some ws\<rparr>) (w1, snd s)))"
  using assms by (simp add: Router_def bindE_def onFst_def returnE_def respond_shown split: api_gate.split)

lemma Router_session:
  assumes "hr_method q \<noteq> ''OPTIONS''" "guard_of (hr_path q) = Session_guard"
    "RequireSession (sv_accounts H) (hr_auth q) (hr_path q) (fst s) = (Inr out, w1)"
  shows "Router H gen q s = (case out of Refuse status code \<Rightarrow> (Inr (Answer (problem status code)), (w1, snd s))
     | Pass user token \<Rightarrow> shown (gen q ((base_ctx q)\<lparr>cx_user := Some user, cx_token := Some token\<rparr>) (w1, snd s)))"
  using assms by (simp add: Router_def bindE_def onFst_def returnE_def respond_shown split: gate.split)

text \<open>
  No operation runs on the wrong credential: a request is turned away, whatever the operations are, or exactly one runs,
  with a context that a path under /v1/ gets from an unrevoked API key and never from a session, a workspace path
  gets from a live session and never from an API key (and, before a forced password change, on three paths only), and
  any other path gets no credential in; a failing operation shows as a 500.
\<close>

lemma Router_operation:
  fixes H :: "'s api" and q :: http_request and s :: "'s srv" and gen :: "http_request \<Rightarrow> request_ctx \<Rightarrow> ('s, 'a) http"
  shows "(\<exists>out s'. Router H gen q s = (Inr out, s') \<and> turned_away out \<and> unaffected (fst s) (fst s') \<and> snd s' = snd s) \<or>
    (\<exists>c s1. entitled H (tabs (fst s)) (db_now (fst s)) q c \<and> Router H gen q s = shown (gen q c s1) \<and> (guard_of (hr_path q) = Open_guard \<longrightarrow> s1 = s))"
proof (cases "hr_method q = ''OPTIONS''")
  case True
  then show ?thesis by (simp add: Router_def returnE_def unaffected_def)
next
  case False
  note needs = guard_needs(4)[of "hr_path q"]
  show ?thesis
  proof (cases "guard_of (hr_path q)")
    case Key_guard
    obtain out w1 where g: "Api_Middleware (ac_lib (sv_accounts H)) (hr_auth q) (fst s) = (Inr out, w1)"
      and away: "case out of ApiRefuse status code \<Rightarrow> unaffected (fst s) w1 | ApiPass ws key \<Rightarrow> True" using key_gate by blast
    show ?thesis
    proof (cases out)
      case (ApiPass ws key)
      have "entitled H (tabs (fst s)) (db_now (fst s)) q ((base_ctx q)\<lparr>cx_workspace := Some ws\<rparr>)"
        using Api_Middleware_pass[OF g[unfolded ApiPass]] Key_guard needs by (auto simp: entitled_def guard_needs key_context_def base_ctx_def)
      moreover have "Router H gen q s = shown (gen q ((base_ctx q)\<lparr>cx_workspace := Some ws\<rparr>) (w1, snd s))"
        using Router_key[OF False Key_guard g] ApiPass by simp
      ultimately show ?thesis using Key_guard by (metis guard.distinct(3))
    next
      case (ApiRefuse status code)
      have "Router H gen q s = (Inr (Answer (Problem status code, None)), (w1, snd s))"
        using Router_key[OF False Key_guard g] ApiRefuse by (simp add: problem_def)
      moreover have "turned_away (Answer (Problem status code, None) :: 'a response)" "unaffected (fst s) (fst (w1, snd s))"
        using away ApiRefuse by simp_all
      ultimately show ?thesis by (metis snd_conv)
    qed
  next
    case Session_guard
    obtain out w1 where g: "RequireSession (sv_accounts H) (hr_auth q) (hr_path q) (fst s) = (Inr out, w1)"
      and away: "case out of Refuse status code \<Rightarrow> unaffected (fst s) w1 | Pass u tok \<Rightarrow> True" using session_gate by blast
    show ?thesis
    proof (cases out)
      case (Pass user tok)
      have "entitled H (tabs (fst s)) (db_now (fst s)) q ((base_ctx q)\<lparr>cx_user := Some user, cx_token := Some tok\<rparr>)"
        using RequireSession_pass[OF g[unfolded Pass]] Session_guard needs by (auto simp: entitled_def guard_needs session_context_def base_ctx_def)
      moreover have "Router H gen q s = shown (gen q ((base_ctx q)\<lparr>cx_user := Some user, cx_token := Some tok\<rparr>) (w1, snd s))"
        using Router_session[OF False Session_guard g] Pass by simp
      ultimately show ?thesis using Session_guard by (metis guard.distinct(5))
    next
      case (Refuse status code)
      have "Router H gen q s = (Inr (Answer (Problem status code, None)), (w1, snd s))"
        using Router_session[OF False Session_guard g] Refuse by (simp add: problem_def)
      moreover have "turned_away (Answer (Problem status code, None) :: 'a response)" "unaffected (fst s) (fst (w1, snd s))"
        using away Refuse by simp_all
      ultimately show ?thesis by (metis snd_conv)
    qed
  next
    case Open_guard
    then have "entitled H (tabs (fst s)) (db_now (fst s)) q (base_ctx q)"
      by (simp add: entitled_def guard_needs base_ctx_def)
    moreover have "Router H gen q s = shown (gen q (base_ctx q) s)"
      using False Open_guard by (simp add: Router_def respond_shown)
    ultimately show ?thesis by blast
  qed
qed

end
