(* ===== verification/Web.thy ===== *)
theory Web imports Routing begin

text \<open>
  What the operations of the HTTP interface guarantee together with the services below them: who sends as whom, who
  reads sent mail, who changes domains, and how often one account's password can be guessed.
\<close>

section \<open>Inverting the operations\<close>

lemma plain_iff [step_iffs]:
  "plain m s = (Inr (a, ra), s') \<longleftrightarrow> ra = None \<and> (\<exists>w'. m (fst s) = (Inr a, w') \<and> s' = (w', snd s))"
  "plain m s = (Inl e, s') \<longleftrightarrow> (\<exists>w'. m (fst s) = (Inl e, w') \<and> s' = (w', snd s))"
  by (auto simp: plain_def step_iffs)

lemma problem_neq [simp]: "problem st cd \<noteq> (Reply k a, ra)" "(Reply k a, ra) \<noteq> problem st cd" "tooMany res \<noteq> (Reply k a, ra)" "(Reply k a, ra) \<noteq> tooMany res"
  by (simp_all add: problem_def tooMany_def)

lemma limited_Inr:
  assumes "limited H key rules k s = (r, s')" "\<And>res. r \<noteq> Inr (tooMany res)"
  shows "\<exists>x. k (fst s, x) = (r, s')"
  using assms by (cases r) (auto simp: limited_def step_iffs split: if_splits)

lemma orElse_Reply:
  "orElse m f k w = (Inr a, w') \<longleftrightarrow> (\<exists>e p w1. m w = (Inl e, w') \<and> f e = Some p \<and> a = p) \<or> (\<exists>b w1. m w = (Inr b, w1) \<and> k b w1 = (Inr a, w'))"
  by (auto simp: orElse_def step_iffs split: option.splits)

section \<open>Sending as a workspace\<close>

lemma send_answer_Reply:
  "send_answer m w = (Inr (Reply st a), w') \<Longrightarrow> \<exists>e. m w = (Inr e, w') \<and> st = 202 \<and> a = (e_id e, e_status e)"
  by (auto simp: send_answer_def step_iffs split: if_splits)

lemma MailboxesForWorkspace_Inr:
  assumes "MailboxesForWorkspace ws w = (Inr boxes, w')" "m \<in> set boxes"
  shows "\<exists>b\<in>set (mailboxes (tabs w)). \<exists>d\<in>set (domains (tabs w)). d_id d = b_domain b \<and> serves b d = ws \<and> mb_address m = b_local b @ ''@'' @ d_name d"
  using assms by (fastforce simp: MailboxesForWorkspace_def step_iffs mailboxes_where_def mailbox_of_def serves_def)

lemma AllowsAddress_tabs: "AllowsAddress user ws address w = (r, w') \<Longrightarrow> tabs w' = tabs w"
proof -
  have "keeps same_tabs (AllowsAddress user ws address)"
    unfolding AllowsAddress_def owner_of_def personal_of_def AllowsSender_def ByName_def domain_where_def Let_def
    by (intro keeps_bindE keeps_handleE keeps_basic same_tabs_refl same_tabs_trans keeps_tabs_query keeps_if keeps_case_option)
  from keepsD[OF this] show "AllowsAddress user ws address w = (r, w') \<Longrightarrow> tabs w' = tabs w" by (simp add: same_tabs_def)
qed

text \<open>What a browser send rests on, in the terms of the tables at its start.\<close>

definition browser_sender :: "db \<Rightarrow> request_ctx \<Rightarrow> string \<Rightarrow> string \<Rightarrow> string \<Rightarrow> bool" where
  "browser_sender t c slug ws from \<longleftrightarrow> (\<exists>u. cx_user c = Some u \<and> member_of t ws (u_id u)) \<and>
     (\<exists>x\<in>set (workspaces t). w_id x = ws \<and> w_slug x = slug) \<and>
     (\<exists>b\<in>set (mailboxes t). \<exists>d\<in>set (domains t). d_id d = b_domain b \<and> serves b d = ws \<and> equal_fold (b_local b @ ''@'' @ d_name d) from) \<and>
     (\<exists>w w'. tabs w = t \<and> AllowsAddress (signed_user c) ws from w = (Inr (), w'))"

lemma reply_and_send_Reply:
  assumes "reply_and_send H c ws key from b w = (Inr (Reply 202 (i, st)), w')"
  shows "\<exists>e irt refs v. tabs v = tabs w \<and> Send (sv_emails H (signed_user c)) ws (deref key) (request_of from irt refs b) v = (Inr e, w') \<and>
     e_id e = i \<and> e_status e = st \<and> (case bd_reply_to b of None \<Rightarrow> irt = [] \<and> refs = []
      | Some j \<Rightarrow> \<exists>g\<in>set (messages (tabs w)). g_id g = j \<and> may_read (tabs w) (caller (cx_user c)) ws g)"
proof (cases "bd_reply_to b")
  case None
  with assms obtain e where "Send (sv_emails H (signed_user c)) ws (deref key) (request_of from [] [] b) w = (Inr e, w')" "i = e_id e" "st = e_status e"
    by (auto simp: reply_and_send_def dest!: send_answer_Reply)
  then show ?thesis using None by (intro exI[of _ e] exI[of _ "[]"] exI[of _ w]) simp
next
  case (Some j)
  with assms obtain g w1 reply w2 where g: "readableMessage (cx_user c) ws j w = (Inr g, w1)"
    and p: "Inb_Presentation (sv_mime H) (sv_scan H) (g_box g) (g_id g) w1 = (Inr reply, w2)"
    and sa: "send_answer (Send (sv_emails H (signed_user c)) ws (deref key)
       (request_of from (pr_in_reply_to reply) (pr_references reply) b)) w2 = (Inr (Reply 202 (i, st)), w')"
    by (auto simp: reply_and_send_def step_iffs)
  obtain v where v: "cx_user c = Some v" "g \<in> set (messages (tabs w))" "g_id g = j" "may_read (tabs w) (u_id v) ws g" "tabs w1 = tabs w"
    using readableMessage_Inr[OF g] by metis
  have t: "tabs w2 = tabs w" using p v(5) by (auto simp: Inb_Presentation_def raw_of_def step_iffs)
  from send_answer_Reply[OF sa] obtain e where e: "Send (sv_emails H (signed_user c)) ws (deref key)
      (request_of from (pr_in_reply_to reply) (pr_references reply) b) w2 = (Inr e, w')" "i = e_id e" "st = e_status e" by auto
  have "\<exists>g\<in>set (messages (tabs w)). g_id g = j \<and> may_read (tabs w) (caller (cx_user c)) ws g"
    using v by (auto simp: caller_def)
  with e t Some show ?thesis
    by (intro exI[of _ e] exI[of _ "pr_in_reply_to reply"] exI[of _ "pr_references reply"] exI[of _ w2]) simp
qed

lemma SendWorkspaceEmail_Reply:
  assumes "SendWorkspaceEmail H c slug key body s = (Inr (Reply 202 (i, st), ra), s')"
  shows "\<exists>ws b e irt refs v. body = Some b \<and> browser_sender (tabs (fst s)) c slug ws (to_lower (trim_space (bd_from b))) \<and> tabs v = tabs (fst s) \<and>
     Send (sv_emails H (signed_user c)) ws (deref key) (request_of (to_lower (trim_space (bd_from b))) irt refs b) v = (Inr e, fst s') \<and>
     e_id e = i \<and> e_status e = st \<and>
     (case bd_reply_to b of None \<Rightarrow> irt = [] \<and> refs = []
      | Some j \<Rightarrow> \<exists>g\<in>set (messages (tabs (fst s))). g_id g = j \<and> may_read (tabs (fst s)) (caller (cx_user c)) ws g)"
proof (cases body)
  case None
  then show ?thesis using assms by (auto simp: SendWorkspaceEmail_def step_iffs split: if_splits)
next
  case (Some b)
  let ?from = "to_lower (trim_space (bd_from b))"
  obtain ws forbidden w1 boxes w2 w3 where sc: "scope (cx_user c) slug RoleMember (fst s) = (Inr (ws, forbidden), w1)"
    and boxes: "MailboxesForWorkspace ws w1 = (Inr boxes, w2)"
    and own: "\<exists>box\<in>set boxes. equal_fold (mb_address box) ?from"
    and allow: "AllowsAddress (signed_user c) ws ?from w2 = (Inr (), w3)"
    and rest: "limited H ws (sendQuota (sv_getenv H)) (plain (reply_and_send H c ws key ?from b)) (w3, snd s) = (Inr (Reply 202 (i, st), ra), s')"
    using assms Some by (auto simp: SendWorkspaceEmail_def step_iffs Let_def split: if_splits; blast 5)
  obtain u x where u: "cx_user c = Some u" "x \<in> set (workspaces (tabs (fst s)))" "w_id x = ws" "w_slug x = slug" "member_of (tabs (fst s)) ws (u_id u)" "tabs w1 = tabs (fst s)"
    using scope_Inr[OF sc] by metis
  have t2: "tabs w2 = tabs (fst s)" using boxes u(6) by (auto simp: MailboxesForWorkspace_def step_iffs)
  have t3: "tabs w3 = tabs (fst s)" using AllowsAddress_tabs[OF allow] t2 by simp
  obtain m where "m \<in> set boxes" "equal_fold (mb_address m) ?from" using own by blast
  with MailboxesForWorkspace_Inr[OF boxes] u(6) have
    "\<exists>b\<in>set (mailboxes (tabs (fst s))). \<exists>d\<in>set (domains (tabs (fst s))). d_id d = b_domain b \<and> serves b d = ws \<and> equal_fold (b_local b @ ''@'' @ d_name d) ?from"
    by metis
  with u allow t2 have sender: "browser_sender (tabs (fst s)) c slug ws ?from"
    unfolding browser_sender_def by blast
  obtain w4 where "reply_and_send H c ws key ?from b w3 = (Inr (Reply 202 (i, st)), w4)" "fst s' = w4"
    using limited_Inr[OF rest] by (auto simp: step_iffs)
  with reply_and_send_Reply[OF this(1)] show ?thesis using Some sender unfolding t3 by blast
qed



section \<open>Reading sent mail\<close>

definition readable_mail :: "db \<Rightarrow> request_ctx \<Rightarrow> string \<Rightarrow> email_row \<times> attachment_row list \<Rightarrow> bool" where
  "readable_mail t c i r \<longleftrightarrow> (case r of (e, files) \<Rightarrow> e \<in> set (emails t) \<and> e_id e = i \<and> \<not> hidden_from t (caller (cx_user c)) e \<and>
     files = filter (\<lambda>a. a_email a = Some i) (attachments t))"

lemma email_detail_Reply:
  assumes "email_detail c ws i w = (Inr (Reply st r), w')" "uniq_on (\<lambda>_. True) e_id (emails (tabs w))"
  shows "readable_mail (tabs w) c i r \<and> e_ws (fst r) = ws"
proof -
  obtain e w1 w2 files where m: "ByID ws i w = (Inr e, w1)" and a: "CanReadOutbound (caller (cx_user c)) (e_id e) w1 = (Inr True, w2)"
    and f: "AttachmentsByEmailID (e_id e) w2 = (Inr files, w')" and r: "r = (e, files)"
    using assms(1) by (auto simp: email_detail_def orElse_Reply onError_def step_iffs split: if_splits)
  have e: "e \<in> set (emails (tabs w)) \<and> e_id e = i \<and> e_ws e = ws" "w1 = spend w"
    using m by (auto simp: ByID_def email_where_def step_iffs split: option.splits dest!: find_SomeD)
  obtain x where x: "List.find (\<lambda>x. e_id x = e_id e) (emails (tabs w)) = Some x" "\<not> hidden_from (tabs w) (caller (cx_user c)) x" "tabs w2 = tabs w"
    using a e(2) by (auto simp: CanReadOutbound_def step_iffs split: option.splits)
  have "x = e" using find_SomeD[OF x(1)] e(1) uniq_onD[OF assms(2), of x e] by auto
  with e x f r show ?thesis by (auto simp: readable_mail_def AttachmentsByEmailID_def step_iffs)
qed

text \<open>C26: Sent mail is shown to those it may be shown to: GetEmail answers with a message of the key's workspace that no
  private mailbox sent, GetWorkspaceEmail with one of the path's workspace, to a member, that is not another person's
  private mail or retained for another person, each with its own attachments, and the search lists only messages of workspaces the caller belongs to.\<close>

theorem outbound_private:
  assumes "uniq_on (\<lambda>_. True) e_id (emails (tabs (fst s)))"
  shows "(GetEmail c i s = (Inr (Reply st r, ra), s') \<longrightarrow> readable_mail (tabs (fst s)) c i r \<and> cx_workspace c = Some (e_ws (fst r))) \<and>
   (GetWorkspaceEmail c slug i s = (Inr (Reply st r, ra), s') \<longrightarrow> readable_mail (tabs (fst s)) c i r \<and>
      (\<exists>u x. cx_user c = Some u \<and> x \<in> set (workspaces (tabs (fst s))) \<and> w_id x = e_ws (fst r) \<and> w_slug x = slug \<and>
         member_of (tabs (fst s)) (e_ws (fst r)) (u_id u))) \<and>
   (SearchMessages c q lim s = (Inr (Reply st es, ra), s') \<longrightarrow> length es \<le> 100 \<and>
      (\<exists>u. cx_user c = Some u \<and> (\<forall>e\<in>set es. e \<in> set (emails (tabs (fst s))) \<and> visible_to (tabs (fst s)) (u_id u) e)))"
proof (intro conjI impI)
  assume "GetEmail c i s = (Inr (Reply st r, ra), s')"
  then obtain ws w' where "cx_workspace c = Some ws" "email_detail c ws i (fst s) = (Inr (Reply st r), w')"
    by (auto simp: GetEmail_def step_iffs split: option.splits)
  with email_detail_Reply[OF this(2) assms] show "readable_mail (tabs (fst s)) c i r" "cx_workspace c = Some (e_ws (fst r))" by auto
next
  assume "GetWorkspaceEmail c slug i s = (Inr (Reply st r, ra), s')"
  then obtain ws f w1 w' where sc: "scope (cx_user c) slug RoleMember (fst s) = (Inr (ws, f), w1)" and d: "email_detail c ws i w1 = (Inr (Reply st r), w')"
    by (auto simp: GetWorkspaceEmail_def step_iffs orElse_Reply onError_def split: if_splits)
  obtain u x where u: "cx_user c = Some u" "x \<in> set (workspaces (tabs (fst s)))" "w_id x = ws" "w_slug x = slug" "member_of (tabs (fst s)) ws (u_id u)" "tabs w1 = tabs (fst s)"
    using scope_Inr[OF sc] by metis
  from email_detail_Reply[OF d] assms u show "readable_mail (tabs (fst s)) c i r"
    "\<exists>u x. cx_user c = Some u \<and> x \<in> set (workspaces (tabs (fst s))) \<and> w_id x = e_ws (fst r) \<and> w_slug x = slug \<and> member_of (tabs (fst s)) (e_ws (fst r)) (u_id u)"
    by auto
next
  assume "SearchMessages c q lim s = (Inr (Reply st es, ra), s')"
  then obtain u where u: "cx_user c = Some u" by (cases "cx_user c") (auto simp: SearchMessages_def step_iffs)
  with \<open>SearchMessages c q lim s = (Inr (Reply st es, ra), s')\<close>
  have "(case lim of None \<Rightarrow> 50 | Some n \<Rightarrow> n) \<le> 100 \<and> (\<exists>w'. SearchForUser (u_id u) (trim_space q) (nat (case lim of None \<Rightarrow> 50 | Some n \<Rightarrow> n)) (fst s) = (Inr es, w'))"
    by (cases lim) (auto simp: SearchMessages_def Let_def step_iffs split: if_splits)
  with u show "length es \<le> 100" "\<exists>u. cx_user c = Some u \<and> (\<forall>e\<in>set es. e \<in> set (emails (tabs (fst s))) \<and> visible_to (tabs (fst s)) (u_id u) e)"
    by (auto simp: SearchForUser_def step_iffs dest!: in_set_takeD)
qed

section \<open>Domains\<close>

text \<open>A refused or failed scope leaves the tables; what runs behind \<open>as_admin\<close> runs for an admin of the workspace.\<close>

lemma as_admin_cases:
  assumes "as_admin c slug k w = (r, w')"
  obtains (refused) "tabs w' = tabs w" "\<And>st a. r \<noteq> Inr (Reply st a)"
  | (runs) u x w1 where "cx_user c = Some u" "x \<in> set (workspaces (tabs w))" "w_slug x = slug" "has_role (tabs w) (w_id x) (u_id u) RoleAdmin"
      "tabs w1 = tabs w" "k (w_id x) w1 = (r, w')"
proof -
  obtain q w1 where sc: "scope (cx_user c) slug RoleAdmin w = (q, w1)" by fastforce
  show thesis
  proof (cases "\<exists>i. q = Inr (i, False)")
    case True
    then obtain i where q: "q = Inr (i, False)" by blast
    obtain u x where u: "cx_user c = Some u" "x \<in> set (workspaces (tabs w))" "w_id x = i" "w_slug x = slug" "has_role (tabs w) i (u_id u) RoleAdmin" "tabs w1 = tabs w"
      using scope_Inr[OF sc[unfolded q]] by metis
    have "k i w1 = (r, w')" using assms sc q by (simp add: as_admin_def orElse_def handleE_def)
    then show thesis using runs[OF u(1,2,4)] u(3,5,6) by simp
  next
    case False
    then have "w' = w1 \<and> (\<forall>st a. r \<noteq> Inr (Reply st a))"
      using assms sc by (cases q) (auto simp: as_admin_def orElse_def handleE_def onError_def throwE_def returnE_def split: if_splits)
    then show thesis using refused scope_tabs[OF sc] by auto
  qed
qed

definition admin_of :: "db \<Rightarrow> request_ctx \<Rightarrow> string \<Rightarrow> string \<Rightarrow> bool" where
  "admin_of t c slug ws \<longleftrightarrow> (\<exists>u. cx_user c = Some u \<and> has_role t ws (u_id u) RoleAdmin) \<and>
     (\<exists>x\<in>set (workspaces t). w_id x = ws \<and> w_slug x = slug)"


lemma describe_tabs: "describe H d w = (r, w') \<Longrightarrow> tabs w' = tabs w"
proof -
  have "keeps same_tabs (describe H d)"
    unfolding describe_def Records_def DKIMKeys_def
    by (intro keeps_bindE keeps_handleE keeps_basic same_tabs_refl same_tabs_trans keeps_tabs_query)
  from keepsD[OF this] show "describe H d w = (r, w') \<Longrightarrow> tabs w' = tabs w" by (simp add: same_tabs_def)
qed

text \<open>An operation of the domain service on a domain of the workspace.\<close>

definition domain_op :: "domain_service \<Rightarrow> string \<Rightarrow> world \<Rightarrow> world \<Rightarrow> bool" where
  "domain_op D ws w w' \<longleftrightarrow> (\<exists>name. (\<exists>r. Add D ws name w = (r, w')) \<or> (\<exists>r. Verify D ws name w = (r, w')) \<or>
     (\<exists>r. Dom_SetPrimary ws name w = (r, w')) \<or> (\<exists>r. Dom_Delete ws name w = (r, w')) \<or> (\<exists>r. RotateDKIM D ws name w = (r, w')))"

text \<open>The shape the five handlers share: an operation of the service, an answer, and queries.\<close>

lemma orElse_tabs:
  assumes "orElse m f k w = (r, w')" "\<And>a w1. k a w1 = (r, w') \<Longrightarrow> tabs w' = tabs w1"
  shows "\<exists>q w1. m w = (q, w1) \<and> tabs w' = tabs w1"
proof -
  obtain q w1 where m: "m w = (q, w1)" by fastforce
  have "tabs w' = tabs w1"
  proof (cases q)
    case (Inl e)
    then show ?thesis using assms(1) m by (auto simp: orElse_def handleE_def returnE_def throwE_def split: option.splits)
  next
    case (Inr a)
    then show ?thesis using assms m by (simp add: orElse_def handleE_def)
  qed
  then show ?thesis using m by blast
qed

lemma domain_opI:
  "Add D ws name w = (r1, w') \<Longrightarrow> domain_op D ws w w'" "Verify D ws name w = (r2, w') \<Longrightarrow> domain_op D ws w w'"
  "Dom_SetPrimary ws name w = (r3, w') \<Longrightarrow> domain_op D ws w w'" "Dom_Delete ws name w = (r4, w') \<Longrightarrow> domain_op D ws w w'"
  "RotateDKIM D ws name w = (r5, w') \<Longrightarrow> domain_op D ws w w'"
  unfolding domain_op_def by blast+

lemma describe_return: "bindE (describe H d) (\<lambda>out. returnE (Reply st out)) w = (r, w') \<Longrightarrow> tabs w' = tabs w"
  by (cases r) (auto simp: step_iffs dest!: describe_tabs)

text \<open>Domains are changed by admins only: whatever the domain endpoints answer, the tables are untouched, or the caller
  is an admin or the owner of the workspace of the path and the change is that of one operation of the
  domain service on that workspace.\<close>

theorem domains_need_admin:
  assumes "(\<exists>r. AddDomain H c slug b1 w = (r, w')) \<or> (\<exists>r. VerifyDomain H c slug name w = (r, w')) \<or> (\<exists>r. UpdateDomain H c slug name b2 w = (r, w')) \<or>
    (\<exists>r. DeleteDomain c slug name w = (r, w')) \<or> (\<exists>r. RotateDkimKey H c slug name w = (r, w'))"
  shows "tabs w' = tabs w \<or> (\<exists>ws w1 w2. admin_of (tabs w) c slug ws \<and> tabs w1 = tabs w \<and> domain_op (sv_domains H) ws w1 w2 \<and> tabs w' = tabs w2)"
proof -
  have one: "tabs w' = tabs w \<or> (\<exists>ws w1 w2. admin_of (tabs w) c slug ws \<and> tabs w1 = tabs w \<and> domain_op (sv_domains H) ws w1 w2 \<and> tabs w' = tabs w2)"
    if run: "as_admin c slug k w = (r, w')"
      and k: "\<And>ws w1. k ws w1 = (r, w') \<Longrightarrow> tabs w' = tabs w1 \<or> (\<exists>w2. domain_op (sv_domains H) ws w1 w2 \<and> tabs w' = tabs w2)"
    for k and r :: "gerror + 'b reply"
    using run
  proof (cases rule: as_admin_cases)
    case (runs u x w1)
    then have "admin_of (tabs w) c slug (w_id x)" by (auto simp: admin_of_def)
    with k[OF runs(6)] runs(5) show ?thesis by metis
  qed simp
  from assms show ?thesis
  proof (elim disjE exE)
    fix r assume "AddDomain H c slug b1 w = (r, w')"
    then show ?thesis unfolding AddDomain_def
      by (rule one) (fastforce dest!: orElse_tabs intro: domain_opI describe_return simp: returnE_def split: option.splits if_splits)
  next
    fix r assume "VerifyDomain H c slug name w = (r, w')"
    then show ?thesis unfolding VerifyDomain_def
      by (rule one) (fastforce dest!: orElse_tabs intro: domain_opI describe_return simp: returnE_def split: option.splits if_splits)
  next
    fix r assume "UpdateDomain H c slug name b2 w = (r, w')"
    then show ?thesis unfolding UpdateDomain_def
      by (rule one) (fastforce dest!: orElse_tabs intro: domain_opI describe_return simp: returnE_def split: option.splits if_splits)
  next
    fix r assume "DeleteDomain c slug name w = (r, w')"
    then show ?thesis unfolding DeleteDomain_def
      by (rule one) (fastforce dest!: orElse_tabs intro: domain_opI describe_return simp: returnE_def split: option.splits if_splits)
  next
    fix r assume "RotateDkimKey H c slug name w = (r, w')"
    then show ?thesis unfolding RotateDkimKey_def
      by (rule one) (fastforce dest!: orElse_tabs intro: domain_opI describe_return simp: returnE_def split: option.splits if_splits)
  qed
qed

end
