(* ===== verification/Mux.thy ===== *)
theory Mux imports GoStrings begin

text \<open>
  The routes of internal/httpapi/gen.go and the \<open>http.ServeMux\<close> they are registered with: patterns with
  a method and single-segment wildcards, the choice of a route by method and escaped path, cleaning of the path,
  and the path values of a match.
\<close>

section \<open>Escaped paths\<close>

definition unhex :: "char \<Rightarrow> nat option" where
  "unhex c = (let n = byte c in if 48 \<le> n \<and> n \<le> 57 then Some (n - 48) else if 97 \<le> n \<and> n \<le> 102 then Some (n - 87)
     else if 65 \<le> n \<and> n \<le> 70 then Some (n - 55) else None)"

text \<open>\<open>url.PathUnescape\<close>: None where it returns an error.\<close>

fun unescape :: "string \<Rightarrow> string option" where
  "unescape [] = Some []"
| "unescape (c # s) = (if c \<noteq> CHR ''%'' then map_option ((#) c) (unescape s) else
     case s of a # b # s' \<Rightarrow> (case (unhex a, unhex b) of
         (Some x, Some y) \<Rightarrow> map_option ((#) (char_of (16 * x + y))) (unescape s')
       | _ \<Rightarrow> None)
     | _ \<Rightarrow> None)"

text \<open>The pieces between slashes.\<close>

fun pieces :: "string \<Rightarrow> string list" where
  "pieces [] = [[]]"
| "pieces (c # s) = (if c = CHR ''/'' then [] # pieces s else (case pieces s of p # ps \<Rightarrow> (c # p) # ps | [] \<Rightarrow> [[c]]))"

text \<open>\<open>cleanPath\<close>: a rooted path without empty, dot and dot-dot elements, and its trailing slash.\<close>

fun descend :: "string list \<Rightarrow> string list \<Rightarrow> string list" where
  "descend up [] = rev up"
| "descend up (p # ps) = (if p = [] \<or> p = ''.'' then descend up ps else if p = ''..'' then descend (tl up) ps else descend (p # up) ps)"

definition joined :: "string list \<Rightarrow> string" where
  "joined ps = concat (map (\<lambda>p. CHR ''/'' # p) ps)"

definition cleanPath :: "string \<Rightarrow> string" where
  "cleanPath p = (if p = [] then ''/'' else
     let q = (if hd p = CHR ''/'' then p else CHR ''/'' # p); np = joined (descend [] (pieces q)) in
     if np = [] then ''/'' else if last q = CHR ''/'' then np @ ''/'' else np)"

section \<open>Patterns\<close>

datatype element = Lit string | Wild string

definition element_of :: "string \<Rightarrow> element" where
  "element_of p = (if 2 \<le> length p \<and> hd p = CHR ''{'' \<and> last p = CHR ''}'' then Wild (butlast (tl p)) else Lit p)"

definition pattern :: "string \<Rightarrow> element list" where
  "pattern s = map element_of (tl (pieces s))"

text \<open>
  The segments of a rooted path, each unescaped when it can be; after a trailing slash the last segment is a slash, which no
  single wildcard matches.
\<close>

definition segment :: "string \<Rightarrow> string" where
  "segment p = (case unescape p of None \<Rightarrow> p | Some s \<Rightarrow> s)"

definition segments :: "string \<Rightarrow> string list" where
  "segments p = (let ps = tl (pieces p) in if ps \<noteq> [] \<and> last ps = [] then map segment (butlast ps) @ [''/''] else map segment ps)"

text \<open>The values of the wildcards, when the segments match.\<close>

fun matches :: "element list \<Rightarrow> string list \<Rightarrow> (string \<times> string) list option" where
  "matches [] [] = Some []"
| "matches (Lit l # es) (s # ss) = (if s = l then matches es ss else None)"
| "matches (Wild n # es) (s # ss) = (if s = ''/'' then None else map_option ((#) (n, s)) (matches es ss))"
| "matches _ _ = None"

section \<open>The mux\<close>

datatype 'o routed = BadRequest | Redirect string | Serve 'o "(string \<times> string) list" | NotAllowed | NotFound

type_synonym 'o route = "string \<times> string \<times> 'o"

text \<open>
  The most specific pattern wins; the patterns of one method never both match a path, so it is the first that does.
  GET patterns serve HEAD.
\<close>

definition route_for :: "'o route list \<Rightarrow> string \<Rightarrow> string list \<Rightarrow> ('o \<times> (string \<times> string) list) option" where
  "route_for rs m ss = (case List.find (\<lambda>(k, p, x). k = m \<and> matches (pattern p) ss \<noteq> None) rs of
     None \<Rightarrow> None | Some (k, p, x) \<Rightarrow> map_option (Pair x) (matches (pattern p) ss))"

definition ServeMux :: "'o route list \<Rightarrow> string \<Rightarrow> string \<Rightarrow> 'o routed" where
  "ServeMux rs m p = (if p = ''*'' then BadRequest else
     let q = (if m = ''CONNECT'' then p else cleanPath p); ss = segments q in
     if q \<noteq> p then Redirect q else
     case route_for rs m ss of Some (x, vs) \<Rightarrow> Serve x vs | None \<Rightarrow>
     case (if m = ''HEAD'' then route_for rs ''GET'' ss else None) of Some (x, vs) \<Rightarrow> Serve x vs | None \<Rightarrow>
     if \<exists>(k, p, x)\<in>set rs. matches (pattern p) ss \<noteq> None then NotAllowed else NotFound)"

text \<open>\<open>r.PathValue\<close>.\<close>

definition PathValue :: "(string \<times> string) list \<Rightarrow> string \<Rightarrow> string" where
  "PathValue vs n = (case map_of vs n of None \<Rightarrow> [] | Some v \<Rightarrow> v)"

section \<open>What a match says of the path\<close>

lemma unescape_slash:
  "unescape (a @ CHR ''/'' # b) = (case unescape a of None \<Rightarrow> None | Some x \<Rightarrow> map_option (\<lambda>y. x @ CHR ''/'' # y) (unescape b))"
proof (induction a rule: unescape.induct)
  case (2 c s)
  show ?case
  proof (cases "c = CHR ''%''")
    case True
    have slash: "unhex (CHR ''/'') = None" by (simp add: unhex_def byte_def)
    consider "s = []" | h where "s = [h]" | h k s' where "s = h # k # s'" by (metis list.exhaust)
    then show ?thesis
    proof cases
      case 1
      then show ?thesis using True slash by (cases b) simp_all
    next
      case 2
      then show ?thesis using True slash by (simp split: option.split)
    next
      case 3
      show ?thesis
      proof (cases "unhex h = None \<or> unhex k = None")
        case False
        then obtain x y where "unhex h = Some x" "unhex k = Some y" by auto
        then show ?thesis using True 3 2(2) by (auto simp: option.map_comp o_def split: option.split)
      qed (use True 3 in \<open>auto split: option.split\<close>)
    qed
  next
    case False
    then show ?thesis using 2(1) by (auto simp: option.map_comp o_def split: option.split)
  qed
qed (simp add: option.map_ident)

lemma pieces_Cons: "\<exists>q qs. pieces s = q # qs"
  by (induction s) (auto split: list.splits)

lemma pieces_joined: "joined (pieces s) = CHR ''/'' # s"
  using pieces_Cons by (induction s) (fastforce simp: joined_def split: list.splits)+

lemma unescape_joined:
  assumes "unescape (joined ps) = Some s"
  shows "s = joined (map segment ps)"
  using assms
proof (induction ps arbitrary: s)
  case (Cons p ps)
  show ?case
  proof (cases ps)
    case Nil
    then show ?thesis using Cons(2) unescape_slash[of "[]" p] by (auto simp: joined_def segment_def)
  next
    case (Cons q qs)
    then have "joined (p # ps) = CHR ''/'' # p @ CHR ''/'' # tl (joined ps)" by (simp add: joined_def)
    then have "\<exists>x y. unescape p = Some x \<and> unescape (tl (joined ps)) = Some y \<and> s = CHR ''/'' # x @ CHR ''/'' # y"
      using Cons.prems unescape_slash[of p "tl (joined ps)"] by (auto split: option.splits)
    then obtain x y where xy: "unescape p = Some x" "unescape (tl (joined ps)) = Some y" "s = CHR ''/'' # x @ CHR ''/'' # y" by blast
    have "unescape (joined ps) = Some (CHR ''/'' # y)" using xy(2) Cons by (simp add: joined_def)
    from Cons.IH[OF this] xy show ?thesis by (simp add: joined_def segment_def)
  qed
qed (simp add: joined_def)

text \<open>A path that a route without a slash for a segment matches is its segments, each after a slash.\<close>

lemma path_of_segments:
  assumes "hd p = CHR ''/''" "p \<noteq> []" "unescape p = Some s" "''/'' \<notin> set (segments p)"
  shows "s = joined (segments p)"
proof -
  obtain r where r: "p = CHR ''/'' # r" using assms(1,2) by (cases p) auto
  then have "p = joined (pieces r)" "tl (pieces p) = pieces r" using pieces_joined by simp_all
  moreover have "segments p = map segment (pieces r)"
    using assms(4) calculation(2) by (auto simp: segments_def Let_def split: if_splits)
  ultimately show ?thesis using unescape_joined[of "pieces r" s] assms(3) by simp
qed

lemma matches_no_slash: "matches es ss = Some vs \<Longrightarrow> Lit ''/'' \<notin> set es \<Longrightarrow> ''/'' \<notin> set ss"
  by (induction es ss arbitrary: vs rule: matches.induct) (auto split: if_splits)

lemma cleanPath_rooted: "cleanPath p = p \<Longrightarrow> p \<noteq> [] \<and> hd p = CHR ''/''"
proof -
  assume a: "cleanPath p = p"
  have j: "joined ps = [] \<or> hd (joined ps) = CHR ''/''" for ps by (cases ps) (simp_all add: joined_def)
  have "cleanPath p \<noteq> [] \<and> hd (cleanPath p) = CHR ''/''"
  proof (cases "p = []")
    case False
    define np where "np = joined (descend [] (pieces (if hd p = CHR ''/'' then p else CHR ''/'' # p)))"
    have "np = [] \<or> hd np = CHR ''/''" using j np_def by blast
    moreover have "\<exists>z. cleanPath p = (if np = [] then ''/'' else np @ z)"
      using False by (auto simp: cleanPath_def Let_def np_def)
    ultimately show ?thesis by (cases "np = []") (auto simp: hd_append)
  qed (simp add: cleanPath_def)
  with a show ?thesis by simp
qed

lemma route_for_Some:
  "route_for rs m ss = Some (x, vs) \<Longrightarrow> \<exists>p. (m, p, x) \<in> set rs \<and> matches (pattern p) ss = Some vs"
  by (auto simp: route_for_def split: option.splits dest!: find_SomeD)

lemma ServeMux_found:
  assumes "ServeMux rs m p = Serve x vs"
  shows "(m \<noteq> ''CONNECT'' \<longrightarrow> cleanPath p = p) \<and>
    (route_for rs m (segments p) = Some (x, vs) \<or> m = ''HEAD'' \<and> route_for rs ''GET'' (segments p) = Some (x, vs))"
proof -
  define q where "q = (if m = ''CONNECT'' then p else cleanPath p)"
  define other where "other = (if m = ''HEAD'' then route_for rs ''GET'' (segments q) else None)"
  have eq: "ServeMux rs m p = (if p = ''*'' then BadRequest else if q \<noteq> p then Redirect q else
     case route_for rs m (segments q) of Some (x, vs) \<Rightarrow> Serve x vs | None \<Rightarrow> case other of Some (x, vs) \<Rightarrow> Serve x vs | None \<Rightarrow>
     if \<exists>(k, p, x)\<in>set rs. matches (pattern p) (segments q) \<noteq> None then NotAllowed else NotFound)"
    by (simp only: ServeMux_def Let_def q_def other_def)
  have q: "q = p"
  proof (rule ccontr)
    assume "q \<noteq> p"
    with assms show False unfolding eq by (simp split: if_split_asm)
  qed
  have "route_for rs m (segments q) = Some (x, vs) \<or> other = Some (x, vs)"
    using assms q unfolding eq by (simp split: option.split_asm prod.split_asm if_split_asm)
  with q show ?thesis by (auto simp: q_def other_def split: if_split_asm)
qed

text \<open>What is served was asked for by method, and the segments of the path match the pattern of its route.\<close>

lemma ServeMux_Serve:
  assumes "ServeMux rs m p = Serve x vs" "unescape p = Some s" "m = ''CONNECT'' \<longrightarrow> (\<forall>(k, q, y)\<in>set rs. k \<noteq> ''CONNECT'')"
    "\<forall>(k, q, y)\<in>set rs. Lit ''/'' \<notin> set (pattern q)"
  shows "\<exists>k q. (k, q, x) \<in> set rs \<and> (k = m \<or> k = ''GET'' \<and> m = ''HEAD'') \<and> s = joined (segments p) \<and> matches (pattern q) (segments p) = Some vs"
proof -
  have "\<exists>k. (k = m \<or> k = ''GET'' \<and> m = ''HEAD'') \<and> route_for rs k (segments p) = Some (x, vs) \<and> (m \<noteq> ''CONNECT'' \<longrightarrow> cleanPath p = p)"
    using ServeMux_found[OF assms(1)] by blast
  then obtain k where k: "k = m \<or> k = ''GET'' \<and> m = ''HEAD''" "route_for rs k (segments p) = Some (x, vs)"
    "m \<noteq> ''CONNECT'' \<longrightarrow> cleanPath p = p" by (elim exE conjE)
  obtain q where q: "(k, q, x) \<in> set rs" "matches (pattern q) (segments p) = Some vs" using route_for_Some[OF k(2)] by blast
  note kq = k(1) q k(3)
  have "m \<noteq> ''CONNECT''" using assms(3) kq(1,2) by auto
  then have "p \<noteq> [] \<and> hd p = CHR ''/''" using kq(4) cleanPath_rooted by blast
  moreover have "''/'' \<notin> set (segments p)" using matches_no_slash[OF kq(3)] assms(4) kq(2) by blast
  ultimately have "s = joined (segments p)" using path_of_segments assms(2) by blast
  with kq(1-3) show ?thesis by auto
qed

end
