(* ===== verification/Operations.thy ===== *)
theory Operations imports Routing Web Mux begin

text \<open>
  The generated layer of internal/httpapi/gen.go between the mux and the operations: the wrapper of each
  operation binds its path, header and query parameters, the strict handler decodes its body and calls it. The decoders of
  encoding/json and mime/multipart on the generated types, and the binding of a parameter to its type, are parameters (\<open>codec\<close>).
\<close>

section \<open>Requests, answers, decoders\<close>

record incoming =
  in_http :: http_request
  in_escaped :: string
  in_query :: string
  in_idempotency :: "string list option"
  in_ctype :: string
  in_body :: string

text \<open>What the answers of all operations hold; \<open>P_text\<close> and \<open>P_location\<close> are the answers of the mux itself.\<close>

datatype payload = P_creds credentials | P_user user_row | P_unit unit | P_health bool | P_emails "email_row list"
  | P_email "email_row \<times> attachment_row list" | P_sent "string \<times> status" | P_attachment attachment_row
  | P_workspace workspace_row | P_workspaces "(workspace_row \<times> role) list" | P_members "(user_row \<times> role) list"
  | P_keys "key_view list" | P_key "key_view \<times> string"
  | P_domains "(domain_row \<times> dns_record list) list" | P_domain "domain_row \<times> dns_record list"
  | P_mailboxes "(mailbox \<times> bool \<times> bool) list" | P_mailbox mailbox | P_messages "message_row list" | P_message message_row
  | P_presented "message_row \<times> presentation" | P_file "string \<times> string" | P_text string | P_location string

record codec =
  cd_text :: "string \<Rightarrow> string option"
  cd_uuid :: "string \<Rightarrow> string option"
  cd_header :: "string \<Rightarrow> string option"
  cd_required :: "string \<Rightarrow> string \<Rightarrow> string option"
  cd_optional :: "string \<Rightarrow> string \<Rightarrow> string option option"
  cd_int :: "string \<Rightarrow> string \<Rightarrow> int option option"
  js_register :: "string \<Rightarrow> (string \<times> string \<times> string option \<times> string option) option"
  js_login :: "string \<Rightarrow> (string \<times> string) option"
  js_verify :: "string \<Rightarrow> (string \<times> string) option"
  js_resend :: "string \<Rightarrow> string option"
  js_forgot :: "string \<Rightarrow> string option"
  js_reset :: "string \<Rightarrow> (string \<times> string) option"
  js_change :: "string \<Rightarrow> (string \<times> string) option"
  js_send :: "string \<Rightarrow> send_body option"
  js_workspace :: "string \<Rightarrow> (string \<times> string) option"
  js_key :: "string \<Rightarrow> string option"
  js_domain :: "string \<Rightarrow> string option"
  js_primary :: "string \<Rightarrow> bool option"
  js_mailbox :: "string \<Rightarrow> mailbox_request option"
  js_owner :: "string \<Rightarrow> string option option"
  js_smtp :: "string \<Rightarrow> string option option"
  js_member :: "string \<Rightarrow> (string \<times> string) option"
  js_role :: "string \<Rightarrow> string option"
  js_folder :: "string \<Rightarrow> string option"
  mp_reader :: "string \<Rightarrow> string \<Rightarrow> (form_part list \<times> bool) option"

definition shows_as :: "('a \<Rightarrow> 'b) \<Rightarrow> ('s, 'a) http \<Rightarrow> ('s, 'b) http" where
  "shows_as f m = bindE m (\<lambda>(r, after). returnE (case r of Reply status a \<Rightarrow> Reply status (f a) | Problem status code \<Rightarrow> Problem status code, after))"

text \<open>\<open>RequestErrorHandlerFunc\<close> and \<open>ErrorHandlerFunc\<close>.\<close>

definition needed :: "'b option \<Rightarrow> ('b \<Rightarrow> ('s, 'a) http) \<Rightarrow> ('s, 'a) http" where
  "needed v k = (case v of None \<Rightarrow> returnE (problem 400 ''invalid_request'') | Some x \<Rightarrow> k x)"

definition json :: "'b option \<Rightarrow> ('b \<Rightarrow> ('s, 'a) http) \<Rightarrow> ('s, 'a) http" where
  "json = needed"

definition multipart :: "codec \<Rightarrow> incoming \<Rightarrow> (form_part list \<times> bool \<Rightarrow> ('s, 'a) http) \<Rightarrow> ('s, 'a) http" where
  "multipart K q = needed (mp_reader K (in_ctype q) (in_body q))"

definition path_text :: "codec \<Rightarrow> (string \<times> string) list \<Rightarrow> string \<Rightarrow> (string \<Rightarrow> ('s, 'a) http) \<Rightarrow> ('s, 'a) http" where
  "path_text K vs n = needed (cd_text K (PathValue vs n))"

definition path_uuid :: "codec \<Rightarrow> (string \<times> string) list \<Rightarrow> string \<Rightarrow> (string \<Rightarrow> ('s, 'a) http) \<Rightarrow> ('s, 'a) http" where
  "path_uuid K vs n = needed (cd_uuid K (PathValue vs n))"

definition required :: "codec \<Rightarrow> incoming \<Rightarrow> string \<Rightarrow> (string \<Rightarrow> ('s, 'a) http) \<Rightarrow> ('s, 'a) http" where
  "required K q n = needed (cd_required K n (in_query q))"

definition optional_text :: "codec \<Rightarrow> incoming \<Rightarrow> string \<Rightarrow> (string option \<Rightarrow> ('s, 'a) http) \<Rightarrow> ('s, 'a) http" where
  "optional_text K q n = needed (cd_optional K n (in_query q))"

definition optional_int :: "codec \<Rightarrow> incoming \<Rightarrow> string \<Rightarrow> (int option \<Rightarrow> ('s, 'a) http) \<Rightarrow> ('s, 'a) http" where
  "optional_int K q n = needed (cd_int K n (in_query q))"

text \<open>At most one Idempotency-Key header.\<close>

definition idempotency :: "codec \<Rightarrow> incoming \<Rightarrow> (string option \<Rightarrow> ('s, 'a) http) \<Rightarrow> ('s, 'a) http" where
  "idempotency K q k = (case in_idempotency q of None \<Rightarrow> k None
     | Some [v] \<Rightarrow> needed (cd_header K v) (\<lambda>key. k (Some key))
     | Some vs \<Rightarrow> returnE (problem 400 ''invalid_request''))"

section \<open>The strict handlers\<close>

definition strict_ChangeInitialPassword :: "codec \<Rightarrow> incoming \<Rightarrow> 's api \<Rightarrow> request_ctx \<Rightarrow> ('s, payload) http" where
  "strict_ChangeInitialPassword K q H c = json (js_change K (in_body q)) (\<lambda>b. shows_as P_creds (Http_ChangeInitialPassword H c (Some b)))"

definition strict_ForgotPassword :: "codec \<Rightarrow> incoming \<Rightarrow> 's api \<Rightarrow> ('s, payload) http" where
  "strict_ForgotPassword K q H = json (js_forgot K (in_body q)) (\<lambda>b. shows_as P_unit (Http_ForgotPassword H (Some b)))"

definition strict_Login :: "codec \<Rightarrow> incoming \<Rightarrow> 's api \<Rightarrow> request_ctx \<Rightarrow> ('s, payload) http" where
  "strict_Login K q H c = json (js_login K (in_body q)) (\<lambda>b. shows_as P_creds (Http_Login H c (Some b)))"

definition strict_Logout :: "'s api \<Rightarrow> request_ctx \<Rightarrow> ('s, payload) http" where
  "strict_Logout H c = shows_as P_unit (Http_Logout H c)"

definition strict_GetCurrentUser :: "request_ctx \<Rightarrow> ('s, payload) http" where
  "strict_GetCurrentUser c = shows_as P_user (GetCurrentUser c)"

definition strict_Register :: "codec \<Rightarrow> incoming \<Rightarrow> 's api \<Rightarrow> request_ctx \<Rightarrow> ('s, payload) http" where
  "strict_Register K q H c = json (js_register K (in_body q)) (\<lambda>b. shows_as P_creds (Http_Register H c (Some b)))"

definition strict_ResendVerification :: "codec \<Rightarrow> incoming \<Rightarrow> 's api \<Rightarrow> ('s, payload) http" where
  "strict_ResendVerification K q H = json (js_resend K (in_body q)) (\<lambda>b. shows_as P_unit (Http_ResendVerification H (Some b)))"

definition strict_ResetPassword :: "codec \<Rightarrow> incoming \<Rightarrow> 's api \<Rightarrow> request_ctx \<Rightarrow> ('s, payload) http" where
  "strict_ResetPassword K q H c = json (js_reset K (in_body q)) (\<lambda>b. shows_as P_creds (Http_ResetPassword H c (Some b)))"

definition strict_VerifyEmail :: "codec \<Rightarrow> incoming \<Rightarrow> 's api \<Rightarrow> ('s, payload) http" where
  "strict_VerifyEmail K q H = json (js_verify K (in_body q)) (\<lambda>b. shows_as P_user (Http_VerifyEmail H (Some b)))"

definition strict_GetHealth :: "('s, payload) http" where
  "strict_GetHealth = shows_as P_health (GetHealth)"

definition strict_SearchMessages :: "request_ctx \<Rightarrow> string \<Rightarrow> int option \<Rightarrow> ('s, payload) http" where
  "strict_SearchMessages c term limit = shows_as P_emails (SearchMessages c term limit)"

definition strict_UploadAttachment :: "codec \<Rightarrow> incoming \<Rightarrow> 's api \<Rightarrow> request_ctx \<Rightarrow> ('s, payload) http" where
  "strict_UploadAttachment K q H c = multipart K q (\<lambda>b. shows_as P_attachment (Http_UploadAttachment H c (Some b)))"

definition strict_SendEmail :: "codec \<Rightarrow> incoming \<Rightarrow> 's api \<Rightarrow> request_ctx \<Rightarrow> string option \<Rightarrow> ('s, payload) http" where
  "strict_SendEmail K q H c key = json (js_send K (in_body q)) (\<lambda>b. shows_as P_sent (SendEmail H c key (Some b)))"

definition strict_GetEmail :: "request_ctx \<Rightarrow> string \<Rightarrow> ('s, payload) http" where
  "strict_GetEmail c i = shows_as P_email (GetEmail c i)"

definition strict_GetApiKeyWorkspace :: "request_ctx \<Rightarrow> ('s, payload) http" where
  "strict_GetApiKeyWorkspace c = shows_as P_workspace (GetApiKeyWorkspace c)"

definition strict_ListWorkspaces :: "request_ctx \<Rightarrow> ('s, payload) http" where
  "strict_ListWorkspaces c = shows_as P_workspaces (plain (ListWorkspaces (cx_user c)))"

definition strict_CreateWorkspace :: "codec \<Rightarrow> incoming \<Rightarrow> request_ctx \<Rightarrow> ('s, payload) http" where
  "strict_CreateWorkspace K q c = json (js_workspace K (in_body q)) (\<lambda>b. shows_as P_workspace (plain (CreateWorkspace (cx_user c) (Some b))))"

definition strict_DeleteWorkspace :: "request_ctx \<Rightarrow> string \<Rightarrow> ('s, payload) http" where
  "strict_DeleteWorkspace c slug = shows_as P_unit (plain (DeleteWorkspace (cx_user c) slug))"

definition strict_GetWorkspace :: "request_ctx \<Rightarrow> string \<Rightarrow> ('s, payload) http" where
  "strict_GetWorkspace c slug = shows_as P_workspace (plain (GetWorkspace (cx_user c) slug))"

definition strict_ListApiKeys :: "request_ctx \<Rightarrow> string \<Rightarrow> ('s, payload) http" where
  "strict_ListApiKeys c slug = shows_as P_keys (plain (ListApiKeys (cx_user c) slug))"

definition strict_CreateApiKey :: "codec \<Rightarrow> incoming \<Rightarrow> 's api \<Rightarrow> request_ctx \<Rightarrow> string \<Rightarrow> ('s, payload) http" where
  "strict_CreateApiKey K q H c slug = json (js_key K (in_body q)) (\<lambda>b. shows_as P_key (plain (CreateApiKey (ac_lib (sv_accounts H)) (cx_user c) slug (Some b))))"

definition strict_RevokeApiKey :: "request_ctx \<Rightarrow> string \<Rightarrow> string \<Rightarrow> ('s, payload) http" where
  "strict_RevokeApiKey c slug i = shows_as P_unit (plain (RevokeApiKey (cx_user c) slug i))"

definition strict_UploadWorkspaceAttachment :: "codec \<Rightarrow> incoming \<Rightarrow> 's api \<Rightarrow> request_ctx \<Rightarrow> string \<Rightarrow> ('s, payload) http" where
  "strict_UploadWorkspaceAttachment K q H c slug = multipart K q (\<lambda>b. shows_as P_attachment (UploadWorkspaceAttachment H c slug (Some b)))"

definition strict_ListDomains :: "'s api \<Rightarrow> request_ctx \<Rightarrow> string \<Rightarrow> ('s, payload) http" where
  "strict_ListDomains H c slug = shows_as P_domains (plain (ListDomains H c slug))"

definition strict_AddDomain :: "codec \<Rightarrow> incoming \<Rightarrow> 's api \<Rightarrow> request_ctx \<Rightarrow> string \<Rightarrow> ('s, payload) http" where
  "strict_AddDomain K q H c slug = json (js_domain K (in_body q)) (\<lambda>b. shows_as P_domain (plain (AddDomain H c slug (Some b))))"

definition strict_DeleteDomain :: "request_ctx \<Rightarrow> string \<Rightarrow> string \<Rightarrow> ('s, payload) http" where
  "strict_DeleteDomain c slug name = shows_as P_unit (plain (DeleteDomain c slug name))"

definition strict_GetDomain :: "'s api \<Rightarrow> request_ctx \<Rightarrow> string \<Rightarrow> string \<Rightarrow> ('s, payload) http" where
  "strict_GetDomain H c slug name = shows_as P_domain (plain (GetDomain H c slug name))"

definition strict_UpdateDomain :: "codec \<Rightarrow> incoming \<Rightarrow> 's api \<Rightarrow> request_ctx \<Rightarrow> string \<Rightarrow> string \<Rightarrow> ('s, payload) http" where
  "strict_UpdateDomain K q H c slug name = json (js_primary K (in_body q)) (\<lambda>b. shows_as P_domain (plain (UpdateDomain H c slug name (Some b))))"

definition strict_RotateDkimKey :: "'s api \<Rightarrow> request_ctx \<Rightarrow> string \<Rightarrow> string \<Rightarrow> ('s, payload) http" where
  "strict_RotateDkimKey H c slug name = shows_as P_domain (plain (RotateDkimKey H c slug name))"

definition strict_VerifyDomain :: "'s api \<Rightarrow> request_ctx \<Rightarrow> string \<Rightarrow> string \<Rightarrow> ('s, payload) http" where
  "strict_VerifyDomain H c slug name = shows_as P_domain (plain (VerifyDomain H c slug name))"

definition strict_SendWorkspaceEmail :: "codec \<Rightarrow> incoming \<Rightarrow> 's api \<Rightarrow> request_ctx \<Rightarrow> string \<Rightarrow> string option \<Rightarrow> ('s, payload) http" where
  "strict_SendWorkspaceEmail K q H c slug key = json (js_send K (in_body q)) (\<lambda>b. shows_as P_sent (SendWorkspaceEmail H c slug key (Some b)))"

definition strict_GetWorkspaceEmail :: "request_ctx \<Rightarrow> string \<Rightarrow> string \<Rightarrow> ('s, payload) http" where
  "strict_GetWorkspaceEmail c slug i = shows_as P_email (GetWorkspaceEmail c slug i)"

definition strict_ListMailboxes :: "request_ctx \<Rightarrow> string \<Rightarrow> ('s, payload) http" where
  "strict_ListMailboxes c slug = shows_as P_mailboxes (plain (ListMailboxes (cx_user c) slug))"

definition strict_CreateMailbox :: "codec \<Rightarrow> incoming \<Rightarrow> request_ctx \<Rightarrow> string \<Rightarrow> ('s, payload) http" where
  "strict_CreateMailbox K q c slug = json (js_mailbox K (in_body q)) (\<lambda>b. shows_as P_mailbox (plain (CreateMailbox (cx_user c) slug (Some b))))"

definition strict_ListMessages :: "request_ctx \<Rightarrow> string \<Rightarrow> string \<Rightarrow> list_params \<Rightarrow> ('s, payload) http" where
  "strict_ListMessages c slug i params = shows_as P_messages (plain (ListMessages (cx_user c) slug i params))"

definition strict_AssignMailboxOwner :: "codec \<Rightarrow> incoming \<Rightarrow> request_ctx \<Rightarrow> string \<Rightarrow> string \<Rightarrow> ('s, payload) http" where
  "strict_AssignMailboxOwner K q c slug i = json (js_owner K (in_body q)) (\<lambda>b. shows_as P_mailbox (plain (AssignMailboxOwner (cx_user c) slug i (Some b))))"

definition strict_DeleteMailboxSMTPPassword :: "request_ctx \<Rightarrow> string \<Rightarrow> string \<Rightarrow> ('s, payload) http" where
  "strict_DeleteMailboxSMTPPassword c slug i = shows_as P_unit (plain (DeleteMailboxSMTPPassword (cx_user c) slug i))"

definition strict_SetMailboxSMTPPassword :: "codec \<Rightarrow> incoming \<Rightarrow> 's api \<Rightarrow> request_ctx \<Rightarrow> string \<Rightarrow> string \<Rightarrow> ('s, payload) http" where
  "strict_SetMailboxSMTPPassword K q H c slug i = json (js_smtp K (in_body q)) (\<lambda>b. shows_as P_unit (plain (SetMailboxSMTPPassword (ac_lib (sv_accounts H)) (cx_user c) slug i (Some b))))"

definition strict_ListMembers :: "request_ctx \<Rightarrow> string \<Rightarrow> ('s, payload) http" where
  "strict_ListMembers c slug = shows_as P_members (plain (ListMembers (cx_user c) slug))"

definition strict_AddMember :: "codec \<Rightarrow> incoming \<Rightarrow> 's api \<Rightarrow> request_ctx \<Rightarrow> string \<Rightarrow> ('s, payload) http" where
  "strict_AddMember K q H c slug = json (js_member K (in_body q)) (\<lambda>b. shows_as P_members (plain (AddMember (ac_lib (sv_accounts H)) (cx_user c) slug (Some b))))"

definition strict_RemoveMember :: "request_ctx \<Rightarrow> string \<Rightarrow> string \<Rightarrow> ('s, payload) http" where
  "strict_RemoveMember c slug i = shows_as P_unit (plain (RemoveMember (cx_user c) slug i))"

definition strict_UpdateMember :: "codec \<Rightarrow> incoming \<Rightarrow> request_ctx \<Rightarrow> string \<Rightarrow> string \<Rightarrow> ('s, payload) http" where
  "strict_UpdateMember K q c slug i = json (js_role K (in_body q)) (\<lambda>b. shows_as P_unit (plain (UpdateMember (cx_user c) slug i (Some b))))"

definition strict_GetMessage :: "'s api \<Rightarrow> request_ctx \<Rightarrow> string \<Rightarrow> string \<Rightarrow> ('s, payload) http" where
  "strict_GetMessage H c slug i = shows_as P_presented (plain (GetMessage (sv_mime H) (sv_scan H) (cx_user c) slug i))"

definition strict_MarkMessageRead :: "request_ctx \<Rightarrow> string \<Rightarrow> string \<Rightarrow> ('s, payload) http" where
  "strict_MarkMessageRead c slug i = shows_as P_message (plain (MarkMessageRead (cx_user c) slug i))"

definition strict_DownloadReceivedAttachment :: "'s api \<Rightarrow> request_ctx \<Rightarrow> string \<Rightarrow> string \<Rightarrow> string \<Rightarrow> ('s, payload) http" where
  "strict_DownloadReceivedAttachment H c slug i sel = shows_as P_file (plain (DownloadReceivedAttachment (sv_mime H) (sv_scan H) (cx_user c) slug i sel))"

definition strict_MoveReceivedMessage :: "codec \<Rightarrow> incoming \<Rightarrow> request_ctx \<Rightarrow> string \<Rightarrow> string \<Rightarrow> ('s, payload) http" where
  "strict_MoveReceivedMessage K q c slug i = json (js_folder K (in_body q)) (\<lambda>b. shows_as P_message (plain (MoveReceivedMessage (cx_user c) slug i (Some b))))"

section \<open>The wrappers\<close>

definition wrap_ChangeInitialPassword :: "codec \<Rightarrow> incoming \<Rightarrow> 's api \<Rightarrow> request_ctx \<Rightarrow> ('s, payload) http" where
  "wrap_ChangeInitialPassword K q H c = strict_ChangeInitialPassword K q H c"

definition wrap_ForgotPassword :: "codec \<Rightarrow> incoming \<Rightarrow> 's api \<Rightarrow> ('s, payload) http" where
  "wrap_ForgotPassword K q H = strict_ForgotPassword K q H"

definition wrap_Login :: "codec \<Rightarrow> incoming \<Rightarrow> 's api \<Rightarrow> request_ctx \<Rightarrow> ('s, payload) http" where
  "wrap_Login K q H c = strict_Login K q H c"

definition wrap_Logout :: "'s api \<Rightarrow> request_ctx \<Rightarrow> ('s, payload) http" where
  "wrap_Logout H c = strict_Logout H c"

definition wrap_GetCurrentUser :: "request_ctx \<Rightarrow> ('s, payload) http" where
  "wrap_GetCurrentUser c = strict_GetCurrentUser c"

definition wrap_Register :: "codec \<Rightarrow> incoming \<Rightarrow> 's api \<Rightarrow> request_ctx \<Rightarrow> ('s, payload) http" where
  "wrap_Register K q H c = strict_Register K q H c"

definition wrap_ResendVerification :: "codec \<Rightarrow> incoming \<Rightarrow> 's api \<Rightarrow> ('s, payload) http" where
  "wrap_ResendVerification K q H = strict_ResendVerification K q H"

definition wrap_ResetPassword :: "codec \<Rightarrow> incoming \<Rightarrow> 's api \<Rightarrow> request_ctx \<Rightarrow> ('s, payload) http" where
  "wrap_ResetPassword K q H c = strict_ResetPassword K q H c"

definition wrap_VerifyEmail :: "codec \<Rightarrow> incoming \<Rightarrow> 's api \<Rightarrow> ('s, payload) http" where
  "wrap_VerifyEmail K q H = strict_VerifyEmail K q H"

definition wrap_GetHealth :: "('s, payload) http" where
  "wrap_GetHealth = strict_GetHealth"

definition wrap_SearchMessages :: "codec \<Rightarrow> incoming \<Rightarrow> request_ctx \<Rightarrow> ('s, payload) http" where
  "wrap_SearchMessages K q c = required K q ''q'' (\<lambda>term.
     optional_int K q ''limit'' (\<lambda>limit.
     strict_SearchMessages c term limit))"

definition wrap_UploadAttachment :: "codec \<Rightarrow> incoming \<Rightarrow> 's api \<Rightarrow> request_ctx \<Rightarrow> ('s, payload) http" where
  "wrap_UploadAttachment K q H c = strict_UploadAttachment K q H c"

definition wrap_SendEmail :: "codec \<Rightarrow> incoming \<Rightarrow> 's api \<Rightarrow> request_ctx \<Rightarrow> ('s, payload) http" where
  "wrap_SendEmail K q H c = idempotency K q (\<lambda>key.
     strict_SendEmail K q H c key)"

definition wrap_GetEmail :: "codec \<Rightarrow> request_ctx \<Rightarrow> (string \<times> string) list \<Rightarrow> ('s, payload) http" where
  "wrap_GetEmail K c vs = path_uuid K vs ''id'' (\<lambda>i.
     strict_GetEmail c i)"

definition wrap_GetApiKeyWorkspace :: "request_ctx \<Rightarrow> ('s, payload) http" where
  "wrap_GetApiKeyWorkspace c = strict_GetApiKeyWorkspace c"

definition wrap_ListWorkspaces :: "request_ctx \<Rightarrow> ('s, payload) http" where
  "wrap_ListWorkspaces c = strict_ListWorkspaces c"

definition wrap_CreateWorkspace :: "codec \<Rightarrow> incoming \<Rightarrow> request_ctx \<Rightarrow> ('s, payload) http" where
  "wrap_CreateWorkspace K q c = strict_CreateWorkspace K q c"

definition wrap_DeleteWorkspace :: "codec \<Rightarrow> request_ctx \<Rightarrow> (string \<times> string) list \<Rightarrow> ('s, payload) http" where
  "wrap_DeleteWorkspace K c vs = path_text K vs ''slug'' (\<lambda>slug.
     strict_DeleteWorkspace c slug)"

definition wrap_GetWorkspace :: "codec \<Rightarrow> request_ctx \<Rightarrow> (string \<times> string) list \<Rightarrow> ('s, payload) http" where
  "wrap_GetWorkspace K c vs = path_text K vs ''slug'' (\<lambda>slug.
     strict_GetWorkspace c slug)"

definition wrap_ListApiKeys :: "codec \<Rightarrow> request_ctx \<Rightarrow> (string \<times> string) list \<Rightarrow> ('s, payload) http" where
  "wrap_ListApiKeys K c vs = path_text K vs ''slug'' (\<lambda>slug.
     strict_ListApiKeys c slug)"

definition wrap_CreateApiKey :: "codec \<Rightarrow> incoming \<Rightarrow> 's api \<Rightarrow> request_ctx \<Rightarrow> (string \<times> string) list \<Rightarrow> ('s, payload) http" where
  "wrap_CreateApiKey K q H c vs = path_text K vs ''slug'' (\<lambda>slug.
     strict_CreateApiKey K q H c slug)"

definition wrap_RevokeApiKey :: "codec \<Rightarrow> request_ctx \<Rightarrow> (string \<times> string) list \<Rightarrow> ('s, payload) http" where
  "wrap_RevokeApiKey K c vs = path_text K vs ''slug'' (\<lambda>slug.
     path_uuid K vs ''keyId'' (\<lambda>i.
     strict_RevokeApiKey c slug i))"

definition wrap_UploadWorkspaceAttachment :: "codec \<Rightarrow> incoming \<Rightarrow> 's api \<Rightarrow> request_ctx \<Rightarrow> (string \<times> string) list \<Rightarrow> ('s, payload) http" where
  "wrap_UploadWorkspaceAttachment K q H c vs = path_text K vs ''slug'' (\<lambda>slug.
     strict_UploadWorkspaceAttachment K q H c slug)"

definition wrap_ListDomains :: "codec \<Rightarrow> 's api \<Rightarrow> request_ctx \<Rightarrow> (string \<times> string) list \<Rightarrow> ('s, payload) http" where
  "wrap_ListDomains K H c vs = path_text K vs ''slug'' (\<lambda>slug.
     strict_ListDomains H c slug)"

definition wrap_AddDomain :: "codec \<Rightarrow> incoming \<Rightarrow> 's api \<Rightarrow> request_ctx \<Rightarrow> (string \<times> string) list \<Rightarrow> ('s, payload) http" where
  "wrap_AddDomain K q H c vs = path_text K vs ''slug'' (\<lambda>slug.
     strict_AddDomain K q H c slug)"

definition wrap_DeleteDomain :: "codec \<Rightarrow> request_ctx \<Rightarrow> (string \<times> string) list \<Rightarrow> ('s, payload) http" where
  "wrap_DeleteDomain K c vs = path_text K vs ''slug'' (\<lambda>slug.
     path_text K vs ''domain'' (\<lambda>name.
     strict_DeleteDomain c slug name))"

definition wrap_GetDomain :: "codec \<Rightarrow> 's api \<Rightarrow> request_ctx \<Rightarrow> (string \<times> string) list \<Rightarrow> ('s, payload) http" where
  "wrap_GetDomain K H c vs = path_text K vs ''slug'' (\<lambda>slug.
     path_text K vs ''domain'' (\<lambda>name.
     strict_GetDomain H c slug name))"

definition wrap_UpdateDomain :: "codec \<Rightarrow> incoming \<Rightarrow> 's api \<Rightarrow> request_ctx \<Rightarrow> (string \<times> string) list \<Rightarrow> ('s, payload) http" where
  "wrap_UpdateDomain K q H c vs = path_text K vs ''slug'' (\<lambda>slug.
     path_text K vs ''domain'' (\<lambda>name.
     strict_UpdateDomain K q H c slug name))"

definition wrap_RotateDkimKey :: "codec \<Rightarrow> 's api \<Rightarrow> request_ctx \<Rightarrow> (string \<times> string) list \<Rightarrow> ('s, payload) http" where
  "wrap_RotateDkimKey K H c vs = path_text K vs ''slug'' (\<lambda>slug.
     path_text K vs ''domain'' (\<lambda>name.
     strict_RotateDkimKey H c slug name))"

definition wrap_VerifyDomain :: "codec \<Rightarrow> 's api \<Rightarrow> request_ctx \<Rightarrow> (string \<times> string) list \<Rightarrow> ('s, payload) http" where
  "wrap_VerifyDomain K H c vs = path_text K vs ''slug'' (\<lambda>slug.
     path_text K vs ''domain'' (\<lambda>name.
     strict_VerifyDomain H c slug name))"

definition wrap_SendWorkspaceEmail :: "codec \<Rightarrow> incoming \<Rightarrow> 's api \<Rightarrow> request_ctx \<Rightarrow> (string \<times> string) list \<Rightarrow> ('s, payload) http" where
  "wrap_SendWorkspaceEmail K q H c vs = path_text K vs ''slug'' (\<lambda>slug.
     idempotency K q (\<lambda>key.
     strict_SendWorkspaceEmail K q H c slug key))"

definition wrap_GetWorkspaceEmail :: "codec \<Rightarrow> request_ctx \<Rightarrow> (string \<times> string) list \<Rightarrow> ('s, payload) http" where
  "wrap_GetWorkspaceEmail K c vs = path_text K vs ''slug'' (\<lambda>slug.
     path_uuid K vs ''id'' (\<lambda>i.
     strict_GetWorkspaceEmail c slug i))"

definition wrap_ListMailboxes :: "codec \<Rightarrow> request_ctx \<Rightarrow> (string \<times> string) list \<Rightarrow> ('s, payload) http" where
  "wrap_ListMailboxes K c vs = path_text K vs ''slug'' (\<lambda>slug.
     strict_ListMailboxes c slug)"

definition wrap_CreateMailbox :: "codec \<Rightarrow> incoming \<Rightarrow> request_ctx \<Rightarrow> (string \<times> string) list \<Rightarrow> ('s, payload) http" where
  "wrap_CreateMailbox K q c vs = path_text K vs ''slug'' (\<lambda>slug.
     strict_CreateMailbox K q c slug)"

definition wrap_ListMessages :: "codec \<Rightarrow> incoming \<Rightarrow> request_ctx \<Rightarrow> (string \<times> string) list \<Rightarrow> ('s, payload) http" where
  "wrap_ListMessages K q c vs = path_text K vs ''slug'' (\<lambda>slug.
     path_uuid K vs ''mailboxId'' (\<lambda>i.
     optional_text K q ''folder'' (\<lambda>folder.
     optional_int K q ''limit'' (\<lambda>limit.
     optional_text K q ''q'' (\<lambda>search.
     optional_int K q ''offset'' (\<lambda>offset.
     strict_ListMessages c slug i \<lparr>lp_limit = limit, lp_offset = offset, lp_folder = folder, lp_q = search\<rparr>))))))"

definition wrap_AssignMailboxOwner :: "codec \<Rightarrow> incoming \<Rightarrow> request_ctx \<Rightarrow> (string \<times> string) list \<Rightarrow> ('s, payload) http" where
  "wrap_AssignMailboxOwner K q c vs = path_text K vs ''slug'' (\<lambda>slug.
     path_uuid K vs ''mailboxId'' (\<lambda>i.
     strict_AssignMailboxOwner K q c slug i))"

definition wrap_DeleteMailboxSMTPPassword :: "codec \<Rightarrow> request_ctx \<Rightarrow> (string \<times> string) list \<Rightarrow> ('s, payload) http" where
  "wrap_DeleteMailboxSMTPPassword K c vs = path_text K vs ''slug'' (\<lambda>slug.
     path_uuid K vs ''mailboxId'' (\<lambda>i.
     strict_DeleteMailboxSMTPPassword c slug i))"

definition wrap_SetMailboxSMTPPassword :: "codec \<Rightarrow> incoming \<Rightarrow> 's api \<Rightarrow> request_ctx \<Rightarrow> (string \<times> string) list \<Rightarrow> ('s, payload) http" where
  "wrap_SetMailboxSMTPPassword K q H c vs = path_text K vs ''slug'' (\<lambda>slug.
     path_uuid K vs ''mailboxId'' (\<lambda>i.
     strict_SetMailboxSMTPPassword K q H c slug i))"

definition wrap_ListMembers :: "codec \<Rightarrow> request_ctx \<Rightarrow> (string \<times> string) list \<Rightarrow> ('s, payload) http" where
  "wrap_ListMembers K c vs = path_text K vs ''slug'' (\<lambda>slug.
     strict_ListMembers c slug)"

definition wrap_AddMember :: "codec \<Rightarrow> incoming \<Rightarrow> 's api \<Rightarrow> request_ctx \<Rightarrow> (string \<times> string) list \<Rightarrow> ('s, payload) http" where
  "wrap_AddMember K q H c vs = path_text K vs ''slug'' (\<lambda>slug.
     strict_AddMember K q H c slug)"

definition wrap_RemoveMember :: "codec \<Rightarrow> request_ctx \<Rightarrow> (string \<times> string) list \<Rightarrow> ('s, payload) http" where
  "wrap_RemoveMember K c vs = path_text K vs ''slug'' (\<lambda>slug.
     path_uuid K vs ''userId'' (\<lambda>i.
     strict_RemoveMember c slug i))"

definition wrap_UpdateMember :: "codec \<Rightarrow> incoming \<Rightarrow> request_ctx \<Rightarrow> (string \<times> string) list \<Rightarrow> ('s, payload) http" where
  "wrap_UpdateMember K q c vs = path_text K vs ''slug'' (\<lambda>slug.
     path_uuid K vs ''userId'' (\<lambda>i.
     strict_UpdateMember K q c slug i))"

definition wrap_GetMessage :: "codec \<Rightarrow> 's api \<Rightarrow> request_ctx \<Rightarrow> (string \<times> string) list \<Rightarrow> ('s, payload) http" where
  "wrap_GetMessage K H c vs = path_text K vs ''slug'' (\<lambda>slug.
     path_uuid K vs ''messageId'' (\<lambda>i.
     strict_GetMessage H c slug i))"

definition wrap_MarkMessageRead :: "codec \<Rightarrow> request_ctx \<Rightarrow> (string \<times> string) list \<Rightarrow> ('s, payload) http" where
  "wrap_MarkMessageRead K c vs = path_text K vs ''slug'' (\<lambda>slug.
     path_uuid K vs ''messageId'' (\<lambda>i.
     strict_MarkMessageRead c slug i))"

definition wrap_DownloadReceivedAttachment :: "codec \<Rightarrow> 's api \<Rightarrow> request_ctx \<Rightarrow> (string \<times> string) list \<Rightarrow> ('s, payload) http" where
  "wrap_DownloadReceivedAttachment K H c vs = path_text K vs ''slug'' (\<lambda>slug.
     path_uuid K vs ''messageId'' (\<lambda>i.
     path_text K vs ''attachmentId'' (\<lambda>sel.
     strict_DownloadReceivedAttachment H c slug i sel)))"

definition wrap_MoveReceivedMessage :: "codec \<Rightarrow> incoming \<Rightarrow> request_ctx \<Rightarrow> (string \<times> string) list \<Rightarrow> ('s, payload) http" where
  "wrap_MoveReceivedMessage K q c vs = path_text K vs ''slug'' (\<lambda>slug.
     path_uuid K vs ''messageId'' (\<lambda>i.
     strict_MoveReceivedMessage K q c slug i))"

end
