(* ===== verification/Gateway.thy ===== *)
theory Gateway imports Operations begin

text \<open>
  The HTTP server as one function: the guard of the path (\<open>Router\<close>), the mux with the routes of gen.go, the
  wrappers and strict handlers, the operations on the services, the answer.
\<close>

datatype operation = Op_ChangeInitialPassword | Op_ForgotPassword | Op_Login | Op_Logout | Op_GetCurrentUser | Op_Register | Op_ResendVerification | Op_ResetPassword | Op_VerifyEmail | Op_GetHealth | Op_SearchMessages | Op_UploadAttachment | Op_SendEmail | Op_GetEmail | Op_GetApiKeyWorkspace | Op_ListWorkspaces | Op_CreateWorkspace | Op_DeleteWorkspace | Op_GetWorkspace | Op_ListApiKeys | Op_CreateApiKey | Op_RevokeApiKey | Op_UploadWorkspaceAttachment | Op_ListDomains | Op_AddDomain | Op_DeleteDomain | Op_GetDomain | Op_UpdateDomain | Op_RotateDkimKey | Op_VerifyDomain | Op_SendWorkspaceEmail | Op_GetWorkspaceEmail | Op_ListMailboxes | Op_CreateMailbox | Op_ListMessages | Op_AssignMailboxOwner | Op_DeleteMailboxSMTPPassword | Op_SetMailboxSMTPPassword | Op_ListMembers | Op_AddMember | Op_RemoveMember | Op_UpdateMember | Op_GetMessage | Op_MarkMessageRead | Op_DownloadReceivedAttachment | Op_MoveReceivedMessage

section \<open>The routes\<close>

definition routes :: "operation route list" where
  "routes = [(''GET'', ''/workspaces/{slug}/emails/{id}'', Op_GetWorkspaceEmail),
     (''POST'', ''/workspaces/{slug}/attachments'', Op_UploadWorkspaceAttachment),
     (''GET'', ''/workspaces/{slug}/members'', Op_ListMembers),
     (''POST'', ''/workspaces/{slug}/members'', Op_AddMember),
     (''DELETE'', ''/workspaces/{slug}/members/{userId}'', Op_RemoveMember),
     (''PATCH'', ''/workspaces/{slug}/members/{userId}'', Op_UpdateMember),
     (''GET'', ''/health'', Op_GetHealth),
     (''POST'', ''/auth/register'', Op_Register),
     (''POST'', ''/auth/login'', Op_Login),
     (''POST'', ''/auth/verify-email'', Op_VerifyEmail),
     (''POST'', ''/auth/resend-verification'', Op_ResendVerification),
     (''POST'', ''/auth/forgot-password'', Op_ForgotPassword),
     (''POST'', ''/auth/reset-password'', Op_ResetPassword),
     (''POST'', ''/auth/change-initial-password'', Op_ChangeInitialPassword),
     (''GET'', ''/auth/me'', Op_GetCurrentUser),
     (''POST'', ''/auth/logout'', Op_Logout),
     (''GET'', ''/workspaces'', Op_ListWorkspaces),
     (''POST'', ''/workspaces'', Op_CreateWorkspace),
     (''DELETE'', ''/workspaces/{slug}'', Op_DeleteWorkspace),
     (''GET'', ''/workspaces/{slug}'', Op_GetWorkspace),
     (''GET'', ''/workspaces/{slug}/domains'', Op_ListDomains),
     (''POST'', ''/workspaces/{slug}/domains'', Op_AddDomain),
     (''DELETE'', ''/workspaces/{slug}/domains/{domain}'', Op_DeleteDomain),
     (''GET'', ''/workspaces/{slug}/domains/{domain}'', Op_GetDomain),
     (''PATCH'', ''/workspaces/{slug}/domains/{domain}'', Op_UpdateDomain),
     (''POST'', ''/workspaces/{slug}/domains/{domain}/verify'', Op_VerifyDomain),
     (''POST'', ''/workspaces/{slug}/domains/{domain}/dkim/rotate'', Op_RotateDkimKey),
     (''GET'', ''/v1/workspace'', Op_GetApiKeyWorkspace),
     (''GET'', ''/messages/search'', Op_SearchMessages),
     (''POST'', ''/v1/emails'', Op_SendEmail),
     (''GET'', ''/workspaces/{slug}/mailboxes'', Op_ListMailboxes),
     (''POST'', ''/workspaces/{slug}/mailboxes'', Op_CreateMailbox),
     (''DELETE'', ''/workspaces/{slug}/mailboxes/{mailboxId}/smtp-password'', Op_DeleteMailboxSMTPPassword),
     (''PUT'', ''/workspaces/{slug}/mailboxes/{mailboxId}/smtp-password'', Op_SetMailboxSMTPPassword),
     (''PUT'', ''/workspaces/{slug}/mailboxes/{mailboxId}/owner'', Op_AssignMailboxOwner),
     (''GET'', ''/workspaces/{slug}/mailboxes/{mailboxId}/messages'', Op_ListMessages),
     (''GET'', ''/workspaces/{slug}/messages/{messageId}'', Op_GetMessage),
     (''POST'', ''/workspaces/{slug}/messages/{messageId}'', Op_MarkMessageRead),
     (''GET'', ''/workspaces/{slug}/messages/{messageId}/attachments/{attachmentId}'', Op_DownloadReceivedAttachment),
     (''PUT'', ''/workspaces/{slug}/messages/{messageId}/folder'', Op_MoveReceivedMessage),
     (''POST'', ''/workspaces/{slug}/emails'', Op_SendWorkspaceEmail),
     (''GET'', ''/workspaces/{slug}/api-keys'', Op_ListApiKeys),
     (''POST'', ''/workspaces/{slug}/api-keys'', Op_CreateApiKey),
     (''DELETE'', ''/workspaces/{slug}/api-keys/{keyId}'', Op_RevokeApiKey),
     (''POST'', ''/v1/attachments'', Op_UploadAttachment),
     (''GET'', ''/v1/emails/{id}'', Op_GetEmail)]"

definition wrapper :: "codec \<Rightarrow> incoming \<Rightarrow> 's api \<Rightarrow> request_ctx \<Rightarrow> (string \<times> string) list \<Rightarrow> operation \<Rightarrow> ('s, payload) http" where
  "wrapper K q H c vs x = (case x of Op_ChangeInitialPassword \<Rightarrow> wrap_ChangeInitialPassword K q H c
   | Op_ForgotPassword \<Rightarrow> wrap_ForgotPassword K q H
   | Op_Login \<Rightarrow> wrap_Login K q H c
   | Op_Logout \<Rightarrow> wrap_Logout H c
   | Op_GetCurrentUser \<Rightarrow> wrap_GetCurrentUser c
   | Op_Register \<Rightarrow> wrap_Register K q H c
   | Op_ResendVerification \<Rightarrow> wrap_ResendVerification K q H
   | Op_ResetPassword \<Rightarrow> wrap_ResetPassword K q H c
   | Op_VerifyEmail \<Rightarrow> wrap_VerifyEmail K q H
   | Op_GetHealth \<Rightarrow> wrap_GetHealth
   | Op_SearchMessages \<Rightarrow> wrap_SearchMessages K q c
   | Op_UploadAttachment \<Rightarrow> wrap_UploadAttachment K q H c
   | Op_SendEmail \<Rightarrow> wrap_SendEmail K q H c
   | Op_GetEmail \<Rightarrow> wrap_GetEmail K c vs
   | Op_GetApiKeyWorkspace \<Rightarrow> wrap_GetApiKeyWorkspace c
   | Op_ListWorkspaces \<Rightarrow> wrap_ListWorkspaces c
   | Op_CreateWorkspace \<Rightarrow> wrap_CreateWorkspace K q c
   | Op_DeleteWorkspace \<Rightarrow> wrap_DeleteWorkspace K c vs
   | Op_GetWorkspace \<Rightarrow> wrap_GetWorkspace K c vs
   | Op_ListApiKeys \<Rightarrow> wrap_ListApiKeys K c vs
   | Op_CreateApiKey \<Rightarrow> wrap_CreateApiKey K q H c vs
   | Op_RevokeApiKey \<Rightarrow> wrap_RevokeApiKey K c vs
   | Op_UploadWorkspaceAttachment \<Rightarrow> wrap_UploadWorkspaceAttachment K q H c vs
   | Op_ListDomains \<Rightarrow> wrap_ListDomains K H c vs
   | Op_AddDomain \<Rightarrow> wrap_AddDomain K q H c vs
   | Op_DeleteDomain \<Rightarrow> wrap_DeleteDomain K c vs
   | Op_GetDomain \<Rightarrow> wrap_GetDomain K H c vs
   | Op_UpdateDomain \<Rightarrow> wrap_UpdateDomain K q H c vs
   | Op_RotateDkimKey \<Rightarrow> wrap_RotateDkimKey K H c vs
   | Op_VerifyDomain \<Rightarrow> wrap_VerifyDomain K H c vs
   | Op_SendWorkspaceEmail \<Rightarrow> wrap_SendWorkspaceEmail K q H c vs
   | Op_GetWorkspaceEmail \<Rightarrow> wrap_GetWorkspaceEmail K c vs
   | Op_ListMailboxes \<Rightarrow> wrap_ListMailboxes K c vs
   | Op_CreateMailbox \<Rightarrow> wrap_CreateMailbox K q c vs
   | Op_ListMessages \<Rightarrow> wrap_ListMessages K q c vs
   | Op_AssignMailboxOwner \<Rightarrow> wrap_AssignMailboxOwner K q c vs
   | Op_DeleteMailboxSMTPPassword \<Rightarrow> wrap_DeleteMailboxSMTPPassword K c vs
   | Op_SetMailboxSMTPPassword \<Rightarrow> wrap_SetMailboxSMTPPassword K q H c vs
   | Op_ListMembers \<Rightarrow> wrap_ListMembers K c vs
   | Op_AddMember \<Rightarrow> wrap_AddMember K q H c vs
   | Op_RemoveMember \<Rightarrow> wrap_RemoveMember K c vs
   | Op_UpdateMember \<Rightarrow> wrap_UpdateMember K q c vs
   | Op_GetMessage \<Rightarrow> wrap_GetMessage K H c vs
   | Op_MarkMessageRead \<Rightarrow> wrap_MarkMessageRead K c vs
   | Op_DownloadReceivedAttachment \<Rightarrow> wrap_DownloadReceivedAttachment K H c vs
   | Op_MoveReceivedMessage \<Rightarrow> wrap_MoveReceivedMessage K q c vs)"

section \<open>The server\<close>

text \<open>What the mux answers itself.\<close>

fun mux_answer :: "'o routed \<Rightarrow> payload answer" where
  "mux_answer (Redirect u) = (Reply 301 (P_location u), None)"
| "mux_answer NotAllowed = (Reply 405 (P_text ''Method Not Allowed''), None)"
| "mux_answer NotFound = (Reply 404 (P_text ''404 page not found''), None)"
| "mux_answer _ = (Reply 400 (P_text []), None)"

definition generated :: "codec \<Rightarrow> 's api \<Rightarrow> incoming \<Rightarrow> request_ctx \<Rightarrow> ('s, payload) http" where
  "generated K H q c = (case ServeMux routes (hr_method (in_http q)) (in_escaped q) of
     Serve x vs \<Rightarrow> wrapper K q H c vs x | out \<Rightarrow> returnE (mux_answer out))"

text \<open>
  \<open>in_escaped\<close> is \<open>URL.EscapedPath\<close>, and \<open>URL.Path\<close>, which the guards read, is what it unescapes to; a target that
  cannot be unescaped is refused by net/http.
\<close>

definition the_request :: "incoming \<Rightarrow> string \<Rightarrow> http_request" where
  "the_request q p = (in_http q)\<lparr>hr_path := p\<rparr>"

definition serve_http :: "codec \<Rightarrow> 's api \<Rightarrow> incoming \<Rightarrow> ('s srv, gerror, payload response) step" where
  "serve_http K H q = (case unescape (in_escaped q) of
       None \<Rightarrow> returnE (Answer (Reply 400 (P_text ''400 Bad Request''), None))
     | Some p \<Rightarrow> Router H (\<lambda>_. generated K H q) (the_request q p))"

section \<open>Every operation behind its guard\<close>

text \<open>The \<open>security\<close> blocks of api/openapi.yaml.\<close>

definition public_operations :: "operation list" where
  "public_operations = [Op_GetHealth, Op_Register, Op_Login, Op_VerifyEmail, Op_ResendVerification, Op_ForgotPassword, Op_ResetPassword]"

definition key_operations :: "operation list" where
  "key_operations = [Op_GetApiKeyWorkspace, Op_SendEmail, Op_GetEmail, Op_UploadAttachment]"

definition security :: "operation \<Rightarrow> guard" where
  "security x = (if x \<in> set public_operations then Open_guard else if x \<in> set key_operations then Key_guard else Session_guard)"

text \<open>A pattern whose paths all meet one guard: a prefix the guards know, or literals only.\<close>

fun literals :: "element list \<Rightarrow> string list option" where
  "literals [] = Some []"
| "literals (Lit l # es) = map_option ((#) l) (literals es)"
| "literals (Wild n # es) = None"

definition behind :: "element list \<Rightarrow> guard \<Rightarrow> bool" where
  "behind es g = (case literals es of Some ls \<Rightarrow> guard_of (joined ls) = g | None \<Rightarrow>
     (case es of Lit l # e # es' \<Rightarrow> l = ''v1'' \<and> g = Key_guard \<or> l = ''workspaces'' \<and> g = Session_guard | _ \<Rightarrow> False))"

lemma literals_match: "matches es ss = Some vs \<Longrightarrow> literals es = Some ls \<Longrightarrow> ss = ls"
  by (induction es ss arbitrary: vs ls rule: matches.induct) (auto split: if_splits)

lemma behind_guard:
  assumes "matches es ss = Some vs" "behind es g"
  shows "guard_of (joined ss) = g"
proof (cases "literals es")
  case None
  with assms(2) have "\<exists>l e es'. es = Lit l # e # es' \<and> (l = ''v1'' \<and> g = Key_guard \<or> l = ''workspaces'' \<and> g = Session_guard)"
    by (cases es; cases "hd es"; cases "tl es") (auto simp: behind_def)
  then obtain l e es' where es: "es = Lit l # e # es'" "l = ''v1'' \<and> g = Key_guard \<or> l = ''workspaces'' \<and> g = Session_guard" by blast
  with assms(1) obtain t ts where "ss = l # t # ts" by (cases ss; cases "tl ss"; cases e) (auto split: if_splits)
  then have "joined ss = CHR ''/'' # l @ CHR ''/'' # t @ joined ts" by (simp add: joined_def)
  with es(2) show ?thesis by (auto simp: guard_of_def has_prefix_def session_paths_def)
next
  case (Some ls)
  with literals_match[OF assms(1) this] assms(2) show ?thesis by (simp add: behind_def)
qed

lemma routes_behind: "\<forall>(k, p, x)\<in>set routes. behind (pattern p) (security x)"
  by code_simp

lemma routes_plain: "\<forall>(k, p, x)\<in>set routes. k \<noteq> ''CONNECT'' \<and> Lit ''/'' \<notin> set (pattern p)"
  by code_simp

text \<open>No two patterns of one method match the same path, so the order of the table does not matter.\<close>

fun apart :: "element list \<Rightarrow> element list \<Rightarrow> bool" where
  "apart [] fs = (fs \<noteq> [])"
| "apart (e # es) [] = True"
| "apart (e # es) (f # fs) = (apart es fs \<or> (case (e, f) of (Lit l, Lit m) \<Rightarrow> l \<noteq> m | _ \<Rightarrow> False))"

lemma apart_matches: "apart es fs \<Longrightarrow> matches es ss \<noteq> None \<Longrightarrow> matches fs ss = None"
proof (induction es fs arbitrary: ss rule: apart.induct)
  case (1 fs)
  then show ?case by (cases fs; cases ss) auto
next
  case (2 e es)
  then show ?case by (cases ss) auto
next
  case (3 e es f fs)
  then show ?case by (cases ss; cases e; cases f) (auto split: if_splits)
qed

lemma routes_apart: "sorted_wrt (\<lambda>(k, p, x) (m, q, y). k = m \<longrightarrow> apart (pattern p) (pattern q)) routes"
  by code_simp

lemma routes_complete: "distinct (map (snd \<circ> snd) routes)" "length routes = 46"
  by code_simp+

lemma served_behind_guard:
  assumes "ServeMux routes m p = Serve x vs" "unescape p = Some s"
  shows "guard_of s = security x"
proof -
  obtain k q where r: "(k, q, x) \<in> set routes" "s = joined (segments p)" "matches (pattern q) (segments p) = Some vs"
    using ServeMux_Serve[OF assms] routes_plain by fastforce
  then show ?thesis using behind_guard[OF r(3)] routes_behind by blast
qed

text \<open>What the context of an operation rests on, by its security block.\<close>

definition authorised :: "'s api \<Rightarrow> world \<Rightarrow> http_request \<Rightarrow> operation \<Rightarrow> request_ctx \<Rightarrow> bool" where
  "authorised H w q x c \<longleftrightarrow> (case security x of
       Key_guard \<Rightarrow> key_context H (tabs w) (hr_auth q) c
     | Session_guard \<Rightarrow> session_context H (tabs w) (db_now w) (hr_auth q) (hr_path q) c
     | Open_guard \<Rightarrow> cx_user c = None \<and> cx_token c = None \<and> cx_workspace c = None)"

text \<open>An answer that shows no row: a refusal, a problem, a text of the mux, the state of health.\<close>

fun bare :: "payload response \<Rightarrow> bool" where
  "bare NoContent = True"
| "bare (Answer (Problem status code, after)) = True"
| "bare (Answer (Reply status p, after)) = (case p of P_text t \<Rightarrow> True | P_location u \<Rightarrow> True | P_health h \<Rightarrow> True | _ \<Rightarrow> False)"

lemma turned_away_bare: "turned_away out \<Longrightarrow> bare out"
  by (cases out rule: turned_away.cases) simp_all

lemma entitled_authorised: "entitled H (tabs w) (db_now w) q c \<Longrightarrow> guard_of (hr_path q) = security x \<Longrightarrow> authorised H w q x c"
  by (cases "security x") (auto simp: entitled_def authorised_def guard_needs(1-3)[symmetric])

lemma bare_mux [simp]: "bare (Answer (mux_answer out))"
  by (cases out) simp_all

lemma generated_cases:
  obtains (served) x vs where "ServeMux routes (hr_method (in_http q)) (in_escaped q) = Serve x vs"
      "generated K H q c = wrapper K q H c vs x"
    | (mux) "generated K H q c = returnE (mux_answer (ServeMux routes (hr_method (in_http q)) (in_escaped q)))"
proof (cases "ServeMux routes (hr_method (in_http q)) (in_escaped q)")
  case (Serve x vs)
  then show ?thesis using served by (simp add: generated_def)
qed (rule mux, simp add: generated_def)+

lemma shown_returnE: "shown (returnE a s) = (Inr (Answer a), s)"
  by (simp add: shown_def returnE_def)

text \<open>C3: The whole HTTP server runs an operation only on the credential its security block in api/openapi.yaml asks for: a
  request comes to nothing but a bare answer, or it is the run of exactly one operation of the table of routes, with
  a context taken from an unrevoked API key for the four operations under /v1, from a live session for the
  operations on workspaces, mail and the account, and from nothing for the seven public ones, however the path is escaped.\<close>

theorem operations_behind_credentials:
  "(\<exists>out s'. serve_http K H q s = (Inr out, s') \<and> bare out) \<or>
   (\<exists>p x vs c s1. unescape (in_escaped q) = Some p \<and> ServeMux routes (hr_method (in_http q)) (in_escaped q) = Serve x vs \<and>
      authorised H (fst s) (the_request q p) x c \<and> serve_http K H q s = shown (wrapper K q H c vs x s1))"
proof (cases "unescape (in_escaped q)")
  case None
  then show ?thesis by (simp add: serve_http_def returnE_def)
next
  case (Some p)
  let ?q = "the_request q p"
  have run: "serve_http K H q s = Router H (\<lambda>_. generated K H q) ?q s" using Some by (simp add: serve_http_def)
  from Router_operation[where H = H and q = ?q and s = s and gen = "\<lambda>_. generated K H q"] show ?thesis
  proof (elim disjE exE conjE)
    fix out s' assume "Router H (\<lambda>_. generated K H q) ?q s = (Inr out, s')" "turned_away out"
    then show ?thesis using run turned_away_bare by metis
  next
    fix c s1 assume c: "entitled H (tabs (fst s)) (db_now (fst s)) ?q c" "Router H (\<lambda>_. generated K H q) ?q s = shown (generated K H q c s1)"
    show ?thesis
    proof (cases rule: generated_cases[of q K H c])
      case (served x vs)
      have "guard_of (hr_path ?q) = security x" using served_behind_guard[OF served(1) Some] by (simp add: the_request_def)
      with entitled_authorised[OF c(1)] served c(2) run Some show ?thesis by metis
    next
      case mux
      then show ?thesis using run c(2) shown_returnE bare_mux by metis
    qed
  qed
qed

section \<open>Without a credential\<close>

text \<open>The Authorization header holds no unrevoked key and no live session.\<close>

definition no_credential :: "'s api \<Rightarrow> world \<Rightarrow> string \<Rightarrow> bool" where
  "no_credential H w auth \<longleftrightarrow> (\<forall>key. bearerToken auth = Some key \<longrightarrow>
     (\<forall>k\<in>set (api_keys (tabs w)). ak_hash k = key_Hash (ac_lib (sv_accounts H)) key \<longrightarrow> ak_revoked k \<noteq> None) \<and>
     (\<forall>x\<in>set (sessions (tabs w)). s_hash x = hashToken (ac_lib (sv_accounts H)) key \<longrightarrow> \<not> live_session (db_now w) x))"

definition public_posts :: "string list" where
  "public_posts = [''/auth/register'', ''/auth/login'', ''/auth/verify-email'', ''/auth/resend-verification'',
     ''/auth/forgot-password'', ''/auth/reset-password'']"

lemma public_routes:
  "\<forall>(k, p, x)\<in>set routes. x \<in> set public_operations \<longrightarrow> x = Op_GetHealth \<or>
     k = ''POST'' \<and> (case literals (pattern p) of None \<Rightarrow> False | Some ls \<Rightarrow> joined ls \<in> set public_posts)"
  by code_simp

lemma served_public:
  assumes "ServeMux routes m p = Serve x vs" "unescape p = Some s" "security x = Open_guard" "x \<noteq> Op_GetHealth"
  shows "m = ''POST'' \<and> s \<in> set public_posts"
proof -
  obtain k q where r: "(k, q, x) \<in> set routes" "k = m \<or> k = ''GET'' \<and> m = ''HEAD''" "s = joined (segments p)"
    "matches (pattern q) (segments p) = Some vs"
    using ServeMux_Serve[OF assms(1,2)] routes_plain by fastforce
  have "x \<in> set public_operations" using assms(3) by (simp add: security_def split: if_splits)
  with public_routes r(1) assms(4) obtain ls where "k = ''POST''" "literals (pattern q) = Some ls" "joined ls \<in> set public_posts"
    by (fastforce split: option.splits)
  then show ?thesis using r literals_match[OF r(4)] by auto
qed

lemma wrapper_health:
  "\<exists>a s1. shown (wrapper K q H c vs Op_GetHealth s) = (Inr (Answer a), s1) \<and> bare (Answer a) \<and> unaffected (fst s) (fst s1) \<and> snd s1 = snd s"
  by (simp add: wrapper_def wrap_GetHealth_def strict_GetHealth_def GetHealth_def shows_as_def plain_def query_def bindE_def handleE_def
      onFst_def returnE_def shown_def unaffected_def spend_def db_down_def sql_def split: prod.split sum.split)

text \<open>C5: Without a credential the only requests that do anything are POSTs to the six public paths of the account: any other
  request whose Authorization header holds neither an unrevoked key nor the token of a live session, whatever its
  method, path, escapes, headers and body, leaves rows, queue, objects, mail and counters as they are and shows no row.\<close>

theorem no_credential_no_effect:
  assumes "no_credential H (fst s) (hr_auth (in_http q))" "serve_http K H q s = (r, s')"
  shows "(\<exists>a. r = Inr a \<and> bare a) \<and> unaffected (fst s) (fst s') \<and> snd s' = snd s \<or>
    hr_method (in_http q) = ''POST'' \<and> (\<exists>p\<in>set public_posts. unescape (in_escaped q) = Some p)"
proof (cases "unescape (in_escaped q)")
  case None
  then show ?thesis using assms(2) by (auto simp: serve_http_def returnE_def unaffected_def)
next
  case (Some p)
  let ?q = "the_request q p"
  have run: "Router H (\<lambda>_. generated K H q) ?q s = (r, s')" using assms(2) Some by (simp add: serve_http_def)
  have auth: "hr_auth ?q = hr_auth (in_http q)" by (simp add: the_request_def)
  from Router_operation[where H = H and q = ?q and s = s and gen = "\<lambda>_. generated K H q"] show ?thesis
  proof (elim disjE exE conjE)
    fix out t assume "Router H (\<lambda>_. generated K H q) ?q s = (Inr out, t)" "turned_away out" "unaffected (fst s) (fst t)" "snd t = snd s"
    then show ?thesis using run turned_away_bare by auto
  next
    fix c s1 assume c: "entitled H (tabs (fst s)) (db_now (fst s)) ?q c" "Router H (\<lambda>_. generated K H q) ?q s = shown (generated K H q c s1)"
      "guard_of (hr_path ?q) = Open_guard \<longrightarrow> s1 = s"
    have opened: "guard_of (hr_path ?q) = Open_guard"
      using c(1) assms(1) by (cases "guard_of (hr_path ?q)") (fastforce simp: entitled_def guard_needs(1-3)[symmetric] no_credential_def
          key_context_def session_context_def auth)+
    show ?thesis
    proof (cases rule: generated_cases[of q K H c])
      case (served x vs)
      have sec: "security x = Open_guard" using served_behind_guard[OF served(1) Some] opened by (simp add: the_request_def)
      show ?thesis
      proof (cases "x = Op_GetHealth")
        case True
        then have "(r, s') = shown (wrapper K q H c vs Op_GetHealth s)" using run c(2,3) opened served(2) by simp
        then show ?thesis using wrapper_health[of K q H c vs s] by auto
      next
        case False
        then show ?thesis using served_public[OF served(1) Some sec] Some by auto
      qed
    next
      case mux
      then have "(r, s') = (Inr (Answer (mux_answer (ServeMux routes (hr_method (in_http q)) (in_escaped q)))), s)" using run c(2,3) opened shown_returnE by metis
      then show ?thesis by (auto simp: unaffected_def)
    qed
  qed
qed

text \<open>The members of a workspace, asked for without a header and with an escaped letter.\<close>

theorem no_credential_no_effect_witness:
  "\<forall>K H s. \<exists>a s'. serve_http K H \<lparr>in_http = \<lparr>hr_method = ''GET'', hr_path = [], hr_auth = [], hr_agent = [], hr_forwarded = [],
        hr_remote = [], hr_host = None\<rparr>, in_escaped = ''/%77orkspaces/acme/members'', in_query = [], in_idempotency = None,
        in_ctype = [], in_body = []\<rparr> s = (Inr a, s') \<and> bare a \<and> unaffected (fst s) (fst s') \<and> snd s' = snd s"
proof (intro allI)
  fix K and H :: "'s api" and s :: "'s srv"
  let ?q = "\<lparr>in_http = \<lparr>hr_method = ''GET'', hr_path = [], hr_auth = [], hr_agent = [], hr_forwarded = [],
        hr_remote = [], hr_host = None\<rparr>, in_escaped = ''/%77orkspaces/acme/members'', in_query = [], in_idempotency = None,
        in_ctype = [], in_body = []\<rparr>"
  obtain r s' where run: "serve_http K H ?q s = (r, s')" by (cases "serve_http K H ?q s")
  have "bearerToken [] = None" by code_simp
  then have "no_credential H (fst s) (hr_auth (in_http ?q))" by (simp add: no_credential_def)
  from no_credential_no_effect[OF this run] run
  show "\<exists>a s'. serve_http K H ?q s = (Inr a, s') \<and> bare a \<and> unaffected (fst s) (fst s') \<and> snd s' = snd s" by auto
qed

end
