(* ===== verification/Footprint.thy ===== *)
theory Footprint imports Gateway ImapSync begin

text \<open>
  What each operation of the API may write: a set of tables for every operation of the routes, and the proof that a
  request leaves all others as they are, whatever it holds and whatever fails.
\<close>

section \<open>Tables\<close>

datatype table = T_users | T_identities | T_tokens | T_sessions | T_workspaces | T_members | T_domains | T_dkim_keys
  | T_api_keys | T_emails | T_events | T_attachments | T_mailboxes | T_folders | T_messages | T_smtp_creds

text \<open>Outside \<open>S\<close> nothing changed. The numbers of messages are drawn with the messages.\<close>

fun same_in :: "table \<Rightarrow> mstate \<Rightarrow> mstate \<Rightarrow> bool" where
  "same_in T_users s s' = (users (fst s') = users (fst s))"
| "same_in T_identities s s' = (identities (fst s') = identities (fst s))"
| "same_in T_tokens s s' = (tokens (fst s') = tokens (fst s))"
| "same_in T_sessions s s' = (sessions (fst s') = sessions (fst s))"
| "same_in T_workspaces s s' = (workspaces (fst s') = workspaces (fst s))"
| "same_in T_members s s' = (members (fst s') = members (fst s))"
| "same_in T_domains s s' = (domains (fst s') = domains (fst s))"
| "same_in T_dkim_keys s s' = (dkim_keys (fst s') = dkim_keys (fst s))"
| "same_in T_api_keys s s' = (api_keys (fst s') = api_keys (fst s))"
| "same_in T_emails s s' = (emails (fst s') = emails (fst s))"
| "same_in T_events s s' = (events (fst s') = events (fst s))"
| "same_in T_attachments s s' = (attachments (fst s') = attachments (fst s))"
| "same_in T_mailboxes s s' = (mailboxes (fst s') = mailboxes (fst s))"
| "same_in T_folders s s' = (folders (fst s') = folders (fst s))"
| "same_in T_messages s s' = (messages (fst s') = messages (fst s) \<and> snd s' = snd s)"
| "same_in T_smtp_creds s s' = (smtp_creds (fst s') = smtp_creds (fst s))"

definition within :: "table set \<Rightarrow> mstate \<Rightarrow> mstate \<Rightarrow> bool" where
  "within S s s' \<longleftrightarrow> (\<forall>x. x \<in> S \<or> same_in x s s')"

lemma same_in_refl [simp]: "same_in x s s"
  by (cases x) simp_all

lemma same_in_trans: "same_in x s s' \<Longrightarrow> same_in x s' s'' \<Longrightarrow> same_in x s s''"
  by (cases x) simp_all

interpretation frame: store_relation "within S" for S
proof
  show "within S s s" for s by (simp add: within_def)
  show "within S s s''" if "within S s s'" "within S s' s''" for s s' s''
    using that same_in_trans unfolding within_def by blast
  show "within S (t, n) (t, n')" if w: "within S (t, n) (t', n')" for t n t' n'
    unfolding within_def
  proof
    fix x show "x \<in> S \<or> same_in x (t, n) (t, n')" using w[unfolded within_def, rule_format, of x] by (cases x) auto
  qed
qed

declare frame.store_refl [simp]

lemma within_mono: "within S s s' \<Longrightarrow> S \<subseteq> S' \<Longrightarrow> within S' s s'"
  unfolding within_def by blast

lemma within_upd [simp]:
  "T_users \<in> S \<Longrightarrow> within S s (t\<lparr>users := x_users\<rparr>, n) = within S s (t, n)"
  "T_identities \<in> S \<Longrightarrow> within S s (t\<lparr>identities := x_identities\<rparr>, n) = within S s (t, n)"
  "T_tokens \<in> S \<Longrightarrow> within S s (t\<lparr>tokens := x_tokens\<rparr>, n) = within S s (t, n)"
  "T_sessions \<in> S \<Longrightarrow> within S s (t\<lparr>sessions := x_sessions\<rparr>, n) = within S s (t, n)"
  "T_workspaces \<in> S \<Longrightarrow> within S s (t\<lparr>workspaces := x_workspaces\<rparr>, n) = within S s (t, n)"
  "T_members \<in> S \<Longrightarrow> within S s (t\<lparr>members := x_members\<rparr>, n) = within S s (t, n)"
  "T_domains \<in> S \<Longrightarrow> within S s (t\<lparr>domains := x_domains\<rparr>, n) = within S s (t, n)"
  "T_dkim_keys \<in> S \<Longrightarrow> within S s (t\<lparr>dkim_keys := x_dkim_keys\<rparr>, n) = within S s (t, n)"
  "T_api_keys \<in> S \<Longrightarrow> within S s (t\<lparr>api_keys := x_api_keys\<rparr>, n) = within S s (t, n)"
  "T_emails \<in> S \<Longrightarrow> within S s (t\<lparr>emails := x_emails\<rparr>, n) = within S s (t, n)"
  "T_events \<in> S \<Longrightarrow> within S s (t\<lparr>events := x_events\<rparr>, n) = within S s (t, n)"
  "T_attachments \<in> S \<Longrightarrow> within S s (t\<lparr>attachments := x_attachments\<rparr>, n) = within S s (t, n)"
  "T_mailboxes \<in> S \<Longrightarrow> within S s (t\<lparr>mailboxes := x_mailboxes\<rparr>, n) = within S s (t, n)"
  "T_folders \<in> S \<Longrightarrow> within S s (t\<lparr>folders := x_folders\<rparr>, n) = within S s (t, n)"
  "T_messages \<in> S \<Longrightarrow> within S s (t\<lparr>messages := x_messages\<rparr>, n) = within S s (t, n)"
  "T_smtp_creds \<in> S \<Longrightarrow> within S s (t\<lparr>smtp_creds := x_smtp_creds\<rparr>, n) = within S s (t, n)"
  unfolding within_def by (rule iff_allI, rename_tac x, case_tac x, simp_all)+

section \<open>Handlers over any relation of the store\<close>

context store_relation
begin

lemma st_randInt: "keeps (on_store R) (randInt m)"
  by (auto simp: keeps_def on_store_def mstate_def randInt_def store_refl split: list.splits option.splits)

lemma st_randBytes: "keeps (on_store R) (randBytes n)"
  unfolding randBytes_def by (intro store_rules)

lemma st_same: "(\<And>w r w'. m w = (r, w') \<Longrightarrow> tabs w' = tabs w \<and> uid_seq w' = uid_seq w) \<Longrightarrow> keeps (on_store R) m"
  by (rule keepsI) (simp add: on_store_def mstate_def store_refl)

lemma st_scope: "keeps (on_store R) (scope cu slug r)"
  unfolding scope_def BySlugForUser_def workspace_where_def MembershipRole_def by (intro store_rules)

lemma st_orElse:
  "keeps (on_store R) m \<Longrightarrow> (\<And>a. keeps (on_store R) (k a)) \<Longrightarrow> keeps (on_store R) (orElse m f k)"
  unfolding orElse_def by (intro store_rules)

lemmas st_handler = store_rules st_randInt st_randBytes st_scope st_orElse

lemma st_memberScope: "(\<And>i. keeps (on_store R) (k i)) \<Longrightarrow> keeps (on_store R) (memberScope cu slug k)"
  unfolding memberScope_def by (intro st_handler)

lemma st_member: "(\<And>ws. keeps (on_store R) (k ws)) \<Longrightarrow> keeps (on_store R) (as_member c slug k)"
  unfolding as_member_def by (intro st_handler)

lemma st_admin: "(\<And>ws. keeps (on_store R) (k ws)) \<Longrightarrow> keeps (on_store R) (as_admin c slug k)"
  unfolding as_admin_def by (intro st_handler)

text \<open>The state of the server is the world and what the limiter counts, of which the relation says nothing.\<close>

lemma bx_snd: "keeps (on_box R) (onSnd f)"
  by (auto simp: keeps_def on_box_def on_store_def onSnd_def store_refl split: prod.splits)

lemmas http_basic = keeps_basic[OF refls(2)] keeps_handleE[OF transs(2)] keeps_bindE[OF transs(2)] keeps_ignoreE
  bx_fst bx_snd keeps_if keeps_case_option keeps_case_prod keeps_case_sum keeps_Let

lemma bx_plain: "keeps (on_store R) m \<Longrightarrow> keeps (on_box R) (plain m)"
  unfolding plain_def by (intro http_basic)

lemma bx_limited: "keeps (on_box R) k \<Longrightarrow> keeps (on_box R) (limited H key rules k)"
  unfolding limited_def by (intro http_basic)

lemma bx_shows: "keeps (on_box R) m \<Longrightarrow> keeps (on_box R) (shows_as f m)"
  unfolding shows_as_def by (intro http_basic)

lemma bx_needed: "(\<And>x. keeps (on_box R) (k x)) \<Longrightarrow> keeps (on_box R) (needed v k)"
  unfolding needed_def by (intro http_basic)

lemma bx_idempotency: "(\<And>x. keeps (on_box R) (k x)) \<Longrightarrow> keeps (on_box R) (idempotency K q k)"
  unfolding idempotency_def by (auto split: option.split list.split intro: http_basic bx_needed)

lemmas http_rules = http_basic bx_plain bx_limited bx_shows bx_idempotency

end

section \<open>Statements\<close>

named_theorems writes_rules \<open>what a statement or an operation may write\<close>

text \<open>Collaborators that touch nothing of the store, and reads.\<close>

abbreviation stays :: "table set \<Rightarrow> (world, 'e, 'a) step \<Rightarrow> bool" where
  "stays S m \<equiv> keeps (on_store (within S)) m"

lemma fp_users [writes_rules]: "T_users \<in> S \<Longrightarrow> stays S (sql (insert_user u))" "T_users \<in> S \<Longrightarrow> stays S (update_users P f)"
  "T_users \<in> S \<Longrightarrow> stays S (MarkEmailVerified i)"
  unfolding update_users_def MarkEmailVerified_def by (rule frame.st_sql, auto simp: insert_user_def split: if_splits)+

lemma fp_identities [writes_rules]: "T_identities \<in> S \<Longrightarrow> stays S (sql (insert_identity i))"
  "T_identities \<in> S \<Longrightarrow> stays S (TouchIdentityLogin p s)" "T_identities \<in> S \<Longrightarrow> stays S (set_password_hash u h)"
  unfolding set_password_hash_def TouchIdentityLogin_def Let_def
  by (intro keeps_ignoreE frame.st_sql; auto simp: insert_identity_def split: if_splits)+

lemma fp_tokens [writes_rules]: "T_tokens \<in> S \<Longrightarrow> stays S (sql (\<lambda>now t. (Inr (), t\<lparr>tokens := f now t\<rparr>)))"
  "T_tokens \<in> S \<Longrightarrow> stays S (sql (\<lambda>now. insert_token (k now) now))" "T_tokens \<in> S \<Longrightarrow> stays S (ConsumeToken p h)"
  "T_tokens \<in> S \<Longrightarrow> stays S (update_token i g)"
  unfolding ConsumeToken_def update_token_def by (rule frame.st_sql, auto simp: insert_token_def split: if_splits option.splits)+

lemma fp_sessions [writes_rules]: "T_sessions \<in> S \<Longrightarrow> stays S (insertSession L u h a i d)" "T_sessions \<in> S \<Longrightarrow> stays S (update_sessions P f)"
  unfolding insertSession_def update_sessions_def
  by (intro frame.st_uuid frame.st_sql; auto simp: insert_session_def split: if_splits)+

lemma fp_tenants [writes_rules]: "T_workspaces \<in> S \<Longrightarrow> stays S (sql (insert_workspace x))" "T_members \<in> S \<Longrightarrow> stays S (sql (insert_member m))"
  "T_members \<in> S \<Longrightarrow> T_smtp_creds \<in> S \<Longrightarrow> stays S (change_members i u f)"
  unfolding change_members_def Let_def
  by (rule frame.st_sql, auto simp: insert_workspace_def insert_member_def revoke_issued_def split: if_splits)+

lemma fp_domains [writes_rules]: "T_domains \<in> S \<Longrightarrow> stays S (sql (insert_domain d))" "T_domains \<in> S \<Longrightarrow> stays S (RecordCheck i ok r)"
  "T_domains \<in> S \<Longrightarrow> stays S (promote i)" "T_domains \<in> S \<Longrightarrow> stays S (sql (\<lambda>now t. (Inr (), t\<lparr>domains := f now t\<rparr>)))"
  unfolding RecordCheck_def update_domain_def promote_def
  by (rule frame.st_sql, auto simp: insert_domain_def split: if_splits option.splits)+

lemma fp_dkim [writes_rules]: "T_dkim_keys \<in> S \<Longrightarrow> stays S (sql (insert_key k))" "T_dkim_keys \<in> S \<Longrightarrow> stays S (retire_others d k')"
  "T_dkim_keys \<in> S \<Longrightarrow> stays S (activate_key k')"
  unfolding retire_others_def activate_key_def
  by (rule frame.st_sql, auto simp: insert_key_def Let_def split: if_splits)+

lemma fp_api_keys [writes_rules]: "T_api_keys \<in> S \<Longrightarrow> stays S (sql (insert_apikey k))" "T_api_keys \<in> S \<Longrightarrow> stays S (revoke_key i j)"
  "T_api_keys \<in> S \<Longrightarrow> stays S (touch_key j)"
  unfolding revoke_key_def touch_key_def Let_def
  by (intro keeps_ignoreE frame.st_sql; auto simp: insert_apikey_def split: if_splits)+

lemma fp_emails [writes_rules]: "T_emails \<in> S \<Longrightarrow> stays S (sql (insert_email p i))" "T_emails \<in> S \<Longrightarrow> stays S (sql (update_email P f))"
  "T_events \<in> S \<Longrightarrow> stays S (insertEvent i ty d)"
  unfolding insertEvent_def
  by (rule frame.st_sql, auto simp: insert_email_def update_email_def insert_event_def Let_def split: if_splits option.splits)+

lemma fp_attachments [writes_rules]: "T_attachments \<in> S \<Longrightarrow> stays S (InsertAttachment ws f c n h k)"
  "T_attachments \<in> S \<Longrightarrow> stays S (AttachToEmail ws i ids)"
  unfolding InsertAttachment_def AttachToEmail_def Let_def
  by (intro frame.st_uuid frame.st_sql; auto simp: insert_attachment_def split: if_splits)+

lemma fp_mailboxes [writes_rules]: "T_mailboxes \<in> S \<Longrightarrow> T_folders \<in> S \<Longrightarrow> stays S (sql (insert_mailbox v v' b))"
  "T_mailboxes \<in> S \<Longrightarrow> T_smtp_creds \<in> S \<Longrightarrow> stays S (AssignOwner ws i ow)"
  "T_smtp_creds \<in> S \<Longrightarrow> stays S (SetSMTPPassword ws i u h)" "T_smtp_creds \<in> S \<Longrightarrow> stays S (DeleteSMTPPassword ws i)"
  unfolding AssignOwner_def SetSMTPPassword_def DeleteSMTPPassword_def Let_def
  by (intro frame.store_rules frame.st_sql; auto simp: insert_mailbox_def split: if_splits)+

lemma fp_messages [writes_rules]: "T_folders \<in> S \<Longrightarrow> stays S (add_folder b n)" "T_messages \<in> S \<Longrightarrow> stays S (update_message Q f)"
  "T_messages \<in> S \<Longrightarrow> stays S (sql (\<lambda>now. insert_message (g now) now))" "T_messages \<in> S \<Longrightarrow> stays S nextUID"
proof -
  show "stays S nextUID" if "T_messages \<in> S"
    using that by (auto simp: keeps_def on_store_def mstate_def nextUID_def within_def intro!: allI) (case_tac x; simp)
qed (unfold add_folder_def update_message_def, (intro frame.store_rules frame.st_sql;
    auto simp: insert_folder_def insert_message_def split: if_splits option.splits)+)

section \<open>Operations of the services\<close>

lemma stays_mono: "stays {} m \<Longrightarrow> stays S m"
  using within_mono[of "{}"] by (auto simp: keeps_def on_store_def)

text \<open>Accounts.\<close>

lemma fp_newToken [writes_rules]: "stays S (newToken L)"
  unfolding newToken_def by (intro frame.st_handler writes_rules)

lemma fp_hashPassword [writes_rules]: "stays S (hash_or_invalid L p)" "stays S (hashPassword L p)"
  unfolding hash_or_invalid_def hashPassword_def by (intro frame.st_handler writes_rules; (assumption | simp)?)+

lemma fp_user_reads [writes_rules]: "stays S (UserByID i)" "stays S (UserByEmail e)" "stays S (PasswordIdentity e)"
  "stays S (HasPasswordIdentity i)" "stays S (password_hash_of i)" "stays S (UserBySessionToken h)"
  unfolding UserByID_def UserByEmail_def PasswordIdentity_def HasPasswordIdentity_def password_hash_of_def user_where_def UserBySessionToken_def
  by (intro frame.st_handler writes_rules; (assumption | simp)?)+

lemma fp_CreateWithPassword [writes_rules]: "T_users \<in> S \<Longrightarrow> T_identities \<in> S \<Longrightarrow> stays S (CreateWithPassword e n h)"
  unfolding CreateWithPassword_def by (intro frame.st_handler writes_rules)

lemma fp_IssueToken [writes_rules]: "T_tokens \<in> S \<Longrightarrow> stays S (IssueToken u p h d)"
  unfolding IssueToken_def by (intro frame.st_handler writes_rules)

definition calm_mail :: "account_service \<Rightarrow> bool" where
  "calm_mail A \<longleftrightarrow> (\<forall>m. stays {} (ac_send A m)) \<and> (\<forall>f d. ac_signer A = Some f \<longrightarrow> stays {} (f d))"

lemma fp_mail [writes_rules]:
  assumes "calm_mail A"
  shows "stays S (ac_send A m)" "stays S (signMailFrom A)"
proof -
  show "stays S (ac_send A m)" by (rule stays_mono) (use assms in \<open>simp add: calm_mail_def\<close>)
  have "stays S (f d)" if "ac_signer A = Some f" for f d by (rule stays_mono) (use assms that in \<open>simp add: calm_mail_def\<close>)
  then show "stays S (signMailFrom A)" unfolding signMailFrom_def by (auto split: option.split intro!: frame.st_handler)
qed

lemma fp_sendVerificationEmail [writes_rules]: "calm_mail A \<Longrightarrow> T_tokens \<in> S \<Longrightarrow> stays S (sendVerificationEmail A u)"
  unfolding sendVerificationEmail_def newOTP_def by (intro frame.st_handler writes_rules)

lemma fp_startSession [writes_rules]: "T_sessions \<in> S \<Longrightarrow> stays S (startSession A u rc)" "T_sessions \<in> S \<Longrightarrow> stays S (startPasswordSession A i h rc)"
  unfolding startSession_def startPasswordSession_def CreateSession_def by (intro frame.st_handler writes_rules; (assumption | simp)?)+

lemma fp_Register [writes_rules]:
  "calm_mail A \<Longrightarrow> {T_users, T_identities, T_tokens, T_sessions} \<subseteq> S \<Longrightarrow> stays S (Register A q rc)"
  unfolding Register_def by (intro frame.st_handler writes_rules; simp)

lemma fp_Login [writes_rules]: "{T_identities, T_sessions} \<subseteq> S \<Longrightarrow> stays S (Login A e p rc)"
  unfolding Login_def by (intro frame.st_handler writes_rules; simp)

lemma fp_VerifyEmail [writes_rules]: "{T_users, T_tokens} \<subseteq> S \<Longrightarrow> stays S (VerifyEmail A e c)"
  unfolding VerifyEmail_def ConsumeOTP_def otp_attempt_def by (intro frame.st_handler writes_rules; simp)

lemma fp_Resend [writes_rules]: "calm_mail A \<Longrightarrow> T_tokens \<in> S \<Longrightarrow> stays S (ResendVerification A e)"
  "calm_mail A \<Longrightarrow> T_tokens \<in> S \<Longrightarrow> stays S (RequestPasswordReset A e)"
  unfolding ResendVerification_def RequestPasswordReset_def by (intro frame.st_handler writes_rules; assumption)+

lemma fp_passwords [writes_rules]: "{T_users, T_identities, T_sessions} \<subseteq> S \<Longrightarrow> stays S (UpdatePassword i h)" "T_sessions \<in> S \<Longrightarrow> stays S (RevokeAllSessions i)"
  "T_users \<in> S \<Longrightarrow> stays S (clear_must_change i)"
  unfolding UpdatePassword_def RevokeAllSessions_def clear_must_change_def by (intro frame.st_handler writes_rules; (assumption | simp)?)+

lemma fp_ResetPassword [writes_rules]: "{T_users, T_identities, T_tokens, T_sessions} \<subseteq> S \<Longrightarrow> stays S (ResetPassword A t p rc)"
  unfolding ResetPassword_def by (intro frame.st_handler writes_rules; simp)

lemma fp_Logout [writes_rules]: "T_sessions \<in> S \<Longrightarrow> stays S (Logout A t)"
  unfolding Logout_def RevokeSession_def by (intro frame.st_handler writes_rules)

lemma fp_ChangeInitial [writes_rules]: "{T_users, T_identities, T_tokens, T_sessions} \<subseteq> S \<Longrightarrow> stays S (ChangeInitialPassword A i c p rc)"
  unfolding ChangeInitialPassword_def replace_initial_def by (intro frame.st_handler writes_rules; simp)

text \<open>Tenants, keys, domains.\<close>

lemma fp_Ws_Create [writes_rules]: "{T_workspaces, T_members} \<subseteq> S \<Longrightarrow> stays S (Ws_Create u slug n)"
  unfolding Ws_Create_def Ws_Store_Create_def by (intro frame.st_handler writes_rules; simp)

lemma fp_AllowsAddress [writes_rules]: "stays S (AllowsAddress u ws a)"
  unfolding AllowsAddress_def owner_of_def personal_of_def AllowsSender_def ByName_def domain_where_def by (intro frame.st_handler writes_rules)

lemma fp_domain_reads [writes_rules]: "stays S (ByName ws n)" "stays S (DKIMKeys i)" "stays S (Dom_List ws)" "stays S (Records D d)"
  unfolding ByName_def domain_where_def DKIMKeys_def Dom_List_def ListForWorkspace_def Records_def by (intro frame.st_handler writes_rules; (assumption | simp)?)+

lemma fp_generateKey [writes_rules]: "T_dkim_keys \<in> S \<Longrightarrow> stays S (generateKey D i a)"
  unfolding generateKey_def generateDKIM_def Seal_def CreateDKIMKey_def by (intro frame.st_handler writes_rules)

lemma fp_record_ownership [writes_rules]: "T_domains \<in> S \<Longrightarrow> stays S (record_ownership rs d)"
proof (induction rs arbitrary: d)
  case (Cons r rs)
  then show ?case unfolding record_ownership.simps by (intro frame.st_handler writes_rules)
qed (simp, intro frame.st_handler writes_rules)

lemma fp_domain_ops [writes_rules]: "{T_domains, T_dkim_keys} \<subseteq> S \<Longrightarrow> stays S (Add D ws n)" "{T_dkim_keys} \<subseteq> S \<Longrightarrow> stays S (RotateDKIM D ws n)"
  "{T_domains, T_dkim_keys} \<subseteq> S \<Longrightarrow> stays S (Verify D ws n)" "{T_domains} \<subseteq> S \<Longrightarrow> stays S (Dom_SetPrimary ws n)" "stays S (Dom_Get ws n)"
  unfolding Add_def newDomainToken_def Dom_Create_def RotateDKIM_def Verify_def promotePendingKey_def ActivateDKIMKey_def Dom_SetPrimary_def
    Store_SetPrimary_def Dom_Get_def by (intro frame.st_handler writes_rules; (assumption | simp)?)+

lemma fp_list_records [writes_rules]: "stays S (list_records H ds)"
proof (induction ds)
  case (Cons d ds)
  then show ?case unfolding list_records.simps by (intro frame.st_handler writes_rules)
qed (simp, intro frame.st_handler)

text \<open>The cascades.\<close>

definition boxes_tables :: "table set" where "boxes_tables = {T_emails, T_mailboxes, T_folders, T_messages, T_smtp_creds}"
definition domain_tables :: "table set" where "domain_tables = boxes_tables \<union> {T_domains, T_dkim_keys}"
definition tenant_tables :: "table set" where
  "tenant_tables = domain_tables \<union> {T_workspaces, T_members, T_api_keys, T_events, T_attachments}"

lemma within_retain [simp]: "T_emails \<in> S \<Longrightarrow> within S s (retain bs t, n) = within S s (t, n)"
  by (induction bs arbitrary: t) (auto split: option.split)

lemma within_drop_boxes: "boxes_tables \<subseteq> S \<Longrightarrow> within S s (drop_boxes P t, n) = within S s (t, n)"
  by (simp add: drop_boxes_def Let_def boxes_tables_def)

lemma within_drop_domains: "drop_domains P t = Inr t' \<Longrightarrow> domain_tables \<subseteq> S \<Longrightarrow> within S s (t', n) = within S s (t, n)"
  by (auto simp: drop_domains_def Let_def domain_tables_def within_drop_boxes split: if_splits)

lemma within_drop_workspaces:
  assumes "drop_workspaces P t = Inr t'" "tenant_tables \<subseteq> S"
  shows "within S s (t', n) = within S s (t, n)"
proof -
  have sub: "domain_tables \<subseteq> S" "boxes_tables \<subseteq> S" "T_workspaces \<in> S" "T_members \<in> S" "T_api_keys \<in> S" "T_emails \<in> S" "T_events \<in> S" "T_attachments \<in> S"
    using assms(2) by (auto simp: tenant_tables_def domain_tables_def boxes_tables_def)
  obtain t1 where "drop_domains (\<lambda>d. d_ws d \<in> w_id ` set (filter P (workspaces t))) t = Inr t1"
    using assms(1) by (auto simp: drop_workspaces_def Let_def split: sum.splits)
  with assms(1) sub show ?thesis by (auto simp: drop_workspaces_def Let_def within_drop_boxes within_drop_domains)
qed

lemma fp_Delete [writes_rules]: "domain_tables \<subseteq> S \<Longrightarrow> stays S (Dom_Delete ws n)" "tenant_tables \<subseteq> S \<Longrightarrow> stays S (DeleteOwned u slug)"
  unfolding Dom_Delete_def Store_Delete_def DeleteOwned_def Let_def
  by (intro frame.store_rules frame.st_sql; auto simp: within_drop_domains within_drop_workspaces split: sum.splits)+

text \<open>Sending and received mail.\<close>

definition calm_send :: "service \<Rightarrow> bool" where
  "calm_send E \<longleftrightarrow> (\<forall>i. stays {} (es_queue E i)) \<and>
     (\<forall>B k d. es_blobs E = Some B \<longrightarrow> stays {} (bs_Put B k d) \<and> stays {} (bs_Delete B k)) \<and>
     (\<forall>g ws from. es_domains E = Some g \<longrightarrow> stays {} (g ws from)) \<and>
     (\<forall>w. tabs (es_other E w) = tabs w \<and> uid_seq (es_other E w) = uid_seq w)"

lemma fp_es [writes_rules]:
  assumes "calm_send E"
  shows "stays S (es_queue E i)" "stays S (checkFrom E ws from)" "stays S (meanwhile (es_other E))"
proof -
  show "stays S (es_queue E i)" by (rule stays_mono) (use assms in \<open>simp add: calm_send_def\<close>)
  have "stays S (g ws from)" if "es_domains E = Some g" for g by (rule stays_mono) (use assms that in \<open>simp add: calm_send_def\<close>)
  then show "stays S (checkFrom E ws from)" unfolding checkFrom_def by (auto split: option.split intro!: frame.st_handler)
  show "stays S (meanwhile (es_other E))" by (rule frame.st_same) (use assms in \<open>auto simp: calm_send_def meanwhile_def\<close>)
qed

lemma fp_blobs:
  assumes "calm_send E" "es_blobs E = Some B"
  shows "stays S (bs_Put B k d)" "stays S (bs_Delete B k)"
  by (rule stays_mono, use assms in \<open>simp add: calm_send_def\<close>)+

lemma fp_email_reads [writes_rules]: "stays S (AttachmentsByEmailID i)" "stays S (ByIdempotencyKey ws k)" "stays S (check_attachments E ws ids)"
  "stays S (ByID ws j)" "stays S (CanReadOutbound u j)" "stays S (SearchForUser u q n)"
  unfolding AttachmentsByEmailID_def ByIdempotencyKey_def email_where_def check_attachments_def AttachmentsByIDs_def ByID_def CanReadOutbound_def
    SearchForUser_def by (intro frame.st_handler writes_rules; (assumption | simp)?)+

lemma fp_rows [writes_rules]: "stays S m \<Longrightarrow> stays S (no_row m)" "stays S m \<Longrightarrow> stays S (with_row r m)"
  unfolding no_row_def with_row_def by (intro frame.st_handler; assumption)+

lemma fp_Create [writes_rules]: "{T_emails, T_events} \<subseteq> S \<Longrightarrow> stays S (Create p)"
  unfolding Create_def by (intro frame.st_handler writes_rules; simp)

lemma fp_Send [writes_rules]: "calm_send E \<Longrightarrow> {T_emails, T_events, T_attachments} \<subseteq> S \<Longrightarrow> stays S (Send E ws k q)"
  unfolding Send_def send_again_def send_new_def attach_files_def by (intro frame.st_handler writes_rules; simp)

lemma fp_Upload [writes_rules]:
  assumes "calm_send E" "T_attachments \<in> S"
  shows "stays S (UploadAttachment E ws f c d)"
proof (cases "es_blobs E")
  case (Some B)
  show ?thesis unfolding UploadAttachment_def Some option.case(2) Let_def by (intro frame.st_handler writes_rules fp_blobs[OF assms(1) Some] assms)
qed (simp add: UploadAttachment_def, intro frame.st_handler)

lemma fp_inbox_reads [writes_rules]: "stays S (readableMessage cu ws i)" "stays S (own_mailbox cu ws i)" "stays S (Inb_Presentation M N b i)"
  "stays S (Inb_Attachment M N b i sel)" "stays S (MailboxesForWorkspace ws)" "stays S (CanAccess u i)" "stays S (MembershipRole ws u)"
  "stays S (SearchFolderMessages b f q l k)" "stays S (ListFolderMessages b f l k)" "stays S (MailboxByID i)"
  unfolding readableMessage_def MessageByID_def CanAccess_def own_mailbox_def MailboxByID_def mailbox_where_def Inb_Presentation_def
    Inb_Attachment_def raw_of_def Let_def MailboxesForWorkspace_def MembershipRole_def SearchFolderMessages_def ListFolderMessages_def
  by (intro frame.st_handler; (assumption | simp)?)+

lemma fp_list_boxes [writes_rules]: "stays S (list_boxes cu ws role bs)"
proof (induction bs)
  case (Cons b bs)
  then show ?case unfolding list_boxes.simps by (intro frame.st_handler writes_rules)
qed (simp, intro frame.st_handler)

lemma fp_mailbox_ops [writes_rules]: "{T_mailboxes, T_folders} \<subseteq> S \<Longrightarrow> stays S (Inb_CreateMailbox d l n ow)" "T_messages \<in> S \<Longrightarrow> stays S (MarkRead ws i)"
  "{T_messages, T_folders} \<subseteq> S \<Longrightarrow> stays S (MoveMessage b i f)"
  unfolding Inb_CreateMailbox_def MarkRead_def MoveMessage_def by (intro frame.st_handler writes_rules; simp)+

section \<open>The gates\<close>

lemma fp_Api_Middleware [writes_rules]: "T_api_keys \<in> S \<Longrightarrow> stays S (Api_Middleware L a)"
  unfolding Api_Middleware_def lookup_key_def by (intro frame.st_handler writes_rules)

lemma fp_RequireSession [writes_rules]: "T_sessions \<in> S \<Longrightarrow> stays S (RequireSession A a p)"
  unfolding RequireSession_def TouchSession_def by (intro frame.st_handler writes_rules)

text \<open>A gate notes when a key or a session was last used, and changes nothing else.\<close>

definition touched :: "db \<Rightarrow> db \<Rightarrow> bool" where
  "touched t t' \<longleftrightarrow> t' = t\<lparr>sessions := sessions t', api_keys := api_keys t'\<rparr> \<and>
     map (\<lambda>x. x\<lparr>s_seen := None\<rparr>) (sessions t') = map (\<lambda>x. x\<lparr>s_seen := None\<rparr>) (sessions t) \<and>
     map (\<lambda>k. k\<lparr>ak_used := None\<rparr>) (api_keys t') = map (\<lambda>k. k\<lparr>ak_used := None\<rparr>) (api_keys t)"

lemma touched_refl [simp]: "touched t t"
  by (simp add: touched_def)

lemma Api_Middleware_touches:
  assumes "Api_Middleware L a w = (r, w')"
  shows "touched (tabs w) (tabs w') \<and> uid_seq w' = uid_seq w"
  using assms
  by (cases r) (auto simp: Api_Middleware_def lookup_key_def touch_key_def step_iffs sql_def db_down_def spend_def touched_def upd_where_def
      split: option.splits if_splits prod.splits)

lemma RequireSession_touches:
  assumes "RequireSession A a p w = (r, w')"
  shows "touched (tabs w) (tabs w') \<and> uid_seq w' = uid_seq w"
  using assms
  by (cases r) (auto simp: RequireSession_def UserBySessionToken_def TouchSession_def update_sessions_def step_iffs sql_def db_down_def
      spend_def touched_def upd_where_def split: option.splits if_splits prod.splits)

section \<open>What each operation writes\<close>

definition writes :: "operation \<Rightarrow> table set" where
  "writes x = (case x of
     Op_Register \<Rightarrow> {T_users, T_identities, T_tokens, T_sessions} | Op_Login \<Rightarrow> {T_identities, T_sessions}
   | Op_Logout \<Rightarrow> {T_sessions} | Op_VerifyEmail \<Rightarrow> {T_users, T_tokens} | Op_ResendVerification \<Rightarrow> {T_tokens} | Op_ForgotPassword \<Rightarrow> {T_tokens}
   | Op_ResetPassword \<Rightarrow> {T_users, T_identities, T_tokens, T_sessions} | Op_ChangeInitialPassword \<Rightarrow> {T_users, T_identities, T_tokens, T_sessions}
   | Op_SendEmail \<Rightarrow> {T_emails, T_events, T_attachments} | Op_SendWorkspaceEmail \<Rightarrow> {T_emails, T_events, T_attachments}
   | Op_UploadAttachment \<Rightarrow> {T_attachments} | Op_UploadWorkspaceAttachment \<Rightarrow> {T_attachments}
   | Op_CreateWorkspace \<Rightarrow> {T_workspaces, T_members} | Op_DeleteWorkspace \<Rightarrow> tenant_tables
   | Op_CreateApiKey \<Rightarrow> {T_api_keys} | Op_RevokeApiKey \<Rightarrow> {T_api_keys}
   | Op_AddDomain \<Rightarrow> {T_domains, T_dkim_keys} | Op_VerifyDomain \<Rightarrow> {T_domains, T_dkim_keys} | Op_UpdateDomain \<Rightarrow> {T_domains}
   | Op_RotateDkimKey \<Rightarrow> {T_dkim_keys} | Op_DeleteDomain \<Rightarrow> domain_tables
   | Op_CreateMailbox \<Rightarrow> {T_mailboxes, T_folders} | Op_AssignMailboxOwner \<Rightarrow> {T_mailboxes, T_smtp_creds}
   | Op_SetMailboxSMTPPassword \<Rightarrow> {T_smtp_creds} | Op_DeleteMailboxSMTPPassword \<Rightarrow> {T_smtp_creds}
   | Op_AddMember \<Rightarrow> {T_members} | Op_UpdateMember \<Rightarrow> {T_members, T_smtp_creds} | Op_RemoveMember \<Rightarrow> {T_members, T_smtp_creds}
   | Op_MarkMessageRead \<Rightarrow> {T_messages} | Op_MoveReceivedMessage \<Rightarrow> {T_messages, T_folders} | _ \<Rightarrow> {})"

definition calm_api :: "'s api \<Rightarrow> bool" where
  "calm_api H \<longleftrightarrow> calm_mail (sv_accounts H) \<and> (\<forall>u. calm_send (sv_emails H u))"

lemma calm_apiD [writes_rules]: "calm_api H \<Longrightarrow> calm_mail (sv_accounts H)" "calm_api H \<Longrightarrow> calm_send (sv_emails H u)"
  by (simp_all add: calm_api_def)

abbreviation serves :: "table set \<Rightarrow> ('s srv, 'e, 'a) step \<Rightarrow> bool" where
  "serves S m \<equiv> keeps (on_box (within S)) m"

lemma keeps_case_code: "(\<And>t. keeps P (f t)) \<Longrightarrow> (\<And>n. keeps P (g n)) \<Longrightarrow> keeps P h \<Longrightarrow>
    keeps P (case e of Acc_ErrCodeLocked t \<Rightarrow> f t | Acc_ErrInvalidToken n \<Rightarrow> g n | _ \<Rightarrow> h)"
  by (cases e) simp_all

lemmas serve_rules = keeps_case_code frame.http_rules frame.bx_needed frame.st_handler

lemmas decoders = json_def multipart_def path_text_def path_uuid_def required_def optional_text_def optional_int_def

lemmas account_defs = wrap_Register_def strict_Register_def Http_Register_def wrap_Login_def strict_Login_def Http_Login_def
  wrap_Logout_def strict_Logout_def Http_Logout_def wrap_VerifyEmail_def strict_VerifyEmail_def Http_VerifyEmail_def
  wrap_ResendVerification_def strict_ResendVerification_def Http_ResendVerification_def wrap_ForgotPassword_def strict_ForgotPassword_def
  Http_ForgotPassword_def wrap_ResetPassword_def strict_ResetPassword_def Http_ResetPassword_def wrap_ChangeInitialPassword_def
  strict_ChangeInitialPassword_def Http_ChangeInitialPassword_def wrap_GetCurrentUser_def strict_GetCurrentUser_def GetCurrentUser_def

lemma serves_accounts:
  assumes "calm_api H" "x \<in> {Op_Register, Op_Login, Op_Logout, Op_VerifyEmail, Op_ResendVerification, Op_ForgotPassword,
     Op_ResetPassword, Op_ChangeInitialPassword, Op_GetCurrentUser}"
  shows "serves (writes x) (wrapper K q H c vs x)"
proof -
  note C = calm_apiD(1)[OF assms(1)]
  have "serves {T_users, T_identities, T_tokens, T_sessions} (wrap_Register K q H c)"
    unfolding account_defs decoders by (intro serve_rules writes_rules C; simp)
  moreover have "serves {T_identities, T_sessions} (wrap_Login K q H c)"
    unfolding account_defs decoders by (intro serve_rules writes_rules C; simp)
  moreover have "serves {T_sessions} (wrap_Logout H c)"
    unfolding account_defs decoders by (intro serve_rules writes_rules C; simp)
  moreover have "serves {T_users, T_tokens} (wrap_VerifyEmail K q H)"
    unfolding account_defs decoders by (intro serve_rules writes_rules C; simp)
  moreover have "serves {T_tokens} (wrap_ResendVerification K q H)"
    unfolding account_defs decoders by (intro serve_rules writes_rules C; simp)
  moreover have "serves {T_tokens} (wrap_ForgotPassword K q H)"
    unfolding account_defs decoders by (intro serve_rules writes_rules C; simp)
  moreover have "serves {T_users, T_identities, T_tokens, T_sessions} (wrap_ResetPassword K q H c)"
    unfolding account_defs decoders by (intro serve_rules writes_rules C; simp)
  moreover have "serves {T_users, T_identities, T_tokens, T_sessions} (wrap_ChangeInitialPassword K q H c)"
    unfolding account_defs decoders by (intro serve_rules writes_rules C; simp)
  moreover have "serves {} (wrap_GetCurrentUser c)"
    unfolding account_defs decoders by (intro serve_rules writes_rules C; simp)
  ultimately show ?thesis using assms(2) by (elim insertE emptyE) (simp_all add: writes_def wrapper_def)
qed

lemmas sending_defs = wrap_SendEmail_def strict_SendEmail_def wrap_SendWorkspaceEmail_def strict_SendWorkspaceEmail_def
  wrap_UploadAttachment_def strict_UploadAttachment_def wrap_UploadWorkspaceAttachment_def strict_UploadWorkspaceAttachment_def
  wrap_GetEmail_def strict_GetEmail_def wrap_GetWorkspaceEmail_def strict_GetWorkspaceEmail_def wrap_SearchMessages_def
  strict_SearchMessages_def wrap_GetHealth_def strict_GetHealth_def SendEmail_def SendWorkspaceEmail_def reply_and_send_def send_answer_def
  UploadWorkspaceAttachment_def Http_UploadAttachment_def upload_answer_def GetEmail_def GetWorkspaceEmail_def email_detail_def
  SearchMessages_def GetHealth_def

lemma serves_sending:
  assumes "calm_api H" "x \<in> {Op_SendEmail, Op_SendWorkspaceEmail, Op_UploadAttachment, Op_UploadWorkspaceAttachment, Op_GetEmail, Op_GetWorkspaceEmail, Op_SearchMessages, Op_GetHealth}"
  shows "serves (writes x) (wrapper K q H c vs x)"
proof -
  note C = calm_apiD[OF assms(1)]
  have "serves {T_emails, T_events, T_attachments} (wrap_SendEmail K q H c)"
    unfolding sending_defs decoders by (intro serve_rules frame.st_memberScope frame.st_member frame.st_admin writes_rules C; simp)
  moreover have "serves {T_emails, T_events, T_attachments} (wrap_SendWorkspaceEmail K q H c vs)"
    unfolding sending_defs decoders by (intro serve_rules frame.st_memberScope frame.st_member frame.st_admin writes_rules C; simp)
  moreover have "serves {T_attachments} (wrap_UploadAttachment K q H c)"
    unfolding sending_defs decoders by (intro serve_rules frame.st_memberScope frame.st_member frame.st_admin writes_rules C; simp)
  moreover have "serves {T_attachments} (wrap_UploadWorkspaceAttachment K q H c vs)"
    unfolding sending_defs decoders by (intro serve_rules frame.st_memberScope frame.st_member frame.st_admin writes_rules C; simp)
  moreover have "serves {} (wrap_GetEmail K c vs)"
    unfolding sending_defs decoders by (intro serve_rules frame.st_memberScope frame.st_member frame.st_admin writes_rules C; simp)
  moreover have "serves {} (wrap_GetWorkspaceEmail K c vs)"
    unfolding sending_defs decoders by (intro serve_rules frame.st_memberScope frame.st_member frame.st_admin writes_rules C; simp)
  moreover have "serves {} (wrap_SearchMessages K q c)"
    unfolding sending_defs decoders by (intro serve_rules frame.st_memberScope frame.st_member frame.st_admin writes_rules C; simp)
  moreover have "serves {} (wrap_GetHealth)"
    unfolding sending_defs decoders by (intro serve_rules frame.st_memberScope frame.st_member frame.st_admin writes_rules C; simp)
  ultimately show ?thesis using assms(2) by (elim insertE emptyE) (simp_all add: writes_def wrapper_def)
qed

lemmas tenant_defs = wrap_ListWorkspaces_def strict_ListWorkspaces_def wrap_CreateWorkspace_def strict_CreateWorkspace_def
  wrap_GetWorkspace_def strict_GetWorkspace_def wrap_DeleteWorkspace_def strict_DeleteWorkspace_def wrap_GetApiKeyWorkspace_def
  strict_GetApiKeyWorkspace_def wrap_ListMembers_def strict_ListMembers_def wrap_AddMember_def strict_AddMember_def wrap_UpdateMember_def
  strict_UpdateMember_def wrap_RemoveMember_def strict_RemoveMember_def wrap_ListApiKeys_def strict_ListApiKeys_def wrap_CreateApiKey_def
  strict_CreateApiKey_def wrap_RevokeApiKey_def strict_RevokeApiKey_def ListWorkspaces_def Ws_ListForUser_def CreateWorkspace_def
  GetWorkspace_def BySlugForUser_def Ws_ByID_def workspace_where_def DeleteWorkspace_def GetApiKeyWorkspace_def ListMembers_def AddMember_def
  add_member_def members_of_def UpdateMember_def RemoveMember_def ListApiKeys_def CreateApiKey_def key_New_def RevokeApiKey_def

lemma serves_tenants:
  assumes "calm_api H" "x \<in> {Op_ListWorkspaces, Op_CreateWorkspace, Op_GetWorkspace, Op_DeleteWorkspace, Op_GetApiKeyWorkspace, Op_ListMembers, Op_AddMember, Op_UpdateMember, Op_RemoveMember, Op_ListApiKeys, Op_CreateApiKey, Op_RevokeApiKey}"
  shows "serves (writes x) (wrapper K q H c vs x)"
proof -
  note C = calm_apiD[OF assms(1)]
  have "serves {} (wrap_ListWorkspaces c)"
    unfolding tenant_defs decoders by (intro serve_rules frame.st_memberScope frame.st_member frame.st_admin writes_rules C; simp)
  moreover have "serves {T_workspaces, T_members} (wrap_CreateWorkspace K q c)"
    unfolding tenant_defs decoders by (intro serve_rules frame.st_memberScope frame.st_member frame.st_admin writes_rules C; simp)
  moreover have "serves {} (wrap_GetWorkspace K c vs)"
    unfolding tenant_defs decoders by (intro serve_rules frame.st_memberScope frame.st_member frame.st_admin writes_rules C; simp)
  moreover have "serves tenant_tables (wrap_DeleteWorkspace K c vs)"
    unfolding tenant_defs decoders by (intro serve_rules frame.st_memberScope frame.st_member frame.st_admin writes_rules C; simp)
  moreover have "serves {} (wrap_GetApiKeyWorkspace c)"
    unfolding tenant_defs decoders by (intro serve_rules frame.st_memberScope frame.st_member frame.st_admin writes_rules C; simp)
  moreover have "serves {} (wrap_ListMembers K c vs)"
    unfolding tenant_defs decoders by (intro serve_rules frame.st_memberScope frame.st_member frame.st_admin writes_rules C; simp)
  moreover have "serves {T_members} (wrap_AddMember K q H c vs)"
    unfolding tenant_defs decoders by (intro serve_rules frame.st_memberScope frame.st_member frame.st_admin writes_rules C; simp)
  moreover have "serves {T_members, T_smtp_creds} (wrap_UpdateMember K q c vs)"
    unfolding tenant_defs decoders by (intro serve_rules frame.st_memberScope frame.st_member frame.st_admin writes_rules C; simp)
  moreover have "serves {T_members, T_smtp_creds} (wrap_RemoveMember K c vs)"
    unfolding tenant_defs decoders by (intro serve_rules frame.st_memberScope frame.st_member frame.st_admin writes_rules C; simp)
  moreover have "serves {} (wrap_ListApiKeys K c vs)"
    unfolding tenant_defs decoders by (intro serve_rules frame.st_memberScope frame.st_member frame.st_admin writes_rules C; simp)
  moreover have "serves {T_api_keys} (wrap_CreateApiKey K q H c vs)"
    unfolding tenant_defs decoders by (intro serve_rules frame.st_memberScope frame.st_member frame.st_admin writes_rules C; simp)
  moreover have "serves {T_api_keys} (wrap_RevokeApiKey K c vs)"
    unfolding tenant_defs decoders by (intro serve_rules frame.st_memberScope frame.st_member frame.st_admin writes_rules C; simp)
  ultimately show ?thesis using assms(2) by (elim insertE emptyE) (simp_all add: writes_def wrapper_def)
qed

lemmas mail_domain_defs = wrap_ListDomains_def strict_ListDomains_def wrap_AddDomain_def strict_AddDomain_def wrap_GetDomain_def
  strict_GetDomain_def wrap_VerifyDomain_def strict_VerifyDomain_def wrap_UpdateDomain_def strict_UpdateDomain_def wrap_DeleteDomain_def
  strict_DeleteDomain_def wrap_RotateDkimKey_def strict_RotateDkimKey_def ListDomains_def AddDomain_def GetDomain_def VerifyDomain_def
  UpdateDomain_def DeleteDomain_def RotateDkimKey_def describe_def

lemma serves_domains:
  assumes "calm_api H" "x \<in> {Op_ListDomains, Op_AddDomain, Op_GetDomain, Op_VerifyDomain, Op_UpdateDomain, Op_DeleteDomain, Op_RotateDkimKey}"
  shows "serves (writes x) (wrapper K q H c vs x)"
proof -
  note C = calm_apiD[OF assms(1)]
  have "serves {} (wrap_ListDomains K H c vs)"
    unfolding mail_domain_defs decoders by (intro serve_rules frame.st_memberScope frame.st_member frame.st_admin writes_rules C; simp)
  moreover have "serves {T_domains, T_dkim_keys} (wrap_AddDomain K q H c vs)"
    unfolding mail_domain_defs decoders by (intro serve_rules frame.st_memberScope frame.st_member frame.st_admin writes_rules C; simp)
  moreover have "serves {} (wrap_GetDomain K H c vs)"
    unfolding mail_domain_defs decoders by (intro serve_rules frame.st_memberScope frame.st_member frame.st_admin writes_rules C; simp)
  moreover have "serves {T_domains, T_dkim_keys} (wrap_VerifyDomain K H c vs)"
    unfolding mail_domain_defs decoders by (intro serve_rules frame.st_memberScope frame.st_member frame.st_admin writes_rules C; simp)
  moreover have "serves {T_domains} (wrap_UpdateDomain K q H c vs)"
    unfolding mail_domain_defs decoders by (intro serve_rules frame.st_memberScope frame.st_member frame.st_admin writes_rules C; simp)
  moreover have "serves domain_tables (wrap_DeleteDomain K c vs)"
    unfolding mail_domain_defs decoders by (intro serve_rules frame.st_memberScope frame.st_member frame.st_admin writes_rules C; simp)
  moreover have "serves {T_dkim_keys} (wrap_RotateDkimKey K H c vs)"
    unfolding mail_domain_defs decoders by (intro serve_rules frame.st_memberScope frame.st_member frame.st_admin writes_rules C; simp)
  ultimately show ?thesis using assms(2) by (elim insertE emptyE) (simp_all add: writes_def wrapper_def)
qed

lemmas inbox_defs = wrap_ListMailboxes_def strict_ListMailboxes_def wrap_CreateMailbox_def strict_CreateMailbox_def wrap_ListMessages_def
  strict_ListMessages_def wrap_AssignMailboxOwner_def strict_AssignMailboxOwner_def wrap_SetMailboxSMTPPassword_def
  strict_SetMailboxSMTPPassword_def wrap_DeleteMailboxSMTPPassword_def strict_DeleteMailboxSMTPPassword_def wrap_GetMessage_def
  strict_GetMessage_def wrap_MarkMessageRead_def strict_MarkMessageRead_def wrap_DownloadReceivedAttachment_def
  strict_DownloadReceivedAttachment_def wrap_MoveReceivedMessage_def strict_MoveReceivedMessage_def ListMailboxes_def CreateMailbox_def
  ListMessages_def AssignMailboxOwner_def SetMailboxSMTPPassword_def DeleteMailboxSMTPPassword_def box_in_def GetMessage_def
  MarkMessageRead_def DownloadReceivedAttachment_def MoveReceivedMessage_def

lemma serves_inbox:
  assumes "calm_api H" "x \<in> {Op_ListMailboxes, Op_CreateMailbox, Op_ListMessages, Op_AssignMailboxOwner, Op_SetMailboxSMTPPassword, Op_DeleteMailboxSMTPPassword, Op_GetMessage, Op_MarkMessageRead, Op_DownloadReceivedAttachment, Op_MoveReceivedMessage}"
  shows "serves (writes x) (wrapper K q H c vs x)"
proof -
  note C = calm_apiD[OF assms(1)]
  have "serves {} (wrap_ListMailboxes K c vs)"
    unfolding inbox_defs decoders by (intro serve_rules frame.st_memberScope frame.st_member frame.st_admin writes_rules C; simp)
  moreover have "serves {T_mailboxes, T_folders} (wrap_CreateMailbox K q c vs)"
    unfolding inbox_defs decoders by (intro serve_rules frame.st_memberScope frame.st_member frame.st_admin writes_rules C; simp)
  moreover have "serves {} (wrap_ListMessages K q c vs)"
    unfolding inbox_defs decoders by (intro serve_rules frame.st_memberScope frame.st_member frame.st_admin writes_rules C; simp)
  moreover have "serves {T_mailboxes, T_smtp_creds} (wrap_AssignMailboxOwner K q c vs)"
    unfolding inbox_defs decoders by (intro serve_rules frame.st_memberScope frame.st_member frame.st_admin writes_rules C; simp)
  moreover have "serves {T_smtp_creds} (wrap_SetMailboxSMTPPassword K q H c vs)"
    unfolding inbox_defs decoders by (intro serve_rules frame.st_memberScope frame.st_member frame.st_admin writes_rules C; simp)
  moreover have "serves {T_smtp_creds} (wrap_DeleteMailboxSMTPPassword K c vs)"
    unfolding inbox_defs decoders by (intro serve_rules frame.st_memberScope frame.st_member frame.st_admin writes_rules C; simp)
  moreover have "serves {} (wrap_GetMessage K H c vs)"
    unfolding inbox_defs decoders by (intro serve_rules frame.st_memberScope frame.st_member frame.st_admin writes_rules C; simp)
  moreover have "serves {T_messages} (wrap_MarkMessageRead K c vs)"
    unfolding inbox_defs decoders by (intro serve_rules frame.st_memberScope frame.st_member frame.st_admin writes_rules C; simp)
  moreover have "serves {} (wrap_DownloadReceivedAttachment K H c vs)"
    unfolding inbox_defs decoders by (intro serve_rules frame.st_memberScope frame.st_member frame.st_admin writes_rules C; simp)
  moreover have "serves {T_messages, T_folders} (wrap_MoveReceivedMessage K q c vs)"
    unfolding inbox_defs decoders by (intro serve_rules frame.st_memberScope frame.st_member frame.st_admin writes_rules C; simp)
  ultimately show ?thesis using assms(2) by (elim insertE emptyE) (simp_all add: writes_def wrapper_def)
qed

lemma operation_writes: "calm_api H \<Longrightarrow> serves (writes x) (wrapper K q H c vs x)"
  using serves_accounts[of H x K q c vs] serves_sending[of H x K q c vs] serves_tenants[of H x K q c vs] serves_domains[of H x K q c vs]
    serves_inbox[of H x K q c vs] by (cases x) simp_all

section \<open>Requests\<close>

text \<open>A request is what its gate does and then at most one operation, the one its route names.\<close>

lemma snd_shown [simp]: "snd (shown out) = snd out"
  by (cases out; cases "fst out") (simp_all add: shown_def)

lemma generated_runs:
  "snd (generated K H q c t) = t \<or>
   (\<exists>x vs. ServeMux routes (hr_method (in_http q)) (in_escaped q) = Serve x vs \<and> snd (wrapper K q H c vs x t) = snd (generated K H q c t))"
  by (cases rule: generated_cases[of q K H c]) (auto simp: returnE_def)

lemma serve_runs:
  "\<exists>t. touched (tabs (fst s)) (tabs (fst t)) \<and> uid_seq (fst t) = uid_seq (fst s) \<and>
     (snd (serve_http K H q s) = t \<or> (\<exists>x vs c. ServeMux routes (hr_method (in_http q)) (in_escaped q) = Serve x vs \<and>
        snd (wrapper K q H c vs x t) = snd (serve_http K H q s)))"
proof (cases "unescape (in_escaped q)")
  case None
  then show ?thesis by (intro exI[of _ s]) (simp add: serve_http_def returnE_def)
next
  case (Some p)
  let ?q = "the_request q p"
  have run: "serve_http K H q s = Router H (\<lambda>_. generated K H q) ?q s" using Some by (simp add: serve_http_def)
  have one: ?thesis if "touched (tabs (fst s)) (tabs (fst t))" "uid_seq (fst t) = uid_seq (fst s)"
    "serve_http K H q s = shown (generated K H q c t)" for t c
    using that generated_runs[of K H q c t] by (intro exI[of _ t]) (auto simp: that(3))
  show ?thesis
  proof (cases "hr_method ?q = ''OPTIONS''")
    case True
    then show ?thesis using run by (intro exI[of _ s]) (simp add: Router_def returnE_def)
  next
    case False
    show ?thesis
    proof (cases "guard_of (hr_path ?q)")
      case Key_guard
      obtain out w1 where g: "Api_Middleware (ac_lib (sv_accounts H)) (hr_auth ?q) (fst s) = (Inr out, w1)" using key_gate by blast
      note R = Router_key[OF False Key_guard g, of "\<lambda>_. generated K H q"] and T = Api_Middleware_touches[OF g]
      show ?thesis
      proof (cases out)
        case (ApiPass ws key)
        then show ?thesis using one[of "(w1, snd s)"] R T run by simp
      qed (use R T run in \<open>intro exI[of _ "(w1, snd s)"], simp\<close>)
    next
      case Session_guard
      obtain out w1 where g: "RequireSession (sv_accounts H) (hr_auth ?q) (hr_path ?q) (fst s) = (Inr out, w1)" using session_gate by blast
      note R = Router_session[OF False Session_guard g, of "\<lambda>_. generated K H q"] and T = RequireSession_touches[OF g]
      show ?thesis
      proof (cases out)
        case (Pass user token)
        then show ?thesis using one[of "(w1, snd s)"] R T run by simp
      qed (use R T run in \<open>intro exI[of _ "(w1, snd s)"], simp\<close>)
    next
      case Open_guard
      then show ?thesis using one[of s] run False by (simp add: Router_def respond_shown)
    qed
  qed
qed

lemma get_writes_nothing: "\<forall>(k, p, x)\<in>set routes. k = ''GET'' \<or> k = ''HEAD'' \<longrightarrow> writes x = {}"
  by (simp add: routes_def writes_def)

lemma within_nothing: "within {} s s' \<longleftrightarrow> s' = s"
proof
  assume "within {} s s'"
  then have h: "same_in x s s'" for x by (simp add: within_def)
  have "fst s' = fst s" by (rule db.equality) (use h[of T_users] h[of T_identities] h[of T_tokens] h[of T_sessions] h[of T_workspaces] h[of T_members] h[of T_domains] h[of T_dkim_keys]
      h[of T_api_keys] h[of T_emails] h[of T_events] h[of T_attachments] h[of T_mailboxes] h[of T_folders] h[of T_messages] h[of T_smtp_creds] in simp_all)
  then show "s' = s" using h[of T_messages] by (simp add: prod_eq_iff)
qed simp

text \<open>Every operation of the API writes its own tables only: a request changes nothing but the time its key or
  session was last used and the tables \<open>writes\<close> lists for the one operation its route names, whatever it
  holds and whatever fails on the way; and a GET or HEAD changes no row at all beyond that time.\<close>

theorem request_footprint:
  assumes "calm_api H" "serve_http K H q s = (r, s')"
  shows "\<exists>t n. touched (tabs (fst s)) t \<and> n = uid_seq (fst s) \<and>
    (case ServeMux routes (hr_method (in_http q)) (in_escaped q) of
       Serve x vs \<Rightarrow> within (writes x) (t, n) (mstate (fst s')) | _ \<Rightarrow> mstate (fst s') = (t, n)) \<and>
    (hr_method (in_http q) \<in> {''GET'', ''HEAD''} \<longrightarrow> mstate (fst s') = (t, n))"
proof -
  obtain t where t: "touched (tabs (fst s)) (tabs (fst t))" "uid_seq (fst t) = uid_seq (fst s)" and
    u: "s' = t \<or> (\<exists>x vs c. ServeMux routes (hr_method (in_http q)) (in_escaped q) = Serve x vs \<and> snd (wrapper K q H c vs x t) = s')"
    using serve_runs[of s K H q] unfolding assms(2) snd_conv by metis
  have op: "within (writes x) (mstate (fst t)) (mstate (fst (snd (wrapper K q H c vs x t))))" for x vs c
    using operation_writes[OF assms(1), of x K q c vs] unfolding keeps_def on_box_def on_store_def by (rule spec)
  have w: "within (writes x) (mstate (fst t)) (mstate (fst s'))"
    if "ServeMux routes (hr_method (in_http q)) (in_escaped q) = Serve x vs" for x vs
    using u
  proof
    assume "\<exists>x vs c. ServeMux routes (hr_method (in_http q)) (in_escaped q) = Serve x vs \<and> snd (wrapper K q H c vs x t) = s'"
    then show ?thesis using that op by auto
  qed simp
  have m: "mstate (fst t) = (tabs (fst t), uid_seq (fst s))" using t(2) by (simp add: mstate_def)
  have safe: "writes x = {}" if "ServeMux routes (hr_method (in_http q)) (in_escaped q) = Serve x vs" "hr_method (in_http q) \<in> {''GET'', ''HEAD''}" for x vs
  proof -
    note here = that
    obtain k p where "(k, p, x) \<in> set routes" "k = ''GET'' \<or> k = ''HEAD''"
      using ServeMux_found[OF here(1)] here(2) route_for_Some by (metis empty_iff insertE)
    then show ?thesis using get_writes_nothing by blast
  qed
  show ?thesis
  proof (intro exI[of _ "tabs (fst t)"] exI[of _ "uid_seq (fst s)"] conjI)
    show "case ServeMux routes (hr_method (in_http q)) (in_escaped q) of
       Serve x vs \<Rightarrow> within (writes x) (tabs (fst t), uid_seq (fst s)) (mstate (fst s')) | _ \<Rightarrow> mstate (fst s') = (tabs (fst t), uid_seq (fst s))"
      using w u m by (auto split: routed.split)
    show "hr_method (in_http q) \<in> {''GET'', ''HEAD''} \<longrightarrow> mstate (fst s') = (tabs (fst t), uid_seq (fst s))"
      using w safe u m by (auto simp: within_nothing)
  qed (use t in auto)
qed

end
