(* ===== verification/Guards.thy ===== *)
theory Guards imports Footprint begin

text \<open>
  Which operations a relation of the store has to be shown for, and the relations of the services shown for the whole HTTP
  server: a relation that says nothing outside some tables is kept by every request whose operation writes none of
  them, by the footprints, and the operations that write them keep it by the lemmas of their service.
\<close>

text \<open>Whatever holds of the tables before holds after.\<close>

definition holds :: "(db \<Rightarrow> bool) \<Rightarrow> db \<Rightarrow> db \<Rightarrow> bool" where
  "holds I t t' \<longleftrightarrow> (I t \<longrightarrow> I t')"

interpretation holding: table_relation "holds I" for I
  by unfold_locales (auto simp: holds_def)

text \<open>A relation of the tables says nothing of the numbers of the messages.\<close>

abbreviation by_tables :: "(db \<Rightarrow> db \<Rightarrow> bool) \<Rightarrow> mstate \<Rightarrow> mstate \<Rightarrow> bool" where
  "by_tables R \<equiv> \<lambda>s s'. R (fst s) (fst s')"

sublocale table_relation < up: store_relation "by_tables R"
  by unfold_locales (auto intro: rel_refl rel_trans)

lemma on_tabs_store: "on_store (by_tables R) = on_tabs R"
  by (intro ext) (simp add: on_store_def on_tabs_def mstate_def)

lemma keeps_weaken: "keeps P m \<Longrightarrow> (\<And>w w'. P w w' \<Longrightarrow> Q w w') \<Longrightarrow> keeps Q m"
  by (auto simp: keeps_def)

locale guarded_tables = store_relation R for R +
  fixes T :: "table set"
  assumes apart_from: "within S s s' \<Longrightarrow> S \<inter> T = {} \<Longrightarrow> R s s'"
    and gate_keeps: "touched t t' \<Longrightarrow> R (t, n) (t', n)"
begin

lemma from_stays: "stays S m \<Longrightarrow> S \<inter> T = {} \<Longrightarrow> keeps (on_store R) m"
  by (erule keeps_weaken) (auto simp: on_store_def intro: apart_from)

lemma from_serves: "serves S m \<Longrightarrow> S \<inter> T = {} \<Longrightarrow> keeps (on_box R) m"
  by (erule keeps_weaken) (auto simp: on_box_def on_store_def intro: apart_from)

lemma request_keeps:
  assumes "calm_api H" "\<And>x vs c. writes x \<inter> T \<noteq> {} \<Longrightarrow> keeps (on_box R) (wrapper K q H c vs x)"
  shows "keeps (on_box R) (serve_http K H q)"
proof (rule keepsI)
  fix s r s' assume run: "serve_http K H q s = (r, s')"
  have op: "on_box R t (snd (wrapper K q H c vs x t))" for x vs c t
  proof -
    have "keeps (on_box R) (wrapper K q H c vs x)"
      using assms(2)[of x c vs] from_serves[OF operation_writes[OF assms(1), of x K q c vs]] by blast
    then show ?thesis by (cases t) (simp add: keeps_def)
  qed
  obtain t where t: "touched (tabs (fst s)) (tabs (fst t))" "uid_seq (fst t) = uid_seq (fst s)" and
    u: "s' = t \<or> (\<exists>x vs c. snd (wrapper K q H c vs x t) = s')"
    using serve_runs[of s K H q] unfolding run snd_conv by metis
  have "on_box R s t" using gate_keeps[OF t(1)] t(2) by (simp add: on_box_def on_store_def mstate_def)
  then show "on_box R s s'" using u op transs(2) unfolding transp_def by metis
qed

end


section \<open>Tenants\<close>

lemma same_inD: "within S s s' \<Longrightarrow> x \<notin> S \<Longrightarrow> same_in x s s'"
  by (auto simp: within_def)

lemma touched_tabs:
  assumes "touched t t'"
  shows "workspaces t' = workspaces t" "members t' = members t" "domains t' = domains t" "dkim_keys t' = dkim_keys t"
    "emails t' = emails t" "events t' = events t" "mailboxes t' = mailboxes t" "folders t' = folders t" "messages t' = messages t"
    "map ak_id (api_keys t') = map ak_id (api_keys t)" "map ak_hash (api_keys t') = map ak_hash (api_keys t)"
proof -
  obtain ss ks where t': "t' = t\<lparr>sessions := ss, api_keys := ks\<rparr>" using assms unfolding touched_def by metis
  then show "workspaces t' = workspaces t" "members t' = members t" "domains t' = domains t" "dkim_keys t' = dkim_keys t"
    "emails t' = emails t" "events t' = events t" "mailboxes t' = mailboxes t" "folders t' = folders t" "messages t' = messages t"
    by simp_all
  have "map (\<lambda>k. k\<lparr>ak_used := None\<rparr>) (api_keys t') = map (\<lambda>k. k\<lparr>ak_used := None\<rparr>) (api_keys t)" using assms by (simp add: touched_def)
  from arg_cong[OF this, of "map ak_id"] arg_cong[OF this, of "map ak_hash"]
  show "map ak_id (api_keys t') = map ak_id (api_keys t)" "map ak_hash (api_keys t') = map ak_hash (api_keys t)"
    by (simp_all add: comp_def)
qed

interpretation tenant_guard: guarded_tables "by_tables ws_keeps" "{T_workspaces, T_members}"
proof
  fix S s s' assume w: "within S s s'" and S: "S \<inter> {T_workspaces, T_members} = {}"
  from S same_inD[OF w, of T_workspaces] same_inD[OF w, of T_members] show "ws_keeps (fst s) (fst s')"
    by (simp add: ws_keeps_def ws_ok_def)
qed (simp add: ws_keeps_def ws_ok_def touched_tabs)

lemma tenant_requests: "calm_api H \<Longrightarrow> keeps (on_box (by_tables ws_keeps)) (serve_http K H q)"
proof (erule tenant_guard.request_keeps)
  fix x vs c assume w: "writes x \<inter> {T_workspaces, T_members} \<noteq> {}"
  note K = keeps_CreateWorkspace keeps_DeleteWorkspace keeps_AddMember keeps_UpdateMember keeps_RemoveMember
  note U = K[folded on_tabs_store]
  have "keeps (on_box (by_tables ws_keeps)) (wrap_CreateWorkspace K q c)" "keeps (on_box (by_tables ws_keeps)) (wrap_DeleteWorkspace K c vs)"
    "keeps (on_box (by_tables ws_keeps)) (wrap_AddMember K q H c vs)" "keeps (on_box (by_tables ws_keeps)) (wrap_UpdateMember K q c vs)"
    "keeps (on_box (by_tables ws_keeps)) (wrap_RemoveMember K c vs)"
    unfolding wrap_CreateWorkspace_def strict_CreateWorkspace_def wrap_DeleteWorkspace_def strict_DeleteWorkspace_def wrap_AddMember_def
      strict_AddMember_def wrap_UpdateMember_def strict_UpdateMember_def wrap_RemoveMember_def strict_RemoveMember_def decoders
    by (intro tenants.up.http_rules tenants.up.bx_needed U)+
  with w show "keeps (on_box (by_tables ws_keeps)) (wrapper K q H c vs x)"
    by (cases x) (simp_all add: writes_def wrapper_def domain_tables_def boxes_tables_def)
qed


section \<open>Domains\<close>

interpretation domain_guard: guarded_tables "by_tables (holds dom_ok)" "{T_domains, T_dkim_keys}"
proof
  fix S s s' assume w: "within S s s'" and S: "S \<inter> {T_domains, T_dkim_keys} = {}"
  from S same_inD[OF w, of T_domains] same_inD[OF w, of T_dkim_keys] show "holds dom_ok (fst s) (fst s')"
    by (simp add: holds_def dom_ok_def)
qed (simp add: holds_def dom_ok_def touched_tabs)

lemma dom_holds: "keeps (on_tabs dom_keeps) m \<Longrightarrow> keeps (on_store (by_tables (holds dom_ok))) m"
  unfolding on_tabs_store by (erule keeps_weaken) (simp add: on_tabs_def dom_keeps_def holds_def)

lemma drop_workspaces_parts:
  assumes "drop_workspaces P t = Inr t'"
  obtains t1 where "drop_domains (\<lambda>d. d_ws d \<in> w_id ` set (filter P (workspaces t))) t = Inr t1" "domains t' = domains t1" "dkim_keys t' = dkim_keys t1"
  using assms by (auto simp: drop_workspaces_def Let_def split: sum.splits)

lemma drop_workspaces_dom_ok: "drop_workspaces P t = Inr t' \<Longrightarrow> dom_ok t \<Longrightarrow> dom_ok t'"
  by (erule drop_workspaces_parts) (drule drop_domains_ok, assumption, simp add: dom_ok_def)

lemma holds_deletes:
  assumes "\<And>P t t'. drop_domains P t = Inr t' \<Longrightarrow> I t \<Longrightarrow> I t'" "\<And>P t t'. drop_workspaces P t = Inr t' \<Longrightarrow> I t \<Longrightarrow> I t'"
  shows "keeps (on_store (by_tables (holds I))) (Store_Delete ws name)" "keeps (on_store (by_tables (holds I))) (DeleteOwned u slug)"
  unfolding Store_Delete_def DeleteOwned_def on_tabs_store
  by (intro holding.keeps_rules holding.on_sql; auto simp: holds_def Let_def dest: assms split: sum.splits)+

lemmas delete_defs = wrap_DeleteDomain_def strict_DeleteDomain_def DeleteDomain_def Dom_Delete_def
  wrap_DeleteWorkspace_def strict_DeleteWorkspace_def DeleteWorkspace_def

lemma holds_delete_requests:
  assumes "\<And>P t t'. drop_domains P t = Inr t' \<Longrightarrow> I t \<Longrightarrow> I t'" "\<And>P t t'. drop_workspaces P t = Inr t' \<Longrightarrow> I t \<Longrightarrow> I t'"
  shows "keeps (on_box (by_tables (holds I))) (wrap_DeleteDomain K c vs)" "keeps (on_box (by_tables (holds I))) (wrap_DeleteWorkspace K c vs)"
proof -
  have D: "keeps (on_store (by_tables (holds I))) (Store_Delete ws name)" "keeps (on_store (by_tables (holds I))) (DeleteOwned u slug)"
    for ws name u slug by (rule holds_deletes; erule (1) assms)+
  show "keeps (on_box (by_tables (holds I))) (wrap_DeleteDomain K c vs)" "keeps (on_box (by_tables (holds I))) (wrap_DeleteWorkspace K c vs)"
    unfolding delete_defs decoders
    by (intro holding.up.http_rules holding.up.bx_needed holding.up.st_admin holding.up.st_handler D)+
qed

lemma domain_requests: "calm_api H \<Longrightarrow> keeps (on_box (by_tables (holds dom_ok))) (serve_http K H q)"
proof (erule domain_guard.request_keeps)
  fix x vs c assume w: "writes x \<inter> {T_domains, T_dkim_keys} \<noteq> {}"
  let ?R = "by_tables (holds dom_ok)"
  note U = keeps_Add[THEN dom_holds] keeps_Rotate[THEN dom_holds] keeps_Verify[THEN dom_holds] keeps_SetPrimary[THEN dom_holds]
  have recs: "keeps (on_store ?R) (Records D d)" for D d by (rule domain_guard.from_stays[OF fp_domain_reads(4)[of "{}"]]) simp
  have "keeps (on_box ?R) (wrap_AddDomain K q H c vs)" "keeps (on_box ?R) (wrap_VerifyDomain K H c vs)"
    "keeps (on_box ?R) (wrap_UpdateDomain K q H c vs)" "keeps (on_box ?R) (wrap_RotateDkimKey K H c vs)"
    unfolding wrap_AddDomain_def strict_AddDomain_def AddDomain_def wrap_VerifyDomain_def strict_VerifyDomain_def VerifyDomain_def
      wrap_UpdateDomain_def strict_UpdateDomain_def UpdateDomain_def wrap_RotateDkimKey_def strict_RotateDkimKey_def RotateDkimKey_def
      describe_def decoders
    by (intro holding.up.http_rules holding.up.bx_needed holding.up.st_admin holding.up.st_handler U recs)+
  moreover have "keeps (on_box ?R) (wrap_DeleteDomain K c vs)" "keeps (on_box ?R) (wrap_DeleteWorkspace K c vs)"
    by (rule holds_delete_requests; erule (1) drop_domains_ok drop_workspaces_dom_ok)+
  ultimately show "keeps (on_box ?R) (wrapper K q H c vs x)"
    using w by (cases x) (simp_all add: writes_def wrapper_def)
qed


section \<open>API keys\<close>

interpretation key_guard: guarded_tables "by_tables (holds ak_ok)" "{T_api_keys}"
proof
  fix S s s' assume w: "within S s s'" and S: "S \<inter> {T_api_keys} = {}"
  from S same_inD[OF w, of T_api_keys] show "holds ak_ok (fst s) (fst s')" by (simp add: holds_def ak_ok_def)
qed (simp add: holds_def ak_ok_def uniq_on_def touched_tabs)

lemma key_holds: "keeps (on_tabs key_keeps) m \<Longrightarrow> keeps (on_store (by_tables (holds ak_ok))) m"
  unfolding on_tabs_store by (erule keeps_weaken) (simp add: on_tabs_def key_keeps_def holds_def)

lemma drop_domains_keys: "drop_domains P t = Inr t' \<Longrightarrow> ak_ok t \<Longrightarrow> ak_ok t'"
  by (auto simp: drop_domains_def Let_def ak_ok_def split: if_splits)

lemma drop_workspaces_keys: "drop_workspaces P t = Inr t' \<Longrightarrow> ak_ok t \<Longrightarrow> ak_ok t'"
  by (simp add: ak_ok_def drop_workspaces_Inr uniq_on_del_where)

lemma key_requests: "calm_api H \<Longrightarrow> keeps (on_box (by_tables (holds ak_ok))) (serve_http K H q)"
proof (erule key_guard.request_keeps)
  fix x vs c assume w: "writes x \<inter> {T_api_keys} \<noteq> {}"
  note U = keeps_keys(1,2)[THEN key_holds]
  have "keeps (on_box (by_tables (holds ak_ok))) (wrap_CreateApiKey K q H c vs)" "keeps (on_box (by_tables (holds ak_ok))) (wrap_RevokeApiKey K c vs)"
    unfolding wrap_CreateApiKey_def strict_CreateApiKey_def wrap_RevokeApiKey_def strict_RevokeApiKey_def decoders
    by (intro holding.up.http_rules holding.up.bx_needed U)+
  moreover have "keeps (on_box (by_tables (holds ak_ok))) (wrap_DeleteWorkspace K c vs)"
    by (rule holds_delete_requests; erule (1) drop_domains_keys drop_workspaces_keys)+
  ultimately show "keeps (on_box (by_tables (holds ak_ok))) (wrapper K q H c vs x)"
    using w by (cases x) (simp_all add: writes_def wrapper_def domain_tables_def boxes_tables_def)
qed

section \<open>Sent mail and its log\<close>

interpretation log_guard: guarded_tables "by_tables (holds log_ok)" "{T_emails, T_events}"
proof
  fix S s s' assume w: "within S s s'" and S: "S \<inter> {T_emails, T_events} = {}"
  from S same_inD[OF w, of T_emails] same_inD[OF w, of T_events] show "holds log_ok (fst s) (fst s')"
    using log_ok_tabs[of "fst s'" "fst s"] by (simp add: holds_def)
next
  show "holds log_ok (fst (t, n)) (fst (t', n))" if "touched t t'" for t t' and n :: nat
    using log_ok_tabs[OF touched_tabs(5,6)[OF that]] by (simp add: holds_def)
qed

text \<open>A trigger that keeps mail private leaves what the log tells.\<close>

definition told :: "email_row \<Rightarrow> string \<times> status \<times> nat" where
  "told e = (e_id e, e_status e, e_attempts e)"

lemma told_retained [simp]: "told (e\<lparr>e_retained := r\<rparr>) = told e"
  by (simp add: told_def)

lemma log_ok_alt:
  "log_ok t \<longleftrightarrow> distinct (map fst (map told (emails t))) \<and> (\<forall>v\<in>set (events t). ev_email v \<in> set (map fst (map told (emails t)))) \<and>
     (\<forall>(i, st, n)\<in>set (map told (emails t)). status_of (filter (\<lambda>v. ev_email v = i) (events t)) = Some st \<and>
        tries (filter (\<lambda>v. ev_email v = i) (events t)) = n \<and> ev_type (hd (filter (\<lambda>v. ev_email v = i) (events t))) = EventQueued)"
  by (simp add: log_ok_def uniq_on_def told_def trail_def comp_def image_image)

lemma log_ok_told: "map told (emails t') = map told (emails t) \<Longrightarrow> events t' = events t \<Longrightarrow> log_ok t' = log_ok t"
  unfolding log_ok_alt by (simp only:)

lemma told_retain: "map told (emails (retain bs t)) = map told (emails t)"
proof (induction bs arbitrary: t)
  case (Cons b bs)
  have "map told (upd_where Q (\<lambda>e. e\<lparr>e_retained := Some u\<rparr>) es) = map told es" for Q u es
    by (simp add: upd_where_def)
  then show ?case by (cases "b_owner b") (simp_all add: Cons)
qed simp

lemma drop_boxes_told: "map told (emails (drop_boxes P t)) = map told (emails t)" "events (drop_boxes P t) = events t"
  by (simp_all add: drop_boxes_def Let_def told_retain)

lemma drop_domains_told: "drop_domains P t = Inr t' \<Longrightarrow> map told (emails t') = map told (emails t) \<and> events t' = events t"
  by (auto simp: drop_domains_def Let_def drop_boxes_told split: if_splits)

lemma drop_domains_log: "drop_domains P t = Inr t' \<Longrightarrow> log_ok t \<Longrightarrow> log_ok t'"
  using drop_domains_told[of P t t'] log_ok_told by blast

text \<open>Messages that go with all their events.\<close>

lemma log_ok_drop:
  assumes "log_ok t" "emails t' = del_where P (emails t)" "events t' = del_where (\<lambda>v. ev_email v \<in> e_id ` {e \<in> set (emails t). P e}) (events t)"
  shows "log_ok t'"
proof -
  have "trail t' (e_id e) = trail t (e_id e)" "e \<in> set (emails t)" if "e \<in> set (emails t')" for e
  proof -
    have e: "e \<in> set (emails t)" "\<not> P e" using that by (simp_all add: assms(2) set_del_where)
    then have "e_id e \<notin> e_id ` {e \<in> set (emails t). P e}" using log_ok_unique[OF assms(1)] by blast
    then have "ev_email v \<notin> e_id ` {e \<in> set (emails t). P e}" if "ev_email v = e_id e" for v using that by simp
    then show "trail t' (e_id e) = trail t (e_id e)" "e \<in> set (emails t)"
      using e(1) by (simp_all add: trail_def assms(3) del_where_def) (rule filter_cong, simp, blast)
  qed
  moreover have "ev_email v \<in> e_id ` set (emails t')" if "v \<in> set (events t')" for v
    using that assms(1) by (force simp: assms(2,3) set_del_where log_ok_def)
  ultimately show ?thesis
    using assms(1) unfolding log_ok_def by (auto simp: assms(2) intro: uniq_on_del_where)
qed

lemma dropped_mail:
  assumes "drop_workspaces P t = Inr t'"
  obtains t1 and t2 :: db where "drop_domains (\<lambda>d. d_ws d \<in> w_id ` set (filter P (workspaces t))) t = Inr t1" "map told (emails t2) = map told (emails t1)"
    "events t2 = events t1" "emails t' = del_where (\<lambda>e. e_ws e \<in> w_id ` set (filter P (workspaces t))) (emails t2)"
    "events t' = del_where (\<lambda>v. ev_email v \<in> e_id ` {e \<in> set (emails t2). e_ws e \<in> w_id ` set (filter P (workspaces t))}) (events t2)"
proof -
  obtain t1 where t1: "drop_domains (\<lambda>d. d_ws d \<in> w_id ` set (filter P (workspaces t))) t = Inr t1"
    using assms by (auto simp: drop_workspaces_def Let_def split: sum.splits)
  show ?thesis by (rule that[OF t1 drop_boxes_told]) (use assms t1 in \<open>auto simp: drop_workspaces_def Let_def\<close>)
qed

lemma drop_workspaces_log:
  assumes "drop_workspaces P t = Inr t'" "log_ok t"
  shows "log_ok t'"
proof -
  let ?ids = "w_id ` set (filter P (workspaces t))"
  obtain t1 and t2 :: db where t1: "drop_domains (\<lambda>d. d_ws d \<in> ?ids) t = Inr t1" and t2: "map told (emails t2) = map told (emails t1)" "events t2 = events t1"
    and t': "emails t' = del_where (\<lambda>e. e_ws e \<in> ?ids) (emails t2)"
      "events t' = del_where (\<lambda>v. ev_email v \<in> e_id ` {e \<in> set (emails t2). e_ws e \<in> ?ids}) (events t2)"
    by (rule dropped_mail[OF assms(1)])
  have "log_ok t2" using log_ok_told[OF t2] drop_domains_log[OF t1 assms(2)] by simp
  from log_ok_drop[OF this t'] show ?thesis .
qed


lemma log_steps:
  "(\<And>w r w'. m w = (r, w') \<Longrightarrow> log_ok (tabs w) \<Longrightarrow> log_ok (tabs w')) \<Longrightarrow> keeps (on_store (by_tables (holds log_ok))) m"
  unfolding on_tabs_store by (rule keepsI) (simp add: on_tabs_def holds_def)

lemma log_rules:
  "keeps (on_store (by_tables (holds log_ok))) (Create p)" "keeps (on_store (by_tables (holds log_ok))) (MarkProcessing i)"
  "keeps (on_store (by_tables (holds log_ok))) (MarkSent i m)" "keeps (on_store (by_tables (holds log_ok))) (MarkFailed i m)"
  "keeps (on_store (by_tables (holds log_ok))) (MarkDead i m)"
  by (rule log_steps, rule Create_log_ok Mark_log_ok, assumption+)+

lemmas log_calm = log_guard.from_stays[where S = "{}", simplified]

lemma log_Send:
  assumes "calm_send E"
  shows "keeps (on_store (by_tables (holds log_ok))) (Send E ws k q)"
proof -
  note reads = fp_es[OF assms, THEN log_calm] fp_email_reads[THEN log_calm]
  have attach: "keeps (on_store (by_tables (holds log_ok))) (AttachToEmail ws i ids)" for i ids
    by (rule log_guard.from_stays[where S = "{T_attachments}"], rule fp_attachments) simp_all
  show ?thesis
    unfolding Send_def send_again_def send_new_def attach_files_def no_row_def with_row_def
    by (intro holding.up.st_handler log_rules reads attach)
qed

lemma log_requests: "calm_api H \<Longrightarrow> keeps (on_box (by_tables (holds log_ok))) (serve_http K H q)"
proof (rule log_guard.request_keeps, assumption)
  fix x vs c assume H: "calm_api H" and w: "writes x \<inter> {T_emails, T_events} \<noteq> {}"
  let ?R = "by_tables (holds log_ok)"
  have "keeps (on_box ?R) (wrap_SendEmail K q H c)" "keeps (on_box ?R) (wrap_SendWorkspaceEmail K q H c vs)"
    unfolding wrap_SendEmail_def strict_SendEmail_def SendEmail_def wrap_SendWorkspaceEmail_def strict_SendWorkspaceEmail_def
      SendWorkspaceEmail_def reply_and_send_def send_answer_def decoders
    by (intro holding.up.http_rules holding.up.bx_needed holding.up.st_handler log_Send calm_apiD(2)[OF H]
        fp_inbox_reads[THEN log_calm] fp_AllowsAddress[THEN log_calm])+
  moreover have "keeps (on_box ?R) (wrap_DeleteDomain K c vs)" "keeps (on_box ?R) (wrap_DeleteWorkspace K c vs)"
    by (rule holds_delete_requests; erule (1) drop_domains_log drop_workspaces_log)+
  ultimately show "keeps (on_box ?R) (wrapper K q H c vs x)"
    using w by (cases x) (simp_all add: writes_def wrapper_def)
qed

section \<open>Received mail\<close>

interpretation store_guard: guarded_tables store_keeps "{T_mailboxes, T_folders, T_messages}"
proof
  fix S s s' assume w: "within S s s'" and S: "S \<inter> {T_mailboxes, T_folders, T_messages} = {}"
  obtain t n t' n' where s: "s = (t, n)" "s' = (t', n')" by (cases s, cases s')
  from S same_inD[OF w, of T_mailboxes] same_inD[OF w, of T_folders] same_inD[OF w, of T_messages] show "store_keeps s s'"
    unfolding s by (auto simp: key_defs intro: keeps_same)
qed (auto simp: key_defs touched_tabs intro: keeps_same)

lemmas store_calm = store_guard.from_stays[where S = "{}", simplified]

lemma store_requests: "calm_api H \<Longrightarrow> keeps (on_box store_keeps) (serve_http K H q)"
proof (erule store_guard.request_keeps)
  fix x vs c assume w: "writes x \<inter> {T_mailboxes, T_folders, T_messages} \<noteq> {}"
  note U = st_CreateMailbox st_AssignOwner st_MarkRead st_MoveMessage st_Delete fp_domain_ops(5)[THEN store_calm] fp_inbox_reads[THEN store_calm]
  have "keeps (on_box store_keeps) (wrap_CreateMailbox K q c vs)" "keeps (on_box store_keeps) (wrap_AssignMailboxOwner K q c vs)"
    "keeps (on_box store_keeps) (wrap_MarkMessageRead K c vs)" "keeps (on_box store_keeps) (wrap_MoveReceivedMessage K q c vs)"
    "keeps (on_box store_keeps) (wrap_DeleteDomain K c vs)" "keeps (on_box store_keeps) (wrap_DeleteWorkspace K c vs)"
    unfolding wrap_CreateMailbox_def strict_CreateMailbox_def CreateMailbox_def wrap_AssignMailboxOwner_def strict_AssignMailboxOwner_def
      AssignMailboxOwner_def wrap_MarkMessageRead_def strict_MarkMessageRead_def MarkMessageRead_def wrap_MoveReceivedMessage_def
      strict_MoveReceivedMessage_def MoveReceivedMessage_def delete_defs decoders
    by (intro mailstore.http_rules mailstore.bx_needed mailstore.st_admin mailstore.st_handler U)+
  with w show "keeps (on_box store_keeps) (wrapper K q H c vs x)"
    by (cases x) (simp_all add: writes_def wrapper_def)
qed

end
