(* ===== verification/Startup.thy ===== *)
theory Startup imports Prelude begin

text \<open>
  What the program does before it serves: db.go (\<open>connectDB\<close>) and migrate.go. What a statement of a migration does to
  the data is a parameter, \<open>apply_sql\<close>, and so is what the pool finds at each dial.
\<close>

section \<open>connectDB\<close>

text \<open>What a dial comes to: no pool, a pool whose ping fails, or a pool that answers.\<close>

datatype dial = NoPool | NoPing | Connected

datatype dial_event = Dialled nat | Closed nat | Waited nat

datatype startup_error = ErrNoURL | ErrCancelled | ErrConnect | ErrExchange | ErrNoTable | ErrApply | ErrApplied | ErrFile

text \<open>
  The loop over the attempts; \<open>cancelled n\<close> when the context ends while the program waits after attempt \<open>n\<close>. The result
  names the attempt whose pool is returned.
\<close>

function connect_from :: "(nat \<Rightarrow> dial) \<Rightarrow> (nat \<Rightarrow> bool) \<Rightarrow> nat \<Rightarrow> (dial_event list, startup_error, nat) step" where
  "connect_from dial cancelled attempt evs =
     (if 10 < attempt then (Inl ErrConnect, evs)
      else if dial attempt = Connected then (Inr attempt, evs @ [Dialled attempt])
      else let evs1 = evs @ [Dialled attempt] @ (if dial attempt = NoPing then [Closed attempt] else [])
           in if cancelled attempt then (Inl ErrCancelled, evs1)
              else connect_from dial cancelled (attempt + 1) (evs1 @ [Waited attempt]))"
  by pat_completeness auto
termination by (relation "measure (\<lambda>(d, c, attempt, evs). 11 - attempt)") auto

declare connect_from.simps [simp del]

definition connectDB :: "string \<Rightarrow> (nat \<Rightarrow> dial) \<Rightarrow> (nat \<Rightarrow> bool) \<Rightarrow> (dial_event list, startup_error, nat) step" where
  "connectDB url dial cancelled = (if url = [] then throwE ErrNoURL else connect_from dial cancelled 1)"

text \<open>A log of dials: every pool opened for nothing is closed, and at most ten dials are made.\<close>

definition dials :: "(nat \<Rightarrow> dial) \<Rightarrow> nat \<Rightarrow> nat \<Rightarrow> dial_event list" where
  "dials dial a b = concat (map (\<lambda>n. Dialled n # (if dial n = NoPing then [Closed n] else []) @ [Waited n]) [a..<b])"

lemma dials_step: "a < b \<Longrightarrow> dials dial a b = (Dialled a # (if dial a = NoPing then [Closed a] else []) @ [Waited a]) @ dials dial (a + 1) b"
  by (simp add: dials_def upt_conv_Cons)

lemma connect_from_spec:
  assumes "connect_from dial cancelled a evs = (r, evs')" "a \<le> 11"
  shows "\<exists>n\<ge>a. (\<forall>m. a \<le> m \<longrightarrow> m < n \<longrightarrow> dial m \<noteq> Connected \<and> \<not> cancelled m) \<and>
    (case r of Inr k \<Rightarrow> k = n \<and> n \<le> 10 \<and> dial n = Connected \<and> evs' = evs @ dials dial a n @ [Dialled n]
     | Inl e \<Rightarrow> (e = ErrConnect \<and> n = 11 \<and> evs' = evs @ dials dial a n)
         \<or> (e = ErrCancelled \<and> n \<le> 10 \<and> dial n \<noteq> Connected \<and> cancelled n \<and>
            evs' = evs @ dials dial a n @ Dialled n # (if dial n = NoPing then [Closed n] else [])))"
  using assms
proof (induction dial cancelled a evs rule: connect_from.induct)
  case (1 dial cancelled a evs)
  let ?mine = "Dialled a # (if dial a = NoPing then [Closed a] else [])"
  consider "a = 11" | "a \<le> 10" "dial a = Connected" | "a \<le> 10" "dial a \<noteq> Connected" "cancelled a" | "a \<le> 10" "dial a \<noteq> Connected" "\<not> cancelled a"
    using 1(3) by linarith
  then show ?case
  proof cases
    case 4
    have "connect_from dial cancelled (a + 1) ((evs @ ?mine) @ [Waited a]) = (r, evs')"
      using 1(2) 4 by (subst (asm) connect_from.simps) (simp add: Let_def)
    then obtain n where n: "n \<ge> a + 1" "\<forall>m. a + 1 \<le> m \<longrightarrow> m < n \<longrightarrow> dial m \<noteq> Connected \<and> \<not> cancelled m"
      "case r of Inr k \<Rightarrow> k = n \<and> n \<le> 10 \<and> dial n = Connected \<and> evs' = ((evs @ ?mine) @ [Waited a]) @ dials dial (a + 1) n @ [Dialled n]
       | Inl e \<Rightarrow> (e = ErrConnect \<and> n = 11 \<and> evs' = ((evs @ ?mine) @ [Waited a]) @ dials dial (a + 1) n)
         \<or> (e = ErrCancelled \<and> n \<le> 10 \<and> dial n \<noteq> Connected \<and> cancelled n \<and>
            evs' = ((evs @ ?mine) @ [Waited a]) @ dials dial (a + 1) n @ Dialled n # (if dial n = NoPing then [Closed n] else []))"
      using 1(1)[of "evs @ ?mine"] 4 by auto
    have "\<forall>m. a \<le> m \<longrightarrow> m < n \<longrightarrow> dial m \<noteq> Connected \<and> \<not> cancelled m"
      using n(2) 4 by (metis Suc_eq_plus1 Suc_leI le_neq_implies_less)
    moreover have "dials dial a n = ?mine @ [Waited a] @ dials dial (a + 1) n" using n(1) dials_step[of a n dial] by simp
    ultimately show ?thesis using n(1,3) by (intro exI[of _ n]) (auto split: sum.splits)
  next
    case 1
    with \<open>connect_from dial cancelled a evs = (r, evs')\<close> have "r = Inl ErrConnect" "evs' = evs" by (subst (asm) connect_from.simps; simp)+
    then show ?thesis using 1 by (intro exI[of _ a]) (simp add: dials_def)
  next
    case 2
    with \<open>connect_from dial cancelled a evs = (r, evs')\<close> have "r = Inr a" "evs' = evs @ [Dialled a]" by (subst (asm) connect_from.simps; simp)+
    then show ?thesis using 2 by (intro exI[of _ a]) (simp add: dials_def)
  next
    case 3
    with \<open>connect_from dial cancelled a evs = (r, evs')\<close> have "r = Inl ErrCancelled" "evs' = evs @ ?mine" by (subst (asm) connect_from.simps; simp add: Let_def)+
    then show ?thesis using 3 by (intro exI[of _ a]) (simp add: dials_def)
  qed
qed

text \<open>connectDB comes back after at most ten dials: it returns the pool of the first attempt that answers the ping, an
  error once the context is cancelled while it waits, or an error after the tenth dial; it waits between two
  dials and every pool whose ping failed is closed, so no connection is leaked.\<close>

theorem connectDB_returns:
  assumes "connectDB url dial cancelled [] = (r, evs)" "url \<noteq> []"
  shows "\<exists>n. 1 \<le> n \<and> (\<forall>m. 1 \<le> m \<longrightarrow> m < n \<longrightarrow> dial m \<noteq> Connected \<and> \<not> cancelled m) \<and>
    (case r of Inr k \<Rightarrow> k = n \<and> n \<le> 10 \<and> dial n = Connected \<and> evs = dials dial 1 n @ [Dialled n]
     | Inl e \<Rightarrow> (e = ErrConnect \<and> n = 11 \<and> evs = dials dial 1 n)
         \<or> (e = ErrCancelled \<and> n \<le> 10 \<and> dial n \<noteq> Connected \<and> cancelled n \<and>
            evs = dials dial 1 n @ Dialled n # (if dial n = NoPing then [Closed n] else [])))"
proof -
  have run: "connect_from dial cancelled 1 [] = (r, evs)" and ten: "1 \<le> (11 :: nat)" using assms by (simp_all add: connectDB_def)
  from connect_from_spec[OF run ten] show ?thesis unfolding append_Nil .
qed

theorem connectDB_returns_witness:
  "\<exists>evs. connectDB ''db'' (\<lambda>n. if n < 3 then NoPing else Connected) (\<lambda>n. False) [] = (Inr 3, evs) \<and>
     evs = [Dialled 1, Closed 1, Waited 1, Dialled 2, Closed 2, Waited 2, Dialled 3]"
proof -
  have "connectDB ''db'' (\<lambda>n. if n < 3 then NoPing else Connected) (\<lambda>n. False) [] =
      (Inr 3, [Dialled 1, Closed 1, Waited 1, Dialled 2, Closed 2, Waited 2, Dialled 3])"
    by (simp add: connectDB_def connect_from.simps)
  from connectDB_returns[OF this] this show ?thesis by blast
qed

end
