(* ===== verification/Migrate.thy ===== *)
theory Migrate imports Startup begin

text \<open>
  migrate.go. The ledger is what a migration run touches: the data the migrations build, the rows of schema_migrations
  (none before the table exists), and how the exchanges with the server will go. A reply can be lost after the server did its work.
\<close>

section \<open>The ledger\<close>

datatype exchange_fate = Fine | Down | Lost

record 'd ledger =
  lg_data :: 'd
  lg_versions :: "string list option"
  lg_fates :: "exchange_fate list"

type_synonym ('d, 'a) mig = "('d ledger, startup_error, 'a) step"

definition next_fate :: "'d ledger \<Rightarrow> exchange_fate \<times> 'd ledger" where
  "next_fate s = (case lg_fates s of [] \<Rightarrow> (Fine, s) | x # xs \<Rightarrow> (x, s\<lparr>lg_fates := xs\<rparr>))"

definition exchange_with :: "('d, 'a) mig \<Rightarrow> ('d, 'a) mig" where
  "exchange_with f s = (case next_fate s of (Fine, s1) \<Rightarrow> f s1 | (Down, s1) \<Rightarrow> (Inl ErrExchange, s1) | (Lost, s1) \<Rightarrow> (Inl ErrExchange, snd (f s1)))"

text \<open>What a rollback undoes, and a transaction around one migration. A commit can be done and its reply lost.\<close>

definition rollback :: "'d ledger \<Rightarrow> 'd ledger \<Rightarrow> 'd ledger" where
  "rollback s1 s2 = s1\<lparr>lg_fates := lg_fates s2\<rparr>"

definition mig_tx :: "('d, unit) mig \<Rightarrow> ('d, unit) mig" where
  "mig_tx m = bindE (exchange_with (returnE ())) (\<lambda>_ s1. case m s1 of
     (Inl e, s2) \<Rightarrow> (Inl e, rollback s1 s2)
   | (Inr _, s2) \<Rightarrow> (case next_fate s2 of (Fine, s3) \<Rightarrow> (Inr (), s3) | (Down, s3) \<Rightarrow> (Inl ErrExchange, rollback s1 s3) | (Lost, s3) \<Rightarrow> (Inl ErrExchange, s3)))"

section \<open>migrate\<close>

definition create_table :: "('d, unit) mig" where
  "create_table s = (Inr (), s\<lparr>lg_versions := Some (case lg_versions s of None \<Rightarrow> [] | Some vs \<Rightarrow> vs)\<rparr>)"

definition read_applied :: "('d, string list) mig" where
  "read_applied s = (case lg_versions s of None \<Rightarrow> (Inl ErrNoTable, s) | Some vs \<Rightarrow> (Inr vs, s))"

definition apply_body :: "(string \<Rightarrow> 'd \<Rightarrow> 'd option) \<Rightarrow> string \<Rightarrow> ('d, unit) mig" where
  "apply_body sql body s = (case sql body (lg_data s) of None \<Rightarrow> (Inl ErrApply, s) | Some d \<Rightarrow> (Inr (), s\<lparr>lg_data := d\<rparr>))"

text \<open>The version is the primary key.\<close>

definition record_version :: "string \<Rightarrow> ('d, unit) mig" where
  "record_version v s = (case lg_versions s of None \<Rightarrow> (Inl ErrNoTable, s) | Some vs \<Rightarrow>
     if v \<in> set vs then (Inl ErrApplied, s) else (Inr (), s\<lparr>lg_versions := Some (vs @ [v])\<rparr>))"

text \<open>
  The embedded directory: names with the body of a regular file. \<open>others v\<close> is what other processes do to the database before
  the transaction of version \<open>v\<close> begins.
\<close>

fun apply_each :: "(string \<times> string option) list \<Rightarrow> (string \<Rightarrow> 'd \<Rightarrow> 'd option) \<Rightarrow> (string \<Rightarrow> 'd ledger \<Rightarrow> 'd ledger) \<Rightarrow>
    string list \<Rightarrow> string list \<Rightarrow> ('d, unit) mig" where
  "apply_each entries sql others applied [] = returnE ()"
| "apply_each entries sql others applied (v # vs) = (if v \<in> set applied then apply_each entries sql others applied vs else
     case map_of entries v of Some (Some body) \<Rightarrow>
       bindE (\<lambda>s. (Inr (), others v s)) (\<lambda>_.
       bindE (mig_tx (bindE (exchange_with (apply_body sql body)) (\<lambda>_. exchange_with (record_version v)))) (\<lambda>_.
       apply_each entries sql others applied vs))
     | _ \<Rightarrow> throwE ErrFile)"

definition versions_of :: "(string \<times> string option) list \<Rightarrow> string list" where
  "versions_of entries = sort (map fst (filter (\<lambda>e. snd e \<noteq> None) entries))"

definition migrate :: "(string \<times> string option) list \<Rightarrow> (string \<Rightarrow> 'd \<Rightarrow> 'd option) \<Rightarrow> (string \<Rightarrow> 'd ledger \<Rightarrow> 'd ledger) \<Rightarrow> ('d, unit) mig" where
  "migrate entries sql others = bindE (exchange_with create_table) (\<lambda>_. bindE (exchange_with read_applied) (\<lambda>applied.
     apply_each entries sql others applied (versions_of entries)))"

section \<open>What a run leaves\<close>

text \<open>The data are what the recorded migrations, each recorded once, make of the empty database \<open>d\<close>, in the order recorded.\<close>

definition build :: "(string \<Rightarrow> string) \<Rightarrow> (string \<Rightarrow> 'd \<Rightarrow> 'd option) \<Rightarrow> string list \<Rightarrow> 'd \<Rightarrow> 'd option" where
  "build body sql vs d = fold (\<lambda>v r. Option.bind r (sql (body v))) vs (Some d)"

definition recorded_versions :: "'d ledger \<Rightarrow> string list" where
  "recorded_versions s = (case lg_versions s of None \<Rightarrow> [] | Some vs \<Rightarrow> vs)"

definition in_step :: "(string \<Rightarrow> string) \<Rightarrow> (string \<Rightarrow> 'd \<Rightarrow> 'd option) \<Rightarrow> 'd \<Rightarrow> 'd ledger \<Rightarrow> bool" where
  "in_step body sql d s \<longleftrightarrow> distinct (recorded_versions s) \<and> build body sql (recorded_versions s) d = Some (lg_data s)"

lemma build_snoc: "build body sql vs d = Some x \<Longrightarrow> build body sql (vs @ [v]) d = sql (body v) x"
  by (simp add: build_def)

abbreviation same_ledger :: "'d ledger \<Rightarrow> 'd ledger \<Rightarrow> bool" where
  "same_ledger s t \<equiv> lg_data t = lg_data s \<and> lg_versions t = lg_versions s"

lemma next_fate_same: "next_fate s = (x, s') \<Longrightarrow> same_ledger s s'"
  by (auto simp: next_fate_def split: list.splits)

lemma exchange_cases:
  assumes "exchange_with f s = (r, s')"
  obtains s1 r1 where "same_ledger s s1" "f s1 = (r1, s')" "r = r1 \<or> r = Inl ErrExchange" | "r = Inl ErrExchange" "same_ledger s s'"
proof -
  obtain x s1 where n: "next_fate s = (x, s1)" by fastforce
  note same = next_fate_same[OF n]
  show thesis
  proof (cases x)
    case Down
    then show thesis using assms n same that(2) by (simp add: exchange_with_def)
  next
    case Fine
    then show thesis using assms n same that(1)[of s1 r] by (simp add: exchange_with_def)
  next
    case Lost
    then have "f s1 = (fst (f s1), s')" "r = Inl ErrExchange" using assms n by (auto simp: exchange_with_def)
    then show thesis using that(1)[OF same] by blast
  qed
qed

text \<open>One migration happens as a whole or not at all, and only when its version was not recorded.\<close>

lemma mig_tx_cases:
  assumes "mig_tx (bindE (exchange_with (apply_body sql body)) (\<lambda>_. exchange_with (record_version v))) s = (r, s')"
  obtains "same_ledger s s'" "r \<noteq> Inr ()"
  | vs d where "lg_versions s = Some vs" "v \<notin> set vs" "sql body (lg_data s) = Some d" "lg_data s' = d" "lg_versions s' = Some (vs @ [v])"
proof -
  have "same_ledger s s' \<and> r \<noteq> Inr () \<or> (\<exists>vs d. lg_versions s = Some vs \<and> v \<notin> set vs \<and> sql body (lg_data s) = Some d \<and> lg_data s' = d \<and> lg_versions s' = Some (vs @ [v]))"
  proof (cases "\<exists>s1. exchange_with (returnE ()) s = (Inr (), s1)")
    case False
    then obtain e where "exchange_with (returnE ()) s = (Inl e, s')" "r = Inl e"
      using assms by (auto simp: mig_tx_def bindE_def split: prod.splits sum.splits)
    then show ?thesis by (auto elim!: exchange_cases simp: returnE_def)
  next
    case True
    then obtain s1 where s1: "exchange_with (returnE ()) s = (Inr (), s1)" by blast
    have same: "same_ledger s s1" using s1 by (auto elim!: exchange_cases simp: returnE_def)
    obtain q s2 where m: "bindE (exchange_with (apply_body sql body)) (\<lambda>_. exchange_with (record_version v)) s1 = (q, s2)" by fastforce
    show ?thesis
    proof (cases q)
      case (Inl e)
      then show ?thesis using assms s1 m same by (auto simp: mig_tx_def bindE_def rollback_def)
    next
      case (Inr u)
      then obtain s0 where a: "exchange_with (apply_body sql body) s1 = (Inr (), s0)" and b: "exchange_with (record_version v) s0 = (Inr (), s2)"
        using m by (auto simp: step_iffs)
      obtain d where d: "sql body (lg_data s1) = Some d" "lg_data s0 = d" "lg_versions s0 = lg_versions s1"
        using a by (auto elim!: exchange_cases simp: apply_body_def split: option.splits)
      obtain vs where vs: "lg_versions s0 = Some vs" "v \<notin> set vs" "lg_versions s2 = Some (vs @ [v])" "lg_data s2 = lg_data s0"
        using b by (auto elim!: exchange_cases simp: record_version_def split: option.splits if_splits)
      obtain x s3 where c: "next_fate s2 = (x, s3)" by fastforce
      show ?thesis
      proof (cases x)
        case Down
        then show ?thesis using assms s1 m Inr c same by (auto simp: mig_tx_def bindE_def rollback_def)
      qed (use assms s1 m Inr c same d vs next_fate_same[OF c] in \<open>simp_all add: mig_tx_def bindE_def\<close>)
    qed
  qed
  then show thesis using that by metis
qed

text \<open>A migration that went through leaves the ledger in step; one that failed leaves it as it was or did all the same.\<close>

lemma mig_tx_in_step:
  assumes "mig_tx (bindE (exchange_with (apply_body sql (body v))) (\<lambda>_. exchange_with (record_version v))) s = (r, s')" "in_step body sql d s"
  shows "in_step body sql d s' \<and> set (recorded_versions s) \<subseteq> set (recorded_versions s') \<and> (r = Inr () \<longrightarrow> v \<in> set (recorded_versions s'))"
  using assms(1)
proof (rule mig_tx_cases)
  assume "same_ledger s s'" "r \<noteq> Inr ()"
  then show ?thesis using assms(2) by (simp add: in_step_def recorded_versions_def)
next
  fix vs x assume t: "lg_versions s = Some vs" "v \<notin> set vs" "sql (body v) (lg_data s) = Some x" "lg_data s' = x" "lg_versions s' = Some (vs @ [v])"
  then have "build body sql (vs @ [v]) d = Some x" using assms(2) build_snoc[of body sql vs d] by (simp add: in_step_def recorded_versions_def)
  then show ?thesis using t assms(2) by (auto simp: in_step_def recorded_versions_def)
qed

definition rely :: "(string \<Rightarrow> string) \<Rightarrow> (string \<Rightarrow> 'd \<Rightarrow> 'd option) \<Rightarrow> 'd \<Rightarrow> (string \<Rightarrow> 'd ledger \<Rightarrow> 'd ledger) \<Rightarrow> bool" where
  "rely body sql d others \<longleftrightarrow> (\<forall>v s. in_step body sql d s \<longrightarrow>
     in_step body sql d (others v s) \<and> set (recorded_versions s) \<subseteq> set (recorded_versions (others v s)))"

lemma apply_each_in_step:
  assumes "apply_each entries sql others applied vs s = (r, s')" "in_step body sql d s" "rely body sql d others"
    "\<And>v b. map_of entries v = Some (Some b) \<Longrightarrow> body v = b"
  shows "in_step body sql d s' \<and> set (recorded_versions s) \<subseteq> set (recorded_versions s') \<and>
    (r = Inr () \<longrightarrow> set vs \<subseteq> set applied \<union> set (recorded_versions s'))"
  using assms(1,2)
proof (induction vs arbitrary: s)
  case Nil
  then show ?case by (simp add: returnE_def)
next
  case (Cons v vs)
  show ?case
  proof (cases "v \<in> set applied")
    case True
    then show ?thesis using Cons by auto
  next
    case False
    show ?thesis
    proof (cases "\<exists>b. map_of entries v = Some (Some b)")
      case False
      then have "apply_each entries sql others applied (v # vs) s = throwE ErrFile s"
        using \<open>v \<notin> set applied\<close> by (auto split: option.split)
      then have "r = Inl ErrFile" "s' = s" using Cons.prems(1) by (simp_all add: throwE_def)
      then show ?thesis using Cons.prems(2) by simp
    next
      case True
      then obtain b where b: "map_of entries v = Some (Some b)" "body v = b" using assms(4) by blast
      let ?s = "others v s"
      have o: "in_step body sql d ?s" "set (recorded_versions s) \<subseteq> set (recorded_versions ?s)"
        using assms(3) Cons.prems(2) by (simp_all add: rely_def)
      obtain q s1 where t: "mig_tx (bindE (exchange_with (apply_body sql b)) (\<lambda>_. exchange_with (record_version v))) ?s = (q, s1)" by fastforce
      note step = mig_tx_in_step[of sql body v ?s q s1 d, unfolded b(2), OF t o(1)]
      show ?thesis
      proof (cases q)
        case (Inl e)
        then show ?thesis using Cons.prems(1) False b(1) t step o(2) by (auto simp: bindE_def)
      next
        case (Inr u)
        then have "apply_each entries sql others applied vs s1 = (r, s')" using Cons.prems(1) False b(1) t by (simp add: bindE_def)
        from Cons.IH[OF this] step Inr o(2) show ?thesis by auto
      qed
    qed
  qed
qed

lemma apply_each_skips: "set vs \<subseteq> set applied \<Longrightarrow> apply_each entries sql others applied vs = returnE ()"
  by (induction vs) auto

lemma versions_file: "v \<in> set (versions_of entries) \<Longrightarrow> distinct (map fst entries) \<Longrightarrow> \<exists>b. map_of entries v = Some (Some b)"
  by (auto simp: versions_of_def)

lemma exchange_create: "exchange_with create_table s = (r, s') \<Longrightarrow> lg_data s' = lg_data s \<and> recorded_versions s' = recorded_versions s"
  by (auto elim!: exchange_cases simp: create_table_def recorded_versions_def split: option.splits)

lemma exchange_read: "exchange_with read_applied s = (r, s') \<Longrightarrow> same_ledger s s' \<and> (\<forall>vs. r = Inr vs \<longrightarrow> recorded_versions s = vs)"
  by (auto elim!: exchange_cases simp: read_applied_def recorded_versions_def split: option.splits)

text \<open>The head of a run, and what follows.\<close>

lemma migrate_cases:
  assumes "migrate entries sql others s = (r, s')"
  obtains "lg_data s' = lg_data s" "recorded_versions s' = recorded_versions s" "r \<noteq> Inr ()"
  | s2 where "lg_data s2 = lg_data s" "recorded_versions s2 = recorded_versions s"
     "apply_each entries sql others (recorded_versions s) (versions_of entries) s2 = (r, s')"
proof -
  obtain q s1 where c: "exchange_with create_table s = (q, s1)" by fastforce
  show thesis
  proof (cases q)
    case (Inl e)
    then show thesis using that(1) assms c exchange_create[OF c] by (auto simp: migrate_def bindE_def)
  next
    case (Inr u)
    obtain q2 s2 where rd: "exchange_with read_applied s1 = (q2, s2)" by fastforce
    show thesis
    proof (cases q2)
      case (Inl e)
      then show thesis using that(1) assms c Inr rd exchange_create[OF c] exchange_read[OF rd] by (auto simp: migrate_def bindE_def recorded_versions_def)
    next
      case (Inr vs)
      then show thesis using that(2)[of s2] assms c \<open>q = Inr u\<close> rd exchange_create[OF c] exchange_read[OF rd]
        by (simp add: migrate_def bindE_def recorded_versions_def)
    qed
  qed
qed

text \<open>Alone, a run records a prefix of what is pending, in the order of the names.\<close>

definition pending :: "(string \<times> string option) list \<Rightarrow> string list \<Rightarrow> string list" where
  "pending entries applied = filter (\<lambda>v. v \<notin> set applied) (versions_of entries)"

lemma mig_tx_recorded:
  assumes "mig_tx (bindE (exchange_with (apply_body sql b)) (\<lambda>_. exchange_with (record_version v))) s = (r, s')"
  shows "recorded_versions s' = recorded_versions s \<and> r \<noteq> Inr () \<or> recorded_versions s' = recorded_versions s @ [v]"
  using assms by (rule mig_tx_cases) (auto simp: recorded_versions_def)

lemma apply_each_prefix:
  assumes "apply_each entries sql (\<lambda>v s. s) applied vs s = (r, s')"
  shows "\<exists>k. recorded_versions s' = recorded_versions s @ take k (filter (\<lambda>v. v \<notin> set applied) vs)"
  using assms
proof (induction vs arbitrary: s)
  case (Cons v vs)
  show ?case
  proof (cases "v \<notin> set applied \<and> (\<exists>b. map_of entries v = Some (Some b))")
    case False
    then show ?thesis
    proof (cases "v \<in> set applied")
      case False
      then have "apply_each entries sql (\<lambda>v s. s) applied (v # vs) s = throwE ErrFile s"
        using \<open>\<not> (v \<notin> set applied \<and> _)\<close> by (auto split: option.split)
      then have "s' = s" using Cons.prems by (simp add: throwE_def)
      then show ?thesis by (intro exI[of _ 0]) simp
    qed (use Cons in simp)
  next
    case True
    then obtain b where b: "map_of entries v = Some (Some b)" by blast
    obtain q s1 where t: "mig_tx (bindE (exchange_with (apply_body sql b)) (\<lambda>_. exchange_with (record_version v))) s = (q, s1)" by fastforce
    note step = mig_tx_recorded[OF t]
    show ?thesis
    proof (cases q)
      case (Inl e)
      then have "s' = s1" using Cons.prems True b t by (auto simp: bindE_def)
      then show ?thesis using step True by (elim disjE) (auto intro: exI[of _ 0] exI[of _ 1])
    next
      case (Inr u)
      then have "apply_each entries sql (\<lambda>v s. s) applied vs s1 = (r, s')" using Cons.prems True b t by (simp add: bindE_def)
      then obtain k where "recorded_versions s' = recorded_versions s1 @ take k (filter (\<lambda>v. v \<notin> set applied) vs)" using Cons.IH by blast
      then show ?thesis using step Inr True by (intro exI[of _ "Suc k"]) simp
    qed
  qed
qed (simp add: returnE_def)

lemma migrate_records:
  assumes "migrate entries sql others s = (r, s')" "in_step body sql d s" "rely body sql d others"
    "\<forall>v b. map_of entries v = Some (Some b) \<longrightarrow> body v = b"
  shows "in_step body sql d s' \<and> set (recorded_versions s) \<subseteq> set (recorded_versions s') \<and>
    (r = Inr () \<longrightarrow> set (versions_of entries) \<subseteq> set (recorded_versions s'))"
  using assms(1)
proof (rule migrate_cases)
  fix s2 assume s2: "lg_data s2 = lg_data s" "recorded_versions s2 = recorded_versions s"
    "apply_each entries sql others (recorded_versions s) (versions_of entries) s2 = (r, s')"
  have "in_step body sql d s2" using assms(2) s2(1,2) by (simp add: in_step_def)
  from apply_each_in_step[OF s2(3) this assms(3)] assms(4) s2(2) show ?thesis by auto
qed (use assms(2) in \<open>simp add: in_step_def\<close>)

text \<open>C38: Migrations are all or nothing and happen once: whatever exchange with the server fails or loses its reply, and whatever
  other instances migrate meanwhile, the data stay what the recorded migrations, each applied exactly once, made of
  the empty database, and no record is lost; alone, a run applies a prefix of what is pending in the order of the
  file names; after a run without an error every shipped migration is recorded, and
  running again changes nothing.\<close>

theorem migrate_once:
  assumes "migrate entries sql others s = (r, s')" "in_step body sql d s" "rely body sql d others"
    "\<forall>v b. map_of entries v = Some (Some b) \<longrightarrow> body v = b"
  shows "in_step body sql d s' \<and> set (recorded_versions s) \<subseteq> set (recorded_versions s') \<and>
    (others = (\<lambda>v s. s) \<longrightarrow> (\<exists>k. recorded_versions s' = recorded_versions s @ take k (pending entries (recorded_versions s)))) \<and>
    (r = Inr () \<longrightarrow> set (versions_of entries) \<subseteq> set (recorded_versions s') \<and>
      (\<forall>r2 s2 t. lg_data t = lg_data s' \<longrightarrow> recorded_versions t = recorded_versions s' \<longrightarrow> migrate entries sql others t = (r2, s2) \<longrightarrow>
         lg_data s2 = lg_data s' \<and> recorded_versions s2 = recorded_versions s'))"
proof -
  note one = migrate_records[OF assms]
  have again: "lg_data s2 = lg_data s' \<and> recorded_versions s2 = recorded_versions s'"
    if "r = Inr ()" "lg_data t = lg_data s'" "recorded_versions t = recorded_versions s'" "migrate entries sql others t = (r2, s2)" for r2 s2 t
    using that(4)
  proof (rule migrate_cases)
    fix t2 assume t2: "lg_data t2 = lg_data t" "recorded_versions t2 = recorded_versions t"
      "apply_each entries sql others (recorded_versions t) (versions_of entries) t2 = (r2, s2)"
    have "set (versions_of entries) \<subseteq> set (recorded_versions t)" using one that(1,3) by simp
    with t2 that(2,3) show ?thesis by (simp add: apply_each_skips returnE_def)
  qed (use that in simp)
  have prefix: "\<exists>k. recorded_versions s' = recorded_versions s @ take k (pending entries (recorded_versions s))" if "others = (\<lambda>v s. s)"
    using assms(1)
  proof (rule migrate_cases)
    fix s2 assume s2: "recorded_versions s2 = recorded_versions s"
      "apply_each entries sql others (recorded_versions s) (versions_of entries) s2 = (r, s')"
    from apply_each_prefix[OF s2(2)[unfolded that]] s2(1) show ?thesis by (simp add: pending_def)
  qed (use exI[of _ 0] in simp)
  show ?thesis using one again prefix by blast
qed

text \<open>Two migrations, the connection lost while the second commits; the database did it all the same.\<close>

definition sample_dir :: "(string \<times> string option) list" where
  "sample_dir = [(''0002_b.sql'', Some ''b''), (''0001_a.sql'', Some ''a''), (''old'', None)]"

lemma sample_migrate: "migrate sample_dir (\<lambda>b d. Some (d @ b)) (\<lambda>v s. s)
    \<lparr>lg_data = [], lg_versions = None, lg_fates = replicate 9 Fine @ [Lost]\<rparr> =
  (Inl ErrExchange, \<lparr>lg_data = ''ab'', lg_versions = Some [''0001_a.sql'', ''0002_b.sql''], lg_fates = []\<rparr>)"
  by code_simp

theorem migrate_once_witness:
  "set (recorded_versions (snd (migrate sample_dir (\<lambda>b d. Some (d @ b)) (\<lambda>v s. s)
     \<lparr>lg_data = [], lg_versions = None, lg_fates = replicate 9 Fine @ [Lost]\<rparr>))) = {''0001_a.sql'', ''0002_b.sql''} \<and>
   in_step (\<lambda>v. if v = ''0001_a.sql'' then ''a'' else ''b'') (\<lambda>b d. Some (d @ b)) []
     \<lparr>lg_data = ''ab'', lg_versions = Some [''0001_a.sql'', ''0002_b.sql''], lg_fates = []\<rparr>"
proof -
  have "in_step (\<lambda>v. if v = ''0001_a.sql'' then ''a'' else ''b'') (\<lambda>b d. Some (d @ b)) [] \<lparr>lg_data = [], lg_versions = None, lg_fates = replicate 9 Fine @ [Lost]\<rparr>"
    by (simp add: in_step_def recorded_versions_def build_def)
  from migrate_once[OF sample_migrate this] sample_migrate show ?thesis
    by (auto simp: rely_def sample_dir_def recorded_versions_def split: if_splits)
qed

end
