(* ===== verification/Submission.thy ===== *)
theory Submission imports MailLogin MailDomain begin

text \<open>
  internal/submission: the SMTP server a person's mail program sends through. The protocol engine go-smtp
  calls Auth, Mail, Rcpt, Data and Reset on a session and answers a second AUTH after a successful one
  itself. net/mail's address lists, the RFC 1123 date and the DKIM signer are in \<open>sub_lib\<close>. What the local
  Postfix took over is listed in \<open>sb_relayed\<close>; \<open>sb_answers\<close> holds what goes wrong in the coming
  exchanges with it: a reply code, or a connection lost before the reply, which says nothing about whether
  the message was queued.
\<close>

section \<open>The state\<close>

datatype relay_answer = Relay_fine | Relay_code nat | Relay_lost bool

record sub_session =
  sb_user :: string
  sb_box :: string
  sb_ws :: string
  sb_address :: string
  sb_hash :: string
  sb_from :: string
  sb_rcpts :: "string list"
  sb_app :: bool
  sb_relayed :: "(string \<times> string list \<times> string) list"
  sb_answers :: "relay_answer list"

record sub_lib =
  ml_list :: "string \<Rightarrow> string list option"
  ml_rfc1123 :: "time \<Rightarrow> string"
  ml_sign :: "string \<Rightarrow> string \<Rightarrow> string \<Rightarrow> string \<Rightarrow> string \<Rightarrow> string option"

record 's backend =
  bk_lib :: lib
  bk_mime :: mime_lib
  bk_sub :: sub_lib
  bk_domains :: domain_service
  bk_limiter :: "'s redis_client option"
  bk_minute :: int
  bk_day :: int

type_synonym ('s, 'a) sub_op = "('s srv \<times> sub_session, gerror, 'a) step"

definition with_session :: "(sub_session \<Rightarrow> ('s, 'a) sub_op) \<Rightarrow> ('s, 'a) sub_op" where
  "with_session f s = f (snd s) s"

definition set_session :: "(sub_session \<Rightarrow> sub_session) \<Rightarrow> ('s, unit) sub_op" where
  "set_session f s = (Inr (), (fst s, f (snd s)))"

definition on_world :: "'a op \<Rightarrow> ('s, 'a) sub_op" where
  "on_world m = onFst (onFst m)"

section \<open>Who may send\<close>

text \<open>The user of identityQuery has a row and need not change the password.\<close>

definition locked_out :: "db \<Rightarrow> string \<Rightarrow> bool" where
  "locked_out t u \<longleftrightarrow> \<not> (\<exists>v\<in>set (users t). u_id v = u \<and> \<not> u_must_change v)"

definition credential_rows :: "string \<Rightarrow> db \<Rightarrow> (string \<times> string \<times> string \<times> string option) list" where
  "credential_rows address t = concat (map (\<lambda>c. concat (map (\<lambda>(b, x). map (\<lambda>m. (c_issuer c, b_id b, w_id x, Some (c_hash c)))
     (filter (\<lambda>m. m_ws m = w_id x \<and> m_user m = c_issuer c \<and> m_role m \<in> {RoleOwner, RoleAdmin}) (members t)))
     (filter (\<lambda>(b, x). b_id b = c_box c) (boxes_at address t)))) (smtp_creds t))"

definition sub_rows :: "bool \<Rightarrow> string \<Rightarrow> db \<Rightarrow> (string \<times> string \<times> string \<times> string option) list" where
  "sub_rows app = (if app then credential_rows else reader_rows locked_out)"

definition try_login :: "lib \<Rightarrow> bool \<Rightarrow> string \<Rightarrow> string \<Rightarrow> (string \<times> string \<times> string \<times> string) option op" where
  "try_login L app address password = handleE (scan_row (sub_rows app address)) (\<lambda>e. returnE None)
     (\<lambda>(u, b, w, h). returnE (if l_bcrypt_ok L h password then Some (u, b, w, h) else None))"

text \<open>The mailbox password is tried first, then the password of the reader.\<close>

definition authenticate :: "lib \<Rightarrow> string \<Rightarrow> string \<Rightarrow> ((string \<times> string \<times> string \<times> string) \<times> bool) op" where
  "authenticate L address password = bindE (try_login L True address password) (\<lambda>r1. case r1 of Some v \<Rightarrow> returnE (v, True) | None \<Rightarrow>
     bindE (try_login L False address password) (\<lambda>r2. case r2 of Some v \<Rightarrow> returnE (v, False) | None \<Rightarrow> throwE Sub_ErrAuthFailed))"

definition sub_Auth :: "'s backend \<Rightarrow> bool \<Rightarrow> string \<Rightarrow> string \<Rightarrow> string \<Rightarrow> string \<Rightarrow> string \<Rightarrow> ('s, unit) sub_op" where
  "sub_Auth B tls mech host identity addr password =
     bindE (guardE (\<not> tls) Sub_ErrAuthRequired) (\<lambda>_.
     bindE (guardE (mech \<noteq> ''PLAIN'') Sub_ErrAuthUnknownMechanism) (\<lambda>_. let address = to_lower (trim_space addr) in
     bindE (guardE (identity \<noteq> [] \<and> \<not> equal_fold identity address) Sub_ErrAuthFailed) (\<lambda>_.
     bindE (onFst (ask_limiter (\<lambda>c now. allow_strict c now submissionLoginIP host) (bk_limiter B))) (\<lambda>ok1.
     bindE (guardE (\<not> ok1) Sub_ErrAuthFailed) (\<lambda>_.
     bindE (onFst (ask_limiter (\<lambda>c now. allow_strict c now submissionLoginAddress address) (bk_limiter B))) (\<lambda>ok2.
     bindE (guardE (\<not> ok2) Sub_ErrAuthFailed) (\<lambda>_.
     bindE (on_world (authenticate (bk_lib B) address password)) (\<lambda>((user, box, ws, hash), app).
     set_session (\<lambda>s. s\<lparr>sb_app := app, sb_user := user, sb_box := box, sb_ws := ws, sb_hash := hash, sb_address := address\<rparr>)))))))))"

definition sub_check :: "('s, unit) sub_op" where
  "sub_check = with_session (\<lambda>s. bindE (guardE (sb_user s = []) Sub_ErrAuthRequired) (\<lambda>_.
     handleE (on_world (scan_row (sub_rows (sb_app s) (sb_address s)))) (\<lambda>e. throwE Sub_ErrAuthFailed)
       (\<lambda>(user, box, ws, hash). guardE (user \<noteq> sb_user s \<or> box \<noteq> sb_box s \<or> ws \<noteq> sb_ws s \<or> hash \<noteq> sb_hash s) Sub_ErrAuthFailed)))"

definition sub_Mail :: "string \<Rightarrow> ('s, unit) sub_op" where
  "sub_Mail from = bindE sub_check (\<lambda>_. with_session (\<lambda>s.
     bindE (guardE (\<not> equal_fold from (sb_address s)) Sub_ErrDenied) (\<lambda>_.
     set_session (\<lambda>s. s\<lparr>sb_from := sb_address s, sb_rcpts := []\<rparr>))))"

definition sub_Rcpt :: "lib \<Rightarrow> string \<Rightarrow> ('s, unit) sub_op" where
  "sub_Rcpt L to = with_session (\<lambda>s. bindE (guardE (sb_user s = [] \<or> sb_from s = []) Sub_ErrAuthRequired) (\<lambda>_.
     case l_parse_address L to of None \<Rightarrow> throwE (Sub_SMTPError 553) | Some (a, name) \<Rightarrow>
     bindE (guardE (a \<noteq> to \<or> contains_any to [CHR 0x0D, CHR 0x0A, CHR 0x00]) (Sub_SMTPError 553)) (\<lambda>_.
     set_session (\<lambda>s. s\<lparr>sb_rcpts := sb_rcpts s @ [to]\<rparr>))))"

definition sub_Reset :: "sub_session \<Rightarrow> sub_session" where
  "sub_Reset s = s\<lparr>sb_from := [], sb_rcpts := []\<rparr>"

section \<open>The message\<close>

definition crlf :: string where "crlf = [CHR 0x0D, CHR 0x0A]"

text \<open>\<open>bytes.Split(raw, CRLF)\<close>, and what lies before and after the first empty line.\<close>

fun split_lines :: "string \<Rightarrow> string list" where
  "split_lines [] = [[]]"
| "split_lines [c] = [[c]]"
| "split_lines (c # d # cs) = (if c = CHR 0x0D \<and> d = CHR 0x0A then [] # split_lines cs
     else (case split_lines (d # cs) of [] \<Rightarrow> [[c]] | l # ls \<Rightarrow> (c # l) # ls))"

fun cut_head :: "string \<Rightarrow> (string \<times> string) option" where
  "cut_head [] = None"
| "cut_head (c # cs) = (if has_prefix (c # cs) (crlf @ crlf) then Some ([], drop 4 (c # cs))
     else (case cut_head cs of None \<Rightarrow> None | Some (h, b) \<Rightarrow> Some (c # h, b)))"

definition author_ok :: "sub_lib \<Rightarrow> (string \<Rightarrow> string list) \<Rightarrow> string \<Rightarrow> bool" where
  "author_ok A H address \<longleftrightarrow> length (H ''From'') = 1 \<and> length (H ''Sender'') \<le> 1 \<and>
     (\<forall>v\<in>set (H ''From'' @ H ''Sender''). case ml_list A v of Some [a] \<Rightarrow> equal_fold a address | _ \<Rightarrow> False)"

definition get_header :: "(string \<Rightarrow> string list) \<Rightarrow> string \<Rightarrow> string" where
  "get_header H k = (case H k of [] \<Rightarrow> [] | v # vs \<Rightarrow> v)"

text \<open>
  The domain of an address: \<open>strings.SplitN(address, "@", 2)[1]\<close>. On an address without an at sign the code
  panics, which the engine turns into a reply 421; no signed-in address is like that.
\<close>

definition domain_part :: "string \<Rightarrow> ('s, gerror, string) step" where
  "domain_part address = (case str_cut address (CHR ''@'') of None \<Rightarrow> throwE (Sub_SMTPError 421) | Some (l, d) \<Rightarrow> returnE d)"

definition missing_headers :: "sub_lib \<Rightarrow> (string \<Rightarrow> string list) \<Rightarrow> string \<Rightarrow> string op" where
  "missing_headers A H address =
     bindE (if get_header H ''Date'' = [] then bindE (asks app_now) (\<lambda>now. returnE (''Date: '' @ ml_rfc1123 A now @ crlf)) else returnE []) (\<lambda>date.
     bindE (if get_header H ''Message-Id'' = [] then bindE (domain_part address) (\<lambda>d. withUUID (\<lambda>i.
        returnE (''Message-ID: <'' @ i @ ''@'' @ d @ ''>'' @ crlf))) else returnE []) (\<lambda>ident.
     returnE (date @ ident)))"

definition dropped_names :: "string list" where
  "dropped_names = [''bcc'', ''return-path'', ''received'', ''authentication-results'', ''dkim-signature'']"

definition dropped_name :: "string \<Rightarrow> bool" where
  "dropped_name name \<longleftrightarrow> name \<in> set dropped_names \<or> has_prefix name ''arc-''"

definition folded :: "string \<Rightarrow> bool" where
  "folded l \<longleftrightarrow> (case l of [] \<Rightarrow> False | c # cs \<Rightarrow> c = CHR '' '' \<or> c = CHR 0x09)"

text \<open>The loop over the lines; \<open>skip\<close> is carried from one to the next.\<close>

fun keep_lines :: "bool \<Rightarrow> string list \<Rightarrow> string option" where
  "keep_lines skip [] = Some []"
| "keep_lines skip (l # ls) = (if l = [] then None else
     if folded l then (case keep_lines skip ls of None \<Rightarrow> None | Some out \<Rightarrow> Some ((if skip then [] else l @ crlf) @ out))
     else (case str_cut l (CHR '':'') of None \<Rightarrow> None | Some (n, v) \<Rightarrow> let name = to_lower n in
       if n = [] \<or> has_prefix name ''resent-'' then None
       else (case keep_lines (dropped_name name) ls of None \<Rightarrow> None
         | Some out \<Rightarrow> Some ((if dropped_name name then [] else l @ crlf) @ out))))"

definition prepare :: "mime_lib \<Rightarrow> sub_lib \<Rightarrow> string \<Rightarrow> string \<Rightarrow> string op" where
  "prepare M A raw address = (case cut_head raw of None \<Rightarrow> throwE Sub_ErrDenied | Some (head, body) \<Rightarrow>
     bindE (guardE (128 * 1024 < length head) Sub_ErrDenied) (\<lambda>_.
     case mm_head M raw of None \<Rightarrow> throwE Sub_ErrDenied | Some H \<Rightarrow>
     bindE (guardE (\<not> author_ok A H address) Sub_ErrDenied) (\<lambda>_.
     bindE (guardE (1 < length (H ''Date'') \<or> 1 < length (H ''Message-Id'')) Sub_ErrDenied) (\<lambda>_.
     bindE (missing_headers A H address) (\<lambda>fresh.
     case keep_lines False (split_lines head) of None \<Rightarrow> throwE Sub_ErrDenied | Some kept \<Rightarrow> returnE (fresh @ kept @ crlf @ body))))))"

section \<open>Signing and relaying\<close>

text \<open>relay.go: the signature covers the header up to and with the CRLF of its last line, and the body.\<close>

definition submission_DKIM :: "sub_lib \<Rightarrow> domain_service \<Rightarrow> string \<Rightarrow> string \<Rightarrow> string \<Rightarrow> string op" where
  "submission_DKIM A D ws domain raw = bindE (SigningKeyForDomain D ws domain) (\<lambda>(selector, der).
     case cut_head raw of None \<Rightarrow> throwE Sign_Err | Some (head, body) \<Rightarrow>
     (case ml_sign A domain selector der (head @ crlf) body of None \<Rightarrow> throwE Sign_Err | Some signature \<Rightarrow> returnE (signature @ raw)))"

text \<open>One exchange with Postfix; the effect is what it does when the exchange succeeds.\<close>

definition exchange :: "(sub_session \<Rightarrow> sub_session) \<Rightarrow> ('s, unit) sub_op" where
  "exchange f = with_session (\<lambda>s. case sb_answers s of [] \<Rightarrow> set_session f
     | a # as \<Rightarrow> bindE (set_session (\<lambda>s. s\<lparr>sb_answers := as\<rparr>)) (\<lambda>_. case a of Relay_fine \<Rightarrow> set_session f
        | Relay_code n \<Rightarrow> throwE (Sub_SMTPError n)
        | Relay_lost queued \<Rightarrow> bindE (if queued then set_session f else returnE ()) (\<lambda>_. throwE Imap_ErrConn)))"

definition SMTPRelay :: "string \<Rightarrow> string list \<Rightarrow> string \<Rightarrow> ('s, unit) sub_op" where
  "SMTPRelay from to raw = bindE (exchange (\<lambda>s. s)) (\<lambda>_. bindE (exchange (\<lambda>s. s)) (\<lambda>_.
     bindE (exchange (\<lambda>s. s\<lparr>sb_relayed := sb_relayed s @ [(from, to, raw)]\<rparr>)) (\<lambda>_. ignoreE (exchange (\<lambda>s. s)))))"

definition submission_quota :: "'s backend \<Rightarrow> rule list" where
  "submission_quota B = [\<lparr>rl_name = ''send:minute'', rl_limit = (if bk_minute B \<le> 0 then 60 else bk_minute B), rl_window = minute\<rparr>,
     \<lparr>rl_name = ''send:day'', rl_limit = (if bk_day B \<le> 0 then 5000 else bk_day B), rl_window = 24 * hour\<rparr>]"

fun within_quota :: "'s redis_client option \<Rightarrow> string \<Rightarrow> rule list \<Rightarrow> ('s, unit) sub_op" where
  "within_quota R ws [] = returnE ()"
| "within_quota R ws (q # qs) = bindE (onFst (ask_limiter (\<lambda>c now. allow_strict c now q ws) R)) (\<lambda>ok.
     bindE (guardE (\<not> ok) (Sub_SMTPError 451)) (\<lambda>_. within_quota R ws qs))"

definition submissionMaxBytes :: nat where "submissionMaxBytes = 26214400"

text \<open>\<open>None\<close> is a read that failed.\<close>

definition sub_Data :: "'s backend \<Rightarrow> string option \<Rightarrow> ('s, unit) sub_op" where
  "sub_Data B r = (case r of None \<Rightarrow> throwE (Sub_SMTPError 451) | Some input \<Rightarrow>
     let raw = take (submissionMaxBytes + 1) input in
     bindE (guardE (submissionMaxBytes < length raw) (Sub_SMTPError 552)) (\<lambda>_.
     bindE sub_check (\<lambda>_. with_session (\<lambda>s.
     bindE (guardE (sb_from s = [] \<or> sb_rcpts s = []) Sub_ErrAuthRequired) (\<lambda>_.
     handleE (on_world (prepare (bk_mime B) (bk_sub B) raw (sb_address s))) (\<lambda>e. throwE Sub_ErrDenied) (\<lambda>clean.
     bindE (within_quota (bk_limiter B) (sb_ws s) (submission_quota B)) (\<lambda>_.
     bindE (domain_part (sb_address s)) (\<lambda>domain.
     handleE (on_world (submission_DKIM (bk_sub B) (bk_domains B) (sb_ws s) domain clean)) (\<lambda>e. throwE (Sub_SMTPError 451)) (\<lambda>signed.
     bindE sub_check (\<lambda>_.
     handleE (SMTPRelay (sb_from s) (sb_rcpts s) signed)
       (\<lambda>e. throwE (case e of Sub_SMTPError n \<Rightarrow> Sub_SMTPError (if 500 \<le> n then 554 else 451) | _ \<Rightarrow> Sub_SMTPError 451))
       (\<lambda>_. returnE ())))))))))))"

end
