(* ===== verification/Worker.thy ===== *)
theory Worker imports EmailService begin

text \<open>
  internal/email/queue.go: the worker that delivers one recorded message per task. A result
  \<open>Inr ()\<close> tells asynq that the task is done, \<open>Inl\<close> that it is to be tried again.
\<close>

definition maxAttempts :: nat where
  "maxAttempts = 8"

record worker =
  wk_send :: "mail \<Rightarrow> string op"
  wk_blobs :: "blob_store option"
  wk_domains :: "(string \<Rightarrow> string \<Rightarrow> (string \<times> string) op) option"
  wk_lib :: lib

definition domainOf :: "string \<Rightarrow> string" where
  "domainOf addr = (case after_at addr of None \<Rightarrow> [] | Some d \<Rightarrow> d)"

text \<open>\<open>Ok None\<close> is "send unsigned".\<close>

definition resolveDKIM :: "worker \<Rightarrow> email_row \<Rightarrow> dkim_sig option op" where
  "resolveDKIM W claimed =
     (case wk_domains W of None \<Rightarrow> returnE None | Some signing \<Rightarrow>
      let domain = domainOf (e_from claimed) in
      if domain = [] then returnE None else
      handleE (signing (e_ws claimed) domain)
        (\<lambda>e. if e \<in> {Dom_ErrNotFound, Dom_ErrNotVerified, Dom_ErrNoActiveKey} then returnE None
             else throwE e)
        (\<lambda>(sel, der). returnE (Some \<lparr>dk_domain = domain, dk_selector = sel, dk_key = der\<rparr>)))"

fun fetch_all :: "blob_store \<Rightarrow> attachment_row list \<Rightarrow> attfile list op" where
  "fetch_all B [] = returnE []"
| "fetch_all B (a # as) =
     bindE (bs_Get B (a_key a)) (\<lambda>d.
     bindE (fetch_all B as) (\<lambda>fs.
     returnE (\<lparr>fl_name = a_filename a, fl_ctype = a_ctype a, fl_content = d\<rparr> # fs)))"

definition loadAttachments :: "worker \<Rightarrow> string \<Rightarrow> attfile list op" where
  "loadAttachments W emailID =
     bindE (AttachmentsByEmailID emailID) (\<lambda>rows.
     if rows = [] then returnE [] else
     (case wk_blobs W of None \<Rightarrow> throwE Storage_ErrNotConfigured | Some B \<Rightarrow> fetch_all B rows))"

definition giveUpOrRetry :: "worker \<Rightarrow> email_row \<Rightarrow> nat \<Rightarrow> nat \<Rightarrow> gerror \<Rightarrow> unit op" where
  "giveUpOrRetry W claimed retried maxRetry sendErr =
     (if maxRetry \<le> retried then
        bindE (ignoreE (MarkDead (e_id claimed) (l_error (wk_lib W) sendErr))) (\<lambda>_. returnE ())
      else
        bindE (ignoreE (MarkFailed (e_id claimed) (l_error (wk_lib W) sendErr))) (\<lambda>_.
        throwE sendErr))"

definition reply_headers :: "email_row \<Rightarrow> (string \<times> string) list" where
  "reply_headers e =
     (if e_in_reply_to e \<noteq> [] then [(''In-Reply-To'', e_in_reply_to e)] else []) @
     (if e_refs e \<noteq> [] then [(''References'', e_refs e)] else [])"

definition mail_of :: "email_row \<Rightarrow> attfile list \<Rightarrow> dkim_sig option \<Rightarrow> mail" where
  "mail_of e files dkim = \<lparr>ml_from = e_from e, ml_to = e_to e, ml_cc = e_cc e, ml_bcc = e_bcc e,
     ml_subject = e_subject e, ml_html = deref (e_html e), ml_text = deref (e_text e),
     ml_headers = reply_headers e, ml_files = files, ml_dkim = dkim\<rparr>"

lemma mail_of_sel [simp]:
  "ml_from (mail_of e fs d) = e_from e" "ml_to (mail_of e fs d) = e_to e"
  "ml_cc (mail_of e fs d) = e_cc e" "ml_bcc (mail_of e fs d) = e_bcc e"
  "ml_subject (mail_of e fs d) = e_subject e" "ml_headers (mail_of e fs d) = reply_headers e"
  "ml_files (mail_of e fs d) = fs" "ml_dkim (mail_of e fs d) = d"
  "ml_text (mail_of e fs d) = deref (e_text e)" "ml_html (mail_of e fs d) = deref (e_html e)"
  by (simp_all add: mail_of_def)

text \<open>Deliver from the claim on.\<close>

definition attempt :: "worker \<Rightarrow> email_row \<Rightarrow> nat \<Rightarrow> nat \<Rightarrow> unit op" where
  "attempt W claimed retried maxRetry =
     handleE (loadAttachments W (e_id claimed)) (giveUpOrRetry W claimed retried maxRetry) (\<lambda>files.
     handleE (resolveDKIM W claimed) (giveUpOrRetry W claimed retried maxRetry) (\<lambda>dkim.
     handleE (wk_send W (mail_of claimed files dkim)) (giveUpOrRetry W claimed retried maxRetry) (\<lambda>mid.
     ignoreE (MarkSent (e_id claimed) mid))))"

definition Deliver :: "worker \<Rightarrow> string \<Rightarrow> nat \<Rightarrow> nat \<Rightarrow> unit op" where
  "Deliver W emailID retried maxRetry =
     handleE (ByIDUnscoped emailID)
       (\<lambda>e. if e = Email_ErrNotFound then returnE () else throwE e) (\<lambda>email.
     if Terminal (e_status email) then returnE () else
     handleE (MarkProcessing (e_id email))
       (\<lambda>e. if e = Email_ErrNotFound then returnE () else throwE e) (\<lambda>claimed.
     attempt W claimed retried maxRetry))"

text \<open>HandleSend: the payload holds the id; without a retry budget in the context, the default.\<close>

definition HandleSend :: "worker \<Rightarrow> string option \<Rightarrow> nat \<Rightarrow> nat option \<Rightarrow> unit op" where
  "HandleSend W payload retried maxRetry =
     (case payload of None \<Rightarrow> throwE Email_ErrValidation
      | Some emailID \<Rightarrow> Deliver W emailID retried
          (case maxRetry of None \<Rightarrow> maxAttempts | Some m \<Rightarrow> m))"

end
