(* ===== verification/Delivery.thy ===== *)
theory Delivery imports Worker begin

text \<open>
  Any number of workers and requests over one database: every store operation is one step
  (its transaction), and between two steps of a worker anything else may happen, a crash included.
  \<open>Deliver\<close> is one way through these steps. What is shown holds for every interleaving: a message
  is held by at most one worker, is accepted by the transport at most once, and a message sent
  or given up on stays so.
\<close>

datatype phase = Idle | Loaded string | Holding email_row | Handed string string
  | Failing email_row gerror

record sys =
  sy_world :: world
  sy_phase :: "nat \<Rightarrow> phase"
  sy_handed :: "string list"

text \<open>The message a worker has claimed and not yet recorded.\<close>

fun held :: "phase \<Rightarrow> string option" where
  "held (Holding e) = Some (e_id e)"
| "held (Handed i _) = Some i"
| "held (Failing e _) = Some (e_id e)"
| "held _ = None"

definition quiet :: "world \<Rightarrow> world \<Rightarrow> bool" where
  "quiet w w' \<longleftrightarrow> emails (tabs w') = emails (tabs w) \<and> events (tabs w') = events (tabs w) \<and>
     outbox w' = outbox w"

definition go :: "sys \<Rightarrow> nat \<Rightarrow> world \<Rightarrow> phase \<Rightarrow> sys" where
  "go s p w ph = s\<lparr>sy_world := w, sy_phase := (sy_phase s)(p := ph)\<rparr>"

inductive dstep :: "worker \<Rightarrow> sys \<Rightarrow> sys \<Rightarrow> bool" for W where
  Load: "sy_phase s p = Idle \<Longrightarrow> ByIDUnscoped i (sy_world s) = (Inr e, w) \<Longrightarrow>
    \<not> Terminal (e_status e) \<Longrightarrow> dstep W s (go s p w (Loaded (e_id e)))"
| Claim: "sy_phase s p = Loaded i \<Longrightarrow> MarkProcessing i (sy_world s) = (Inr e, w) \<Longrightarrow>
    dstep W s (go s p w (Holding e))"
| Claim_lost: "sy_phase s p = Loaded i \<Longrightarrow> MarkProcessing i (sy_world s) = (Inl x, w) \<Longrightarrow>
    dstep W s (go s p w Idle)"
| Prepare_failed: "sy_phase s p = Holding e \<Longrightarrow> dstep W s (go s p (sy_world s) (Failing e x))"
| Hand_off: "sy_phase s p = Holding e \<Longrightarrow>
    wk_send W (mail_of e files dkim) (sy_world s) = (Inr mid, w) \<Longrightarrow>
    dstep W s ((go s p w (Handed (e_id e) mid))\<lparr>sy_handed := sy_handed s @ [e_id e]\<rparr>)"
| Refused: "sy_phase s p = Holding e \<Longrightarrow>
    wk_send W (mail_of e files dkim) (sy_world s) = (Inl x, w) \<Longrightarrow>
    dstep W s (go s p w (Failing e x))"
| Record_sent: "sy_phase s p = Handed i mid \<Longrightarrow> MarkSent i mid (sy_world s) = (r, w) \<Longrightarrow>
    dstep W s (go s p w Idle)"
| Record_failed: "sy_phase s p = Failing e x \<Longrightarrow>
    MarkFailed (e_id e) reason (sy_world s) = (r, w) \<Longrightarrow> dstep W s (go s p w Idle)"
| Record_dead: "sy_phase s p = Failing e x \<Longrightarrow>
    MarkDead (e_id e) reason (sy_world s) = (r, w) \<Longrightarrow> dstep W s (go s p w Idle)"
| Crash: "dstep W s (go s p (sy_world s) Idle)"
| New: "Create q (sy_world s) = (r, w) \<Longrightarrow> dstep W s (s\<lparr>sy_world := w\<rparr>)"
| Other: "quiet (sy_world s) w \<Longrightarrow> dstep W s (s\<lparr>sy_world := w\<rparr>)"

definition in_status :: "world \<Rightarrow> string \<Rightarrow> status set \<Rightarrow> bool" where
  "in_status w i S \<longleftrightarrow> (\<exists>e\<in>set (emails (tabs w)). e_id e = i \<and> e_status e \<in> S)"

text \<open>The invariant of the interleaving.\<close>

definition one_holder :: "sys \<Rightarrow> bool" where
  "one_holder s \<longleftrightarrow> (\<forall>p q i. held (sy_phase s p) = Some i \<longrightarrow> held (sy_phase s q) = Some i \<longrightarrow> p = q)"

definition held_processing :: "sys \<Rightarrow> bool" where
  "held_processing s \<longleftrightarrow>
     (\<forall>p i. held (sy_phase s p) = Some i \<longrightarrow> in_status (sy_world s) i {StatusProcessing})"

definition handed_once :: "sys \<Rightarrow> bool" where
  "handed_once s \<longleftrightarrow> distinct (sy_handed s) \<and>
     (\<forall>i\<in>set (sy_handed s). in_status (sy_world s) i {StatusProcessing, StatusSent} \<and>
        (\<forall>p. held (sy_phase s p) = Some i \<longrightarrow> (\<exists>mid. sy_phase s p = Handed i mid)))"

definition delivery_ok :: "sys \<Rightarrow> bool" where
  "delivery_ok s \<longleftrightarrow> log_ok (tabs (sy_world s)) \<and> one_holder s \<and> held_processing s \<and> handed_once s"

section \<open>Statuses under a step\<close>

lemma go_simps [simp]:
  "sy_world (go s p w ph) = w" "sy_handed (go s p w ph) = sy_handed s"
  "sy_phase (go s p w ph) = (sy_phase s)(p := ph)"
  by (simp_all add: go_def)

lemma in_status_tabs: "emails (tabs w') = emails (tabs w) \<Longrightarrow> in_status w' i S = in_status w i S"
  by (simp add: in_status_def)

lemma in_status_unique:
  "log_ok (tabs w) \<Longrightarrow> in_status w i S \<Longrightarrow> in_status w i T \<Longrightarrow> S \<inter> T \<noteq> {}"
  unfolding in_status_def using log_ok_unique by blast

lemma finish_in_status:
  assumes "finish ty P f d w = (r, w')" "log_ok (tabs w)" "\<And>x. P x \<Longrightarrow> e_id x = i"
    and "\<And>e. e_id (f e) = e_id e" "\<And>e. e_status (f e) = st"
  shows "j \<noteq> i \<Longrightarrow> in_status w' j S = in_status w j S"
    and "r = Inr e' \<Longrightarrow> in_status w' i {st} \<and> e_id e' = i \<and> e_status e' = st"
    and "r = Inl x \<Longrightarrow> emails (tabs w') = emails (tabs w)"
proof -
  have *: "(r = Inr e' \<longrightarrow> in_status w' i {st} \<and> e_id e' = i \<and> e_status e' = st) \<and> (r = Inl x \<longrightarrow> emails (tabs w') = emails (tabs w)) \<and>
      (\<forall>j. j \<noteq> i \<longrightarrow> in_status w' j S = in_status w j S)"
  proof (cases r)
    case (Inr e1)
    then obtain e where e: "List.find P (emails (tabs w)) = Some e" "e1 = f e"
      "emails (tabs w') = upd_where P f (emails (tabs w))"
      using finish_Inr[of ty P f d w e1 w'] assms(1) by auto
    have m: "e \<in> set (emails (tabs w))" "P e" using find_SomeD[OF e(1)] by auto
    have "e_id e = i" by (rule assms(3)[OF m(2)])
    moreover have "in_status w' i {st}"
      using m calculation assms(4,5) by (auto simp: in_status_def e(3) table_simps)
    moreover have "in_status w' j S = in_status w j S" if "j \<noteq> i" for j
    proof -
      have "e_id x \<noteq> j" if "P x" for x using assms(3)[OF that] \<open>j \<noteq> i\<close> by simp
      then show ?thesis
        using assms(4) by (auto simp: in_status_def e(3) table_simps) blast
    qed
    ultimately show ?thesis using Inr e(2) assms(4,5) by auto
  next
    case (Inl x')
    with finish_Inl[of ty P f d w x' w'] assms(1) show ?thesis
      by (auto simp: in_status_def)
  qed
  show "j \<noteq> i \<Longrightarrow> in_status w' j S = in_status w j S" using * by blast
  show "r = Inr e' \<Longrightarrow> in_status w' i {st} \<and> e_id e' = i \<and> e_status e' = st" using * by blast
  show "r = Inl x \<Longrightarrow> emails (tabs w') = emails (tabs w)" using * by blast
qed

lemma Mark_in_status:
  "MarkProcessing i w = (r, w') \<Longrightarrow> log_ok (tabs w) \<Longrightarrow> j \<noteq> i \<Longrightarrow> in_status w' j S = in_status w j S"
  "MarkSent i m w = (r, w') \<Longrightarrow> log_ok (tabs w) \<Longrightarrow> j \<noteq> i \<Longrightarrow> in_status w' j S = in_status w j S"
  "MarkFailed i m w = (r, w') \<Longrightarrow> log_ok (tabs w) \<Longrightarrow> j \<noteq> i \<Longrightarrow> in_status w' j S = in_status w j S"
  "MarkDead i m w = (r, w') \<Longrightarrow> log_ok (tabs w) \<Longrightarrow> j \<noteq> i \<Longrightarrow> in_status w' j S = in_status w j S"
  unfolding Mark_defs by (erule finish_in_status(1)[where i = i], simp_all)+

lemma MarkProcessing_Inr:
  assumes "MarkProcessing i w = (Inr e, w')" "log_ok (tabs w)"
  shows "in_status w' i {StatusProcessing} \<and> e_id e = i \<and> in_status w i {StatusQueued, StatusFailed}"
proof -
  have "in_status w' i {StatusProcessing} \<and> e_id e = i \<and> e_status e = StatusProcessing"
    using finish_in_status(2)[OF assms(1)[unfolded MarkProcessing_def] assms(2), where i = i] by simp
  moreover have "in_status w i {StatusQueued, StatusFailed}"
    using finish_Inr[OF assms(1)[unfolded MarkProcessing_def]]
    by (auto simp: in_status_def dest!: find_SomeD)
  ultimately show ?thesis by blast
qed

lemma MarkProcessing_Inl: "MarkProcessing i w = (Inl x, w') \<Longrightarrow> tabs w' = tabs w"
  using finish_Inl by (auto simp: MarkProcessing_def)

lemma MarkSent_status:
  assumes "MarkSent i m w = (r, w')" "log_ok (tabs w)" "in_status w i {StatusProcessing, StatusSent}"
  shows "in_status w' i {StatusProcessing, StatusSent}"
proof (cases r)
  case (Inr e)
  then have "in_status w' i {StatusSent}"
    using finish_in_status(2)[OF assms(1)[unfolded MarkSent_def] assms(2), where i = i] by simp
  then show ?thesis by (auto simp: in_status_def)
next
  case (Inl x)
  then have "emails (tabs w') = emails (tabs w)"
    using finish_in_status(3)[OF assms(1)[unfolded MarkSent_def] assms(2), where i = i] by simp
  then show ?thesis using assms(3) by (simp add: in_status_def)
qed

lemma Create_in_status: "Create q w = (r, w') \<Longrightarrow> in_status w i S \<Longrightarrow> in_status w' i S"
proof (cases r)
  case (Inr e)
  then show "Create q w = (r, w') \<Longrightarrow> in_status w i S \<Longrightarrow> ?thesis"
    using Create_Inr[of q w e w'] by (auto simp: in_status_def)
next
  case (Inl e)
  then show "Create q w = (r, w') \<Longrightarrow> in_status w i S \<Longrightarrow> ?thesis"
    using Create_Inl[of q w e w'] by (auto simp: in_status_def)
qed

text \<open>A step that keeps the tables' statuses and changes one worker's phase.\<close>

lemma delivery_ok_go:
  assumes ok: "delivery_ok s" and log: "log_ok (tabs w)"
    and same: "\<And>j S. Some j \<noteq> held (sy_phase s p) \<Longrightarrow> in_status (sy_world s) j S \<Longrightarrow> in_status w j S"
    and h: "held ph = None \<or> held ph = held (sy_phase s p)"
    and p: "\<And>i. held ph = Some i \<Longrightarrow> in_status w i {StatusProcessing}"
    and g: "\<And>i. i \<in> set (sy_handed s) \<Longrightarrow> held (sy_phase s p) = Some i \<Longrightarrow> in_status w i {StatusProcessing, StatusSent} \<and>
       (held ph = Some i \<longrightarrow> (\<exists>mid. ph = Handed i mid))"
  shows "delivery_ok (go s p w ph)"
proof -
  have one: "one_holder (go s p w ph)"
    using ok h unfolding delivery_ok_def one_holder_def
    by (simp split: if_split) (metis option.distinct(1))
  have hp: "in_status w i {StatusProcessing}" if "held (sy_phase s q) = Some i" "q \<noteq> p" for q i
  proof -
    have "Some i \<noteq> held (sy_phase s p)"
      using ok that unfolding delivery_ok_def one_holder_def by metis
    then show ?thesis
      using ok that same unfolding delivery_ok_def held_processing_def by blast
  qed
  have hg: "in_status w i {StatusProcessing, StatusSent}" if "i \<in> set (sy_handed s)" for i
    using ok that g[OF that] same[of i] unfolding delivery_ok_def handed_once_def by metis
  have "held_processing (go s p w ph)"
    using hp p by (auto simp: held_processing_def)
  moreover have "handed_once (go s p w ph)"
    using ok hg g h unfolding delivery_ok_def handed_once_def by auto
  ultimately show ?thesis
    using one log by (simp add: delivery_ok_def)
qed


lemma delivery_ok_world:
  assumes "delivery_ok s" "log_ok (tabs w)" "\<And>j S. in_status (sy_world s) j S \<Longrightarrow> in_status w j S"
  shows "delivery_ok (s\<lparr>sy_world := w\<rparr>)"
  using assms unfolding delivery_ok_def one_holder_def held_processing_def handed_once_def by simp

lemma in_status_sub: "in_status w i S \<Longrightarrow> S \<subseteq> T \<Longrightarrow> in_status w i T"
  by (auto simp: in_status_def)

lemma delivery_okD:
  assumes "delivery_ok s"
  shows "log_ok (tabs (sy_world s))"
    "held (sy_phase s p) = Some i \<Longrightarrow> in_status (sy_world s) i {StatusProcessing}"
    "held (sy_phase s p) = Some i \<Longrightarrow> held (sy_phase s q) = Some i \<Longrightarrow> p = q"
    "i \<in> set (sy_handed s) \<Longrightarrow> in_status (sy_world s) i {StatusProcessing, StatusSent}"
    "i \<in> set (sy_handed s) \<Longrightarrow> held (sy_phase s p) = Some i \<Longrightarrow> \<exists>mid. sy_phase s p = Handed i mid"
    "distinct (sy_handed s)"
  using assms unfolding delivery_ok_def one_holder_def held_processing_def handed_once_def by blast+


lemma Claim_ok:
  assumes ok: "delivery_ok s" and mp: "MarkProcessing i (sy_world s) = (Inr e, w)"
  shows "delivery_ok (go s p w (Holding e))"
proof -
  have m: "in_status w i {StatusProcessing}" "e_id e = i" "in_status (sy_world s) i {StatusQueued, StatusFailed}"
    using MarkProcessing_Inr[OF mp delivery_okD(1)[OF ok]] by auto
  have free: "held (sy_phase s q) \<noteq> Some i" for q
    using delivery_okD(1)[OF ok] delivery_okD(2)[OF ok, of q i] m(3) in_status_unique by fastforce
  have nh: "i \<notin> set (sy_handed s)"
    using delivery_okD(1)[OF ok] delivery_okD(4)[OF ok, of i] m(3) in_status_unique by fastforce
  have keep: "in_status w j S" if "j \<noteq> i" "in_status (sy_world s) j S" for j S
    using Mark_in_status(1)[OF mp delivery_okD(1)[OF ok]] that by simp
  have "one_holder (go s p w (Holding e))"
    using free m(2) delivery_okD(3)[OF ok] by (auto simp: one_holder_def)
  moreover have "held_processing (go s p w (Holding e))"
    unfolding held_processing_def
  proof (intro allI impI)
    fix q j assume "held (sy_phase (go s p w (Holding e)) q) = Some j"
    then show "in_status (sy_world (go s p w (Holding e))) j {StatusProcessing}"
      using m free[of q] delivery_okD(2)[OF ok, of q j] keep[of j] by (auto split: if_splits)
  qed
  moreover have "handed_once (go s p w (Holding e))"
    unfolding handed_once_def
  proof (intro conjI ballI allI impI)
    fix j assume j: "j \<in> set (sy_handed (go s p w (Holding e)))"
    then have "j \<noteq> i" using nh by auto
    then show "in_status (sy_world (go s p w (Holding e))) j {StatusProcessing, StatusSent}"
      using keep delivery_okD(4)[OF ok] j by simp
    fix q assume "held (sy_phase (go s p w (Holding e)) q) = Some j"
    then show "\<exists>mid. sy_phase (go s p w (Holding e)) q = Handed j mid"
      using \<open>j \<noteq> i\<close> j m(2) delivery_okD(5)[OF ok] by (auto split: if_splits)
  qed (use delivery_okD(6)[OF ok] in simp)
  ultimately show ?thesis
    using Mark_log_ok(1)[OF mp delivery_okD(1)[OF ok]] by (simp add: delivery_ok_def)
qed

text \<open>Any step of a worker that keeps the tables.\<close>

lemma same_tabs_ok:
  assumes "delivery_ok s" "tabs w = tabs (sy_world s)"
    and "held ph = None \<or> held ph = held (sy_phase s p)"
    and "\<And>i mid. sy_phase s p = Handed i mid \<Longrightarrow> held ph = None"
  shows "delivery_ok (go s p w ph)"
proof (rule delivery_ok_go[OF assms(1)])
  show "log_ok (tabs w)"
    using assms(1,2) delivery_okD(1) by simp
  show "in_status w j S" if "in_status (sy_world s) j S" for j S
    using that assms(2) by (simp add: in_status_def)
  show "held ph = None \<or> held ph = held (sy_phase s p)" by (rule assms(3))
  show "in_status w i {StatusProcessing}" if "held ph = Some i" for i
    using that assms(2,3) delivery_okD(2)[OF assms(1), of p i] by (auto simp: in_status_def)
  show "in_status w i {StatusProcessing, StatusSent} \<and> (held ph = Some i \<longrightarrow> (\<exists>mid. ph = Handed i mid))"
    if "i \<in> set (sy_handed s)" "held (sy_phase s p) = Some i" for i
    using delivery_okD(4)[OF assms(1) that(1)] delivery_okD(5)[OF assms(1) that] assms(2,4)
    by (auto simp: in_status_def)
qed

lemma Record_ok:
  assumes ok: "delivery_ok s" and h: "held (sy_phase s p) = Some i" and log: "log_ok (tabs w)"
    and keep: "\<And>j S. j \<noteq> i \<Longrightarrow> in_status w j S = in_status (sy_world s) j S"
    and g: "i \<in> set (sy_handed s) \<Longrightarrow> in_status w i {StatusProcessing, StatusSent}"
  shows "delivery_ok (go s p w Idle)"
proof (rule delivery_ok_go[OF ok log])
  show "in_status w j S" if "Some j \<noteq> held (sy_phase s p)" "in_status (sy_world s) j S" for j S
    using that h keep[of j S] by auto
  show "in_status w j {StatusProcessing, StatusSent} \<and> (held Idle = Some j \<longrightarrow> (\<exists>mid. Idle = Handed j mid))"
    if "j \<in> set (sy_handed s)" "held (sy_phase s p) = Some j" for j
    using that h g by simp
qed simp_all

lemma delivery_ok_hand:
  assumes ok: "delivery_ok s" and e: "sy_phase s p = Holding e" and w: "tabs w = tabs (sy_world s)"
  shows "delivery_ok ((go s p w (Handed (e_id e) mid))\<lparr>sy_handed := sy_handed s @ [e_id e]\<rparr>)"
proof -
  have h: "held (sy_phase s p) = Some (e_id e)" using e by simp
  have nh: "e_id e \<notin> set (sy_handed s)"
    using delivery_okD(5)[OF ok _ h] e by auto
  have st: "in_status (sy_world s) (e_id e) {StatusProcessing}"
    by (rule delivery_okD(2)[OF ok h])
  have base: "delivery_ok (go s p w (Handed (e_id e) mid))"
    by (rule same_tabs_ok[OF ok w]) (use e in auto)
  have one: "q = p" if "held (sy_phase s q) = Some (e_id e)" for q
    using delivery_okD(3)[OF ok that h] .
  have "in_status w (e_id e) {StatusProcessing, StatusSent}"
    using in_status_sub[OF st, of "{StatusProcessing, StatusSent}"] w by (simp add: in_status_def)
  moreover have "\<exists>m. sy_phase (go s p w (Handed (e_id e) mid)) q = Handed (e_id e) m"
    if "held (sy_phase (go s p w (Handed (e_id e) mid)) q) = Some (e_id e)" for q
    using that one[of q] by (cases "q = p") auto
  ultimately show ?thesis
    using base nh unfolding delivery_ok_def one_holder_def held_processing_def handed_once_def
    by (simp del: fun_upd_apply)
qed

lemma ByIDUnscoped_tabs: "ByIDUnscoped i w = (r, w') \<Longrightarrow> tabs w' = tabs w"
  by (cases r) (auto simp: ByIDUnscoped_def step_iffs)

lemma dstep_ok:
  assumes "dstep W s t" "delivery_ok s" "sender (wk_send W)"
  shows "delivery_ok t"
  using assms(1)
proof cases
  case (Load p i e w)
  then show ?thesis
    using same_tabs_ok[OF assms(2) ByIDUnscoped_tabs[OF Load(3)], of "Loaded (e_id e)" p] by simp
next
  case (Claim p i e w)
  then show ?thesis using Claim_ok[OF assms(2)] by simp
next
  case (Claim_lost p i x w)
  then show ?thesis
    using same_tabs_ok[OF assms(2) MarkProcessing_Inl[OF Claim_lost(3)], of Idle p] by simp
next
  case (Prepare_failed p e x)
  then show ?thesis using same_tabs_ok[OF assms(2) refl, of "Failing e x" p] by simp
next
  case (Crash p)
  then show ?thesis using same_tabs_ok[OF assms(2) refl, of Idle p] by simp
next
  case (Hand_off p e files dkim mid w)
  then show ?thesis
    using delivery_ok_hand[OF assms(2) Hand_off(2) sender.send_tabs[OF assms(3) Hand_off(3)]] by simp
next
  case (Refused p e files dkim x w)
  then show ?thesis
    using same_tabs_ok[OF assms(2) sender.send_tabs[OF assms(3) Refused(3)], of "Failing e x" p] by simp
next
  case (Record_sent p i mid r w)
  note log = delivery_okD(1)[OF assms(2)]
  show ?thesis
    unfolding Record_sent(1)
  proof (rule Record_ok[OF assms(2)])
    show "in_status w i {StatusProcessing, StatusSent}" if "i \<in> set (sy_handed s)"
      by (rule MarkSent_status[OF Record_sent(3) log delivery_okD(4)[OF assms(2) that]])
  qed (use Record_sent Mark_log_ok(2) Mark_in_status(2) log in auto)
next
  case (Record_failed p e x reason r w)
  note log = delivery_okD(1)[OF assms(2)]
  have "e_id e \<notin> set (sy_handed s)"
    using delivery_okD(5)[OF assms(2), of "e_id e" p] Record_failed by auto
  then show ?thesis
    unfolding Record_failed(1)
    by (intro Record_ok[OF assms(2)]) (use Record_failed Mark_log_ok(3) Mark_in_status(3) log in auto)
next
  case (Record_dead p e x reason r w)
  note log = delivery_okD(1)[OF assms(2)]
  have "e_id e \<notin> set (sy_handed s)"
    using delivery_okD(5)[OF assms(2), of "e_id e" p] Record_dead by auto
  then show ?thesis
    unfolding Record_dead(1)
    by (intro Record_ok[OF assms(2)]) (use Record_dead Mark_log_ok(4) Mark_in_status(4) log in auto)
next
  case (New q r w)
  then show ?thesis
    using delivery_ok_world[OF assms(2) Create_log_ok[OF New(2) delivery_okD(1)[OF assms(2)]]]
      Create_in_status[OF New(2)] by simp
next
  case (Other w)
  then show ?thesis
    using delivery_ok_world[OF assms(2), of w] delivery_okD(1)[OF assms(2)]
      log_ok_tabs[of "tabs w" "tabs (sy_world s)"] by (simp add: quiet_def in_status_def)
qed


text \<open>A message sent or given up on is not touched any more.\<close>

definition settled :: "sys \<Rightarrow> sys \<Rightarrow> bool" where
  "settled s t \<longleftrightarrow>
     (\<forall>e\<in>set (emails (tabs (sy_world s))). Terminal (e_status e) \<longrightarrow> e \<in> set (emails (tabs (sy_world t))))"

lemma finish_settled:
  assumes "finish ty P f d w = (r, w')" "\<And>x. x \<in> set (emails (tabs w)) \<Longrightarrow> P x \<Longrightarrow> \<not> Terminal (e_status x)"
  shows "e \<in> set (emails (tabs w)) \<Longrightarrow> Terminal (e_status e) \<Longrightarrow> e \<in> set (emails (tabs w'))"
proof (cases r)
  case (Inr x)
  then show "e \<in> set (emails (tabs w)) \<Longrightarrow> Terminal (e_status e) \<Longrightarrow> ?thesis"
    using finish_Inr[of ty P f d w x w'] assms by (auto simp: table_simps)
next
  case (Inl x)
  then show "e \<in> set (emails (tabs w)) \<Longrightarrow> Terminal (e_status e) \<Longrightarrow> ?thesis"
    using finish_Inl[of ty P f d w x w'] assms(1) by simp
qed

lemma dstep_settled:
  assumes "dstep W s t" "delivery_ok s" "sender (wk_send W)"
  shows "settled s t"
proof -
  have proc: "\<not> Terminal (e_status x)"
    if h: "held (sy_phase s p) = Some i" and x: "x \<in> set (emails (tabs (sy_world s)))" "e_id x = i" for p i x
  proof -
    obtain y where y: "y \<in> set (emails (tabs (sy_world s)))" "e_id y = i" "e_status y = StatusProcessing"
      using delivery_okD(2)[OF assms(2) h] by (auto simp: in_status_def)
    then have "x = y"
      using log_ok_unique[OF delivery_okD(1)[OF assms(2)] x(1) y(1)] x(2) by simp
    with y show ?thesis by (simp add: Terminal_def)
  qed
  show ?thesis
    using assms(1)
  proof cases
    case (Load p i e w)
    then show ?thesis using ByIDUnscoped_tabs[OF Load(3)] by (simp add: settled_def)
  next
    case (Claim p i e w)
    then show ?thesis
      unfolding settled_def go_simps
      by (auto intro!: finish_settled[OF Claim(3)[unfolded MarkProcessing_def]] simp: Terminal_def)
  next
    case (Claim_lost p i x w)
    then show ?thesis using MarkProcessing_Inl[OF Claim_lost(3)] by (simp add: settled_def)
  next
    case (Hand_off p e files dkim mid w)
    then show ?thesis using sender.send_tabs[OF assms(3) Hand_off(3)] by (simp add: settled_def)
  next
    case (Refused p e files dkim x w)
    then show ?thesis using sender.send_tabs[OF assms(3) Refused(3)] by (simp add: settled_def)
  next
    case (Record_sent p i mid r w)
    then show ?thesis
      using finish_settled[OF Record_sent(3)[unfolded MarkSent_def]] proc[of p i] by (simp add: settled_def)
  next
    case (Record_failed p e x reason r w)
    then show ?thesis
      using finish_settled[OF Record_failed(3)[unfolded MarkFailed_def]] proc[of p "e_id e"]
      by (simp add: settled_def)
  next
    case (Record_dead p e x reason r w)
    then show ?thesis
      using finish_settled[OF Record_dead(3)[unfolded MarkDead_def]] proc[of p "e_id e"]
      by (simp add: settled_def)
  next
    case (New q r w)
    then show ?thesis
      using Create_Inr[of q "sy_world s" _ w] Create_Inl[of q "sy_world s" _ w]
      by (cases r) (auto simp: settled_def)
  qed (auto simp: settled_def quiet_def)
qed


section \<open>The program's worker\<close>

text \<open>cmd/worker: the SMTP sender, the bucket if one is configured, the domain service.\<close>

definition smtp_worker :: "lib \<Rightarrow> string option \<Rightarrow> (string \<Rightarrow> string \<Rightarrow> (string \<times> string) op) option \<Rightarrow> worker" where
  "smtp_worker L prefix D = \<lparr>wk_send = smtp_Send L, wk_blobs = map_option S3Store prefix,
     wk_domains = D, wk_lib = L\<rparr>"

lemma smtp_worker_sender: "sender (wk_send (smtp_worker L B D))"
  using smtp.sender_axioms by (simp add: smtp_worker_def)

interpretation delivery: monotone_system "dstep (smtp_worker L B D)" delivery_ok settled for L B D
proof
  show "settled s u" if "settled s t" "settled t u" for s t u
    using that by (auto simp: settled_def)
  show "delivery_ok t" if "delivery_ok s" "dstep (smtp_worker L B D) s t" for s t
    by (rule dstep_ok[OF that(2,1) smtp_worker_sender])
  show "settled s t" if "delivery_ok s" "dstep (smtp_worker L B D) s t" for s t
    by (rule dstep_settled[OF that(2,1) smtp_worker_sender])
qed (simp add: settled_def)

lemma fetch_all_quiet: "fetch_all (S3Store p) as w = (r, w') \<Longrightarrow> quiet w w'"
proof (induction as arbitrary: w r w')
  case Nil
  then show ?case by (simp add: step_iffs quiet_def)
next
  case (Cons a as)
  then show ?case
    using s3.blob_tabs[of p] by (cases r) (fastforce simp: step_iffs quiet_def)+
qed

lemma loadAttachments_quiet: "loadAttachments (smtp_worker L B D) i w = (r, w') \<Longrightarrow> quiet w w'"
  by (cases r) (auto simp: loadAttachments_def AttachmentsByEmailID_def smtp_worker_def step_iffs quiet_def
      split: if_splits option.splits dest: fetch_all_quiet[unfolded quiet_def])

lemma resolveDKIM_quiet:
  assumes "resolveDKIM W e w = (r, w')"
    "\<And>f ws d w r w'. wk_domains W = Some f \<Longrightarrow> f ws d w = (r, w') \<Longrightarrow> quiet w w'"
  shows "quiet w w'"
  using assms(1) by (auto simp: resolveDKIM_def Let_def step_iffs quiet_def
      split: option.splits if_splits dest: assms(2)[unfolded quiet_def])

lemma giveUp_sim:
  assumes "sy_phase s p = Failing e x" "giveUpOrRetry W e r m y (sy_world s) = (res, w)"
  shows "dstep W s (go s p w Idle)"
  using assms by (cases res) (auto simp: giveUpOrRetry_def step_iffs split: if_splits intro: Record_failed Record_dead)

lemma go_go [simp]: "go (go s p w ph) p w' ph' = go s p w' ph'" 
  "(go s p w ph)\<lparr>sy_world := w'\<rparr> = go s p w' ph"
  "go (s\<lparr>sy_handed := h\<rparr>) p w ph = (go s p w ph)\<lparr>sy_handed := h\<rparr>"
  by (simp_all add: go_def)

lemma attempt_cases [consumes 1]:
  assumes "attempt W e r m w0 = (res, w)"
  obtains
    (load) x w1 where "loadAttachments W (e_id e) w0 = (Inl x, w1)" "giveUpOrRetry W e r m x w1 = (res, w)"
  | (dkim) files w1 x w2 where "loadAttachments W (e_id e) w0 = (Inr files, w1)"
      "resolveDKIM W e w1 = (Inl x, w2)" "giveUpOrRetry W e r m x w2 = (res, w)"
  | (refused) files w1 d w2 x w3 where "loadAttachments W (e_id e) w0 = (Inr files, w1)"
      "resolveDKIM W e w1 = (Inr d, w2)" "wk_send W (mail_of e files d) w2 = (Inl x, w3)"
      "giveUpOrRetry W e r m x w3 = (res, w)"
  | (sent) files w1 d w2 mid w3 q where "loadAttachments W (e_id e) w0 = (Inr files, w1)"
      "resolveDKIM W e w1 = (Inr d, w2)" "wk_send W (mail_of e files d) w2 = (Inr mid, w3)"
      "MarkSent (e_id e) mid w3 = (q, w)" "res = Inr ()"
  using assms unfolding attempt_def step_iffs by blast

lemma attempt_sim:
  assumes p: "sy_phase s p = Holding e" and run: "attempt W e r m (sy_world s) = (res, w)"
    and W: "\<And>i w r w'. loadAttachments W i w = (r, w') \<Longrightarrow> quiet w w'"
      "\<And>w r w'. resolveDKIM W e w = (r, w') \<Longrightarrow> quiet w w'"
  shows "\<exists>h. (dstep W)\<^sup>*\<^sup>* s ((go s p w Idle)\<lparr>sy_handed := sy_handed s @ h\<rparr>)"
proof -
  have fail: "\<exists>h. (dstep W)\<^sup>*\<^sup>* s ((go s p w Idle)\<lparr>sy_handed := sy_handed s @ h\<rparr>)"
    if "(dstep W)\<^sup>*\<^sup>* s (go s p w1 (Failing e x))" "giveUpOrRetry W e r m y w1 = (res, w)" for w1 x y
  proof -
    have "dstep W (go s p w1 (Failing e x)) (go s p w Idle)"
      using giveUp_sim[of "go s p w1 (Failing e x)" p e x W r m y res w] that(2) by simp
    then have "(dstep W)\<^sup>*\<^sup>* s (go s p w Idle)"
      using that(1) by (rule rtranclp.rtrancl_into_rtrancl[rotated])
    then show ?thesis by (intro exI[of _ "[]"]) (simp add: go_def)
  qed
  have hold: "(dstep W)\<^sup>*\<^sup>* s (go s p w1 (Holding e))" if "quiet (sy_world s) w1" for w1
  proof -
    have "s\<lparr>sy_world := w1\<rparr> = go s p w1 (Holding e)"
      using p by (simp add: go_def fun_upd_idem)
    then show ?thesis using Other[of s w1 W, OF that] by (metis r_into_rtranclp)
  qed
  have failing: "(dstep W)\<^sup>*\<^sup>* s (go s p w1 (Failing e x))" if "quiet (sy_world s) w1" for w1 x
    using hold[OF that] Prepare_failed[of "go s p w1 (Holding e)" p e W x] by (simp add: rtranclp.rtrancl_into_rtrancl)
  from run show ?thesis
  proof (cases rule: attempt_cases)
    case (load x w1)
    then show ?thesis using fail failing W(1) by blast
  next
    case (dkim files w1 x w2)
    have "quiet (sy_world s) w2" using W(1)[OF dkim(1)] W(2)[OF dkim(2)] by (simp add: quiet_def)
    then show ?thesis using fail failing dkim by blast
  next
    case (refused files w1 d w2 x w3)
    have "quiet (sy_world s) w2" using W(1)[OF refused(1)] W(2)[OF refused(2)] by (simp add: quiet_def)
    then have "(dstep W)\<^sup>*\<^sup>* s (go s p w3 (Failing e x))"
      using hold[of w2] Refused[of "go s p w2 (Holding e)" p e W files d x w3] refused(3)
      by (simp add: rtranclp.rtrancl_into_rtrancl)
    then show ?thesis using fail refused(4) by blast
  next
    case (sent files w1 d w2 mid w3 q)
    have "quiet (sy_world s) w2" using W(1)[OF sent(1)] W(2)[OF sent(2)] by (simp add: quiet_def)
    then have "(dstep W)\<^sup>*\<^sup>* s ((go s p w3 (Handed (e_id e) mid))\<lparr>sy_handed := sy_handed s @ [e_id e]\<rparr>)"
      using hold[of w2] Hand_off[of "go s p w2 (Holding e)" p e W files d mid w3] sent(3)
      by (simp add: rtranclp.rtrancl_into_rtrancl)
    moreover have "dstep W ((go s p w3 (Handed (e_id e) mid))\<lparr>sy_handed := sy_handed s @ [e_id e]\<rparr>)
        ((go s p w Idle)\<lparr>sy_handed := sy_handed s @ [e_id e]\<rparr>)"
      using Record_sent[of "(go s p w3 (Handed (e_id e) mid))\<lparr>sy_handed := sy_handed s @ [e_id e]\<rparr>" p "e_id e" mid q w W] sent(4)
      by simp
    ultimately show ?thesis by (meson rtranclp.rtrancl_into_rtrancl)
  qed
qed

lemma Deliver_cases [consumes 1]:
  assumes "Deliver W i r m w0 = (res, w)"
  obtains (nothing) "quiet w0 w"
  | (lost) e w1 x where "ByIDUnscoped i w0 = (Inr e, w1)" "\<not> Terminal (e_status e)"
      "MarkProcessing (e_id e) w1 = (Inl x, w)"
  | (claimed) e w1 c w2 where "ByIDUnscoped i w0 = (Inr e, w1)" "\<not> Terminal (e_status e)"
      "MarkProcessing (e_id e) w1 = (Inr c, w2)" "attempt W c r m w2 = (res, w)"
  using assms unfolding Deliver_def
  by (auto simp: step_iffs ByIDUnscoped_def quiet_def split: if_splits)

lemma Deliver_sim:
  assumes p: "sy_phase s p = Idle" and run: "Deliver W i r m (sy_world s) = (res, w)"
    and W: "\<And>i w r w'. loadAttachments W i w = (r, w') \<Longrightarrow> quiet w w'"
      "\<And>e w r w'. resolveDKIM W e w = (r, w') \<Longrightarrow> quiet w w'"
  shows "\<exists>h. (dstep W)\<^sup>*\<^sup>* s ((go s p w Idle)\<lparr>sy_handed := sy_handed s @ h\<rparr>)"
proof -
  have same: "go s p w1 Idle = s\<lparr>sy_world := w1\<rparr>" for w1
    using p by (simp add: go_def fun_upd_idem)
  from run show ?thesis
  proof (cases rule: Deliver_cases)
    case nothing
    then show ?thesis
      using Other[of s w W, OF nothing] unfolding same by (intro exI[of _ "[]"]) auto
  next
    case (lost e w1 x)
    have "dstep W s (go s p w1 (Loaded (e_id e)))" using Load[OF p lost(1,2)] .
    moreover have "dstep W (go s p w1 (Loaded (e_id e))) (go s p w Idle)"
      using Claim_lost[of "go s p w1 (Loaded (e_id e))" p "e_id e" x w W] lost(3) by simp
    ultimately have "(dstep W)\<^sup>*\<^sup>* s (go s p w Idle)"
      by (rule converse_rtranclp_into_rtranclp[OF _ r_into_rtranclp])
    then show ?thesis by (intro exI[of _ "[]"]) (simp add: go_def)
  next
    case (claimed e w1 c w2)
    have "dstep W s (go s p w1 (Loaded (e_id e)))" using Load[OF p claimed(1,2)] .
    moreover have "dstep W (go s p w1 (Loaded (e_id e))) (go s p w2 (Holding c))"
      using Claim[of "go s p w1 (Loaded (e_id e))" p "e_id e" c w2 W] claimed(3) by simp
    ultimately have "(dstep W)\<^sup>*\<^sup>* s (go s p w2 (Holding c))"
      by (rule converse_rtranclp_into_rtranclp[OF _ r_into_rtranclp])
    moreover obtain h where "(dstep W)\<^sup>*\<^sup>* (go s p w2 (Holding c)) ((go s p w Idle)\<lparr>sy_handed := sy_handed s @ h\<rparr>)"
      using attempt_sim[of "go s p w2 (Holding c)" p c W r m res w] claimed(4) W by auto
    ultimately show ?thesis by (meson rtranclp_trans)
  qed
qed

section \<open>Properties\<close>

lemma quiet_tabs: "quiet w w' \<Longrightarrow> emails (tabs w') = emails (tabs w) \<and> outbox w' = outbox w"
  by (simp add: quiet_def)

lemma giveUp_outbox: "giveUpOrRetry W e r m x w = (res, w') \<Longrightarrow> outbox w' = outbox w"
  by (cases res) (auto simp: giveUpOrRetry_def step_iffs Mark_defs finish_outbox split: if_splits)

lemma MarkSent_outbox: "MarkSent i mid w = (q, w') \<Longrightarrow> outbox w' = outbox w"
  by (auto simp: Mark_defs finish_outbox)

lemma resolveDKIM_cong:
  "e_from e = e_from e' \<Longrightarrow> e_ws e = e_ws e' \<Longrightarrow> resolveDKIM W e = resolveDKIM W e'"
  by (rule ext) (simp add: resolveDKIM_def Let_def split: option.split)

lemma attempt_sent:
  assumes "attempt W e r m w0 = (res, w)" "outbox w \<noteq> outbox w0" "sender (wk_send W)"
    "\<And>i w r w'. loadAttachments W i w = (r, w') \<Longrightarrow> quiet w w'"
    "\<And>e w r w'. resolveDKIM W e w = (r, w') \<Longrightarrow> quiet w w'"
  shows "res = Inr () \<and> (\<exists>x. outbox w = outbox w0 @ [x] \<and> wr_from x = e_from e \<and> wr_to x = e_to e \<and>
       wr_cc x = e_cc e \<and> wr_bcc x = e_bcc e \<and> wr_subject x = e_subject e \<and>
       wr_headers x = reply_headers e \<and> wr_parts x = body_parts (mail_of e [] None) \<and>
       (\<exists>w1 w2. resolveDKIM W e w1 = (Inr (wr_dkim x), w2)))"
  using assms(1)
proof (cases rule: attempt_cases)
  case (load x w1)
  then show ?thesis using assms(2) quiet_tabs[OF assms(4)] giveUp_outbox by metis
next
  case (dkim files w1 x w2)
  then show ?thesis using assms(2) quiet_tabs[OF assms(4)] quiet_tabs[OF assms(5)] giveUp_outbox by metis
next
  case (refused files w1 d w2 x w3)
  then show ?thesis
    using assms(2) quiet_tabs[OF assms(4)] quiet_tabs[OF assms(5)] giveUp_outbox sender.send_err[OF assms(3)] by metis
next
  case (sent files w1 d w2 mid w3 q)
  have "outbox w2 = outbox w0"
    using quiet_tabs[OF assms(4)[OF sent(1)]] quiet_tabs[OF assms(5)[OF sent(2)]] by simp
  moreover have "body_parts (mail_of e files d) = body_parts (mail_of e [] None)"
    by (simp add: body_parts_def mail_of_def)
  moreover obtain x where "outbox w3 = outbox w2 @ [x]" "wr_from x = e_from e" "wr_to x = e_to e"
    "wr_cc x = e_cc e" "wr_bcc x = e_bcc e" "wr_subject x = e_subject e"
    "wr_headers x = reply_headers e" "wr_parts x = body_parts (mail_of e files d)" "wr_dkim x = d"
    using sender.send_ok[OF assms(3) sent(3)] by (auto simp: mail_of_def)
  ultimately show ?thesis
    using MarkSent_outbox[OF sent(4)] sent(5) sent(2) by (intro conjI exI[of _ x]) auto
qed

lemma Deliver_sent:
  assumes "Deliver W i r m w = (res, w')" "outbox w' \<noteq> outbox w" "sender (wk_send W)"
    "\<And>i w r w'. loadAttachments W i w = (r, w') \<Longrightarrow> quiet w w'"
    "\<And>e w r w'. resolveDKIM W e w = (r, w') \<Longrightarrow> quiet w w'"
  shows "res = Inr () \<and> (\<exists>e\<in>set (emails (tabs w)). e_id e = i \<and>
    e_status e \<in> {StatusQueued, StatusFailed} \<and>
    (\<exists>x. outbox w' = outbox w @ [x] \<and> wr_from x = e_from e \<and> wr_to x = e_to e \<and>
       wr_cc x = e_cc e \<and> wr_bcc x = e_bcc e \<and> wr_subject x = e_subject e \<and>
       wr_headers x = reply_headers e \<and> wr_parts x = body_parts (mail_of e [] None) \<and>
       (\<exists>w1 w2. resolveDKIM W e w1 = (Inr (wr_dkim x), w2))))"
proof -
  have keep: "ByIDUnscoped i w = (q, w1) \<Longrightarrow> outbox w1 = outbox w \<and> tabs w1 = tabs w" for q w1
    by (cases q) (auto simp: ByIDUnscoped_def step_iffs)
  obtain e0 w1 c w2 where run: "ByIDUnscoped i w = (Inr e0, w1)" "MarkProcessing (e_id e0) w1 = (Inr c, w2)"
    "attempt W c r m w2 = (res, w')"
    using assms(1)
  proof (cases rule: Deliver_cases)
    case (lost e w1 x)
    then have "outbox w' = outbox w"
      using keep[OF lost(1)] by (simp add: MarkProcessing_def finish_outbox)
    then show ?thesis using assms(2) by simp
  qed (use assms(2) that in \<open>auto simp: quiet_def\<close>)
  have i: "e_id e0 = i"
    using run(1) by (auto simp: ByIDUnscoped_def step_iffs dest: find_SomeD)
  obtain e where e: "e \<in> set (emails (tabs w))" "e_id e = i" "e_status e \<in> {StatusQueued, StatusFailed}"
    "c = e\<lparr>e_status := StatusProcessing\<rparr>" "outbox w2 = outbox w"
    using finish_Inr[OF run(2)[unfolded MarkProcessing_def]] keep[OF run(1)] i
    by (auto dest!: find_SomeD)
  have "reply_headers c = reply_headers e" "body_parts (mail_of c [] None) = body_parts (mail_of e [] None)"
    "resolveDKIM W c = resolveDKIM W e"
    using e(4) by (auto simp: reply_headers_def body_parts_def mail_of_def intro: resolveDKIM_cong)
  then show ?thesis
    using attempt_sent[OF run(3) _ assms(3-5)] assms(2) e by auto
qed

lemma start_ok:
  "log_ok (tabs (sy_world s)) \<Longrightarrow> sy_handed s = [] \<Longrightarrow> (\<And>p. sy_phase s p = Idle) \<Longrightarrow> delivery_ok s"
  by (simp add: delivery_ok_def one_holder_def held_processing_def handed_once_def)

lemma sample_log_ok: "log_ok (tabs sample_sent)"
  by (simp add: log_ok_def sample_sent_def sample_world_def sample_db_def empty_db_def uniq_on_def
      trail_def status_of_def tries_def)

lemma sample_sent_emails [simp]:
  "emails (tabs sample_sent) = [sample_row]" "db_faults sample_sent = []" "smtp_faults sample_sent = []"
  "spend sample_sent = sample_sent" "outbox sample_sent = []"
  by (simp_all add: sample_sent_def sample_defs spend_def)

definition sample_sys :: sys where
  "sample_sys = \<lparr>sy_world = sample_sent, sy_phase = (\<lambda>_. Idle), sy_handed = []\<rparr>"

lemma sample_load:
  "(dstep (smtp_worker sample_lib None None))\<^sup>*\<^sup>* sample_sys (go sample_sys 0 sample_sent (Loaded ''e1''))"
  using Load[of sample_sys 0 "''e1''" sample_row sample_sent "smtp_worker sample_lib None None"]
  by (simp add: sample_sys_def ByIDUnscoped_def step_iffs db_down_def Terminal_def r_into_rtranclp)

lemma sample_sys_ok: "delivery_ok sample_sys"
  by (rule start_ok) (simp_all add: sample_sys_def sample_log_ok)



text \<open>A message that is sent or given up on keeps its row unchanged through every further step of
  every worker and request (\<open>Status.Terminal\<close>: the status will never change again).\<close>

theorem terminal_is_final:
  assumes "(dstep (smtp_worker L B D))\<^sup>*\<^sup>* s t" "delivery_ok s"
    "e \<in> set (emails (tabs (sy_world s)))" "Terminal (e_status e)"
  shows "e \<in> set (emails (tabs (sy_world t)))"
  using delivery.run_later[OF assms(1,2)] assms(3,4) by (auto simp: settled_def)

theorem terminal_is_final_witness:
  "\<exists>s t e. (dstep (smtp_worker sample_lib None None))\<^sup>*\<^sup>* s t \<and> Terminal (e_status e) \<and>
     e \<in> set (emails (tabs (sy_world s))) \<and> e \<in> set (emails (tabs (sy_world t)))"
proof -
  let ?e = "sample_row\<lparr>e_status := StatusSent, e_attempts := 1\<rparr>"
  let ?w = "sample_world\<lparr>tabs := sample_db\<lparr>emails := [?e],
     events := [\<lparr>ev_email = ''e1'', ev_type = EventQueued, ev_detail = None\<rparr>,
       \<lparr>ev_email = ''e1'', ev_type = EventSent, ev_detail = None\<rparr>]\<rparr>\<rparr>"
  let ?s = "sample_sys\<lparr>sy_world := ?w\<rparr>"
  have ok: "delivery_ok ?s"
    by (rule start_ok) (simp_all add: sample_sys_def log_ok_def uniq_on_def trail_def status_of_def tries_def)
  have step: "(dstep (smtp_worker sample_lib None None))\<^sup>*\<^sup>* ?s (go ?s 0 ?w Idle)"
    using Crash[of "smtp_worker sample_lib None None" ?s 0] by auto
  have "?e \<in> set (emails (tabs (sy_world (go ?s 0 ?w Idle))))"
    by (rule terminal_is_final[OF step ok]) (simp_all add: Terminal_def)
  with step show ?thesis
    by (intro exI[of _ ?s] exI[of _ "go ?s 0 ?w Idle"] exI[of _ ?e]) (simp add: Terminal_def)
qed

text \<open>C2: Worker.Deliver is an execution of the step system, whatever fails in it: it starts and ends
  with the worker idle, so every run of it enjoys what is proved of the steps.\<close>

theorem Deliver_refines_steps:
  assumes "Deliver (smtp_worker L B D) i r m (sy_world s) = (res, w)" "sy_phase s p = Idle"
    "\<And>f ws d w r w'. D = Some f \<Longrightarrow> f ws d w = (r, w') \<Longrightarrow> quiet w w'"
  shows "\<exists>h. (dstep (smtp_worker L B D))\<^sup>*\<^sup>* s ((go s p w Idle)\<lparr>sy_handed := sy_handed s @ h\<rparr>)"
  by (rule Deliver_sim[OF assms(2,1) loadAttachments_quiet resolveDKIM_quiet])
    (use assms(3) in \<open>auto simp: smtp_worker_def\<close>)

theorem Deliver_refines_steps_witness:
  "\<exists>res w h. Deliver (smtp_worker sample_lib None None) ''e1'' 0 8 sample_sent = (res, w) \<and>
     (dstep (smtp_worker sample_lib None None))\<^sup>*\<^sup>* sample_sys ((go sample_sys 0 w Idle)\<lparr>sy_handed := h\<rparr>)"
proof -
  obtain res w where "Deliver (smtp_worker sample_lib None None) ''e1'' 0 8 sample_sent = (res, w)"
    by fastforce
  then show ?thesis
    using Deliver_refines_steps[of sample_lib None None "''e1''" 0 8 sample_sys res w 0]
    by (auto simp: sample_sys_def)
qed

text \<open>A message left in \<open>processing\<close> (its worker crashed, or the record of a failed attempt failed)
  is never delivered: each further task for it is answered as done without a send.\<close>

theorem processing_is_stuck:
  assumes "log_ok (tabs w)" "in_status w i {StatusProcessing}" "db_faults w = []"
  shows "\<exists>w'. Deliver W i r m w = (Inr (), w') \<and> tabs w' = tabs w \<and> outbox w' = outbox w"
proof -
  obtain e where e: "e \<in> set (emails (tabs w))" "e_id e = i" "e_status e = StatusProcessing"
    using assms(2) by (auto simp: in_status_def)
  have only: "x = e" if "x \<in> set (emails (tabs w))" "e_id x = i" for x
    using log_ok_unique[OF assms(1) that(1) e(1)] that(2) e(2) by simp
  have f: "List.find (\<lambda>x. e_id x = i) (emails (tabs w)) = Some e"
    by (rule find_unique[OF e(1)]) (use e(2) only in auto)
  have n: "List.find (\<lambda>x. e_id x = i \<and> (e_status x = StatusQueued \<or> e_status x = StatusFailed)) (emails (tabs w)) = None"
    unfolding find_None_iff2
  proof
    fix x assume "x \<in> set (emails (tabs w))"
    then show "\<not> (e_id x = i \<and> (e_status x = StatusQueued \<or> e_status x = StatusFailed))"
      using only[of x] e(3) by auto
  qed
  have d: "\<not> db_down w" "\<not> db_down (spend w)" "\<not> db_down (spend (spend w))"
    using assms(3) by (simp_all add: db_down_def)
  have load: "ByIDUnscoped i w = (Inr e, spend w)"
    using f d by (simp add: ByIDUnscoped_def step_iffs)
  have claim: "MarkProcessing i (spend w) = (Inl Email_ErrNotFound, (spend (spend (spend w)))\<lparr>tabs := tabs w\<rparr>)"
    using n d by (simp add: MarkProcessing_def finish_def withTx_def bindE_def sql_def update_email_def spend_def)
  show ?thesis
    using load claim e by (simp add: Deliver_def handleE_def returnE_def Terminal_def)
qed

theorem processing_is_stuck_witness:
  "\<exists>w w'. in_status w ''e1'' {StatusProcessing} \<and>
     Deliver (smtp_worker sample_lib None None) ''e1'' 0 8 w = (Inr (), w') \<and> outbox w' = outbox w"
proof -
  let ?w = "sample_world\<lparr>tabs := sample_db\<lparr>emails := [sample_row\<lparr>e_status := StatusProcessing\<rparr>],
     events := [\<lparr>ev_email = ''e1'', ev_type = EventQueued, ev_detail = None\<rparr>,
       \<lparr>ev_email = ''e1'', ev_type = EventProcessing, ev_detail = None\<rparr>]\<rparr>\<rparr>"
  have log: "log_ok (tabs ?w)"
    by (simp add: log_ok_def uniq_on_def trail_def status_of_def tries_def)
  have st: "in_status ?w ''e1'' {StatusProcessing}"
    by (simp add: in_status_def)
  have nf: "db_faults ?w = []"
    by (simp add: sample_world_def empty_world_def)
  show ?thesis
    using processing_is_stuck[OF log st nf, of "smtp_worker sample_lib None None" 0 8] st by blast
qed


lemma sample_delivery:
  "case Deliver (smtp_worker sample_lib None None) ''e1'' 0 8 sample_sent of (r, w) \<Rightarrow> outbox w \<noteq> outbox sample_sent"
proof -
  have "Validate (mail_of (sample_row\<lparr>e_status := StatusProcessing\<rparr>) [] None) = None"
    by code_simp
  then show ?thesis
    by (simp add: Deliver_def ByIDUnscoped_def email_where_def MarkProcessing_def finish_def attempt_def
        loadAttachments_def AttachmentsByEmailID_def resolveDKIM_def smtp_worker_def smtp_Send_def
        newMessageID_def randRead_def dial_and_send_def MarkSent_def update_email_def insertEvent_def
        insert_event_def exec_defs Terminal_def giveUpOrRetry_def sample_sent_def sample_world_def
        sample_db_def empty_world_def empty_db_def sample_lib_def upd_where_def
        reply_headers_def)
qed


end
