(* ===== verification/Settling.thy ===== *)
theory Settling imports Delivery begin

text \<open>
  A message comes to an end: with the database up, the tries asynq makes for a task settle the message, sent or
  given up on, whatever the bucket, the domain service and the relay do.
\<close>

text \<open>The loop of asynq around HandleSend: try again while the task fails, at most \<open>m\<close> times after the first.\<close>

function run_task :: "worker \<Rightarrow> string \<Rightarrow> nat \<Rightarrow> nat \<Rightarrow> unit op" where
  "run_task W i m r w = (case Deliver W i r m w of
     (Inr u, w') \<Rightarrow> (Inr u, w') | (Inl e, w') \<Rightarrow> if r < m then run_task W i m (Suc r) w' else (Inl e, w'))"
  by pat_completeness auto
termination by (relation "measure (\<lambda>(W, i, m, r, w). m - r)") auto

declare run_task.simps [simp del]

section \<open>The database is up\<close>

definition up :: "world \<Rightarrow> bool" where
  "up w \<longleftrightarrow> db_faults w = [] \<and> log_ok (tabs w)"

definition has_row :: "world \<Rightarrow> email_row \<Rightarrow> bool" where
  "has_row w e \<longleftrightarrow> e \<in> set (emails (tabs w))"

text \<open>What leaves the log and keeps the database up.\<close>

definition calm :: "world \<Rightarrow> world \<Rightarrow> bool" where
  "calm w w' \<longleftrightarrow> quiet w w' \<and> (db_faults w = [] \<longrightarrow> db_faults w' = [])"

lemma calm_up: "calm w w' \<Longrightarrow> up w \<Longrightarrow> up w' \<and> (\<forall>e. has_row w' e = has_row w e)"
  by (simp add: calm_def up_def has_row_def quiet_def log_ok_tabs[of "tabs w'" "tabs w"])

lemma finish_up:
  assumes "db_faults w = []" "List.find P (emails (tabs w)) = Some e" "e_id (f e) = e_id e"
  shows "\<exists>w'. finish ty P f d w = (Inr (f e), w') \<and> db_faults w' = [] \<and> f e \<in> set (emails (tabs w'))"
proof -
  have e: "e \<in> set (emails (tabs w))" "P e" using find_SomeD[OF assms(2)] by auto
  have "f e \<in> set (upd_where P f (emails (tabs w)))" using in_upd_where[OF e(1), of P f] e(2) by simp
  then show ?thesis
    using assms(1,2) by (auto simp: finish_def withTx_def bindE_def sql_def update_email_def insertEvent_def insert_event_def db_down_def
        spend_def returnE_def image_iff)
qed

lemma found:
  assumes "up w" "has_row w e" "P e" "\<And>x. P x \<Longrightarrow> e_id x = e_id e"
  shows "List.find P (emails (tabs w)) = Some e"
proof (rule find_unique)
  show "e \<in> set (emails (tabs w))" "P e" using assms(2,3) by (simp_all add: has_row_def)
  show "q = e" if "q \<in> set (emails (tabs w))" "P q" for q
    using log_ok_unique[of "tabs w" q e] that(1) assms(4)[OF that(2)] assms(1,2) unfolding up_def has_row_def by blast
qed

lemma MarkProcessing_up:
  assumes "up w" "has_row w e" "e_status e \<in> {StatusQueued, StatusFailed}" "MarkProcessing (e_id e) w = (r, w')"
  shows "r = Inr (e\<lparr>e_status := StatusProcessing\<rparr>) \<and> up w' \<and> has_row w' (e\<lparr>e_status := StatusProcessing\<rparr>)"
proof -
  have "List.find (\<lambda>x. e_id x = e_id e \<and> e_status x \<in> {StatusQueued, StatusFailed}) (emails (tabs w)) = Some e"
    by (rule found) (use assms in auto)
  from finish_up[OF _ this, of "\<lambda>e. e\<lparr>e_status := StatusProcessing\<rparr>" EventProcessing None] assms(1,4) Mark_log_ok(1)[OF assms(4)]
  show ?thesis by (auto simp: MarkProcessing_def up_def has_row_def)
qed

text \<open>What a try leaves: the row with one more attempt.\<close>

definition tried :: "email_row \<Rightarrow> status \<Rightarrow> world \<Rightarrow> bool" where
  "tried e st w \<longleftrightarrow> (\<exists>e'. has_row w e' \<and> e_id e' = e_id e \<and> e_status e' = st \<and> e_attempts e' = Suc (e_attempts e))"

lemma Mark_up:
  assumes "up w" "has_row w e"
  shows "MarkSent (e_id e) mid w = (r, w') \<Longrightarrow> up w' \<and> tried e StatusSent w'"
    and "MarkFailed (e_id e) x w = (r, w') \<Longrightarrow> up w' \<and> tried e StatusFailed w'"
    and "MarkDead (e_id e) x w = (r, w') \<Longrightarrow> up w' \<and> tried e StatusDead w'"
proof -
  have f: "List.find (\<lambda>x. e_id x = e_id e) (emails (tabs w)) = Some e" by (rule found) (use assms in auto)
  note here = finish_up[OF _ f] tried_def has_row_def up_def
  show "up w' \<and> tried e StatusSent w'" if "MarkSent (e_id e) mid w = (r, w')"
    using that assms(1) Mark_log_ok(2)[OF that]
      finish_up[OF _ f, of "\<lambda>e. e\<lparr>e_status := StatusSent, e_provider_id := Some mid, e_attempts := e_attempts e + 1, e_error := None\<rparr>"
        EventSent "Some [(''provider_message_id'', mid)]"]
    by (force simp: MarkSent_def up_def tried_def has_row_def)
  show "up w' \<and> tried e StatusFailed w'" if "MarkFailed (e_id e) x w = (r, w')"
    using that assms(1) Mark_log_ok(3)[OF that]
      finish_up[OF _ f, of "\<lambda>e. e\<lparr>e_status := StatusFailed, e_attempts := e_attempts e + 1, e_error := Some x\<rparr>"
        EventFailed "Some [(''error'', x)]"]
    by (force simp: MarkFailed_def up_def tried_def has_row_def)
  show "up w' \<and> tried e StatusDead w'" if "MarkDead (e_id e) x w = (r, w')"
    using that assms(1) Mark_log_ok(4)[OF that]
      finish_up[OF _ f, of "\<lambda>e. e\<lparr>e_status := StatusDead, e_attempts := e_attempts e + 1, e_error := Some x\<rparr>"
        EventFailed "Some [(''error'', x), (''final'', ''true'')]"]
    by (force simp: MarkDead_def up_def tried_def has_row_def)
qed

lemma giveUp_up:
  assumes "up w" "has_row w e" "giveUpOrRetry W e r m x w = (res, w')"
  shows "up w' \<and> (if m \<le> r then res = Inr () \<and> tried e StatusDead w' else res = Inl x \<and> tried e StatusFailed w')"
  using assms(3) Mark_up(2,3)[OF assms(1,2)]
  by (cases res) (auto simp: giveUpOrRetry_def step_iffs split: if_splits)

section \<open>The worker\<close>

text \<open>A worker whose preparations and sending leave the log alone and the database up.\<close>

definition calm_worker :: "worker \<Rightarrow> bool" where
  "calm_worker W \<longleftrightarrow> (\<forall>i w r w'. loadAttachments W i w = (r, w') \<longrightarrow> calm w w') \<and>
     (\<forall>e w r w'. resolveDKIM W e w = (r, w') \<longrightarrow> calm w w') \<and>
     sender (wk_send W) \<and> (\<forall>m w r w'. wk_send W m w = (r, w') \<longrightarrow> db_faults w' = db_faults w)"

text \<open>How a try that began with outbox \<open>ob\<close> ends: sent, given up at the last try, or failed with another to come.\<close>

definition outcome :: "wire list \<Rightarrow> email_row \<Rightarrow> nat \<Rightarrow> nat \<Rightarrow> gerror + unit \<Rightarrow> world \<Rightarrow> bool" where
  "outcome ob e r m res w \<longleftrightarrow> up w \<and>
     (res = Inr () \<and> tried e StatusSent w \<and> (\<exists>x. outbox w = ob @ [x]) \<or>
      res = Inr () \<and> m \<le> r \<and> tried e StatusDead w \<and> outbox w = ob \<or>
      (\<exists>x. res = Inl x) \<and> r < m \<and> tried e StatusFailed w \<and> outbox w = ob)"

lemma giveUp_outcome: "up w \<Longrightarrow> has_row w e \<Longrightarrow> outbox w = ob \<Longrightarrow> giveUpOrRetry W e r m x w = (res, w') \<Longrightarrow> outcome ob e r m res w'"
  using giveUp_up[of w e W r m x res w'] giveUp_outbox[of W e r m x w res w'] by (auto simp: outcome_def split: if_splits)

definition ready :: "wire list \<Rightarrow> email_row \<Rightarrow> world \<Rightarrow> bool" where
  "ready ob e w \<longleftrightarrow> up w \<and> has_row w e \<and> outbox w = ob"

lemma calm_ready: "calm w w' \<Longrightarrow> ready ob e w \<Longrightarrow> ready ob e w'"
  using calm_up[of w w'] by (auto simp: ready_def calm_def quiet_def)

lemma send_ready:
  assumes "calm_worker W" "wk_send W m w = (r, w')" "ready ob e w"
  shows "up w' \<and> has_row w' e \<and> (case r of Inl x \<Rightarrow> outbox w' = ob | Inr mid \<Rightarrow> \<exists>x. outbox w' = ob @ [x])"
proof -
  have "sender (wk_send W)" "db_faults w' = db_faults w" using assms(1,2) by (simp_all add: calm_worker_def)
  with sender.send_tabs[OF this(1) assms(2)] sender.send_ok[OF this(1)] sender.send_err[OF this(1)] assms(2,3) show ?thesis
    by (cases r) (fastforce simp: ready_def up_def has_row_def)+
qed

lemma attempt_up:
  assumes "calm_worker W" "ready ob e w" "attempt W e r m w = (res, w')"
  shows "outcome ob e r m res w'"
proof -
  have loaded: "ready ob e w1" if "loadAttachments W (e_id e) w = (q, w1)" for q w1
    using assms(1,2) calm_ready that unfolding calm_worker_def by blast
  have signed: "ready ob e w2" if "resolveDKIM W e w1 = (q, w2)" "ready ob e w1" for q w1 w2
    using assms(1) calm_ready that unfolding calm_worker_def by blast
  from assms(3) show ?thesis
  proof (cases rule: attempt_cases)
    case (load x w1)
    then show ?thesis using giveUp_outcome loaded unfolding ready_def by blast
  next
    case (dkim files w1 x w2)
    then show ?thesis using giveUp_outcome signed[OF dkim(2) loaded[OF dkim(1)]] unfolding ready_def by blast
  next
    case (refused files w1 d w2 x w3)
    from send_ready[OF assms(1) refused(3) signed[OF refused(2) loaded[OF refused(1)]]] show ?thesis
      using giveUp_outcome refused(4) by auto
  next
    case (sent files w1 d w2 mid w3 q)
    from send_ready[OF assms(1) sent(3) signed[OF sent(2) loaded[OF sent(1)]]] show ?thesis
      using Mark_up(1)[OF _ _ sent(4)] MarkSent_outbox[OF sent(4)] sent(5) by (auto simp: outcome_def)
  qed
qed

lemma Deliver_up:
  assumes "calm_worker W" "ready ob e w" "e_id e = i" "e_status e \<in> {StatusQueued, StatusFailed}" "Deliver W i r m w = (res, w')"
  shows "outcome ob e r m res w'"
proof -
  have w: "up w" "has_row w e" "outbox w = ob" using assms(2) by (simp_all add: ready_def)
  have "List.find (\<lambda>x. e_id x = i) (emails (tabs w)) = Some e" by (rule found[OF w(1,2)]) (use assms(3) in auto)
  then have load: "ByIDUnscoped i w = (Inr e, spend w)"
    using w(1) by (simp add: ByIDUnscoped_def step_iffs up_def db_down_def)
  have sp: "up (spend w)" "has_row (spend w) e" "outbox (spend w) = ob" using w by (simp_all add: up_def has_row_def spend_def)
  obtain q w2 where mark: "MarkProcessing (e_id e) (spend w) = (q, w2)" by fastforce
  let ?c = "e\<lparr>e_status := StatusProcessing\<rparr>"
  have c: "q = Inr ?c" "ready ob ?c w2"
    using MarkProcessing_up[OF sp(1,2) assms(4) mark] finish_outbox[OF mark[unfolded MarkProcessing_def]] sp(3) by (auto simp: ready_def)
  have "attempt W ?c r m w2 = (res, w')"
    using assms(4,5) load mark c(1) by (auto simp: Deliver_def handleE_def Terminal_def)
  from attempt_up[OF assms(1) c(2) this] show ?thesis by (simp add: outcome_def tried_def)
qed

definition settled_row :: "wire list \<Rightarrow> email_row \<Rightarrow> nat \<Rightarrow> world \<Rightarrow> bool" where
  "settled_row ob e n w \<longleftrightarrow> (\<exists>e'\<in>set (emails (tabs w)). e_id e' = e_id e \<and>
     (e_status e' = StatusSent \<and> e_attempts e' \<le> e_attempts e + n \<and> (\<exists>x. outbox w = ob @ [x]) \<or>
      e_status e' = StatusDead \<and> e_attempts e' = e_attempts e + n \<and> outbox w = ob))"

lemma run_task_settles:
  assumes "calm_worker W" "ready ob e w" "e_id e = i" "e_status e \<in> {StatusQueued, StatusFailed}" "r \<le> m" "run_task W i m r w = (res, w')"
  shows "res = Inr () \<and> settled_row ob e (m - r + 1) w'"
  using assms
proof (induction W i m r w arbitrary: e rule: run_task.induct)
  case (1 W i m r w)
  obtain q w1 where d: "Deliver W i r m w = (q, w1)" by fastforce
  have o: "outcome ob e r m q w1" by (rule Deliver_up[OF 1(2-5) d])
  show ?case
  proof (cases q)
    case (Inr u)
    then have "res = Inr ()" "w' = w1" using 1(7) d by (simp_all add: run_task.simps[of W i m r w])
    then show ?thesis using o Inr 1(6) by (force simp: outcome_def tried_def settled_row_def has_row_def)
  next
    case (Inl x)
    then have r: "r < m" "tried e StatusFailed w1" "up w1" "outbox w1 = ob" using o by (auto simp: outcome_def)
    obtain e1 where e1: "ready ob e1 w1" "e_id e1 = i" "e_status e1 = StatusFailed" "e_attempts e1 = Suc (e_attempts e)"
      using r 1(4) by (auto simp: tried_def ready_def)
    have "run_task W i m (Suc r) w1 = (res, w')" using 1(7) d Inl r(1) by (simp add: run_task.simps[of W i m r w])
    with 1(1)[OF d[symmetric] Inl r(1) 1(2) e1(1,2)] e1(3) r(1)
    have s: "res = Inr () \<and> settled_row ob e1 (m - Suc r + 1) w'" by simp
    have "m - Suc r + 1 = m - r" using r(1) by simp
    with s have "settled_row ob e1 (m - r) w'" by metis
    then show ?thesis using s e1(2,4) 1(4) unfolding settled_row_def by fastforce
  qed
qed

section \<open>Over SMTP\<close>

lemma blob_faults_apart: "bs_Get (S3Store p) k w = (r, w') \<Longrightarrow> db_faults w' = db_faults w"
  by (auto simp: S3Store_def Get_def get_object_def blob_call_def split: list.splits bool.splits option.splits)

lemma fetch_all_faults: "fetch_all (S3Store p) as w = (r, w') \<Longrightarrow> db_faults w' = db_faults w"
proof (induction as arbitrary: w r w')
  case (Cons a as)
  then show ?case by (cases r) (fastforce simp: step_iffs dest: blob_faults_apart)+
qed (simp add: step_iffs)

lemma loadAttachments_calm: "loadAttachments (smtp_worker L B D) i w = (r, w') \<Longrightarrow> calm w w'"
proof -
  assume l: "loadAttachments (smtp_worker L B D) i w = (r, w')"
  have "db_faults w = [] \<longrightarrow> db_faults w' = []"
    using l by (cases r) (auto simp: loadAttachments_def AttachmentsByEmailID_def smtp_worker_def step_iffs spend_def
      split: if_splits option.splits dest!: fetch_all_faults)
  then show "calm w w'" using loadAttachments_quiet[OF l] by (simp add: calm_def)
qed

lemma smtp_worker_calm:
  assumes "\<And>f ws d w r w'. D = Some f \<Longrightarrow> f ws d w = (r, w') \<Longrightarrow> calm w w'"
  shows "calm_worker (smtp_worker L B D)"
  unfolding calm_worker_def
proof (intro conjI allI impI)
  show "calm w w'" if "loadAttachments (smtp_worker L B D) i w = (r, w')" for i w r w' by (rule loadAttachments_calm[OF that])
  show "calm w w'" if "resolveDKIM (smtp_worker L B D) e w = (r, w')" for e w r w'
    using that assms by (fastforce simp: resolveDKIM_def smtp_worker_def Let_def step_iffs calm_def quiet_def split: option.splits if_splits)
  show "sender (wk_send (smtp_worker L B D))" by (rule smtp_worker_sender)
  show "db_faults w' = db_faults w" if "wk_send (smtp_worker L B D) m w = (r, w')" for m w r w'
    using that by (cases r) (auto simp: smtp_worker_def smtp_Send_def newMessageID_def step_iffs split: option.splits if_splits)
qed


text \<open>A relay that refuses nine connections: \<open>maxAttempts\<close> is eight, and a message that is given up on has had nine tries.\<close>

definition refusing :: world where
  "refusing = sample_sent\<lparr>smtp_faults := replicate 9 True\<rparr>"


end
