(* ===== verification/Wiring.thy ===== *)
theory Wiring imports Migrate Web Submission Settling begin

text \<open>
  The processes and how their environment wires them: main.go and the commands worker, lmtpd, imapd and submissiond,
  with the constructors that read the environment (smtp.NewFromEnv, storage.NewFromEnv). What dials, certificates and the AWS
  configuration come to is a parameter, the \<open>platform\<close>.
\<close>

section \<open>The mail transport\<close>

datatype tls_policy = NoTLS | TLSMandatory

record smtp_config =
  sc_host :: string
  sc_port :: int
  sc_username :: string
  sc_password :: string
  sc_timeout :: time
  sc_tls :: tls_policy
  sc_helo :: string

definition smtp_New :: "string \<Rightarrow> int \<Rightarrow> string \<Rightarrow> string \<Rightarrow> time \<Rightarrow> bool \<Rightarrow> string \<Rightarrow> unit + smtp_config" where
  "smtp_New host port username password timeout requireTLS helo =
     (if trim_space host = [] then Inl () else if port \<le> 0 then Inl () else
      Inr \<lparr>sc_host = host, sc_port = port, sc_username = username, sc_password = password,
        sc_timeout = (if timeout \<le> 0 then 15 * second else timeout),
        sc_tls = (if requireTLS then TLSMandatory else NoTLS), sc_helo = trim_space helo\<rparr>)"

definition smtp_NewFromEnv :: "(string \<Rightarrow> string) \<Rightarrow> unit + smtp_config" where
  "smtp_NewFromEnv env = (let portStr = (if env ''SMTP_PORT'' = [] then ''25'' else env ''SMTP_PORT'') in
     case atoi portStr of None \<Rightarrow> Inl () | Some port \<Rightarrow>
       smtp_New (env ''SMTP_HOST'') port (env ''SMTP_USERNAME'') (env ''SMTP_PASSWORD'') 0
         (env ''SMTP_REQUIRE_TLS'' = ''1'') (env ''SMTP_HELO''))"

text \<open>The options of the dial in Send: an EHLO name and PLAIN authentication only when they are configured.\<close>

datatype dial_option = With_port int | With_tls tls_policy | With_timeout time | With_helo string | With_plain_auth string string

definition dial_options :: "smtp_config \<Rightarrow> dial_option list" where
  "dial_options c = [With_port (sc_port c), With_tls (sc_tls c), With_timeout (sc_timeout c)]
     @ (if sc_helo c \<noteq> [] then [With_helo (sc_helo c)] else [])
     @ (if sc_username c \<noteq> [] then [With_plain_auth (sc_username c) (sc_password c)] else [])"

section \<open>The bucket\<close>

record s3_config =
  s3_bucket :: string
  s3_region :: string
  s3_static :: "(string \<times> string) option"
  s3_endpoint :: "(string \<times> bool) option"
  s3_prefix :: string

definition parse_bool :: "string \<Rightarrow> bool option" where
  "parse_bool s = (if s \<in> {''1'', ''t'', ''T'', ''TRUE'', ''true'', ''True''} then Some True
     else if s \<in> {''0'', ''f'', ''F'', ''FALSE'', ''false'', ''False''} then Some False else None)"

definition s3_prefix_of :: "string \<Rightarrow> string" where
  "s3_prefix_of prefix = (if prefix \<noteq> [] then trim_suffix prefix ''/'' @ ''/'' else prefix)"

datatype storage_error = S3_NotConfigured | S3_ErrAWS

text \<open>\<open>aws\<close>: whether LoadDefaultConfig succeeds. A style that is no bool is False.\<close>

definition s3_NewFromEnv :: "bool \<Rightarrow> (string \<Rightarrow> string) \<Rightarrow> storage_error + s3_config" where
  "s3_NewFromEnv aws env = (if env ''S3_BUCKET'' = [] then Inl S3_NotConfigured else
     let region = (if env ''S3_REGION'' = [] then ''us-east-1'' else env ''S3_REGION'');
         static = (if env ''S3_ACCESS_KEY_ID'' \<noteq> [] then Some (env ''S3_ACCESS_KEY_ID'', env ''S3_SECRET_ACCESS_KEY'') else None) in
     if \<not> aws then Inl S3_ErrAWS else
     let forcePathStyle = (parse_bool (env ''S3_FORCE_PATH_STYLE'') = Some True);
         endpoint = (if env ''S3_ENDPOINT'' \<noteq> [] then Some (env ''S3_ENDPOINT'', forcePathStyle) else None) in
     Inr \<lparr>s3_bucket = env ''S3_BUCKET'', s3_region = region, s3_static = static, s3_endpoint = endpoint,
       s3_prefix = s3_prefix_of (env ''S3_PREFIX'')\<rparr>)"

text \<open>"dev" and "dev/" are the same directory, and a prefix is a whole directory name.\<close>

lemma s3_prefix_directory: "s3_prefix_of (p @ ''/'') = s3_prefix_of p \<or> p = [] \<or> last p = CHR ''/''"
proof (cases "p = [] \<or> last p = CHR ''/''")
  case False
  then have "drop (length p - 1) p = [last p]" by (metis append_butlast_last_id append_eq_conv_conj length_butlast)
  with False show ?thesis by (simp add: s3_prefix_of_def trim_suffix_def)
qed blast

section \<open>Fatal errors and the platform\<close>

datatype fatal = Fatal_database startup_error | Fatal_migrate startup_error | Fatal_smtp | Fatal_storage
  | Fatal_secrets gerror | Fatal_tls | Fatal_config

record ('s, 'd) platform =
  pf_env :: "string \<Rightarrow> string"
  pf_dial :: "nat \<Rightarrow> dial"
  pf_pool :: bool
  pf_entries :: "(string \<times> string option) list"
  pf_sql :: "string \<Rightarrow> 'd \<Rightarrow> 'd option"
  pf_others :: "string \<Rightarrow> 'd ledger \<Rightarrow> 'd ledger"
  pf_tls :: "string \<Rightarrow> string \<Rightarrow> bool"
  pf_aws :: bool
  pf_gcm :: "string \<Rightarrow> aead"
  pf_lookup :: "string \<Rightarrow> string list option"
  pf_keypair :: "string \<Rightarrow> string \<times> string"
  pf_lib :: lib
  pf_redis :: "string \<Rightarrow> 's redis_client"
  pf_mime :: mime_lib
  pf_scan :: scan_lib
  pf_sub :: sub_lib
  pf_other :: "world \<Rightarrow> world"

definition env_or :: "(string \<Rightarrow> string) \<Rightarrow> string \<Rightarrow> string \<Rightarrow> string" where
  "env_or env key fallback = (if env key \<noteq> [] then env key else fallback)"

text \<open>\<open>if err != nil { log.Fatalf(...) }\<close>.\<close>

definition or_fatal :: "('e \<Rightarrow> fatal) \<Rightarrow> ('t, 'e, 'a) step \<Rightarrow> ('a \<Rightarrow> ('t, fatal, 'b) step) \<Rightarrow> ('t, fatal, 'b) step" where
  "or_fatal f m k = handleE m (\<lambda>e. throwE (f e)) k"

text \<open>Not configured is no error; the result is the prefix of the bucket, if there is one.\<close>

definition with_blobs :: "('s, 'd) platform \<Rightarrow> (string option \<Rightarrow> ('t, fatal, 'a) step) \<Rightarrow> ('t, fatal, 'a) step" where
  "with_blobs P k = (case s3_NewFromEnv (pf_aws P) (pf_env P) of
     Inl e \<Rightarrow> if e \<noteq> S3_NotConfigured then throwE Fatal_storage else k None
   | Inr c \<Rightarrow> k (Some (s3_prefix c)))"

definition with_sealer :: "('s, 'd) platform \<Rightarrow> (aead \<Rightarrow> ('t, fatal, 'a) step) \<Rightarrow> ('t, fatal, 'a) step" where
  "with_sealer P k = (case NewSealerFromEnv (pf_gcm P) (pf_env P ''SECRET_KEY'') of Inl e \<Rightarrow> throwE (Fatal_secrets e) | Inr A \<Rightarrow> k A)"

definition with_smtp :: "('s, 'd) platform \<Rightarrow> (smtp_config \<Rightarrow> ('t, fatal, 'a) step) \<Rightarrow> ('t, fatal, 'a) step" where
  "with_smtp P k = (case smtp_NewFromEnv (pf_env P) of Inl e \<Rightarrow> throwE Fatal_smtp | Inr c \<Rightarrow> k c)"

text \<open>\<open>maildomain.NewService\<close> with the configuration of the process.\<close>

definition domain_service_of :: "('s, 'd) platform \<Rightarrow> aead \<Rightarrow> string \<Rightarrow> string \<Rightarrow> domain_service" where
  "domain_service_of P A spf report = withDefaults \<lparr>ds_cipher = A, ds_lookup = pf_lookup P, ds_keypair = pf_keypair P, ds_spf = spf, ds_report = report\<rparr>"

section \<open>The API\<close>

definition redis_addr :: "('s, 'd) platform \<Rightarrow> string" where
  "redis_addr P = env_or (pf_env P) ''REDIS_ADDR'' ''redis:6379''"

definition wire_api :: "('s, 'd) platform \<Rightarrow> aead \<Rightarrow> string option \<Rightarrow> 's api" where
  "wire_api P A bucket = (let env = pf_env P; domains = domain_service_of P A (env ''SPF_INCLUDE'') (env ''DMARC_REPORT_TO'') in
     \<lparr>sv_accounts = \<lparr>ac_lib = pf_lib P, ac_send = smtp_Send (pf_lib P), ac_signer = Some (SystemSigningKey domains),
        ac_base = env ''APP_BASE_URL'', ac_from = env ''MAIL_FROM''\<rparr>,
      sv_emails = (\<lambda>user. \<lparr>es_getenv = env, es_lib = pf_lib P, es_queue = EnqueueSend, es_blobs = map_option S3Store bucket,
        es_domains = Some (AllowsAddress user), es_other = pf_other P\<rparr>),
      sv_domains = domains, sv_limiter = Some (pf_redis P (redis_addr P)), sv_getenv = env, sv_mime = pf_mime P, sv_scan = pf_scan P\<rparr>)"

definition on_ledger :: "('d, 'a) mig \<Rightarrow> ('t \<times> 'd ledger, startup_error, 'a) step" where
  "on_ledger m s = (case m (snd s) of (r, l) \<Rightarrow> (r, (fst s, l)))"

text \<open>\<open>main\<close> up to ListenAndServe: the port and the services behind the handler.\<close>

definition api_main :: "('s, 'd) platform \<Rightarrow> (dial_event list \<times> 'd ledger, fatal, string \<times> smtp_config \<times> 's api) step" where
  "api_main P = (let env = pf_env P; port = env_or env ''PORT'' ''8080'' in
     or_fatal Fatal_database (onFst (connectDB (env ''DATABASE_URL'') (pf_dial P) (\<lambda>_. False))) (\<lambda>_.
     or_fatal Fatal_migrate (on_ledger (migrate (pf_entries P) (pf_sql P) (pf_others P))) (\<lambda>_.
     with_smtp P (\<lambda>sender. with_blobs P (\<lambda>bucket. with_sealer P (\<lambda>A.
     returnE (port, sender, wire_api P A bucket)))))))"

section \<open>The other processes\<close>

definition worker_concurrency :: "(string \<Rightarrow> string) \<Rightarrow> int" where
  "worker_concurrency env = (if env ''WORKER_CONCURRENCY'' = [] then 10 else
     case atoi (env ''WORKER_CONCURRENCY'') of Some n \<Rightarrow> if 0 < n then n else 10 | None \<Rightarrow> 10)"

definition wire_worker :: "('s, 'd) platform \<Rightarrow> aead \<Rightarrow> string option \<Rightarrow> worker" where
  "wire_worker P A bucket = smtp_worker (pf_lib P) bucket (Some (SigningKeyForDomain (domain_service_of P A [] [])))"

definition worker_main :: "('s, 'd) platform \<Rightarrow> ('t, fatal, int \<times> string \<times> worker) step" where
  "worker_main P = (let env = pf_env P in
     if env ''DATABASE_URL'' = [] then throwE Fatal_config else
     if \<not> pf_pool P then throwE (Fatal_database ErrConnect) else
     with_smtp P (\<lambda>sender. with_blobs P (\<lambda>bucket. with_sealer P (\<lambda>A.
     returnE (worker_concurrency env, redis_addr P, wire_worker P A bucket)))))"

definition lmtpd_main :: "('s, 'd) platform \<Rightarrow> ('t, fatal, string) step" where
  "lmtpd_main P = (if pf_env P ''DATABASE_URL'' = [] then throwE Fatal_config else
     if \<not> pf_pool P then throwE (Fatal_database ErrConnect) else returnE (env_or (pf_env P) ''LMTP_ADDR'' ''127.0.0.1:2525''))"

text \<open>Without REDIS_ADDR the IMAP server has no limiter.\<close>

definition imapd_main :: "('s, 'd) platform \<Rightarrow> ('t, fatal, string \<times> 's redis_client option) step" where
  "imapd_main P = (let env = pf_env P in
     if \<not> pf_tls P (env ''IMAP_TLS_CERT'') (env ''IMAP_TLS_KEY'') then throwE Fatal_tls else
     if \<not> pf_pool P then throwE (Fatal_database ErrConnect) else
     returnE (env_or env ''IMAP_ADDR'' ''127.0.0.1:1993'', if env ''REDIS_ADDR'' \<noteq> [] then Some (pf_redis P (env ''REDIS_ADDR'')) else None))"

definition env_number :: "(string \<Rightarrow> string) \<Rightarrow> string \<Rightarrow> int \<Rightarrow> int" where
  "env_number env key fallback = (case atoi (env key) of None \<Rightarrow> fallback | Some v \<Rightarrow> if v \<le> 0 then fallback else v)"

definition wire_backend :: "('s, 'd) platform \<Rightarrow> aead \<Rightarrow> 's backend" where
  "wire_backend P A = \<lparr>bk_lib = pf_lib P, bk_mime = pf_mime P, bk_sub = pf_sub P, bk_domains = domain_service_of P A [] [],
     bk_limiter = Some (pf_redis P (pf_env P ''REDIS_ADDR'')), bk_minute = env_number (pf_env P) ''SEND_LIMIT_PER_MINUTE'' 60,
     bk_day = env_number (pf_env P) ''SEND_LIMIT_PER_DAY'' 5000\<rparr>"

definition submissiond_main :: "('s, 'd) platform \<Rightarrow> ('t, fatal, (string \<times> string) \<times> (string \<times> string) \<times> 's backend) step" where
  "submissiond_main P = (let env = pf_env P in
     if \<not> pf_tls P (env ''SUBMISSION_TLS_CERT'') (env ''SUBMISSION_TLS_KEY'') then throwE Fatal_tls else
     if env ''REDIS_ADDR'' = [] \<or> env ''SUBMISSION_RELAY'' = [] then throwE Fatal_config else
     if \<not> pf_pool P then throwE (Fatal_database ErrConnect) else
     with_sealer P (\<lambda>A. returnE ((env_or env ''SUBMISSION_ADDR'' ''127.0.0.1:1587'', env_or env ''SUBMISSIONS_ADDR'' ''127.0.0.1:1465''),
       (env ''SUBMISSION_RELAY'', env_or env ''SMTP_HELO'' ''hs.rnm.dev''), wire_backend P A)))"

section \<open>What a started process stands on\<close>

lemma or_fatal_Inr: "or_fatal f m k s = (Inr a, s') \<longleftrightarrow> (\<exists>x s1. m s = (Inr x, s1) \<and> k x s1 = (Inr a, s'))"
  by (auto simp: or_fatal_def step_iffs)

lemma with_smtp_Inr: "with_smtp P k s = (Inr a, s') \<longleftrightarrow> (\<exists>c. smtp_NewFromEnv (pf_env P) = Inr c \<and> k c s = (Inr a, s'))"
  by (auto simp: with_smtp_def step_iffs split: sum.splits)

lemma with_blobs_Inr:
  "with_blobs P k s = (Inr a, s') \<longleftrightarrow> (\<exists>b. k b s = (Inr a, s') \<and> (case s3_NewFromEnv (pf_aws P) (pf_env P) of
     Inl e \<Rightarrow> e = S3_NotConfigured \<and> b = None | Inr c \<Rightarrow> b = Some (s3_prefix c)))"
  by (auto simp: with_blobs_def step_iffs split: sum.splits)

lemma with_sealer_Inr:
  "with_sealer P k s = (Inr a, s') \<longleftrightarrow> (\<exists>key. pf_env P ''SECRET_KEY'' \<noteq> [] \<and> DecodeString (pf_env P ''SECRET_KEY'') = Some key \<and>
     length key = 32 \<and> k (pf_gcm P key) s = (Inr a, s'))"
  by (auto simp: with_sealer_def NewSealerFromEnv_def NewSealer_def step_iffs split: option.splits if_splits)

lemma bucket_configured: "s3_NewFromEnv aws env = Inr c \<Longrightarrow> s3_bucket c = env ''S3_BUCKET'' \<and> env ''S3_BUCKET'' \<noteq> [] \<and> s3_prefix c = s3_prefix_of (env ''S3_PREFIX'')"
  by (auto simp: s3_NewFromEnv_def Let_def split: if_splits)

lemma smtp_configured: "smtp_NewFromEnv env = Inr c \<Longrightarrow> trim_space (sc_host c) \<noteq> [] \<and> 0 < sc_port c \<and> sc_timeout c = 15 * second"
  by (auto simp: smtp_NewFromEnv_def smtp_New_def Let_def split: if_splits option.splits)

lemma on_ledger_iff: "on_ledger m s = (r, s') \<longleftrightarrow> (\<exists>l. m (snd s) = (r, l) \<and> s' = (fst s, l))"
  by (auto simp: on_ledger_def split: prod.splits)

lemmas boot_iffs = on_ledger_iff onFst_iff returnE_iff or_fatal_Inr with_smtp_Inr with_blobs_Inr with_sealer_Inr

lemma signing_cipher: "ds_cipher D = ds_cipher E \<Longrightarrow> SigningKeyForDomain D = SigningKeyForDomain E"
proof -
  assume c: "ds_cipher D = ds_cipher E"
  have "sign_with D = sign_with E" by (rule ext) (simp add: sign_with_def SigningKey_def c)
  then show ?thesis by (intro ext) (simp add: SigningKeyForDomain_def cong: if_cong)
qed

lemma connect_first:
  assumes "connectDB url dial (\<lambda>_. False) [] = (Inr k, evs)" "url \<noteq> []"
  shows "1 \<le> k \<and> k \<le> 10 \<and> dial k = Connected \<and> evs = dials dial 1 k @ [Dialled k]"
proof -
  have run: "connect_from dial (\<lambda>_. False) 1 [] = (Inr k, evs)" and ten: "1 \<le> (11 :: nat)" using assms by (simp_all add: connectDB_def)
  from connect_from_spec[OF run ten] show ?thesis by auto
qed

text \<open>The key a process seals with, and what else its success says.\<close>

lemma api_main_Inr:
  assumes "api_main P (evs, l) = (Inr (port, c, H), (evs', l'))"
  shows "\<exists>k key bucket. connectDB (pf_env P ''DATABASE_URL'') (pf_dial P) (\<lambda>_. False) evs = (Inr k, evs') \<and>
    migrate (pf_entries P) (pf_sql P) (pf_others P) l = (Inr (), l') \<and> smtp_NewFromEnv (pf_env P) = Inr c \<and>
    DecodeString (pf_env P ''SECRET_KEY'') = Some key \<and> length key = 32 \<and> H = wire_api P (pf_gcm P key) bucket \<and>
    (bucket \<noteq> None \<longleftrightarrow> pf_env P ''S3_BUCKET'' \<noteq> []) \<and> port = env_or (pf_env P) ''PORT'' ''8080''"
proof -
  from assms have "\<exists>k key bucket. connectDB (pf_env P ''DATABASE_URL'') (pf_dial P) (\<lambda>_. False) evs = (Inr k, evs') \<and>
    migrate (pf_entries P) (pf_sql P) (pf_others P) l = (Inr (), l') \<and> smtp_NewFromEnv (pf_env P) = Inr c \<and>
    DecodeString (pf_env P ''SECRET_KEY'') = Some key \<and> length key = 32 \<and> H = wire_api P (pf_gcm P key) bucket \<and>
    (case s3_NewFromEnv (pf_aws P) (pf_env P) of Inl e \<Rightarrow> e = S3_NotConfigured \<and> bucket = None | Inr c \<Rightarrow> bucket = Some (s3_prefix c)) \<and>
    port = env_or (pf_env P) ''PORT'' ''8080''"
    unfolding api_main_def Let_def boot_iffs by fastforce
  then obtain k key bucket where r: "connectDB (pf_env P ''DATABASE_URL'') (pf_dial P) (\<lambda>_. False) evs = (Inr k, evs')"
      "migrate (pf_entries P) (pf_sql P) (pf_others P) l = (Inr (), l')" "smtp_NewFromEnv (pf_env P) = Inr c"
      "DecodeString (pf_env P ''SECRET_KEY'') = Some key" "length key = 32" "H = wire_api P (pf_gcm P key) bucket"
      "port = env_or (pf_env P) ''PORT'' ''8080''"
    and b: "case s3_NewFromEnv (pf_aws P) (pf_env P) of Inl e \<Rightarrow> e = S3_NotConfigured \<and> bucket = None | Inr c \<Rightarrow> bucket = Some (s3_prefix c)"
    by (elim exE conjE)
  have "bucket \<noteq> None \<longleftrightarrow> pf_env P ''S3_BUCKET'' \<noteq> []"
    using b by (auto simp: s3_NewFromEnv_def Let_def split: sum.splits if_splits)
  with r show ?thesis by blast
qed

text \<open>C34: The API listens only on firm ground: when main comes to ListenAndServe, one of at most ten dials found the database
  answering and every pool opened for nothing is closed, the data are what the recorded migrations made and every
  shipped migration is recorded, the mail relay has a host and a port, the key of the secrets is 32 bytes,
  uploads are on exactly when a bucket is named, and the services are wired with the guard on senders and the signer.\<close>

theorem api_main_serves:
  assumes "api_main P ([], l) = (Inr (port, c, H), (evs, l'))" "in_step body (pf_sql P) d l" "rely body (pf_sql P) d (pf_others P)"
    "\<forall>v b. map_of (pf_entries P) v = Some (Some b) \<longrightarrow> body v = b"
  shows "(\<exists>n. 1 \<le> n \<and> n \<le> 10 \<and> pf_dial P n = Connected \<and> evs = dials (pf_dial P) 1 n @ [Dialled n]) \<and>
    in_step body (pf_sql P) d l' \<and> set (versions_of (pf_entries P)) \<subseteq> set (recorded_versions l') \<and>
    trim_space (sc_host c) \<noteq> [] \<and> 0 < sc_port c \<and>
    (\<exists>key. DecodeString (pf_env P ''SECRET_KEY'') = Some key \<and> length key = 32 \<and> ds_cipher (sv_domains H) = pf_gcm P key) \<and>
    (\<forall>user. es_domains (sv_emails H user) = Some (AllowsAddress user) \<and> (es_blobs (sv_emails H user) \<noteq> None) = (pf_env P ''S3_BUCKET'' \<noteq> [])) \<and>
    ac_signer (sv_accounts H) = Some (SystemSigningKey (sv_domains H))"
proof -
  obtain k key bucket where r: "connectDB (pf_env P ''DATABASE_URL'') (pf_dial P) (\<lambda>_. False) [] = (Inr k, evs)"
    "migrate (pf_entries P) (pf_sql P) (pf_others P) l = (Inr (), l')" "smtp_NewFromEnv (pf_env P) = Inr c"
    "DecodeString (pf_env P ''SECRET_KEY'') = Some key" "length key = 32" "H = wire_api P (pf_gcm P key) bucket"
    "bucket \<noteq> None \<longleftrightarrow> pf_env P ''S3_BUCKET'' \<noteq> []"
    using api_main_Inr[OF assms(1)] by blast
  have "pf_env P ''DATABASE_URL'' \<noteq> []" using r(1) by (auto simp: connectDB_def throwE_def)
  then have "\<exists>n. 1 \<le> n \<and> n \<le> 10 \<and> pf_dial P n = Connected \<and> evs = dials (pf_dial P) 1 n @ [Dialled n]"
    using connect_first[OF r(1)] by auto
  moreover have "in_step body (pf_sql P) d l'" "set (versions_of (pf_entries P)) \<subseteq> set (recorded_versions l')"
    using migrate_records[OF r(2) assms(2-4)] by blast+
  ultimately show ?thesis
    using r(4-7) smtp_configured[OF r(3)] by (auto simp: wire_api_def Let_def domain_service_of_def withDefaults_def)
qed

text \<open>One key, one signer: an API, a worker and a submission server started with the same SECRET_KEY, whatever else
  their environments hold, resolve the same signing key for every workspace and domain, and what one of them sealed every
  other opens to the bytes sealed.\<close>

theorem processes_sign_alike:
  assumes "api_main P st = (Inr (port, c, H), st')" "worker_main Q t = (Inr (n, raddr, W), t')" "submissiond_main R v = (Inr (addrs, relays, B), v')"
    "pf_env Q ''SECRET_KEY'' = pf_env P ''SECRET_KEY''" "pf_env R ''SECRET_KEY'' = pf_env P ''SECRET_KEY''"
    "pf_gcm Q = pf_gcm P" "pf_gcm R = pf_gcm P" "\<And>key. aead_ok (pf_gcm P key)"
  shows "wk_domains W = Some (SigningKeyForDomain (sv_domains H)) \<and> SigningKeyForDomain (bk_domains B) = SigningKeyForDomain (sv_domains H) \<and>
    (\<forall>p w sealed w'. Seal (ds_cipher (sv_domains H)) p w = (Inr sealed, w') \<longrightarrow> Open (ds_cipher (bk_domains B)) sealed = Inr p)"
proof -
  obtain key bucket where H: "DecodeString (pf_env P ''SECRET_KEY'') = Some key" "H = wire_api P (pf_gcm P key) bucket"
    using api_main_Inr[of P "fst st" "snd st" port c H "fst st'" "snd st'"] assms(1) by auto
  obtain b where W: "W = wire_worker Q (pf_gcm P key) b"
    using assms(2,4,6) H(1) by (auto simp: worker_main_def Let_def boot_iffs step_iffs split: if_splits)
  have B: "B = wire_backend R (pf_gcm P key)"
    using assms(3,5,7) H(1) by (auto simp: submissiond_main_def Let_def boot_iffs step_iffs split: if_splits)
  show ?thesis
    using H(2) W B assms(8) Open_Seal
    by (auto simp: wire_api_def wire_worker_def wire_backend_def Let_def smtp_worker_def domain_service_of_def withDefaults_def
        intro!: signing_cipher)
qed

section \<open>Sending through the deployed API\<close>

lemma Send_allowed:
  assumes "Send S ws key q w = (Inr e, w')" "es_domains S = Some g"
  shows "\<exists>w1. g ws (rq_from q) w = (Inr (), w1)"
proof -
  obtain w1 where "checkFrom S ws (rq_from q) w = (Inr (), w1)" using Send_Inr[OF assms(1)] by blast
  then show ?thesis using assms(2) by (auto simp: checkFrom_def step_iffs split: option.splits)
qed

text \<open>Whom a machine may send as: no mailbox with an owner, and only a personal mailbox or a verified domain of its workspace.\<close>

definition machine_sender :: "db \<Rightarrow> string \<Rightarrow> string \<Rightarrow> bool" where
  "machine_sender t ws from \<longleftrightarrow> (\<exists>local name. to_lower (trim_space from) = local @ ''@'' @ name \<and> local \<noteq> [] \<and>
     (\<forall>b. List.find (box_at t local name) (mailboxes t) = Some b \<longrightarrow> b_owner b = None) \<and>
     ((\<exists>b\<in>set (mailboxes t). box_at t local name b \<and> b_personal b = Some ws) \<or>
      (\<exists>d\<in>set (domains t). d_ws d = ws \<and> d_name d = Normalise name \<and> Verified d)))"


end
