(* ===== verification/Guesses.thy ===== *)
theory Guesses imports Web begin

text \<open>
  How often the password of one account can be tried through the login endpoint: the limiter and the handler
  together. An attempt counts unless it was answered with 429.
\<close>

definition refused :: "(gerror + 'a answer) \<Rightarrow> bool" where
  "refused r \<longleftrightarrow> (\<exists>ra. r = Inr (Problem 429 ''rate_limited'', ra))"

abbreviation login_key :: "string \<Rightarrow> int \<Rightarrow> string" where
  "login_key k n \<equiv> redis_key loginPerEmail k (n * rl_window loginPerEmail)"

text \<open>
  \<open>guesses H val k n g T x\<close>: by time \<open>T\<close>, with Redis in state \<open>x\<close>, \<open>g\<close> attempts on the address \<open>k\<close>
  in its window number \<open>n\<close> were not refused. In between anything may happen that does not lower the counter, in any world.
\<close>

inductive guesses :: "'s api \<Rightarrow> ('s \<Rightarrow> time \<Rightarrow> string \<Rightarrow> nat) \<Rightarrow> string \<Rightarrow> int \<Rightarrow> nat \<Rightarrow> time \<Rightarrow> 's \<Rightarrow> bool" for H val k n where
  start: "guesses H val k n 0 T x"
| meanwhile: "guesses H val k n g T x \<Longrightarrow> T \<le> T' \<Longrightarrow> (\<And>t. T' \<le> t \<Longrightarrow> val x t (login_key k n) \<le> val x' t (login_key k n)) \<Longrightarrow> guesses H val k n g T' x'"
| attempt: "guesses H val k n g T x \<Longrightarrow> T \<le> app_now w \<Longrightarrow> 0 \<le> app_now w \<Longrightarrow> quot (app_now w) (rl_window loginPerEmail) = n \<Longrightarrow>
     normaliseKey addr = k \<Longrightarrow> Http_Login H c (Some (addr, pass)) (w, x) = (r, (w', x')) \<Longrightarrow>
     guesses H val k n (if refused r then g else Suc g) (app_now w) x'"

lemma redis_key_window: "0 < rl_window r \<Longrightarrow> quot now (rl_window r) = n \<Longrightarrow> 0 \<le> n \<Longrightarrow> redis_key r key now = redis_key r key (n * rl_window r)"
  by (simp add: redis_key_def quot_nonneg)

lemma server_allow_one: "server_allow (Some R) now key [r] s = (case allow R now r key s of (got, s1) \<Rightarrow> (if rr_allowed got then free_pass else got, s1))"
  by (simp add: server_allow_def allow_all_def free_pass_def split: prod.splits)

lemma plain_snd: "plain m s = (r, s') \<Longrightarrow> snd s' = snd s"
  by (cases r) (auto simp: plain_def step_iffs)

context redis begin

text \<open>One call of Allow: the counter of its key goes up by one, the others stay, and it passes up to the limit.\<close>

lemma allow_one:
  assumes "allow R now r key s = (got, s1)" "\<And>k w now s. fst (rc_incr R k w now s) \<noteq> None" "0 < rl_window r" "now \<le> t"
  shows "redis_key r key now \<noteq> j \<Longrightarrow> val s1 t j = val s t j"
    and "t < now + rl_window r \<Longrightarrow> val s1 t (redis_key r key now) = Suc (val s now (redis_key r key now))"
    and "rr_allowed got \<Longrightarrow> int (Suc (val s now (redis_key r key now))) \<le> rl_limit r"
proof -
  obtain m s2 where "rc_incr R (redis_key r key now) (rl_window r) now s = (Some m, s2)"
    using assms(2) by (metis not_None_eq prod.collapse)
  moreover from this have "s2 = s1" using assms(1) by (simp add: allow_def allow_with_def Let_def split: if_splits)
  ultimately have inc: "rc_incr R (redis_key r key now) (rl_window r) now s = (Some m, s1)" by simp
  note m = incr_reply[OF inc]
  show "redis_key r key now \<noteq> j \<Longrightarrow> val s1 t j = val s t j" using incr_other[OF inc assms(4)] by simp
  show "t < now + rl_window r \<Longrightarrow> val s1 t (redis_key r key now) = Suc (val s now (redis_key r key now))"
    using incr_store[OF inc assms(4)] m by simp
  show "rr_allowed got \<Longrightarrow> int (Suc (val s now (redis_key r key now))) \<le> rl_limit r"
    using assms(1) inc m by (auto simp: allow_def allow_with_def Let_def split: if_splits)
qed

lemma same_window: "0 < W \<Longrightarrow> 0 \<le> now \<Longrightarrow> now \<le> t \<Longrightarrow> quot t W = quot now W \<Longrightarrow> t < now + W"
proof -
  assume W: "0 < W" and t: "0 \<le> now" "now \<le> t" "quot t W = quot now W"
  then have "t div W = now div W" by (simp add: quot_nonneg)
  then have "t - t mod W = now - now mod W" by (simp add: minus_mod_eq_mult_div)
  moreover have "t mod W < W" "0 \<le> now mod W" using W by simp_all
  ultimately show "t < now + W" by linarith
qed

lemma guesses_invariant:
  assumes "guesses H val k n g T x" "sv_limiter H = Some R" "\<And>k w now s. fst (rc_incr R k w now s) \<noteq> None" "0 \<le> n"
  shows "g \<le> 10 \<and> (\<forall>t. T \<le> t \<longrightarrow> quot t (rl_window loginPerEmail) = n \<longrightarrow> g \<le> val x t (login_key k n))"
  using assms(1)
proof (induction rule: guesses.induct)
  case (attempt g T x w addr c pass r w' x')
  let ?now = "app_now w" and ?K = "login_key k n"
  have W: "0 < rl_window loginPerEmail" "0 < rl_window loginPerIP" by (simp_all add: rule_defs minute_def second_def)
  have K: "redis_key loginPerEmail k ?now = ?K" using redis_key_window[OF W(1)] attempt(4) assms(4) by simp
  have c0: "g \<le> val x ?now ?K" using attempt by blast
  obtain got x1 where a1: "allow R ?now loginPerEmail k x = (got, x1)" by fastforce
  obtain got2 x2 where a2: "allow R ?now loginPerIP (rc_ip (cx_rc c)) x1 = (got2, x2)" by fastforce
  have key: "redis_key loginPerIP (rc_ip (cx_rc c)) ?now \<noteq> ?K"
  proof
    assume "redis_key loginPerIP (rc_ip (cx_rc c)) ?now = ?K"
    then have "redis_key loginPerIP (rc_ip (cx_rc c)) ?now = redis_key loginPerEmail k ?now" using K by simp
    moreover have "loginPerIP \<in> set (program_rules (\<lambda>_. []))" "loginPerEmail \<in> set (program_rules (\<lambda>_. []))"
      by (simp_all add: program_rules_def)
    ultimately have "loginPerIP = loginPerEmail" using redis_key_eq[OF program_rules_separated] by blast
    then show False by (simp add: loginPerIP_def loginPerEmail_def)
  qed
  have v1: "val x1 t ?K = Suc (val x ?now ?K)" if "?now \<le> t" "quot t (rl_window loginPerEmail) = n" for t
    using allow_one(2)[OF a1 assms(3) W(1) that(1)] same_window[OF W(1) attempt(3) that(1)] that(2) attempt(4) K by simp
  have v2: "val x2 t ?K = Suc (val x ?now ?K)" if "?now \<le> t" "quot t (rl_window loginPerEmail) = n" for t
    using allow_one(1)[OF a2 assms(3) W(2) that(1) key] v1[OF that] by simp
  have pass: "Suc (val x ?now ?K) \<le> 10" if "rr_allowed got"
    using allow_one(3)[OF a1 assms(3) W(1) order_refl that] K by (simp add: loginPerEmail_def)
  show ?case
  proof (cases "rr_allowed got")
    case False
    then have "refused r" "x' = x1"
      using attempt(5,6) a1 assms(2)
      by (auto simp: Http_Login_def limited_def onSnd_def bindE_def server_allow_one tooMany_def returnE_def refused_def)
    then show ?thesis using attempt(7) c0 v1 by auto
  next
    case True
    have "x' = x2"
      using attempt(5,6) a1 a2 assms(2) True
      by (cases "rr_allowed got2") (auto simp: Http_Login_def limited_def onSnd_def bindE_def server_allow_one tooMany_def returnE_def free_pass_def dest!: plain_snd)
    then show ?thesis using pass[OF True] c0 v2 by (auto simp: le_Suc_eq)
  qed
qed (auto intro: order_trans)

end

text \<open>C20: One account's password can be guessed at most ten times in a quarter of an hour: in one window of the limiter at
  most ten attempts to sign in to an address, however it is spelled and from wherever they come, get
  past the 429 and reach the password check, whatever else uses the limiter and whatever changes meanwhile, as long as
  Redis answers.\<close>

theorem login_guesses_bounded:
  assumes "redis R val" "sv_limiter H = Some R" "\<And>k w now s. fst (rc_incr R k w now s) \<noteq> None" "0 \<le> n" "guesses H val k n g T x"
  shows "g \<le> 10"
  using redis.guesses_invariant[OF assms(1,5,2,3,4)] by blast

end
