(* ===== verification/WebSamples.thy ===== *)
theory WebSamples imports Guesses begin

text \<open>Requests at which the hypotheses of the properties of the HTTP interface hold.\<close>

definition sample_api :: "(string \<Rightarrow> (nat \<times> time) option) redis_client option \<Rightarrow> (string \<Rightarrow> (nat \<times> time) option) api" where
  "sample_api R = \<lparr>sv_accounts = Signin.sample_service, sv_emails = (\<lambda>u. EmailService.sample_service), sv_domains = sample_ds, sv_limiter = R,
     sv_getenv = (\<lambda>k. []), sv_mime = sample_mime, sv_scan = sample_scan\<rparr>"

lemma sample_api_sel [simp]:
  "sv_accounts (sample_api R) = Signin.sample_service" "sv_emails (sample_api R) u = EmailService.sample_service"
  "sv_domains (sample_api R) = sample_ds" "sv_limiter (sample_api R) = R"
  by (simp_all add: sample_api_def)

definition bob_ctx :: request_ctx where
  "bob_ctx = \<lparr>cx_user = Some boss, cx_token = Some ''tok'', cx_workspace = None, cx_rc = sample_rc\<rparr>"

definition key_ctx :: request_ctx where
  "key_ctx = \<lparr>cx_user = None, cx_token = None, cx_workspace = Some ''ws'', cx_rc = sample_rc\<rparr>"

definition sample_body :: send_body where
  "sample_body = \<lparr>bd_from = ''bob@acme.kz'', bd_to = [''eve@x.kz''], bd_cc = None, bd_bcc = None, bd_subject = Some ''hi'', bd_html = None,
     bd_text = Some ''hello'', bd_attachments = None, bd_reply_to = None\<rparr>"

lemma sample_body_request: "request_of ''bob@acme.kz'' [] [] sample_body = sample_request" "bd_from sample_body = ''bob@acme.kz''" "bd_reply_to sample_body = None"
  by (simp_all add: request_of_def sample_body_def sample_request_def emailAddresses_def deref_def)

lemma web_strings: "equal_fold ''bob@acme.kz'' ''bob@acme.kz''" "last_index ''bob@acme.kz'' (CHR ''@'') = Some 3"
  by code_simp+

definition sent_world :: world where
  "sent_world = snd (Send EmailService.sample_service ''ws'' ''key'' sample_request mail_world)"

lemma mail_send: "\<exists>e. Send EmailService.sample_service ''ws'' ''key'' sample_request mail_world = (Inr e, sent_world)"
proof -
  have "case Send EmailService.sample_service ''ws'' ''key'' sample_request mail_world of (Inr e, w) \<Rightarrow> True | _ \<Rightarrow> False"
    using sample_request_ok sample_row_ok by (simp add: send_exec mail_world_def mail_db_def team_world_def)
  then show ?thesis by (cases "Send EmailService.sample_service ''ws'' ''key'' sample_request mail_world") (auto simp: sent_world_def split: sum.splits)
qed

lemma mail_allows: "AllowsAddress (Some ''bob'') ''ws'' ''bob@acme.kz'' mail_world = (Inr (), mail_world)"
  by (simp add: AllowsAddress_def owner_of_def personal_of_def AllowsSender_def ByName_def domain_where_def sample_domain_strings web_strings
      Verified_def mail_exec)

lemma mail_scope: "scope (Some boss) ''acme'' RoleMember mail_world = (Inr (''ws'', False), mail_world)"
  by (simp add: mail_exec)

lemma mail_boxes: "\<exists>b. MailboxesForWorkspace ''ws'' mail_world = (Inr [b], mail_world) \<and> mb_address b = ''bob@acme.kz''"
  by (simp add: MailboxesForWorkspace_def mail_exec)

lemma sample_web_send: "\<exists>i st s'. SendWorkspaceEmail (sample_api None) bob_ctx ''acme'' (Some ''key'') (Some sample_body) (mail_world, Map.empty) = (Inr (Reply 202 (i, st), None), s')"
proof -
  obtain b where b: "MailboxesForWorkspace ''ws'' mail_world = (Inr [b], mail_world)" "mb_address b = ''bob@acme.kz''" using mail_boxes by blast
  obtain e where e: "Send EmailService.sample_service ''ws'' ''key'' sample_request mail_world = (Inr e, sent_world)" using mail_send by blast
  show ?thesis
    by (simp add: SendWorkspaceEmail_def bob_ctx_def handleE_def bindE_def onFst_def onSnd_def mail_scope b sample_body_request sample_domain_strings web_strings
        Let_def signed_user_def boss_def[THEN arg_cong[of _ _ u_id]] mail_allows limited_def server_allow_def free_pass_def plain_def reply_and_send_def deref_def
        send_answer_def e returnE_def)
qed


text \<open>GetEmail\<close>

lemma row_not_retained: "e_retained sample_row = None"
  by (simp add: sample_row_def new_email_def)

lemma sample_get: "\<exists>files s'. GetEmail key_ctx ''e1'' (sample_sent, Map.empty) = (Inr (Reply 200 (sample_row, files), None), s')"
  by (simp add: GetEmail_def key_ctx_def plain_def email_detail_def ByID_def email_where_def CanReadOutbound_def AttachmentsByEmailID_def sample_sent_def
      onFst_def orElse_def exec_defs sample_defs hidden_from_def caller_def row_not_retained)

theorem outbound_private_witness: "\<not> hidden_from (tabs sample_sent) [] sample_row"
proof -
  obtain files s' where r: "GetEmail key_ctx ''e1'' (sample_sent, Map.empty :: string \<Rightarrow> (nat \<times> time) option) = (Inr (Reply 200 (sample_row, files), None), s')"
    using sample_get by blast
  have "uniq_on (\<lambda>_. True) e_id (emails (tabs (fst (sample_sent, Map.empty :: string \<Rightarrow> (nat \<times> time) option))))"
    by (simp add: uniq_on_def sample_sent_def)
  from outbound_private[OF this, THEN conjunct1, rule_format, OF r] show ?thesis
    by (simp add: readable_mail_def key_ctx_def caller_def)
qed

theorem domains_need_admin_witness:
  "\<exists>r w'. AddDomain (sample_api None) bob_ctx ''acme'' (Some ''shop.kz'') sample_world = (r, w') \<and>
     (tabs w' = tabs sample_world \<or> (\<exists>ws. admin_of (tabs sample_world) bob_ctx ''acme'' ws))"
proof -
  obtain r w' where run: "AddDomain (sample_api None) bob_ctx ''acme'' (Some ''shop.kz'') sample_world = (r, w')" by (meson surj_pair)
  from domains_need_admin[OF disjI1, OF exI, OF run] run show ?thesis by blast
qed

text \<open>One try of a wrong password.\<close>

theorem login_guesses_bounded_witness:
  "\<exists>r w' x'. Http_Login (sample_api (Some redis_map)) bob_ctx (Some (''bob@acme.kz'', ''guess'')) (sample_world, Map.empty) = (r, (w', x')) \<and>
     (if refused r then 0 else Suc 0) \<le> (10 :: nat)"
proof -
  obtain r w' x' where run: "Http_Login (sample_api (Some redis_map)) bob_ctx (Some (''bob@acme.kz'', ''guess'')) (sample_world, Map.empty) = (r, (w', x'))"
    using surj_pair[of "Http_Login (sample_api (Some redis_map)) bob_ctx (Some (''bob@acme.kz'', ''guess'')) (sample_world, Map.empty)"] by auto
  have now: "app_now sample_world = 0" by (simp add: app_now_def sample_defs)
  have g: "guesses (sample_api (Some redis_map)) live (normaliseKey ''bob@acme.kz'') 0 (if refused r then 0 else Suc 0) (app_now sample_world) x'"
    by (rule guesses.attempt[OF guesses.start[of _ _ _ _ 0] _ _ _ refl run]) (simp_all add: now quot_nonneg rule_defs minute_def second_def)
  have inc: "fst (rc_incr redis_map k w now s) \<noteq> None" for k w now s by (simp add: redis_map_def Let_def)
  from login_guesses_bounded[OF rmap.redis_axioms _ inc _ g] run show ?thesis by simp
qed

end
