(* ===== verification/Outgoing.thy ===== *)
theory Outgoing imports Submission Inbox begin

text \<open>
  What the submission server lets out: the header fields a message loses, the sender and the credential behind
  everything the relay was handed, and the fields a bare line feed hides.
\<close>

section \<open>Lines and fields\<close>

definition joined :: "string list \<Rightarrow> string" where
  "joined ls = concat (map (\<lambda>l. l @ crlf) ls)"

lemma joined_simps [simp]: "joined [] = []" "joined (l # ls) = l @ crlf @ joined ls" "joined (ls @ ks) = joined ls @ joined ks"
  by (simp_all add: joined_def)

lemma split_lines_joined: "split_lines s \<noteq> [] \<and> joined (split_lines s) = s @ crlf"
proof (induction s rule: split_lines.induct)
  case (3 c d cs)
  show ?case
  proof (cases "c = CHR 0x0D \<and> d = CHR 0x0A")
    case True
    then show ?thesis using 3(1) by (simp add: crlf_def)
  next
    case False
    then obtain l ls where "split_lines (d # cs) = l # ls" using 3(2) by (cases "split_lines (d # cs)") auto
    then show ?thesis using 3(2)[OF False] False by (simp only: split_lines.simps if_False list.case) simp
  qed
qed (simp_all add: crlf_def)

lemma cut_head_Some: "cut_head s = Some (h, b) \<Longrightarrow> s = h @ crlf @ crlf @ b"
proof (induction s arbitrary: h b)
  case (Cons c s)
  show ?case
  proof (cases "has_prefix (c # s) (crlf @ crlf)")
    case True
    with Cons.prems have "h = [] \<and> b = drop 4 (c # s)" by simp
    moreover have "length (crlf @ crlf) = 4" by (simp add: crlf_def)
    with True have "take 4 (c # s) = crlf @ crlf" by (simp only: has_prefix_def)
    ultimately show ?thesis by (metis append.assoc append_Nil append_take_drop_id)
  next
    case False
    with Cons show ?thesis by (auto split: option.splits)
  qed
qed simp

text \<open>A header field is a line with its folded continuation lines.\<close>

function fields :: "string list \<Rightarrow> string list list" where
  "fields [] = []"
| "fields (l # ls) = (l # takeWhile folded ls) # fields (dropWhile folded ls)"
  by pat_completeness auto

termination by (relation "measure length") (auto simp: length_dropWhile_le le_imp_less_Suc)

definition field_name :: "string \<Rightarrow> string" where
  "field_name l = (case str_cut l (CHR '':'') of None \<Rightarrow> [] | Some (n, v) \<Rightarrow> to_lower n)"

definition unwanted :: "string list \<Rightarrow> bool" where
  "unwanted f \<longleftrightarrow> \<not> folded (hd f) \<and> (field_name (hd f) \<in>
     {''bcc'', ''return-path'', ''received'', ''authentication-results'', ''dkim-signature''} \<or> (\<exists>rest. field_name (hd f) = ''arc-'' @ rest))"

lemma unwanted_dropped: "unwanted f \<longleftrightarrow> \<not> folded (hd f) \<and> dropped_name (field_name (hd f))"
proof -
  have "has_prefix n p \<longleftrightarrow> (\<exists>rest. n = p @ rest)" for n p by (metis append_eq_conv_conj has_prefix_def)
  then show ?thesis by (simp add: unwanted_def dropped_name_def dropped_names_def)
qed

definition well_formed :: "string \<Rightarrow> bool" where
  "well_formed l \<longleftrightarrow> l \<noteq> [] \<and> (folded l \<or> (field_name l \<noteq> [] \<and> \<not> has_prefix (field_name l) ''resent-''))"

lemma keep_lines_fields:
  "keep_lines b ls = Some out \<Longrightarrow> (\<forall>l\<in>set ls. well_formed l) \<and>
     out = joined ((if b then [] else takeWhile folded ls) @ concat (filter (\<lambda>f. \<not> unwanted f) (fields (dropWhile folded ls))))"
proof (induction ls arbitrary: b out)
  case (Cons l ls)
  show ?case
  proof (cases "folded l")
    case True
    with Cons.prems obtain o1 where o1: "l \<noteq> []" "keep_lines b ls = Some o1" "out = (if b then [] else l @ crlf) @ o1"
      by (auto split: if_splits option.splits)
    from Cons.IH[OF o1(2)] show ?thesis using True o1 by (simp add: well_formed_def)
  next
    case False
    with Cons.prems obtain n v o1 where o1: "l \<noteq> []" "str_cut l (CHR '':'') = Some (n, v)" "n \<noteq> []" "\<not> has_prefix (to_lower n) ''resent-''"
      "keep_lines (dropped_name (to_lower n)) ls = Some o1" "out = (if dropped_name (to_lower n) then [] else l @ crlf) @ o1"
      by (auto simp: Let_def split: if_splits option.splits)
    have name: "field_name l = to_lower n" using o1(2) by (simp add: field_name_def)
    from Cons.IH[OF o1(5)] show ?thesis using False o1 name by (simp add: well_formed_def unwanted_dropped)
  qed
qed simp

lemma fields_folded_first:
  "concat (filter (\<lambda>f. \<not> unwanted f) (fields ls)) = takeWhile folded ls @ concat (filter (\<lambda>f. \<not> unwanted f) (fields (dropWhile folded ls)))"
  by (cases ls) (auto simp: unwanted_dropped)

text \<open>C17: A message leaves the submission server as it came but for its header: the body is the same bytes, every
  field is kept whole (with its continuation lines) or, when its name is Bcc, Return-Path, Received,
  Authentication-Results, DKIM-Signature or ARC-*, dropped whole, in the same order, and only a missing Date or Message-ID is added in
  front. A message that carries a Resent field, or not exactly one author who is the signed-in address, is refused.\<close>

theorem prepare_fields:
  assumes "prepare M A raw address w = (Inr out, w')"
  shows "\<exists>head body H fresh. raw = head @ crlf @ crlf @ body \<and> length head \<le> 131072 \<and> mm_head M raw = Some H \<and> author_ok A H address \<and>
    joined (split_lines head) = head @ crlf \<and> (\<forall>l\<in>set (split_lines head). well_formed l) \<and>
    out = fresh @ joined (concat (filter (\<lambda>f. \<not> unwanted f) (fields (split_lines head)))) @ crlf @ body \<and>
    (get_header H ''Date'' \<noteq> [] \<and> get_header H ''Message-Id'' \<noteq> [] \<longrightarrow> fresh = [])"
proof -
  obtain head body H fresh kept w1 where cut: "cut_head raw = Some (head, body)" and len: "length head \<le> 128 * 1024"
    and H: "mm_head M raw = Some H" and ok: "author_ok A H address" and fresh: "missing_headers A H address w = (Inr fresh, w1)"
    and kept: "keep_lines False (split_lines head) = Some kept" and out: "out = fresh @ kept @ crlf @ body"
    using assms by (auto simp: prepare_def step_iffs split: option.splits prod.splits)
  have "get_header H ''Date'' \<noteq> [] \<and> get_header H ''Message-Id'' \<noteq> [] \<longrightarrow> fresh = []"
    using fresh by (auto simp: missing_headers_def step_iffs)
  moreover have "out = fresh @ joined (concat (filter (\<lambda>f. \<not> unwanted f) (fields (split_lines head)))) @ crlf @ body"
    using keep_lines_fields[OF kept] out by (simp add: fields_folded_first[of "split_lines head"])
  moreover have "\<forall>l\<in>set (split_lines head). well_formed l" using keep_lines_fields[OF kept] by blast
  ultimately show ?thesis
    using cut_head_Some[OF cut] len H ok split_lines_joined[of head]
    by (intro exI[of _ head] exI[of _ body] exI[of _ H] exI[of _ fresh]) simp
qed


section \<open>The session\<close>

text \<open>What the code looks up when it checks a session, in the terms of the tables.\<close>

definition may_send :: "db \<Rightarrow> sub_session \<Rightarrow> bool" where
  "may_send t s \<longleftrightarrow> (\<exists>b\<in>set (mailboxes t). \<exists>d\<in>set (domains t). \<exists>x\<in>set (workspaces t).
     b_id b = sb_box s \<and> d_id d = b_domain b \<and> Verified d \<and> to_lower (b_local b @ ''@'' @ d_name d) = sb_address s \<and>
     w_id x = serves b d \<and> w_id x = sb_ws s \<and>
     (if sb_app s then (\<exists>c\<in>set (smtp_creds t). c_box c = sb_box s \<and> c_hash c = sb_hash s \<and> c_issuer c = sb_user s) \<and>
        (\<exists>m\<in>set (members t). m_ws m = sb_ws s \<and> m_user m = sb_user s \<and> m_role m \<in> {RoleOwner, RoleAdmin})
      else reader_of t b x = Some (sb_user s) \<and> \<not> locked_out t (sb_user s) \<and> (\<exists>m\<in>set (members t). m_ws m = sb_ws s \<and> m_user m = sb_user s) \<and>
        (\<exists>i\<in>set (identities t). i_user i = sb_user s \<and> i_provider i = ProviderPassword \<and> i_hash i = Some (sb_hash s))))"

lemma credential_rows_in: "(u, i, ws, h) \<in> set (credential_rows address t) \<Longrightarrow>
    \<exists>b x. (b, x) \<in> set (boxes_at address t) \<and> b_id b = i \<and> w_id x = ws \<and>
      (\<exists>c\<in>set (smtp_creds t). c_box c = i \<and> h = Some (c_hash c) \<and> c_issuer c = u) \<and>
      (\<exists>m\<in>set (members t). m_ws m = ws \<and> m_user m = u \<and> m_role m \<in> {RoleOwner, RoleAdmin})"
  by (fastforce simp: credential_rows_def)

lemma sub_rows_may_send:
  assumes "(sb_user s, sb_box s, sb_ws s, Some (sb_hash s)) \<in> set (sub_rows (sb_app s) (sb_address s) t)"
  shows "may_send t s"
proof -
  obtain b x where bx: "(b, x) \<in> set (boxes_at (sb_address s) t)" "b_id b = sb_box s" "w_id x = sb_ws s"
    and who: "if sb_app s then (\<exists>c\<in>set (smtp_creds t). c_box c = sb_box s \<and> c_hash c = sb_hash s \<and> c_issuer c = sb_user s) \<and>
        (\<exists>m\<in>set (members t). m_ws m = sb_ws s \<and> m_user m = sb_user s \<and> m_role m \<in> {RoleOwner, RoleAdmin})
      else reader_of t b x = Some (sb_user s) \<and> \<not> locked_out t (sb_user s) \<and> (\<exists>m\<in>set (members t). m_ws m = sb_ws s \<and> m_user m = sb_user s) \<and>
        (\<exists>i\<in>set (identities t). i_user i = sb_user s \<and> i_provider i = ProviderPassword \<and> i_hash i = Some (sb_hash s))"
  proof (cases "sb_app s")
    case True
    then show ?thesis using assms that credential_rows_in unfolding sub_rows_def by fastforce
  next
    case False
    then show ?thesis using assms that reader_rows_in unfolding sub_rows_def by fastforce
  qed
  from bx(1)[unfolded boxes_at_in] obtain d where d: "b \<in> set (mailboxes t)" "x \<in> set (workspaces t)" "d \<in> set (domains t)"
    "d_id d = b_domain b" "Verified d" "to_lower (b_local b @ ''@'' @ d_name d) = sb_address s" "w_id x = serves b d" by blast
  show ?thesis unfolding may_send_def
    by (rule bexI[OF _ d(1)], rule bexI[OF _ d(3)], rule bexI[OF _ d(2)]) (use bx(2,3) d(4-7) who in simp)
qed

lemma on_world_iff: "on_world m s = (r, s') \<longleftrightarrow> (\<exists>w'. m (fst (fst s)) = (r, w') \<and> s' = ((w', snd (fst s)), snd s))"
  by (auto simp: on_world_def onFst_def split: prod.splits)

lemmas sub_iffs = with_session_def set_session_def on_world_iff

lemma sub_check_Inr:
  assumes "sub_check s = (Inr u, s')"
  shows "may_send (tabs (fst (fst s))) (snd s) \<and> sb_user (snd s) \<noteq> [] \<and> tabs (fst (fst s')) = tabs (fst (fst s)) \<and> snd s' = snd s"
  using assms by (auto simp: sub_check_def sub_iffs step_iffs dest!: scan_row_Inr sub_rows_may_send)


text \<open>Steps that only look: tables and session stay. On the world these are the operations that keep equality.\<close>

interpretation looking: table_relation "\<lambda>t u. u = t"
  by unfold_locales simp_all

definition looks :: "('s srv \<times> sub_session) \<Rightarrow> ('s srv \<times> sub_session) \<Rightarrow> bool" where
  "looks s s' \<longleftrightarrow> tabs (fst (fst s')) = tabs (fst (fst s)) \<and> snd s' = snd s"

lemma looks_rt: "reflp looks" "transp looks"
  by (auto simp: looks_def reflp_def transp_def)

lemma on_world_looks: "keeps (on_tabs (\<lambda>t u. u = t)) m \<Longrightarrow> keeps looks (on_world m)"
  by (rule keepsI) (auto simp: on_world_iff looks_def dest: looking.relD)

lemma looks_prepare: "keeps looks (on_world (prepare M A raw address))"
  unfolding prepare_def missing_headers_def domain_part_def by (intro on_world_looks looking.keeps_rules)

lemma looks_sign: "keeps looks (on_world (submission_DKIM A D ws domain raw))"
  unfolding submission_DKIM_def SigningKeyForDomain_def ByName_def ByNameUnscoped_def domain_where_def hosts_personal_of_def sign_with_def
    SigningKey_def ActivePrivateKey_def
  by (intro on_world_looks looking.keeps_rules)

lemma looks_check: "keeps looks sub_check"
  by (rule keepsI) (auto simp: sub_check_def sub_iffs step_iffs looks_def scan_row_def query_def sql_def bindE_def guardE_def handleE_def
      throwE_def split: prod.splits sum.splits if_splits)

lemma looks_quota: "keeps looks (within_quota R ws qs)"
proof (induction qs)
  case (Cons q qs)
  have "keeps looks (onFst (ask_limiter (\<lambda>c now. allow_strict c now q ws) R))"
    by (rule keepsI) (auto simp: onFst_iff looks_def dest: ask_limiter_fst)
  then show ?case using Cons by (auto intro!: keeps_bindE keeps_basic looks_rt)
qed (simp add: keeps_basic looks_rt)

lemma looks_domain: "keeps looks (domain_part address)"
  unfolding domain_part_def by (auto intro!: keeps_basic looks_rt split: option.splits)


text \<open>Running a step that only looks first: it fails and nothing happened, or the rest runs on the same tables and session.\<close>

lemma look_bind:
  assumes "bindE m k s = (r, s')" "keeps looks m" "\<And>e. r = Inl e \<Longrightarrow> looks s s' \<Longrightarrow> P"
    "\<And>a s1. m s = (Inr a, s1) \<Longrightarrow> looks s s1 \<Longrightarrow> k a s1 = (r, s') \<Longrightarrow> P"
  shows P
  using assms(1) keepsD[OF assms(2)] assms(3,4) by (cases "fst (m s)"; cases "m s") (auto simp: bindE_def)

lemma look_handle:
  assumes "handleE m (\<lambda>e. throwE (h e)) k s = (r, s')" "keeps looks m" "\<And>e. r = Inl e \<Longrightarrow> looks s s' \<Longrightarrow> P"
    "\<And>a s1. m s = (Inr a, s1) \<Longrightarrow> looks s s1 \<Longrightarrow> k a s1 = (r, s') \<Longrightarrow> P"
  shows P
  using assms(1) keepsD[OF assms(2)] assms(3,4) by (cases "fst (m s)"; cases "m s") (auto simp: handleE_def throwE_def)

lemma exchange_effect:
  assumes "exchange f s = (r, s')" "\<And>s as. f (s\<lparr>sb_answers := as\<rparr>) = (f s)\<lparr>sb_answers := as\<rparr>"
  shows "fst s' = fst s \<and> (\<exists>as. snd s' = (f (snd s))\<lparr>sb_answers := as\<rparr> \<or> r \<noteq> Inr () \<and> snd s' = (snd s)\<lparr>sb_answers := as\<rparr>)"
proof (cases "sb_answers (snd s)")
  case Nil
  have "f (snd s) = (f (snd s))\<lparr>sb_answers := sb_answers (f (snd s))\<rparr>" by simp
  moreover have "r = Inr ()" "s' = (fst s, f (snd s))" using assms(1) Nil by (simp_all add: exchange_def sub_iffs)
  ultimately show ?thesis by (metis fst_conv snd_conv)
next
  case (Cons a as)
  have "snd s = (snd s)\<lparr>sb_answers := sb_answers (snd s)\<rparr>" by simp
  then show ?thesis
    using assms Cons
    by (cases a) (auto simp: exchange_def sub_iffs bindE_def throwE_def returnE_def split: if_splits)
qed

lemma relay_effect:
  assumes "SMTPRelay from to raw s = (r, s')"
  shows "fst s' = fst s \<and> (\<exists>as. snd s' = (snd s)\<lparr>sb_relayed := sb_relayed (snd s) @ [(from, to, raw)], sb_answers := as\<rparr> \<or>
    r \<noteq> Inr () \<and> snd s' = (snd s)\<lparr>sb_answers := as\<rparr>)"
proof -
  have idle: "fst t' = fst t \<and> (\<exists>as. snd t' = (snd t)\<lparr>sb_answers := as\<rparr>)" if "exchange (\<lambda>s. s) t = (q, t')" for q and t t' :: "'a srv \<times> sub_session"
    using exchange_effect[OF that] by auto
  obtain q1 s1 where e1: "exchange (\<lambda>s. s) s = (q1, s1)" by (meson surj_pair)
  obtain q2 s2 where e2: "exchange (\<lambda>s. s) s1 = (q2, s2)" by (meson surj_pair)
  obtain q3 s3 where e3: "exchange (\<lambda>s. s\<lparr>sb_relayed := sb_relayed s @ [(from, to, raw)]\<rparr>) s2 = (q3, s3)" by (meson surj_pair)
  obtain q4 s4 where e4: "exchange (\<lambda>s. s) s3 = (q4, s4)" by (meson surj_pair)
  have run: "SMTPRelay from to raw s = (case q1 of Inl e \<Rightarrow> (Inl e, s1) | Inr _ \<Rightarrow> (case q2 of Inl e \<Rightarrow> (Inl e, s2) | Inr _ \<Rightarrow>
      (case q3 of Inl e \<Rightarrow> (Inl e, s3) | Inr _ \<Rightarrow> (Inr (), s4))))"
    using e1 e2 e3 e4 by (cases q1; cases q2; cases q3) (simp_all add: SMTPRelay_def bindE_def ignoreE_def)
  note i1 = idle[OF e1] and i2 = idle[OF e2] and i4 = idle[OF e4]
  have i3: "fst s3 = fst s2 \<and> (\<exists>as. snd s3 = (snd s2)\<lparr>sb_relayed := sb_relayed (snd s2) @ [(from, to, raw)], sb_answers := as\<rparr> \<or>
      q3 \<noteq> Inr () \<and> snd s3 = (snd s2)\<lparr>sb_answers := as\<rparr>)"
    using exchange_effect[OF e3] by auto
  show ?thesis
    using run assms i1 i2 i3 i4 by (cases q1; cases q2; cases q3) auto
qed


lemma submission_DKIM_Inr:
  assumes "submission_DKIM A D ws domain raw w = (Inr signed, w')"
  shows "\<exists>sel der w1 signature. SigningKeyForDomain D ws domain w = (Inr (sel, der), w1) \<and> signed = signature @ raw"
  using assms by (cases "cut_head raw") (auto simp: submission_DKIM_def step_iffs split: option.splits)

lemma guard_looks: "keeps looks (guardE b e)" by (rule keeps_basic(3)[OF looks_rt(1)])

text \<open>What a Data that got as far as the relay had done before.\<close>

lemma sub_Data_cases:
  assumes "sub_Data B body s = (r, s')"
  shows "looks s s' \<and> r \<noteq> Inr () \<or> (\<exists>input s1 s2 s3 s4 clean signed domain s5 q.
     body = Some input \<and> length (take (submissionMaxBytes + 1) input) \<le> submissionMaxBytes \<and>
     looks s s1 \<and> sb_from (snd s) \<noteq> [] \<and> sb_rcpts (snd s) \<noteq> [] \<and>
     on_world (prepare (bk_mime B) (bk_sub B) (take (submissionMaxBytes + 1) input) (sb_address (snd s))) s1 = (Inr clean, s2) \<and>
     looks s s3 \<and> on_world (submission_DKIM (bk_sub B) (bk_domains B) (sb_ws (snd s)) domain clean) s3 = (Inr signed, s4) \<and>
     looks s s4 \<and> sub_check s4 = (Inr (), s5) \<and> SMTPRelay (sb_from (snd s)) (sb_rcpts (snd s)) signed s5 = (q, s') \<and> (r = Inr () \<longleftrightarrow> q = Inr ()))"
proof (cases body)
  case None
  then show ?thesis using assms by (auto simp: sub_Data_def throwE_def looks_def)
next
  case (Some input)
  let ?raw = "take (submissionMaxBytes + 1) input"
  note tr = transpD[OF looks_rt(2)]
  note fail = disjI1[OF conjI]
  from assms Some have run: "bindE (guardE (submissionMaxBytes < length ?raw) (Sub_SMTPError 552)) (\<lambda>_.
     bindE sub_check (\<lambda>_. with_session (\<lambda>s.
     bindE (guardE (sb_from s = [] \<or> sb_rcpts s = []) Sub_ErrAuthRequired) (\<lambda>_.
     handleE (on_world (prepare (bk_mime B) (bk_sub B) ?raw (sb_address s))) (\<lambda>e. throwE Sub_ErrDenied) (\<lambda>clean.
     bindE (within_quota (bk_limiter B) (sb_ws s) (submission_quota B)) (\<lambda>_.
     bindE (domain_part (sb_address s)) (\<lambda>domain.
     handleE (on_world (submission_DKIM (bk_sub B) (bk_domains B) (sb_ws s) domain clean)) (\<lambda>e. throwE (Sub_SMTPError 451)) (\<lambda>signed.
     bindE sub_check (\<lambda>_.
     handleE (SMTPRelay (sb_from s) (sb_rcpts s) signed)
       (\<lambda>e. throwE (case e of Sub_SMTPError n \<Rightarrow> Sub_SMTPError (if 500 \<le> n then 554 else 451) | _ \<Rightarrow> Sub_SMTPError 451))
       (\<lambda>_. returnE ())))))))))) s = (r, s')" by (simp add: sub_Data_def Let_def)
  show ?thesis
  proof (rule look_bind[OF run guard_looks], goal_cases)
    case (2 _ t1)
    then have t1: "t1 = s" "length ?raw \<le> submissionMaxBytes" by (auto simp: guardE_iff)
    show ?case
    proof (rule look_bind[OF 2(3) looks_check], goal_cases)
      case (2 _ s0)
      then have s0: "looks s s0" "snd s0 = snd s" using t1 by (auto simp: looks_def)
      note run2 = 2(3)[unfolded with_session_def s0(2)]
      show ?case
      proof (rule look_bind[OF run2 guard_looks], goal_cases)
        case (2 _ s1)
        then have s1: "looks s s1" "sb_from (snd s) \<noteq> []" "sb_rcpts (snd s) \<noteq> []" using s0 by (auto simp: guardE_iff)
        show ?case
        proof (rule look_handle[OF 2(3) looks_prepare], goal_cases)
          case (2 clean s2)
          have s2: "looks s s2" using tr s1(1) 2(2) by blast
          note prep = 2(1)
          show ?case
          proof (rule look_bind[OF 2(3) looks_quota], goal_cases)
            case (2 _ s2a)
            have s2a: "looks s s2a" using tr s2 2(2) by blast
            show ?case
            proof (rule look_bind[OF 2(3) looks_domain], goal_cases)
              case (2 domain s3)
              then have s3: "looks s s3" using tr s2a by blast
              show ?case
              proof (rule look_handle[OF 2(3) looks_sign], goal_cases)
                case (2 signed s4)
                have s4: "looks s s4" using tr s3 2(2) by blast
                note sign = 2(1)
                show ?case
                proof (rule look_bind[OF 2(3) looks_check], goal_cases)
                  case (2 _ s5)
                  then obtain q where "SMTPRelay (sb_from (snd s)) (sb_rcpts (snd s)) signed s5 = (q, s')" "r = Inr () \<longleftrightarrow> q = Inr ()"
                    by (cases r) (auto simp: step_iffs)
                  note relay = this
                  show ?case
                    by (rule disjI2)
                      (rule exI[of _ input], rule exI[of _ s1], rule exI[of _ s2], rule exI[of _ s3], rule exI[of _ s4], rule exI[of _ clean],
                        rule exI[of _ signed], rule exI[of _ domain], rule exI[of _ s5], rule exI[of _ q],
                        use Some t1 s1 s3 s4 relay prep sign 2(1) in simp)
                qed (use s4 tr in blast)
              qed (use s3 tr in blast)
            qed (use s2a tr in blast)
          qed (use s2 tr in blast)
        qed (use s1 tr in blast)
      qed (use s0 tr in blast)
    qed (use t1 in auto)
  qed auto
qed


text \<open>What may be handed to the relay for an address: a signature in front of a message that \<open>prepare\<close> let through for it.\<close>

definition released :: "'s backend \<Rightarrow> string \<Rightarrow> string \<Rightarrow> string \<Rightarrow> bool" where
  "released B address raw out \<longleftrightarrow> length raw \<le> submissionMaxBytes \<and>
     (\<exists>signature clean w w'. out = signature @ clean \<and> prepare (bk_mime B) (bk_sub B) raw address w = (Inr clean, w'))"

lemma sub_Data_effect:
  assumes "sub_Data B body s = (r, s')"
  shows "tabs (fst (fst s')) = tabs (fst (fst s)) \<and>
    (snd s' = (snd s)\<lparr>sb_answers := sb_answers (snd s')\<rparr> \<and> r \<noteq> Inr () \<or>
     (\<exists>raw out. body = Some raw \<and> released B (sb_address (snd s)) raw out \<and>
        snd s' = (snd s)\<lparr>sb_relayed := sb_relayed (snd s) @ [(sb_from (snd s), sb_rcpts (snd s), out)], sb_answers := sb_answers (snd s')\<rparr> \<and>
        sb_from (snd s) \<noteq> [] \<and> sb_rcpts (snd s) \<noteq> [] \<and> may_send (tabs (fst (fst s))) (snd s) \<and>
        (\<exists>domain sel der w w'. tabs w = tabs (fst (fst s)) \<and> SigningKeyForDomain (bk_domains B) (sb_ws (snd s)) domain w = (Inr (sel, der), w'))))"
  using sub_Data_cases[OF assms]
proof (elim disjE exE conjE)
  assume "looks s s'" "r \<noteq> Inr ()"
  then show ?thesis by (simp add: looks_def)
next
  fix input s1 s2 s3 s4 clean signed domain s5 q
  assume d: "body = Some input" "length (take (submissionMaxBytes + 1) input) \<le> submissionMaxBytes" "looks s s1" "sb_from (snd s) \<noteq> []" "sb_rcpts (snd s) \<noteq> []"
    and prep: "on_world (prepare (bk_mime B) (bk_sub B) (take (submissionMaxBytes + 1) input) (sb_address (snd s))) s1 = (Inr clean, s2)"
    and s3: "looks s s3" and sign: "on_world (submission_DKIM (bk_sub B) (bk_domains B) (sb_ws (snd s)) domain clean) s3 = (Inr signed, s4)"
    and s4: "looks s s4" and check: "sub_check s4 = (Inr (), s5)"
    and relay: "SMTPRelay (sb_from (snd s)) (sb_rcpts (snd s)) signed s5 = (q, s')" and q: "r = Inr () \<longleftrightarrow> q = Inr ()"
  have raw: "take (submissionMaxBytes + 1) input = input" "length input \<le> submissionMaxBytes" using d(2) by auto
  obtain sel der signature w w' where key: "SigningKeyForDomain (bk_domains B) (sb_ws (snd s)) domain (fst (fst s3)) = (Inr (sel, der), w')"
    and signed: "signed = signature @ clean"
    using sign[unfolded on_world_iff] submission_DKIM_Inr by blast
  have "released B (sb_address (snd s)) input signed"
    using prep raw signed by (auto simp: released_def on_world_iff)
  moreover have t: "may_send (tabs (fst (fst s))) (snd s) \<and> tabs (fst (fst s5)) = tabs (fst (fst s)) \<and> snd s5 = snd s"
    using sub_check_Inr[OF check] s4 by (simp add: looks_def)
  moreover have "tabs (fst (fst s')) = tabs (fst (fst s))" using relay_effect[OF relay] t by simp
  moreover have "snd s' = (snd s)\<lparr>sb_answers := sb_answers (snd s')\<rparr> \<and> r \<noteq> Inr () \<or>
      snd s' = (snd s)\<lparr>sb_relayed := sb_relayed (snd s) @ [(sb_from (snd s), sb_rcpts (snd s), signed)], sb_answers := sb_answers (snd s')\<rparr>"
    using relay_effect[OF relay] t q by auto
  moreover have "tabs (fst (fst s3)) = tabs (fst (fst s))" using s3 by (simp add: looks_def)
  ultimately show ?thesis using d(1,4,5) key by blast
qed


section \<open>A whole session\<close>

lemma sub_check_session: "sub_check s = (r, s') \<Longrightarrow> snd s' = snd s"
  by (drule keepsD[OF looks_check]) (simp add: looks_def)

inductive sub_step :: "'s backend \<Rightarrow> 's srv \<times> sub_session \<Rightarrow> 's srv \<times> sub_session \<Rightarrow> bool" for B where
  auth: "sub_Auth B tls mech host iden addr pwd s = (r1, s') \<Longrightarrow> sb_user (snd s) = [] \<Longrightarrow> sub_step B s s'"
| mail: "sub_Mail frm s = (r2, s') \<Longrightarrow> sub_step B s s'"
| rcpt: "sub_Rcpt (bk_lib B) rcp s = (r3, s') \<Longrightarrow> sub_step B s s'"
| data: "sub_Data B body s = (r4, s') \<Longrightarrow> sub_step B s s'"
| reset: "sub_step B (v, ses) (v, sub_Reset ses)"
| environment: "sub_step B (v, ses) (v', ses)"

definition session_ok :: "'s backend \<Rightarrow> sub_session \<Rightarrow> bool" where
  "session_ok B s \<longleftrightarrow> (sb_user s = [] \<longrightarrow> sb_from s = [] \<and> sb_relayed s = []) \<and> (sb_from s = [] \<or> sb_from s = sb_address s) \<and>
     (\<forall>(from, to, out)\<in>set (sb_relayed s). from = sb_address s \<and> to \<noteq> [] \<and> (\<exists>raw. released B (sb_address s) raw out))"

lemma session_ok_answers: "session_ok B (s\<lparr>sb_answers := as\<rparr>) = session_ok B s"
  by (simp add: session_ok_def)

lemma sub_step_ok: "sub_step B s s' \<Longrightarrow> session_ok B (snd s) \<Longrightarrow> session_ok B (snd s')"
proof (induction rule: sub_step.induct)
  case (auth tls mech host iden addr pwd s r1 s')
  then have "sb_relayed (snd s) = []" "sb_from (snd s) = []" by (simp_all add: session_ok_def)
  moreover have "snd s' = snd s \<or> sb_relayed (snd s') = sb_relayed (snd s) \<and> sb_from (snd s') = sb_from (snd s)"
    using auth(1) by (cases r1) (auto simp: sub_Auth_def Let_def step_iffs sub_iffs)
  ultimately show ?case using auth(3) by (auto simp: session_ok_def)
next
  case (mail frm s r2 s')
  have "snd s' = snd s \<or> sb_user (snd s) \<noteq> [] \<and> snd s' = (snd s)\<lparr>sb_from := sb_address (snd s), sb_rcpts := []\<rparr>"
  proof (cases r2)
    case (Inl e)
    then show ?thesis using mail(1)
      by (auto simp: sub_Mail_def step_iffs sub_iffs dest: sub_check_session)
  next
    case (Inr u)
    then show ?thesis using mail(1) by (auto simp: sub_Mail_def step_iffs sub_iffs dest!: sub_check_Inr)
  qed
  then show ?case using mail(2) by (auto simp: session_ok_def)
next
  case (rcpt rcp s r3 s')
  have "snd s' = snd s \<or> snd s' = (snd s)\<lparr>sb_rcpts := sb_rcpts (snd s) @ [rcp]\<rparr>"
    using rcpt(1) by (cases r3) (auto simp: sub_Rcpt_def step_iffs sub_iffs split: option.splits)
  then show ?case using rcpt(2) by (auto simp: session_ok_def)
next
  case (data body s r4 s')
  from sub_Data_effect[OF data(1), THEN conjunct2] show ?case
  proof (elim disjE exE conjE)
    assume s': "snd s' = (snd s)\<lparr>sb_answers := sb_answers (snd s')\<rparr>"
    have "session_ok B ((snd s)\<lparr>sb_answers := sb_answers (snd s')\<rparr>)" using data(2) by (simp only: session_ok_answers)
    with s' show ?thesis by simp
  next
    fix raw out
    assume rel: "released B (sb_address (snd s)) raw out" and ne: "sb_from (snd s) \<noteq> []" "sb_rcpts (snd s) \<noteq> []"
      and s': "snd s' = (snd s)\<lparr>sb_relayed := sb_relayed (snd s) @ [(sb_from (snd s), sb_rcpts (snd s), out)], sb_answers := sb_answers (snd s')\<rparr>"
    have "session_ok B ((snd s)\<lparr>sb_relayed := sb_relayed (snd s) @ [(sb_from (snd s), sb_rcpts (snd s), out)], sb_answers := sb_answers (snd s')\<rparr>)"
      using data(2) rel ne by (auto simp: session_ok_def)
    with s' show ?thesis by simp
  qed
qed (auto simp: session_ok_def sub_Reset_def)

interpretation submission: step_system "sub_step B" "\<lambda>s. session_ok B (snd s)" for B
  by unfold_locales (rule sub_step_ok)

text \<open>C18: Nobody sends as somebody else: whatever commands a connection sends, in any order, and whatever changes around it
  meanwhile, every message it got relayed has the address it signed in for as its envelope sender, at
  least one recipient, and content that \<open>prepare\<close> let through for that address.\<close>

theorem submission_sender:
  assumes "(sub_step B)\<^sup>*\<^sup>* s0 s" "sb_user (snd s0) = []" "sb_from (snd s0) = []" "sb_relayed (snd s0) = []"
  shows "\<forall>(frm, rcps, out)\<in>set (sb_relayed (snd s)). frm = sb_address (snd s) \<and> rcps \<noteq> [] \<and>
     (\<exists>raw. released B (sb_address (snd s)) raw out)"
proof -
  have "session_ok B (snd s0)" using assms(2-4) by (simp add: session_ok_def)
  from submission.run_inv[OF assms(1) this] show ?thesis by (simp add: session_ok_def)
qed

section \<open>A bare line feed\<close>

text \<open>A header with a bare line feed, which net/mail takes for the end of a line and the loop over the lines does not: the
  Bcc field behind it stays in the message.\<close>

definition hidden_bcc :: string where
  "hidden_bcc = ''Subject: hi'' @ [CHR 0x0A] @ ''Bcc: eve@b.kz''"

lemma bare_line_feed_keeps_bcc: "keep_lines False (split_lines hidden_bcc) = Some (hidden_bcc @ crlf)"
  by (simp add: hidden_bcc_def folded_def dropped_name_def dropped_names_def to_lower_def lower_char_def has_prefix_def)

end
