(* ===== verification/OutgoingSamples.thy ===== *)
theory OutgoingSamples imports Outgoing Domains ImapSamples begin

text \<open>The hypotheses of the properties of the submission server at a concrete session: Bob sends a message.\<close>

definition sample_sub :: sub_lib where
  "sample_sub = \<lparr>ml_list = (\<lambda>s. Some [''bob@acme.kz'']), ml_rfc1123 = (\<lambda>t. ''now''), ml_sign = (\<lambda>d sel der h b. Some ''signature'')\<rparr>"

definition sample_backend :: "unit backend" where
  "sample_backend = \<lparr>bk_lib = sample_lib, bk_mime = sample_mime, bk_sub = sample_sub, bk_domains = sample_ds, bk_limiter = None,
     bk_minute = 0, bk_day = 0\<rparr>"

definition sample_header :: string where
  "sample_header = ''From: bob@acme.kz'' @ crlf @ ''Bcc: eve@b.kz''"

definition sample_mail :: string where
  "sample_mail = sample_header @ crlf @ crlf @ ''hello''"

definition sent_mail :: string where
  "sent_mail = ''Date: now'' @ crlf @ ''Message-ID: <u1@acme.kz>'' @ crlf @ ''From: bob@acme.kz'' @ crlf @ crlf @ ''hello''"

lemma sample_names: "to_lower ''From'' = ''from''" "to_lower ''Bcc'' = ''bcc''"
  by code_simp+

lemma sample_head: "cut_head sample_mail = Some (sample_header, ''hello'')" "\<not> 131072 < length sample_header"
  "keep_lines False (split_lines sample_header) = Some (''From: bob@acme.kz'' @ crlf)"
  "\<exists>h b. cut_head sent_mail = Some (h, b)" "length sample_mail \<le> submissionMaxBytes"
  by (simp_all add: sample_mail_def sample_header_def sent_mail_def crlf_def has_prefix_def folded_def dropped_name_def dropped_names_def
      sample_names submissionMaxBytes_def)

lemma sample_prepare:
  assumes "uuids w = ''u1'' # us"
  shows "prepare sample_mime sample_sub sample_mail ''bob@acme.kz'' w = (Inr sent_mail, w\<lparr>uuids := us\<rparr>)"
  using assms by (simp add: prepare_def sample_head sample_mime_def author_ok_def sample_sub_def missing_headers_def get_header_def
      domain_part_def bindE_def guardE_def returnE_def asks_def withUUID_def sent_mail_def)

theorem prepare_fields_witness:
  "\<exists>head body. sample_mail = head @ crlf @ crlf @ body \<and> (\<forall>l\<in>set (split_lines head). well_formed l)"
proof -
  have "prepare sample_mime sample_sub sample_mail ''bob@acme.kz'' sample_world =
      (Inr sent_mail, sample_world\<lparr>uuids := [''u2'', ''u3'', ''u4'']\<rparr>)"
    by (rule sample_prepare) (simp add: sample_world_def)
  from prepare_fields[OF this] show ?thesis by blast
qed

definition send_world :: world where
  "send_world = mail_world\<lparr>tabs := mail_db\<lparr>dkim_keys := dkim_keys (tabs key_world)\<rparr>\<rparr>"

definition fresh_session :: sub_session where
  "fresh_session = \<lparr>sb_user = [], sb_box = [], sb_ws = [], sb_address = [], sb_hash = [], sb_from = [], sb_rcpts = [], sb_app = False,
     sb_relayed = [], sb_answers = []\<rparr>"

definition open_session :: sub_session where
  "open_session = fresh_session\<lparr>sb_user := ''bob'', sb_box := ''b1'', sb_ws := ''ws'', sb_address := ''bob@acme.kz'', sb_hash := ''$old password''\<rparr>"

lemma send_rows: "credential_rows ''bob@acme.kz'' (tabs send_world) = []"
  "reader_rows locked_out ''bob@acme.kz'' (tabs send_world) = [(''bob'', ''b1'', ''ws'', Some ''$old password'')]"
  by (simp_all add: send_world_def credential_rows_def reader_rows_def boxes_at_def locked_out_def imap_exec sample_address to_lower_def lower_char_def)

lemma send_auth: "sub_Auth sample_backend True ''PLAIN'' [] [] ''bob@acme.kz'' ''old password'' ((send_world, ()), fresh_session) =
    (Inr (), ((spend (spend send_world), ()), open_session))"
proof -
  have "db_faults send_world = []" by (simp add: send_world_def mail_exec)
  then show ?thesis using send_rows
    by (simp add: sub_Auth_def ask_limiter_def sample_backend_def sample_address on_world_def authenticate_def try_login_def scan_row_def sub_rows_def
        exec_defs onFst_def set_session_def sample_lib_def open_session_def fresh_session_def)
qed


lemma world_look: "on_world m ((w, x), ses) = (case m w of (r, w') \<Rightarrow> (r, ((w', x), ses)))"
  by (simp add: on_world_def onFst_def split: prod.splits)

lemma send_check:
  assumes "tabs w = tabs send_world" "db_faults w = []"
    "sb_user ses = ''bob''" "sb_box ses = ''b1''" "sb_ws ses = ''ws''" "sb_address ses = ''bob@acme.kz''" "sb_hash ses = ''$old password''" "\<not> sb_app ses"
  shows "sub_check ((w, ()), ses) = (Inr (), ((spend w, ()), ses))"
  using assms send_rows by (simp add: sub_check_def with_session_def world_look scan_row_def sub_rows_def exec_defs)

lemma send_mail: "sub_Mail ''bob@acme.kz'' ((spend (spend send_world), ()), open_session) =
    (Inr (), ((spend (spend (spend send_world)), ()), open_session\<lparr>sb_from := ''bob@acme.kz'', sb_rcpts := []\<rparr>))"
proof -
  have "db_faults send_world = []" by (simp add: send_world_def mail_exec)
  then show ?thesis using send_check[of "spend (spend send_world)" open_session]
    by (simp add: sub_Mail_def bindE_def with_session_def guardE_def set_session_def open_session_def fresh_session_def)
qed

definition ready_session :: sub_session where
  "ready_session = open_session\<lparr>sb_from := ''bob@acme.kz'', sb_rcpts := [''eve@b.kz'']\<rparr>"

lemma ready: "sb_user ready_session = ''bob''" "sb_box ready_session = ''b1''" "sb_ws ready_session = ''ws''"
  "sb_address ready_session = ''bob@acme.kz''" "sb_hash ready_session = ''$old password''" "\<not> sb_app ready_session"
  "sb_from ready_session = ''bob@acme.kz''" "sb_rcpts ready_session = [''eve@b.kz'']" "sb_answers ready_session = []" "sb_relayed ready_session = []"
  by (simp_all add: ready_session_def open_session_def fresh_session_def)

lemma send_sign:
  assumes "tabs w = tabs send_world" "db_faults w = []"
  shows "\<exists>w'. submission_DKIM sample_sub sample_ds ''ws'' ''acme.kz'' sent_mail w = (Inr (''signature'' @ sent_mail), w') \<and>
    tabs w' = tabs send_world \<and> db_faults w' = []"
proof -
  obtain h b where "cut_head sent_mail = Some (h, b)" using sample_head(4) by blast
  moreover have "\<exists>w'. SigningKeyForDomain sample_ds ''ws'' ''acme.kz'' w = (Inr (''hm1'', ''der''), w') \<and> tabs w' = tabs send_world \<and> db_faults w' = []"
    using assms by (simp add: SigningKeyForDomain_def ByName_def domain_where_def sign_with_def SigningKey_def ActivePrivateKey_def liftE_def
      Verified_def key_world_def send_world_def mail_db_def team_world_def domain_exec Open_sample)
  ultimately show ?thesis by (auto simp: submission_DKIM_def bindE_def returnE_def sample_sub_def)
qed

lemma send_data:
  "\<exists>w. sub_Data sample_backend (Some sample_mail) ((send_world, ()), ready_session) =
     (Inr (), ((w, ()), ready_session\<lparr>sb_relayed := [(''bob@acme.kz'', [''eve@b.kz''], ''signature'' @ sent_mail)]\<rparr>))"
proof -
  let ?w = "(spend send_world)\<lparr>uuids := [''u2'', ''u3'', ''u4'']\<rparr>"
  have w: "db_faults send_world = []" "uuids (spend send_world) = ''u1'' # [''u2'', ''u3'', ''u4'']"
    by (simp_all add: send_world_def mail_exec)
  obtain w2 where sign: "submission_DKIM sample_sub sample_ds ''ws'' ''acme.kz'' sent_mail ?w = (Inr (''signature'' @ sent_mail), w2)"
    "tabs w2 = tabs send_world" "db_faults w2 = []" using send_sign[of ?w] w by auto
  have prep: "prepare sample_mime sample_sub sample_mail ''bob@acme.kz'' (spend send_world) = (Inr sent_mail, ?w)"
    using sample_prepare[OF w(2)] by simp
  have c1: "sub_check ((send_world, ()), ready_session) = (Inr (), ((spend send_world, ()), ready_session))"
    by (rule send_check) (simp_all add: ready w)
  have c2: "sub_check ((w2, ()), ready_session) = (Inr (), ((spend w2, ()), ready_session))"
    by (rule send_check) (simp_all add: ready sign)
  have raw: "take (submissionMaxBytes + 1) sample_mail = sample_mail" using sample_head(5) by simp
  have "SMTPRelay ''bob@acme.kz'' [''eve@b.kz''] (''signature'' @ sent_mail) ((spend w2, ()), ready_session) =
      (Inr (), ((spend w2, ()), ready_session\<lparr>sb_relayed := [(''bob@acme.kz'', [''eve@b.kz''], ''signature'' @ sent_mail)]\<rparr>))"
    by (simp add: SMTPRelay_def exchange_def with_session_def bindE_def set_session_def ignoreE_def ready)
  with c1 c2 prep sign(1) sample_head(5) show ?thesis
    unfolding sub_Data_def Let_def option.case raw
    by (simp add: bindE_def guardE_def with_session_def handleE_def world_look ready sample_backend_def submission_quota_def
        ask_limiter_def returnE_def onFst_def domain_part_def)
qed


theorem submission_sender_witness:
  "\<exists>s. (sub_step sample_backend)\<^sup>*\<^sup>* ((send_world, ()), fresh_session) s \<and> sb_relayed (snd s) = [(''bob@acme.kz'', [''eve@b.kz''], ''signature'' @ sent_mail)] \<and>
     (\<exists>raw. released sample_backend ''bob@acme.kz'' raw (''signature'' @ sent_mail))"
proof -
  let ?B = sample_backend
  obtain w where d: "sub_Data ?B (Some sample_mail) ((send_world, ()), ready_session) =
     (Inr (), ((w, ()), ready_session\<lparr>sb_relayed := [(''bob@acme.kz'', [''eve@b.kz''], ''signature'' @ sent_mail)]\<rparr>))"
    using send_data by blast
  let ?s = "((w, ()), ready_session\<lparr>sb_relayed := [(''bob@acme.kz'', [''eve@b.kz''], ''signature'' @ sent_mail)]\<rparr>)"
  let ?v = "(spend (spend (spend send_world)), ())"
  have rcpt: "sub_Rcpt sample_lib ''eve@b.kz'' (?v, open_session\<lparr>sb_from := ''bob@acme.kz'', sb_rcpts := []\<rparr>) = (Inr (), (?v, ready_session))"
    by (simp add: sub_Rcpt_def with_session_def bindE_def guardE_def set_session_def sample_lib_def contains_any_def ready_session_def
        open_session_def fresh_session_def)
  have "sub_step ?B ((send_world, ()), fresh_session) ((spend (spend send_world), ()), open_session)"
    by (rule sub_step.auth[OF send_auth]) (simp add: fresh_session_def)
  moreover have "sub_step ?B ((spend (spend send_world), ()), open_session) (?v, open_session\<lparr>sb_from := ''bob@acme.kz'', sb_rcpts := []\<rparr>)"
    by (rule sub_step.mail[OF send_mail])
  moreover have "sub_step ?B (?v, open_session\<lparr>sb_from := ''bob@acme.kz'', sb_rcpts := []\<rparr>) (?v, ready_session)"
    by (rule sub_step.rcpt) (use rcpt in \<open>simp add: sample_backend_def\<close>)
  moreover have "sub_step ?B (?v, ready_session) ((send_world, ()), ready_session)" by (rule sub_step.environment)
  moreover have "sub_step ?B ((send_world, ()), ready_session) ?s" by (rule sub_step.data[OF d])
  ultimately have run: "(sub_step ?B)\<^sup>*\<^sup>* ((send_world, ()), fresh_session) ?s"
    by (meson converse_rtranclp_into_rtranclp rtranclp.rtrancl_refl)
  have "\<exists>raw. released ?B ''bob@acme.kz'' raw (''signature'' @ sent_mail)"
    using submission_sender[OF run] by (auto simp: fresh_session_def ready)
  then show ?thesis by (intro exI[of _ ?s] conjI run) simp_all
qed

end
