(* ===== verification/WiringSamples.thy ===== *)
theory WiringSamples imports Wiring WebSamples OutgoingSamples begin

text \<open>A deployment at which the hypotheses of the properties of the processes hold.\<close>

definition sample_env :: "string \<Rightarrow> string" where
  "sample_env k = (if k = ''SECRET_KEY'' then replicate 43 (CHR ''A'') @ ''='' else if k = ''SMTP_HOST'' then ''mailpit'' else
     if k \<in> {''DATABASE_URL'', ''REDIS_ADDR'', ''SUBMISSION_RELAY''} then ''set'' else [])"

definition broken_redis :: "unit redis_client" where
  "broken_redis = \<lparr>rc_incr = (\<lambda>k d n s. (None, s)), rc_ttl = (\<lambda>k d s. None)\<rparr>"

definition sample_platform :: "(unit, string) platform" where
  "sample_platform = \<lparr>pf_env = sample_env, pf_dial = (\<lambda>n. if n < 3 then NoPing else Connected), pf_pool = True, pf_entries = sample_dir,
     pf_sql = (\<lambda>b d. Some (d @ b)), pf_others = (\<lambda>v s. s), pf_tls = (\<lambda>c k. True), pf_aws = True, pf_gcm = (\<lambda>k. sample_aead),
     pf_lookup = (\<lambda>n. None), pf_keypair = (\<lambda>s. (''pub'', ''der'')), pf_lib = sample_lib, pf_redis = (\<lambda>a. broken_redis),
     pf_mime = sample_mime, pf_scan = sample_scan, pf_sub = sample_sub, pf_other = id\<rparr>"

definition fresh_ledger :: "string ledger" where
  "fresh_ledger = \<lparr>lg_data = [], lg_versions = None, lg_fates = []\<rparr>"

definition sample_H :: "unit api" where
  "sample_H = wire_api sample_platform sample_aead None"

lemma sample_boot_parts:
  "connectDB (sample_env ''DATABASE_URL'') (\<lambda>n. if n < 3 then NoPing else Connected) (\<lambda>_. False) [] =
     (Inr 3, [Dialled 1, Closed 1, Waited 1, Dialled 2, Closed 2, Waited 2, Dialled 3])"
  "migrate sample_dir (\<lambda>b d. Some (d @ b)) (\<lambda>v s. s) fresh_ledger =
     (Inr (), \<lparr>lg_data = ''ab'', lg_versions = Some [''0001_a.sql'', ''0002_b.sql''], lg_fates = []\<rparr>)"
  "smtp_NewFromEnv sample_env = Inr \<lparr>sc_host = ''mailpit'', sc_port = 25, sc_username = [], sc_password = [], sc_timeout = 15000000000,
     sc_tls = NoTLS, sc_helo = []\<rparr>"
  "s3_NewFromEnv True sample_env = Inl S3_NotConfigured"
  "DecodeString (sample_env ''SECRET_KEY'') = Some (replicate 32 (CHR 0x00))"
  by code_simp+

lemma sample_sealer: "NewSealerFromEnv (\<lambda>k. sample_aead) (sample_env ''SECRET_KEY'') = Inr sample_aead"
proof -
  have "sample_env ''SECRET_KEY'' \<noteq> []" by code_simp
  then show ?thesis by (simp add: NewSealerFromEnv_def NewSealer_def sample_boot_parts(5))
qed

lemma sample_platform_sel [simp]:
  "pf_env sample_platform = sample_env" "pf_aws sample_platform = True" "pf_gcm sample_platform = (\<lambda>k. sample_aead)" "pf_pool sample_platform"
  "pf_dial sample_platform = (\<lambda>n. if n < 3 then NoPing else Connected)" "pf_tls sample_platform c' k'"
  "pf_entries sample_platform = sample_dir" "pf_sql sample_platform = (\<lambda>b d. Some (d @ b))" "pf_others sample_platform = (\<lambda>v s. s)"
  "pf_other sample_platform = id" "pf_lib sample_platform = sample_lib" "pf_redis sample_platform a = broken_redis"
  by (simp_all add: sample_platform_def)

lemma sample_boots:
  "\<exists>c. api_main sample_platform ([], fresh_ledger) = (Inr (''8080'', c, sample_H),
     ([Dialled 1, Closed 1, Waited 1, Dialled 2, Closed 2, Waited 2, Dialled 3],
      \<lparr>lg_data = ''ab'', lg_versions = Some [''0001_a.sql'', ''0002_b.sql''], lg_fates = []\<rparr>))"
  by (simp add: api_main_def or_fatal_def with_smtp_def with_blobs_def with_sealer_def sample_sealer handleE_def onFst_def
      on_ledger_def Let_def returnE_def sample_boot_parts(1-4) sample_H_def env_or_def sample_env_def[of "''PORT''"])

theorem api_main_serves_witness:
  "\<exists>c l. api_main sample_platform ([], fresh_ledger) = (Inr (''8080'', c, sample_H), l) \<and> set (recorded_versions (snd l)) = {''0001_a.sql'', ''0002_b.sql''} \<and>
     es_domains (sv_emails sample_H None) = Some (AllowsAddress None)"
proof -
  obtain c where run: "api_main sample_platform ([], fresh_ledger) = (Inr (''8080'', c, sample_H),
     ([Dialled 1, Closed 1, Waited 1, Dialled 2, Closed 2, Waited 2, Dialled 3],
      \<lparr>lg_data = ''ab'', lg_versions = Some [''0001_a.sql'', ''0002_b.sql''], lg_fates = []\<rparr>))" using sample_boots by blast
  have step: "in_step (\<lambda>v. if v = ''0001_a.sql'' then ''a'' else ''b'') (pf_sql sample_platform) [] fresh_ledger"
    by (simp add: in_step_def recorded_versions_def build_def fresh_ledger_def)
  have "rely (\<lambda>v. if v = ''0001_a.sql'' then ''a'' else ''b'') (pf_sql sample_platform) [] (pf_others sample_platform)"
    by (simp add: rely_def)
  from api_main_serves[OF run step this] run show ?thesis
    by (auto simp: sample_dir_def recorded_versions_def)
qed

theorem processes_sign_alike_witness:
  "\<exists>c H st' n a W t' x y B v'. api_main sample_platform ([], fresh_ledger) = (Inr (''8080'', c, H), st') \<and> worker_main sample_platform () = (Inr (n, a, W), t') \<and>
     submissiond_main sample_platform () = (Inr (x, y, B), v') \<and> wk_domains W = Some (SigningKeyForDomain (sv_domains H))"
proof -
  obtain c st' where A: "api_main sample_platform ([], fresh_ledger) = (Inr (''8080'', c, sample_H), st')" using sample_boots by blast
  have "\<exists>n a W t'. worker_main sample_platform () = (Inr (n, a, W), t')"
    by (simp add: worker_main_def with_smtp_def with_blobs_def with_sealer_def sample_sealer returnE_def Let_def
        sample_boot_parts(1-4) sample_env_def[of "''DATABASE_URL''"])
  then obtain n a W t' where W: "worker_main sample_platform () = (Inr (n, a, W), t')" by blast
  have "\<exists>x y B v'. submissiond_main sample_platform () = (Inr (x, y, B), v')"
    by (simp add: submissiond_main_def with_sealer_def sample_sealer returnE_def Let_def
        sample_boot_parts(1-4) sample_env_def[of "''REDIS_ADDR''"] sample_env_def[of "''SUBMISSION_RELAY''"])
  then obtain x y B v' where B: "submissiond_main sample_platform () = (Inr (x, y, B), v')" by blast
  have "\<And>key. aead_ok (pf_gcm sample_platform key)" using sample_aead_ok by simp
  from processes_sign_alike[OF A W B refl refl refl refl this] A W B show ?thesis by blast
qed

text \<open>A message on an API key of the workspace: Redis is down, and the limiter lets it through.\<close>

lemma sample_H_sel [simp]:
  "sv_limiter sample_H = Some broken_redis" "sv_getenv sample_H = sample_env"
  "sv_emails sample_H u = \<lparr>es_getenv = sample_env, es_lib = sample_lib, es_queue = EnqueueSend, es_blobs = None,
     es_domains = Some (AllowsAddress u), es_other = id\<rparr>"
  by (simp_all add: sample_H_def wire_api_def Let_def)

lemma machine_allows: "AllowsAddress None ''ws'' ''bob@acme.kz'' sample_world = (Inr (), sample_world)"
  by (simp add: AllowsAddress_def owner_of_def personal_of_def AllowsSender_def ByName_def domain_where_def Verified_def domain_exec)

lemma machine_sends: "\<exists>e w. Send (sv_emails sample_H None) ''ws'' ''key'' sample_request sample_world = (Inr e, w)"
proof -
  have at: "after_at ''bob@acme.kz'' \<noteq> None" by code_simp
  have "case Send (sv_emails sample_H None) ''ws'' ''key'' sample_request sample_world of (Inr e, w) \<Rightarrow> True | _ \<Rightarrow> False"
    using sample_request_ok sample_row_ok at machine_allows[unfolded sample_world_def sample_db_def] by (auto simp: send_exec)
  then show ?thesis by (auto split: prod.splits sum.splits)
qed

lemma broken_passes: "server_allow (Some broken_redis) now key (sendQuota sample_env) s = (free_pass, s)"
  by (simp add: server_allow_def allow_all_def sendQuota_def allow_def allow_with_def broken_redis_def free_pass_def Let_def)

lemma sample_deployed:
  "\<exists>i st s'. SendEmail sample_H key_ctx (Some ''key'') (Some sample_body) (sample_world, ()) = (Inr (Reply 202 (i, st), None), s')"
proof -
  obtain e w where "Send (sv_emails sample_H None) ''ws'' ''key'' sample_request sample_world = (Inr e, w)" using machine_sends by blast
  then show ?thesis
    by (simp add: SendEmail_def key_ctx_def limited_def bindE_def onSnd_def broken_passes plain_def onFst_def send_answer_def handleE_def
        returnE_def signed_user_def sample_body_request deref_def free_pass_def)
qed


end
