(* ===== verification/Deployment.thy ===== *)
theory Deployment imports Guards WiringSamples begin

text \<open>
  All processes over one database: what each of them may write (the API as main wires it, the worker, LMTP, IMAP and
  submission), the step relation of the deployment, and the invariants of the tables it keeps.
\<close>

section \<open>The services as main wires them\<close>

lemma dial_and_send_tabs: "dial_and_send x w = (r, w') \<Longrightarrow> tabs w' = tabs w \<and> uid_seq w' = uid_seq w"
  by (auto simp: dial_and_send_def split: list.splits bool.splits)

lemma fp_smtp [writes_rules]: "stays S (smtp_Send L m)"
  unfolding smtp_Send_def newMessageID_def Let_def
  by (intro frame.st_handler writes_rules frame.st_same[of "dial_and_send _"]) (auto dest: dial_and_send_tabs)

lemma fp_SystemSigningKey [writes_rules]: "stays S (SystemSigningKey D n)" "stays S (SigningKeyForDomain D ws n)"
  unfolding SystemSigningKey_def SigningKeyForDomain_def ByName_def ByNameUnscoped_def hosts_personal_of_def domain_where_def sign_with_def SigningKey_def ActivePrivateKey_def
  by (intro frame.st_handler writes_rules; (assumption | simp)?)+

lemma fp_EnqueueSend [writes_rules]: "stays S (EnqueueSend i)"
  unfolding EnqueueSend_def
  by (intro frame.st_handler writes_rules frame.st_same[of "enqueue_task i"])
     (auto simp: enqueue_task_def Let_def split: list.splits bool.splits if_splits)

lemma fp_S3 [writes_rules]: "stays S (bs_Put (S3Store p) k d)" "stays S (bs_Delete (S3Store p) k)" "stays S (bs_Get (S3Store p) k)"
  unfolding blob_defs
  by (rule frame.st_same, auto simp: blob_defs blob_call_def split: list.splits bool.splits option.splits)+

text \<open>The API, where what happens between the check of a key and the insert of a send is no write.\<close>

definition quiet_meanwhile :: "('s, 'd) platform \<Rightarrow> bool" where
  "quiet_meanwhile P \<longleftrightarrow> (\<forall>w. mstate (pf_other P w) = mstate w)"

lemma wire_api_calm: "quiet_meanwhile P \<Longrightarrow> calm_api (wire_api P A bucket)"
  unfolding calm_api_def calm_mail_def calm_send_def wire_api_def Let_def quiet_meanwhile_def
  by (auto intro: writes_rules simp: mstate_def)

text \<open>The worker.\<close>

lemma fp_Marks [writes_rules]: "{T_emails, T_events} \<subseteq> S \<Longrightarrow> stays S (MarkProcessing i)" "{T_emails, T_events} \<subseteq> S \<Longrightarrow> stays S (MarkSent i m)"
  "{T_emails, T_events} \<subseteq> S \<Longrightarrow> stays S (MarkFailed i m)" "{T_emails, T_events} \<subseteq> S \<Longrightarrow> stays S (MarkDead i m)"
  unfolding Mark_defs finish_def by (intro frame.st_handler writes_rules; simp)+

lemma fp_fetch_all [writes_rules]: "stays S (fetch_all (S3Store p) as)"
  by (induction as) (auto intro!: frame.st_handler writes_rules)

context store_relation
begin

text \<open>A delivery keeps whatever its four writes keep.\<close>

lemma st_Deliver:
  assumes "\<And>i. keeps (on_store R) (MarkProcessing i)" "\<And>i m. keeps (on_store R) (MarkSent i m)"
    "\<And>i m. keeps (on_store R) (MarkFailed i m)" "\<And>i m. keeps (on_store R) (MarkDead i m)"
    "\<And>e. keeps (on_store R) (resolveDKIM W e)" "\<And>i. keeps (on_store R) (loadAttachments W i)" "\<And>m. keeps (on_store R) (wk_send W m)"
  shows "keeps (on_store R) (Deliver W i k n)"
  unfolding Deliver_def attempt_def giveUpOrRetry_def ByIDUnscoped_def email_where_def by (intro st_handler assms)

end

lemma fp_worker: "stays S (resolveDKIM (wire_worker P A b) e)" "stays S (loadAttachments (wire_worker P A b) i)" "stays S (wk_send (wire_worker P A b) m)"
  unfolding resolveDKIM_def loadAttachments_def wire_worker_def smtp_worker_def AttachmentsByEmailID_def Let_def worker.simps
  by (intro frame.st_handler writes_rules; auto split: option.split intro!: frame.st_handler writes_rules)+

lemma fp_Deliver: "stays {T_emails, T_events} (Deliver (wire_worker P A b) i k n)"
  by (intro frame.st_Deliver fp_worker writes_rules) simp_all

lemma log_Deliver: "keeps (on_store (by_tables (holds log_ok))) (Deliver (wire_worker P A b) i k n)"
  by (intro holding.up.st_Deliver log_rules fp_worker[THEN log_calm])


section \<open>The other processes\<close>

lemma fp_deliver_all [writes_rules]: "{T_folders, T_messages} \<subseteq> S \<Longrightarrow> stays S (deliver_all M from raw ms)"
proof (induction ms)
  case (Cons m ms)
  then show ?case unfolding deliver_all.simps Inb_Deliver_def by (intro frame.st_handler writes_rules; simp)
qed (simp add: frame.store_rules)

lemma fp_lmtp_Data: "stays {T_folders, T_messages} (lmtp_Data M r s)"
  unfolding lmtp_Data_def by (intro frame.st_handler writes_rules) simp

lemma fp_imap_check [writes_rules]: "stays S (imap_check u)" "stays S (imap_GetMailbox u name)" "stays S (currentRecords u name)" "stays S (imap_raw u name uid)"
  unfolding imap_GetMailbox_def currentRecords_def loadRecords_def imap_raw_def imap_check_def CanAccess_def by (intro frame.st_handler)+

lemma fp_imap_folders: "stays {T_folders, T_messages} (imap_CreateMailbox u name)" "stays {T_folders, T_messages} (imap_DeleteMailbox u name)"
  "stays {T_folders, T_messages} (imap_RenameMailbox u old new)"
  unfolding imap_CreateMailbox_def imap_DeleteMailbox_def imap_RenameMailbox_def new_folder_def
  by (intro frame.st_handler writes_rules frame.st_sql;
      auto simp: delete_folder_def rename_folder_def refile_def insert_folder_def Let_def split: if_splits prod.splits sum.splits)+


lemma fp_copy_each [writes_rules]: "T_messages \<in> S \<Longrightarrow> stays S (copy_each dest gs)"
proof (induction gs)
  case (Cons g gs)
  have "stays S (add_row x)" for x
    using Cons.prems by (intro keepsI) (auto simp: add_row_def on_store_def mstate_def insert_message_def split: if_splits)
  then show ?case unfolding copy_each.simps using Cons by (intro frame.st_handler writes_rules) auto
qed (simp add: frame.store_rules)

lemma fp_insert_select [writes_rules]: "T_messages \<in> S \<Longrightarrow> stays S (insert_select box name dest ids)"
proof (rule keepsI)
  fix w r w' assume S: "T_messages \<in> S" and run: "insert_select box name dest ids w = (r, w')"
  let ?gs = "sort_key g_uid (filter (\<lambda>g. in_folder box name g \<and> g_uid g \<in> set ids) (messages (tabs w)))"
  obtain q w1 where c: "copy_each dest ?gs (spend w) = (q, w1)" by fastforce
  have R1: "within S (mstate w) (mstate w1)" using keepsD[OF fp_copy_each[OF S] c] by (simp add: on_store_def)
  then have R2: "within S (mstate w) (tabs w, uid_seq w1)" unfolding mstate_def by (rule frame.store_rollback)
  show "on_store (within S) w w'"
    using run c R1 R2 by (cases q) (auto simp: insert_select_def on_store_def split: if_splits)
qed

lemma fp_set_flags [writes_rules]: "T_messages \<in> S \<Longrightarrow> stays S (set_flags I u name uid f flags)" "T_messages \<in> S \<Longrightarrow> stays S (delete_uids box name ids)"
  "T_messages \<in> S \<Longrightarrow> stays S (imap_append M u folder flags date body)"
  unfolding set_flags_def delete_uids_def imap_append_def AppendIMAP_def
  by (intro frame.st_handler writes_rules frame.st_sql; auto)+

lemma fp_fetch_each [writes_rules]: "T_messages \<in> S \<Longrightarrow> stays S (fetch_each I b raw mark rs)"
  by (induction I b raw mark rs rule: fetch_each.induct)
    (simp_all add: frame.store_rules writes_rules Let_def keeps_bindE[OF frame.transs(1)] split: prod.splits)

lemma fp_search_each [writes_rules]: "stays S (search_each I b uid crit rs)"
  by (induction I b uid crit rs rule: search_each.induct) (auto intro!: frame.store_rules writes_rules)

abbreviation selects :: "(world \<times> imap_box, 'e, 'a) step \<Rightarrow> bool" where
  "selects m \<equiv> keeps (on_box (within {T_folders, T_messages})) m"

lemma fp_records: "selects imap_records" "selects imap_Poll"
  unfolding imap_Poll_def imap_records_def by (intro frame.box_rules frame.store_rules writes_rules)+

lemma fp_commands: "selects imap_Status" "selects (imap_SetSubscribed b)" "selects (imap_UpdateMessagesFlags I uid seqs f flags)"
  "selects (imap_ListMessages I uid seqs raw mark)" "selects (imap_SearchMessages I uid crit)" "selects (imap_CreateMessage M flags date body)"
  "selects (imap_CopyMessages M uid seqs dest)" "selects imap_Expunge" "selects (imap_MoveMessages uid seqs dest)"
  unfolding imap_Status_def loadRecords_def imap_SetSubscribed_def imap_UpdateMessagesFlags_def imap_ListMessages_def imap_SearchMessages_def
    imap_CreateMessage_def imap_CopyMessages_def imap_Expunge_def imap_MoveMessages_def
  by (intro frame.box_rules frame.store_rules fp_records writes_rules frame.st_sql; auto)+

lemma fp_box_command: "box_command M I s s' \<Longrightarrow> on_box (within {T_folders, T_messages}) s s'"
  by (induction rule: box_command.induct) (drule fp_commands[THEN keepsD] fp_records[THEN keepsD], assumption)+

text \<open>The submission server only looks.\<close>

definition sub_still :: "'s srv \<times> sub_session \<Rightarrow> 's srv \<times> sub_session \<Rightarrow> bool" where
  "sub_still s s' \<longleftrightarrow> mstate (fst (fst s')) = mstate (fst (fst s))"

lemma sub_still_rt: "reflp sub_still" "transp sub_still"
  by (auto simp: sub_still_def reflp_def transp_def)

lemma still_world: "stays {} m \<Longrightarrow> keeps sub_still (on_world m)"
  by (rule keepsI) (auto simp: on_world_iff sub_still_def on_store_def within_nothing dest: keepsD)

lemma still_session: "(\<And>x. keeps sub_still (f x)) \<Longrightarrow> keeps sub_still (with_session f)" "keeps sub_still (set_session g)"
  by (auto simp: keeps_def with_session_def set_session_def sub_still_def)

lemma still_limiter: "keeps sub_still (onFst (ask_limiter f R))"
  by (rule keepsI) (auto simp: onFst_iff sub_still_def dest: ask_limiter_fst)

lemmas sub_rules = keeps_basic[OF sub_still_rt(1)] keeps_handleE[OF sub_still_rt(2)] keeps_bindE[OF sub_still_rt(2)] keeps_ignoreE
  still_session still_limiter keeps_if keeps_case_option keeps_case_prod keeps_case_sum keeps_Let

lemma still_exchange: "keeps sub_still (exchange f)"
  by (rule keepsI) (auto simp: exchange_def with_session_def set_session_def bindE_def throwE_def returnE_def sub_still_def
      split: list.splits relay_answer.splits if_splits)


lemma fp_lookups [writes_rules]: "stays S (scan_row f)" "stays S (prepare M A raw address)" "stays S (submission_DKIM A D ws domain raw)"
  "stays S (authenticate L address password)"
  unfolding scan_row_def prepare_def missing_headers_def domain_part_def submission_DKIM_def authenticate_def try_login_def scan_row_def Let_def
  by (intro frame.st_handler writes_rules; (assumption | simp)?)+

lemma still_check: "keeps sub_still sub_check"
  unfolding sub_check_def by (intro sub_rules still_world fp_lookups)

lemma still_quota: "keeps sub_still (within_quota R ws qs)"
  by (induction qs) (auto intro!: sub_rules)

lemma still_commands: "keeps sub_still (sub_Auth B tls mech host iden addr pwd)" "keeps sub_still (sub_Mail frm)" "keeps sub_still (sub_Rcpt L rcp)"
  "keeps sub_still (sub_Data B body)"
  unfolding sub_Auth_def sub_Mail_def sub_Rcpt_def sub_Data_def SMTPRelay_def domain_part_def
  by (intro sub_rules still_check still_quota still_exchange still_world fp_lookups; auto split: prod.splits intro: still_session)+

section \<open>The deployment\<close>

text \<open>
  One database under all processes. A step is a whole operation of one of them, whatever it holds and whatever fails in it,
  or anything that leaves the tables and the numbers alone: time passing, a crash between operations, Redis, the relay.
\<close>

inductive deployment_step :: "('s, 'd) platform \<Rightarrow> aead \<Rightarrow> string option \<Rightarrow> world \<Rightarrow> world \<Rightarrow> bool" for P A bucket where
  request: "serve_http K (wire_api P A bucket) q (w, c) = (r1, (w', c')) \<Longrightarrow> deployment_step P A bucket w w'"
| deliver: "Deliver (wire_worker P A bucket) i k n w = (r2, w') \<Longrightarrow> deployment_step P A bucket w w'"
| lmtp: "lmtp_Data (pf_mime P) body ses w = (r3, w') \<Longrightarrow> deployment_step P A bucket w w'"
| imap_create: "imap_CreateMailbox iu name w = (r4, w') \<Longrightarrow> deployment_step P A bucket w w'"
| imap_delete: "imap_DeleteMailbox iu name w = (r5, w') \<Longrightarrow> deployment_step P A bucket w w'"
| imap_rename: "imap_RenameMailbox iu old new w = (r6, w') \<Longrightarrow> deployment_step P A bucket w w'"
| imap_selected: "box_command (pf_mime P) I (w, b) (w', b') \<Longrightarrow> deployment_step P A bucket w w'"
| sub_auth: "sub_Auth (wire_backend P A) tls mech host iden addr pwd ((w, c), s) = (r7, ((w', c'), s')) \<Longrightarrow> deployment_step P A bucket w w'"
| sub_mail: "sub_Mail frm ((w, c :: 's), s) = (r8, ((w', c'), s')) \<Longrightarrow> deployment_step P A bucket w w'"
| sub_rcpt: "sub_Rcpt (pf_lib P) rcp ((w, c :: 's), s) = (r9, ((w', c'), s')) \<Longrightarrow> deployment_step P A bucket w w'"
| sub_data: "sub_Data (wire_backend P A) body ((w, c), s) = (r10, ((w', c'), s')) \<Longrightarrow> deployment_step P A bucket w w'"
| between: "mstate w' = mstate w \<Longrightarrow> deployment_step P A bucket w w'"

text \<open>What the tables, taken together, have to be for the program to work.\<close>

definition server_ok :: "world \<Rightarrow> bool" where
  "server_ok w \<longleftrightarrow> ws_ok (tabs w) \<and> dom_ok (tabs w) \<and> ak_ok (tabs w) \<and> log_ok (tabs w) \<and> store_ok (mstate w)"

definition server_keeps :: "mstate \<Rightarrow> mstate \<Rightarrow> bool" where
  "server_keeps s s' \<longleftrightarrow> ws_keeps (fst s) (fst s') \<and> holds dom_ok (fst s) (fst s') \<and> holds ak_ok (fst s) (fst s') \<and>
     holds log_ok (fst s) (fst s') \<and> store_keeps s s'"

lemma server_keeps_ok: "server_keeps (mstate w) (mstate w') \<Longrightarrow> server_ok w \<Longrightarrow> server_ok w'"
  by (simp add: server_keeps_def server_ok_def ws_keeps_def holds_def store_keeps_def mstate_def)

text \<open>What stays away from tenants, domains, keys and the log.\<close>

lemma server_keepsI:
  assumes "on_store (within S) w w'" "S \<inter> {T_workspaces, T_members} = {}" "S \<inter> {T_domains, T_dkim_keys} = {}" "S \<inter> {T_api_keys} = {}"
    "S \<inter> {T_emails, T_events} = {} \<or> holds log_ok (tabs w) (tabs w')"
    "S \<inter> {T_mailboxes, T_folders, T_messages} = {} \<or> store_keeps (mstate w) (mstate w')"
  shows "server_keeps (mstate w) (mstate w')"
  using assms(1)[unfolded on_store_def, THEN tenant_guard.apart_from, OF assms(2)] assms(1)[unfolded on_store_def, THEN domain_guard.apart_from, OF assms(3)]
    assms(1)[unfolded on_store_def, THEN key_guard.apart_from, OF assms(4)] assms(1)[unfolded on_store_def, THEN log_guard.apart_from]
    assms(1)[unfolded on_store_def, THEN store_guard.apart_from] assms(5,6)
  unfolding server_keeps_def mstate_def fst_conv by blast

lemma still_sub: "keeps sub_still m \<Longrightarrow> m ((w, c), s) = (r, ((w', c'), s')) \<Longrightarrow> server_keeps (mstate w) (mstate w')"
  by (drule (1) keepsD) (simp add: sub_still_def server_keeps_def ws_keeps_def holds_def mailstore.store_refl)

lemma mail_writes: "on_store (within {T_folders, T_messages}) w w' \<Longrightarrow> store_keeps (mstate w) (mstate w') \<Longrightarrow> server_keeps (mstate w) (mstate w')"
  by (rule server_keepsI[where S = "{T_folders, T_messages}"]) simp_all

lemma deployment_step_keeps:
  assumes "deployment_step P A bucket w w'" "quiet_meanwhile P"
  shows "server_keeps (mstate w) (mstate w')"
  using assms(1)
proof cases
  case (request K q c r1 c')
  note H = wire_api_calm[OF assms(2), of A bucket]
  from keepsD[OF tenant_requests[OF H] request] keepsD[OF domain_requests[OF H] request] keepsD[OF key_requests[OF H] request]
    keepsD[OF log_requests[OF H] request] keepsD[OF store_requests[OF H] request]
  show ?thesis by (simp add: on_box_def on_store_def server_keeps_def)
next
  case (deliver i k n r2)
  from keepsD[OF log_Deliver deliver] show ?thesis
    by (intro server_keepsI[OF keepsD[OF fp_Deliver deliver]]) (simp_all add: on_store_def mstate_def)
next
  case (lmtp body ses r3)
  show ?thesis using keepsD[OF fp_lmtp_Data lmtp] keepsD[OF st_lmtp_Data lmtp] by (auto simp: on_store_def[of store_keeps] intro: mail_writes)
next
  case (imap_selected I b b')
  show ?thesis using fp_box_command[OF imap_selected] box_command_keeps[OF imap_selected]
    by (auto simp: on_box_def on_store_def[of store_keeps] intro: mail_writes)
next
  case (imap_create iu name r4)
  show ?thesis using keepsD[OF fp_imap_folders(1) imap_create] keepsD[OF st_CreateFolder imap_create]
    by (auto simp: on_store_def[of store_keeps] intro: mail_writes)
next
  case (imap_delete iu name r5)
  show ?thesis using keepsD[OF fp_imap_folders(2) imap_delete] keepsD[OF st_DeleteFolder imap_delete]
    by (auto simp: on_store_def[of store_keeps] intro: mail_writes)
next
  case (imap_rename iu old new r6)
  show ?thesis using keepsD[OF fp_imap_folders(3) imap_rename] keepsD[OF st_RenameFolder imap_rename]
    by (auto simp: on_store_def[of store_keeps] intro: mail_writes)
next
  case between
  then show ?thesis by (simp add: server_keeps_def ws_keeps_def holds_def mailstore.store_refl)
qed (rule still_commands[THEN still_sub], assumption)+

interpretation deployed: monotone_system "\<lambda>w w'. deployment_step P A bucket w w' \<and> quiet_meanwhile P" server_ok
    "\<lambda>w w'. server_keeps (mstate w) (mstate w')" for P A bucket
proof
  fix s t u assume "server_keeps (mstate s) (mstate t)" "server_keeps (mstate t) (mstate u)"
  then show "server_keeps (mstate s) (mstate u)"
    unfolding server_keeps_def using tenants.rel_trans holding.rel_trans mailstore.store_trans by blast
next
  show "server_keeps (mstate s) (mstate s)" for s
    by (simp add: server_keeps_def tenants.rel_refl holding.rel_refl mailstore.store_refl)
qed (use deployment_step_keeps server_keeps_ok in blast)+

lemma deployment_runs:
  "(deployment_step P A bucket)\<^sup>*\<^sup>* w w' \<Longrightarrow> quiet_meanwhile P \<Longrightarrow> (\<lambda>w w'. deployment_step P A bucket w w' \<and> quiet_meanwhile P)\<^sup>*\<^sup>* w w'"
  by simp

section \<open>Properties\<close>

text \<open>C6: The processes together keep the data sound: started on sound tables, whatever requests, deliveries, incoming
  mail and commands of mail clients run, in any order, with whatever contents and failures, every tenant has one owner and
  proper members, every domain name is claimed once with at most one active signing key, no two API keys share a
  digest, the log of every sent message tells its status and its tries, every received message lies in a folder of an
  existing mailbox under a number of its own, and messages that share a folder shared one before.\<close>

theorem deployment_wellformed:
  assumes "(deployment_step P A bucket)\<^sup>*\<^sup>* w w'" "quiet_meanwhile P" "server_ok w"
  shows "ws_ok (tabs w') \<and> dom_ok (tabs w') \<and> ak_ok (tabs w') \<and> log_ok (tabs w') \<and> store_ok (mstate w') \<and>
    uid_seq w \<le> uid_seq w' \<and> coherent (tabs w) (uid_seq w) (tabs w')"
proof -
  note run = deployment_runs[OF assms(1,2)]
  from deployed.run_inv[OF run assms(3)] deployed.run_later[OF run assms(3)] assms(3) show ?thesis
    by (simp add: server_ok_def server_keeps_def store_keeps_def mstate_def)
qed

text \<open>C7: Every operation of the API writes its own tables only: whatever it holds and whatever fails on the way, a
  request to the API as main wires it changes nothing but the time its key or session was last used and
  the tables \<open>writes\<close> lists for the one operation its route names, and a GET or HEAD changes no row at all beyond that time.\<close>

theorem api_footprint:
  assumes "api_main P st = (Inr (port, c, H), st')" "quiet_meanwhile P" "serve_http K H q s = (r, s')"
  shows "\<exists>t n. touched (tabs (fst s)) t \<and> n = uid_seq (fst s) \<and>
    (case ServeMux routes (hr_method (in_http q)) (in_escaped q) of
       Serve x vs \<Rightarrow> within (writes x) (t, n) (mstate (fst s')) | _ \<Rightarrow> mstate (fst s') = (t, n)) \<and>
    (hr_method (in_http q) \<in> {''GET'', ''HEAD''} \<longrightarrow> mstate (fst s') = (t, n))"
proof -
  obtain A bucket where "H = wire_api P A bucket" using api_main_Inr[of P "fst st" "snd st" port c H "fst st'" "snd st'"] assms(1) by auto
  then have "calm_api H" using wire_api_calm[OF assms(2)] by simp
  from request_footprint[OF this assms(3)] show ?thesis .
qed

section \<open>A deployment at which they hold\<close>

text \<open>The tables as the migrations leave them.\<close>

lemma empty_db_ok: "tabs w = empty_db \<Longrightarrow> server_ok w"
  by (simp add: server_ok_def ws_ok_def dom_ok_def domains_ok_def keys_ok_def ak_ok_def log_ok_def store_ok_def key_defs mstate_def
      uniq_on_def empty_db_def)

lemma sample_quiet: "quiet_meanwhile sample_platform"
  by (simp add: quiet_meanwhile_def)

text \<open>Any one request on the fresh tables.\<close>

theorem deployment_wellformed_witness:
  "\<forall>K q. case serve_http K sample_H q (empty_world, ()) of (r, (w', c)) \<Rightarrow> ws_ok (tabs w') \<and> dom_ok (tabs w') \<and> store_ok (mstate w')"
proof (intro allI)
  fix K q
  obtain r w' where run: "serve_http K (wire_api sample_platform sample_aead None) q (empty_world, ()) = (r, (w', ()))"
    by (cases "serve_http K (wire_api sample_platform sample_aead None) q (empty_world, ())") auto
  have "(deployment_step sample_platform sample_aead None)\<^sup>*\<^sup>* empty_world w'" using deployment_step.request[OF run] by blast
  moreover have "server_ok empty_world" by (rule empty_db_ok) (simp add: empty_world_def)
  ultimately show "case serve_http K sample_H q (empty_world, ()) of (r, (w', c)) \<Rightarrow> ws_ok (tabs w') \<and> dom_ok (tabs w') \<and> store_ok (mstate w')"
    using deployment_wellformed[OF _ sample_quiet] run by (fastforce simp: sample_H_def)
qed

text \<open>The members of a workspace, asked for at any time.\<close>

theorem api_footprint_witness:
  "\<exists>c st'. api_main sample_platform ([], fresh_ledger) = (Inr (''8080'', c, sample_H), st') \<and> (\<forall>K s. case serve_http K sample_H
     \<lparr>in_http = \<lparr>hr_method = ''GET'', hr_path = [], hr_auth = [], hr_agent = [], hr_forwarded = [], hr_remote = [], hr_host = None\<rparr>,
       in_escaped = ''/workspaces/acme/members'', in_query = [], in_idempotency = None, in_ctype = [], in_body = []\<rparr> s of
     (r, s') \<Rightarrow> \<exists>t. touched (tabs (fst s)) t \<and> tabs (fst s') = t)"
proof -
  obtain c st' where boot: "api_main sample_platform ([], fresh_ledger) = (Inr (''8080'', c, sample_H), st')" using sample_boots by blast
  show ?thesis
    by (rule exI, rule exI, rule conjI, rule boot, intro allI, simp split: prod.split)
       (use api_footprint[OF boot sample_quiet] in \<open>fastforce simp: mstate_def\<close>)
qed

end
