(* ===== verification/Spec2Isabelle.thy ===== *)
theory Spec2Isabelle imports Lmtp Idle Deployment begin

text \<open>
  HeroMail: a multi-tenant mail service in Go. An HTTP API (src/internal/httpapi) sends mail for workspaces, with API
  keys or from a browser session, and shows received mail; a worker (src/internal/email/queue.go) hands queued
  messages to an SMTP relay, signed with the DKIM key of a verified domain; an LMTP server (src/internal/inbound) stores
  incoming mail; an IMAP server (src/internal/imapservice) and a submission server (src/internal/submission) serve mail
  clients. All share one PostgreSQL database (src/migrations), a Redis server for rate limits and the task queue, and
  a bucket for attachments. This library models the Go code of these parts and proves what makes them correct.

  \<^bold>\<open>How the program is modelled.\<close> A Go function with effects is a step: a function from a state to a result, \<open>Inl\<close> the error
  or \<open>Inr\<close> the value, and the new state (Prelude). \<open>bindE\<close>, \<open>handleE\<close> and \<open>guardE\<close> are its early returns. The state is a
  \<open>world\<close> (Schema): the tables of the database as lists of rows, the outbox of accepted mail, the bucket, the task queue,
  the clock, the random bytes and UUIDs still to be drawn, and lists saying which of the coming exchanges with
  the database, the relay, the bucket and the queue fail. Every exchange consults its list, so every theorem about
  a step covers a failure at every point of it. An SQL statement is a function of the tables with the checks,
  unique indexes, foreign keys and triggers of the migrations that the code relies on; \<open>withTx\<close> undoes the tables
  when the transaction does not commit. Errors are the constructors of \<open>gerror\<close>, one for each sentinel of the Go packages.
  Code outside the repository is a parameter with named hypotheses where a theorem needs any: hashes and address
  parsers (\<open>lib\<close>), the MIME readers (\<open>mime_lib\<close>, \<open>scan_lib\<close>), the AEAD cipher (\<open>aead_ok\<close>), the Redis server (locale
  \<open>redis\<close>), the queue (locale \<open>enqueuer\<close>), the IMAP and SMTP engines, the decoders of request bodies and parameters (\<open>codec\<close>).

  \<^bold>\<open>Theories, in the order of the code.\<close>
  Prelude: steps, tables, invariants of step systems. GoStrings: the functions of strings, strconv, hex, base64, utf8 and
  url the code calls. Schema: rows, worlds, statements, transactions.
  RateLimit: internal/ratelimit and httpapi/limits.go; the limiter against any Redis that counts as documented.
  Provider: internal/provider, provider/smtp, storage/s3.go: the message contract, headers, the relay, the bucket.
  EmailStore, EmailService, Worker: internal/email: rows and their status, Send and uploads, delivery with retries.
  Delivery: the interleaved step system of workers, requests, crashes and failures, and the refinement of the worker by it.
  Settling: the tries of one task, as asynq repeats them, until the message is sent or given up on.
  AccountStore, MailTexts, Accounts, Tokens, Signin: internal/account: passwords, one-time codes, reset tokens, sessions.
  Secrets: internal/secrets. MailDomain, Domains: internal/maildomain: claiming, DNS checks, DKIM keys, who may send as whom.
  Workspaces, Tenants, Cascades: internal/workspace, httpapi/members.go, workspace_delete.go and the cascades of the schema.
  ApiKeys: internal/apikey, internal/auth, httpapi/apikeys.go.
  MailParse, Mailboxes, Presentation, Inbox, Lmtp: internal/inbound, httpapi/inbound.go, received_attachments.go and mailbox_smtp.go.
  MailLogin, Imap, ImapStore, ImapView, ImapSync, ImapAccess, Idle: internal/imapservice.
  Submission, Outgoing: internal/submission, what a mail client may send.
  Handlers, Routing, Web, Guesses: the operations of httpapi/server.go, send_session.go, send_session_support.go,
  initial_password.go and domains.go, router.go in front of them, and what both guarantee with the services below.
  Mux, Operations, Gateway: the ServeMux of net/http, the wrappers and strict handlers of httpapi/gen.go, and the whole server,
  \<open>serve_http\<close>: an HTTP request, escaped path, headers and body, to its answer.
  Wiring, WiringSamples: main.go and the processes under cmd/ (worker, lmtpd, imapd, submissiond), smtp.NewFromEnv and
  storage.NewFromEnv: what an environment and a platform come to, and the API as main puts it together.
  Footprint, Guards, Deployment: what each operation of the API, the worker, LMTP, IMAP and submission may write, and the step
  relation of all processes over one database with the invariants it keeps.
  Startup, Migrate: db.go and migrate.go. Samples, ImapSamples, OutgoingSamples, WebSamples: concrete worlds at which
  the hypotheses of the properties hold.

  \<^bold>\<open>What is shown.\<close>
  Delivery: no message is handed to the relay twice and no two workers hold one, whatever the interleaving; the Go
  worker is one of the runs of that system; a finished message stays as it is; what is sent is the recorded row.
  Sending: an accepted Send is recorded as requested with its files and queued, and a retry writes nothing; a browser
  send is made by a member as a mailbox that is its own to send as; a submitted message has the address signed in with as
  its sender and author, loses exactly the listed headers, and is relayed only under a valid credential.
  Tenants: one owner per workspace through every sequence of operations; removals revoke every access; deletions stay within
  the tenant. Reading: received and sent mail reaches only those who may read it, over HTTP and IMAP, and only as long as they may.
  IMAP: the store stays well formed and UIDs are never reused; reading the responses of a poll equals selecting anew; MOVE is atomic.
  Accounts: what a login, a reset, a code and a provider sign-in verify and change; ten password guesses per window.
  Domains: claims, verification, keys and signatures. Limits: exact windows, and bursts of at most twice the limit. HTTP: every
  operation runs only behind the credential openapi.yaml asks for, and a request without one does nothing. Start: the migrations happen
  once, all or nothing; a process that serves has its database, relay and key; the processes of one key sign alike.
  All together: every operation writes its own tables only, reading writes nothing, and no order of operations of any of the
  processes breaks an invariant of the tables.

  \<^bold>\<open>Interfaces.\<close> The locales state what a client uses and what a provider promises, and each is interpreted on the model:
  \<open>redis\<close> (rmap), \<open>enqueuer\<close> (asynq), the step systems with an invariant and a relation to the past (delivery, mailsys, submission
  and others), relations on tables that operations keep (table_relation, store_relation: mailstore, looking, frame), and
  \<open>guarded_tables\<close> (tenant_guard, domain_guard, key_guard, log_guard, store_guard), which lifts a relation of some tables to the whole server.

  \<^bold>\<open>Recursion and bounds.\<close> Loops of the code are structural recursion, or recursion with a measure (\<open>connect_from\<close>: the attempts left).
  Where Go walks a MIME tree the model recurses over the tree the reader delivers, with the code's own limits of 256 parts and
  depth 32. \<open>find_ids\<close> has the length of its text as fuel, which every step of the scan consumes one of. Nothing depends on other fuel.

  \<^bold>\<open>Not modelled.\<close> Of httpapi/gen.go, generated from api/openapi.yaml, the types and the writers of answers: an answer
  is its status and the rows convert.go renders, and decoding a body or a parameter is the parameter \<open>codec\<close>. Of cmd/ the
  tools of operators (issue-api-key, dkimkey, sendtest), signals and shutdown. Timeouts of contexts show only as failures of exchanges. TLS, the wire protocols and the goroutines
  of go-imap, go-smtp, asynq, pgx and the S3 client are theirs. Case folding and trimming are exact for ASCII and Latin-1 controls. Timestamps
  that nothing reads (created_at, updated_at) are left out; rows without them keep the order of insertion, which is what the code's ORDER BY
  created_at gives. Transactions are serial, except where a theory says otherwise: Delivery interleaves every exchange, \<open>es_other\<close> is
  what another request does inside Send, \<open>others\<close> what another instance does inside migrate, \<open>box_command\<close>, \<open>mail_step\<close> and
  \<open>deployment_step\<close> interleave operations.

  \<^bold>\<open>Defects shown.\<close> \<open>processing_is_stuck\<close>, \<open>race_loser_unchecked\<close>, \<open>spf_accepts_lookalike\<close>, \<open>expunge_hides_flags\<close>,
  \<open>bare_line_feed_keeps_bcc\<close> and \<open>clients_choose_their_ip\<close> state, as theorems about the code as it is, behaviour that its comments
  or RFCs say otherwise.
\<close>

end
